(* ===== verification/Prelude.thy ===== *)
theory Prelude
  imports Main "HOL-Library.Char_ord" "HOL-Library.List_Lexorder" "HOL-Library.Word"
    "HOL-Library.Countable"
begin

text \<open>
  Shared vocabulary of the development: machine integers, UTF-8 text as a list of bytes
  (\<^typ>\<open>char\<close>), decimal rendering of integers, the \<open>Result\<close> type of fallible operations
  and the generic lemmas on lists and runs of operations that the components use.
\<close>

section \<open>Types\<close>

type_synonym u8 = "8 word"
type_synonym u32 = "32 word"

text \<open>Wall-clock instants (\<open>DateTime<Utc>\<close>) and monotonic instants (\<open>Instant\<close>) are counted in
  nanoseconds; a \<open>Duration\<close> is a natural number of nanoseconds.\<close>

type_synonym time = int

abbreviation nanos_per_sec :: int where "nanos_per_sec \<equiv> 1000000000"

abbreviation secs :: "int \<Rightarrow> int" where "secs n \<equiv> n * nanos_per_sec"

text \<open>A fallible operation returns \<open>Inl\<close> its error or \<open>Inr\<close> its value.\<close>

abbreviation is_ok :: "'e + 'a \<Rightarrow> bool" where "is_ok r \<equiv> (\<exists>a. r = Inr a)"

named_theorems chain_simps \<open>unfolding rules of the audit chain\<close>
named_theorems inv_intros \<open>preservation facts of component invariants\<close>

section \<open>Decimal text\<close>

definition digit_char :: "nat \<Rightarrow> char" where
  "digit_char d = char_of (48 + d)"

fun nat_str :: "nat \<Rightarrow> string" where
  "nat_str n = (if n < 10 then [digit_char n] else nat_str (n div 10) @ [digit_char (n mod 10)])"

declare nat_str.simps [simp del]

definition int_str :: "int \<Rightarrow> string" where
  "int_str i = (if i < 0 then CHR ''-'' # nat_str (nat (- i)) else nat_str (nat i))"

definition newline :: char where
  "newline = CHR 0x0A"

lemma of_char_digit: "d < 10 \<Longrightarrow> of_char (digit_char d) = (48 + d :: nat)"
  by (simp add: digit_char_def)

lemma digit_char_inject: "\<lbrakk>a < 10; b < 10; digit_char a = digit_char b\<rbrakk> \<Longrightarrow> a = b"
  by (metis of_char_digit add_left_cancel)

lemma digit_char_plain: "d < 10 \<Longrightarrow> digit_char d \<noteq> newline \<and> digit_char d \<noteq> CHR ''-''"
proof -
  assume "d < 10"
  then have "of_char (digit_char d) = (48 + d :: nat)" by (rule of_char_digit)
  then show ?thesis
    by (auto simp: newline_def)
qed

lemma nat_str_chars: "c \<in> set (nat_str n) \<Longrightarrow> \<exists>d < 10. c = digit_char d"
proof (induction n rule: nat_str.induct)
  case (1 n)
  show ?case
  proof (cases "n < 10")
    case True
    with "1.prems" show ?thesis by (auto simp: nat_str.simps [of n])
  next
    case False
    with "1.prems" have "c \<in> set (nat_str (n div 10)) \<or> c = digit_char (n mod 10)"
      by (auto simp: nat_str.simps [of n])
    with "1.IH" False show ?thesis by force
  qed
qed

lemma nat_str_nonempty [simp]: "nat_str n \<noteq> []"
  by (subst nat_str.simps) simp

lemma nat_str_inject: "nat_str m = nat_str n \<Longrightarrow> m = n"
proof (induction m arbitrary: n rule: less_induct)
  case (less m)
  consider "m < 10" "n < 10" | "m < 10" "\<not> n < 10" | "\<not> m < 10" "n < 10"
    | "\<not> m < 10" "\<not> n < 10"
    by blast
  then show ?case
  proof cases
    case 1
    with less.prems show ?thesis
      by (simp add: nat_str.simps [of m] nat_str.simps [of n] digit_char_inject)
  next
    case 2
    with less.prems have "[] = nat_str (n div 10)"
      by (simp add: nat_str.simps [of m] nat_str.simps [of n])
    then show ?thesis by (metis nat_str_nonempty)
  next
    case 3
    with less.prems show ?thesis
      by (simp add: nat_str.simps [of m] nat_str.simps [of n])
  next
    case 4
    with less.prems have "nat_str (m div 10) = nat_str (n div 10)"
      and "digit_char (m mod 10) = digit_char (n mod 10)"
      by (simp_all add: nat_str.simps [of m] nat_str.simps [of n])
    with 4 have "m div 10 = n div 10" and "m mod 10 = n mod 10"
      using less.IH [of "m div 10" "n div 10"] digit_char_inject [of "m mod 10" "n mod 10"]
      by simp_all
    then show ?thesis by (metis div_mult_mod_eq)
  qed
qed

lemma nat_str_plain: "newline \<notin> set (nat_str n)" "CHR ''-'' \<notin> set (nat_str n)"
  by (metis nat_str_chars digit_char_plain)+

lemma int_str_no_newline: "newline \<notin> set (int_str i)"
  by (simp add: int_str_def nat_str_plain) (simp add: newline_def)

lemma int_str_inject: "int_str i = int_str j \<Longrightarrow> i = j"
proof -
  assume eq: "int_str i = int_str j"
  have head: "nat_str n \<noteq> CHR ''-'' # xs" for n xs
    by (metis list.set_intros(1) nat_str_plain(2))
  from eq head head [symmetric] show ?thesis
    by (auto simp: int_str_def dest!: nat_str_inject split: if_splits)
qed

section \<open>UTF-8 text\<close>

text \<open>
  A Rust \<open>str\<close> is UTF-8. A byte starts a character unless it is a continuation byte
  (\<open>10xxxxxx\<close>); \<open>chars().count()\<close> counts the starting bytes, and \<open>char_indices().nth(n)\<close>
  is the byte offset of the \<open>n\<close>-th of them.
\<close>

definition char_start :: "char \<Rightarrow> bool" where
  "char_start c \<longleftrightarrow> (of_char c :: nat) div 64 \<noteq> 2"

definition chars_count :: "string \<Rightarrow> nat" where
  "chars_count s = length (filter char_start s)"

fun char_index :: "nat \<Rightarrow> string \<Rightarrow> nat option" where
  "char_index n [] = None"
| "char_index n (c # cs) =
     (if char_start c then
        (case n of 0 \<Rightarrow> Some 0 | Suc m \<Rightarrow> map_option Suc (char_index m cs))
      else map_option Suc (char_index n cs))"

lemma chars_count_simps [simp]:
  "chars_count [] = 0"
  "chars_count (c # cs) = (if char_start c then Suc (chars_count cs) else chars_count cs)"
  "chars_count (xs @ ys) = chars_count xs + chars_count ys"
  by (simp_all add: chars_count_def)

lemma char_index_None: "char_index n s = None \<longleftrightarrow> chars_count s \<le> n"
  by (induction n s rule: char_index.induct) (auto split: nat.splits)

lemma char_index_Some: "char_index n s = Some k \<Longrightarrow> chars_count (take k s) = n \<and> k < length s"
proof (induction n s arbitrary: k rule: char_index.induct)
  case (1 n)
  then show ?case by simp
next
  case (2 n c cs)
  then show ?case by (auto split: if_splits nat.splits)
qed

lemma chars_count_le: "chars_count s \<le> length s"
  by (simp add: chars_count_def)

section \<open>Lists in order\<close>

text \<open>A row list sorted by key: \<open>insort_key\<close> of a new greatest key appends.\<close>

lemma insort_key_append:
  "(\<And>y. y \<in> set ys \<Longrightarrow> f y < f x) \<Longrightarrow> insort_key f x ys = ys @ [x]"
  by (induction ys) (auto simp: not_le dest: leD)

lemma filter_eq_Nil_iff: "filter P xs = [] \<longleftrightarrow> (\<forall>x \<in> set xs. \<not> P x)"
  by (induction xs) auto

lemma find_Some_in: "find P xs = Some x \<Longrightarrow> x \<in> set xs \<and> P x"
  by (induction xs) (auto split: if_splits)

lemma find_None_iff': "find P xs = None \<longleftrightarrow> (\<forall>x \<in> set xs. \<not> P x)"
  by (induction xs) auto

lemma takeWhile_filter_sorted:
  assumes "sorted (map f xs)"
  shows "takeWhile (\<lambda>x. f x \<le> k) xs = filter (\<lambda>x. f x \<le> k) xs"
  using assms
proof (induction xs)
  case Nil
  then show ?case by simp
next
  case (Cons x xs)
  then show ?case
    by (auto simp: filter_eq_Nil_iff) (metis (mono_tags, lifting) filter_False order_trans)+
qed

section \<open>Runs of operations\<close>

text \<open>
  The contract several components share: a step function over a state with an invariant that every
  step keeps, at least when the operation fits. The client lemmas say that every run keeps it.
\<close>

locale guarded_stepper =
  fixes step :: "'s \<Rightarrow> 'op \<Rightarrow> 's"
    and fit :: "'op \<Rightarrow> bool"
    and inv :: "'s \<Rightarrow> bool"
  assumes fit_step_inv: "inv s \<Longrightarrow> fit x \<Longrightarrow> inv (step s x)"
begin

lemma fit_run_inv: "inv s \<Longrightarrow> list_all fit xs \<Longrightarrow> inv (foldl step s xs)"
  by (induction xs arbitrary: s) (simp_all add: fit_step_inv)

end

text \<open>Where every operation fits.\<close>

locale stepper =
  fixes step :: "'s \<Rightarrow> 'op \<Rightarrow> 's"
    and inv :: "'s \<Rightarrow> bool"
  assumes step_inv: "inv s \<Longrightarrow> inv (step s x)"

sublocale stepper \<subseteq> any: guarded_stepper step "\<lambda>x. True" inv
  by unfold_locales (rule step_inv)

context stepper begin

lemma run_inv: "inv s \<Longrightarrow> inv (foldl step s xs)"
  by (rule any.fit_run_inv) (simp_all add: list_all_iff)

end

text \<open>Steps that also relate the state before to the state after, by a preorder: so does a run.\<close>

locale progress = guarded_stepper step fit inv
  for step :: "'s \<Rightarrow> 'op \<Rightarrow> 's" and fit :: "'op \<Rightarrow> bool" and inv :: "'s \<Rightarrow> bool" +
  fixes rel :: "'s \<Rightarrow> 's \<Rightarrow> bool"
  assumes rel_refl: "rel s s"
    and rel_trans: "rel a b \<Longrightarrow> rel b c \<Longrightarrow> rel a c"
    and fit_step_rel: "inv s \<Longrightarrow> fit x \<Longrightarrow> rel s (step s x)"
begin

lemma fit_run_rel: "inv s \<Longrightarrow> list_all fit xs \<Longrightarrow> rel s (foldl step s xs)"
proof (induction xs arbitrary: s)
  case (Cons x xs)
  then have "rel s (step s x)" "rel (step s x) (foldl step (step s x) xs)"
    by (simp_all add: fit_step_rel fit_step_inv)
  then show ?case by (simp add: rel_trans [of s])
qed (simp add: rel_refl)

end

text \<open>Steps with effects, which are collected in order.\<close>

definition logged :: "('s \<Rightarrow> 'op \<Rightarrow> 's \<times> 'e list) \<Rightarrow> 's \<times> 'e list \<Rightarrow> 'op \<Rightarrow> 's \<times> 'e list" where
  "logged step a x = (case step (fst a) x of (s, es) \<Rightarrow> (s, snd a @ es))"

lemma logged_simps [simp]:
  "fst (logged step a x) = fst (step (fst a) x)" "snd (logged step a x) = snd a @ snd (step (fst a) x)"
  by (simp_all add: logged_def split: prod.split)

end
