(* ===== verification/Text.thy ===== *)
theory Text
  imports Prelude
begin

text \<open>
  The \<open>str\<close> functions of Rust's standard library the program uses, on UTF-8 text: trimming (every
  Unicode white space character), splitting, prefixes, ASCII case.
\<close>

section \<open>Trimming\<close>

abbreviation bytes :: "nat list \<Rightarrow> string" where
  "bytes \<equiv> map char_of"

text \<open>The characters with the Unicode property \<open>White_Space\<close>, in UTF-8.\<close>

definition white_space :: "string list" where
  "white_space = map bytes
     ([[9], [10], [11], [12], [13], [32], [194, 133], [194, 160], [225, 154, 128],
       [226, 128, 168], [226, 128, 169], [226, 128, 175], [226, 129, 159], [227, 128, 128]] @
      map (\<lambda>k. [226, 128, 128 + k]) [0..<11])"

lemma white_space_nonempty: "w \<in> set white_space \<Longrightarrow> w \<noteq> []"
  by (auto simp: white_space_def)

fun starts_with :: "string \<Rightarrow> string \<Rightarrow> bool" where
  "starts_with _ [] \<longleftrightarrow> True"
| "starts_with [] (_ # _) \<longleftrightarrow> False"
| "starts_with (c # cs) (p # ps) \<longleftrightarrow> c = p \<and> starts_with cs ps"

lemma starts_with_iff: "starts_with s p \<longleftrightarrow> (\<exists>t. s = p @ t)"
  by (induction s p rule: starts_with.induct) auto

fun contains :: "string \<Rightarrow> string \<Rightarrow> bool" where
  "contains [] p \<longleftrightarrow> p = []"
| "contains (c # cs) p \<longleftrightarrow> take (length p) (c # cs) = p \<or> contains cs p"

text \<open>One leading text of the list is dropped, as often as there is one.\<close>

function strip :: "string list \<Rightarrow> string \<Rightarrow> string" where
  "strip ws s =
     (case find (\<lambda>w. w \<noteq> [] \<and> starts_with s w) ws of
        None \<Rightarrow> s
      | Some w \<Rightarrow> strip ws (drop (length w) s))"
  by pat_completeness auto
termination
  by (relation "measure (length \<circ> snd)") (auto simp: starts_with_iff dest!: find_Some_in)

declare strip.simps [simp del]

definition trim_start :: "string \<Rightarrow> string" where
  "trim_start s = strip white_space s"

definition trim_end :: "string \<Rightarrow> string" where
  "trim_end s = rev (strip (map rev white_space) (rev s))"

definition trim :: "string \<Rightarrow> string" where
  "trim s = trim_end (trim_start s)"

lemma strip_Nil [simp]: "strip ws [] = []"
  by (subst strip.simps) (auto split: option.splits dest!: find_Some_in simp: starts_with_iff)

lemma strip_suffix: "\<exists>p. s = p @ strip ws s"
proof (induction ws s rule: strip.induct)
  case (1 ws s)
  show ?case
  proof (cases "find (\<lambda>w. w \<noteq> [] \<and> starts_with s w) ws")
    case None
    then show ?thesis by (subst strip.simps) simp
  next
    case (Some w)
    from 1 [OF Some] obtain p where "drop (length w) s = p @ strip ws (drop (length w) s)" by blast
    moreover from find_Some_in [OF Some] have "s = w @ drop (length w) s"
      by (auto simp: starts_with_iff)
    moreover from Some have "strip ws s = strip ws (drop (length w) s)"
      by (subst strip.simps) simp
    ultimately have "s = (w @ p) @ strip ws s" by (metis append_assoc)
    then show ?thesis by blast
  qed
qed

lemma trim_Nil [simp]: "trim [] = []"
  by (simp add: trim_def trim_start_def trim_end_def)

lemma trim_start_plain: "find (\<lambda>w. w \<noteq> [] \<and> starts_with s w) white_space = None \<Longrightarrow> trim_start s = s"
  by (simp add: trim_start_def strip.simps [of _ s])

text \<open>Trimming twice is trimming once.\<close>

lemma strip_done: "find (\<lambda>w. w \<noteq> [] \<and> starts_with (strip ws s) w) ws = None"
proof (induction ws s rule: strip.induct)
  case (1 ws s)
  show ?case
  proof (cases "find (\<lambda>w. w \<noteq> [] \<and> starts_with s w) ws")
    case None
    then show ?thesis by (subst strip.simps) simp
  next
    case (Some w)
    from Some have "strip ws s = strip ws (drop (length w) s)" by (subst strip.simps) simp
    with 1 [OF Some] show ?thesis by simp
  qed
qed

lemma strip_fix:
  assumes "\<forall>w \<in> set ws. w = [] \<or> \<not> starts_with s w"
  shows "strip ws s = s"
proof -
  from assms have "find (\<lambda>w. w \<noteq> [] \<and> starts_with s w) ws = None" by (auto simp: find_None_iff')
  then show ?thesis by (subst strip.simps) simp
qed

lemma trim_idem [simp]: "trim (trim s) = trim s"
proof -
  let ?t = "trim_start s"
  obtain q where q: "rev ?t = q @ strip (map rev white_space) (rev ?t)" using strip_suffix by blast
  then have t: "?t = trim s @ rev q"
    by (metis rev_append rev_rev_ident trim_def trim_end_def)
  have "\<forall>w \<in> set white_space. w = [] \<or> \<not> starts_with ?t w"
    using strip_done [of white_space s] by (auto simp: find_None_iff' trim_start_def)
  then have "\<forall>w \<in> set white_space. w = [] \<or> \<not> starts_with (trim s) w"
    by (auto simp: t starts_with_iff)
  then have start: "trim_start (trim s) = trim s" by (simp add: trim_start_def strip_fix)
  have "\<forall>w \<in> set (map rev white_space). w = [] \<or> \<not> starts_with (rev (trim s)) w"
    using strip_done [of "map rev white_space" "rev ?t"]
    by (auto simp: find_None_iff' trim_def trim_end_def)
  then have "trim_end (trim s) = trim s" by (simp add: trim_end_def strip_fix)
  with start show ?thesis by (simp add: trim_def)
qed

text \<open>Text that begins and ends with a visible ASCII character is trimmed.\<close>

definition visible :: "char \<Rightarrow> bool" where
  "visible c \<longleftrightarrow> 32 < (of_char c :: nat) \<and> (of_char c :: nat) < 128"

lemma white_space_ends: "w \<in> set white_space \<Longrightarrow> \<not> visible (hd w) \<and> \<not> visible (last w)"
  by (auto simp: white_space_def visible_def)

lemma trim_visible:
  assumes "s \<noteq> []" and "visible (hd s)" and "visible (last s)"
  shows "trim s = s"
proof -
  have "\<not> starts_with s w" if "w \<in> set white_space" for w
    using white_space_ends [OF that] white_space_nonempty [OF that] assms(2)
    by (auto simp: starts_with_iff)
  moreover have "\<not> starts_with (rev s) (rev w)" if "w \<in> set white_space" for w
  proof
    assume "starts_with (rev s) (rev w)"
    then obtain t where "rev s = rev w @ t" by (auto simp: starts_with_iff)
    then have "s = rev t @ w" by (metis rev_append rev_rev_ident)
    with white_space_ends [OF that] white_space_nonempty [OF that] assms(3) show False by simp
  qed
  ultimately show ?thesis by (simp add: trim_def trim_start_def trim_end_def strip_fix)
qed

section \<open>Splitting\<close>

text \<open>\<open>str::split\<close> on one character: always at least one piece.\<close>

fun split_on :: "char \<Rightarrow> string \<Rightarrow> string list" where
  "split_on c [] = [[]]"
| "split_on c (x # xs) =
     (if x = c then [] # split_on c xs
      else (case split_on c xs of [] \<Rightarrow> [[x]] | y # ys \<Rightarrow> (x # y) # ys))"

fun join_with :: "char \<Rightarrow> string list \<Rightarrow> string" where
  "join_with c [] = []"
| "join_with c [x] = x"
| "join_with c (x # y # ys) = x @ c # join_with c (y # ys)"

lemma split_on_nonempty [simp]: "split_on c s \<noteq> []"
  by (induction s) (auto split: list.splits)

lemma join_split: "join_with c (split_on c s) = s"
proof (induction s)
  case (Cons x xs)
  show ?case
  proof (cases "split_on c xs")
    case (Cons y ys)
    then show ?thesis using Cons.IH by (cases ys) auto
  qed simp
qed simp

lemma split_on_pieces: "p \<in> set (split_on c s) \<Longrightarrow> c \<notin> set p"
proof (induction s arbitrary: p)
  case (Cons x xs)
  show ?case
  proof (cases "split_on c xs")
    case (Cons y ys)
    then show ?thesis using Cons.prems Cons.IH by (auto split: if_splits)
  qed simp
qed simp

text \<open>\<open>split_once\<close> and \<open>rsplit_once\<close> on one character.\<close>

fun split_once :: "char \<Rightarrow> string \<Rightarrow> (string \<times> string) option" where
  "split_once c [] = None"
| "split_once c (x # xs) =
     (if x = c then Some ([], xs) else map_option (\<lambda>(a, b). (x # a, b)) (split_once c xs))"

definition rsplit_once :: "char \<Rightarrow> string \<Rightarrow> (string \<times> string) option" where
  "rsplit_once c s = map_option (\<lambda>(a, b). (rev b, rev a)) (split_once c (rev s))"

lemma split_once_Some: "split_once c s = Some (a, b) \<Longrightarrow> s = a @ c # b \<and> c \<notin> set a"
  by (induction s arbitrary: a) (auto split: if_splits)

lemma split_once_None: "split_once c s = None \<longleftrightarrow> c \<notin> set s"
  by (induction s) auto

section \<open>ASCII case\<close>

definition lower_char :: "char \<Rightarrow> char" where
  "lower_char c =
     (if 65 \<le> (of_char c :: nat) \<and> (of_char c :: nat) \<le> 90 then char_of (of_char c + 32 :: nat) else c)"

definition ascii_lower :: "string \<Rightarrow> string" where
  "ascii_lower = map lower_char"

definition eq_ignore_ascii_case :: "string \<Rightarrow> string \<Rightarrow> bool" where
  "eq_ignore_ascii_case a b \<longleftrightarrow> ascii_lower a = ascii_lower b"

lemma lower_char_idem [simp]: "lower_char (lower_char c) = lower_char c"
  by (auto simp: lower_char_def)

lemma ascii_lower_idem [simp]: "ascii_lower (ascii_lower s) = ascii_lower s"
  by (simp add: ascii_lower_def)

end
