(* ===== verification/Ordered_Map.thy ===== *)
theory Ordered_Map
  imports Prelude
begin

text \<open>
  \<open>BTreeMap\<close> and \<open>HashMap\<close>, where the code depends on their size, order or enumeration: an
  association list sorted by key, with insertion, lookup by \<open>map_of\<close>, removal and \<open>retain\<close>.
\<close>

fun bt_put :: "'k::linorder \<Rightarrow> 'v \<Rightarrow> ('k \<times> 'v) list \<Rightarrow> ('k \<times> 'v) list" where
  "bt_put k v [] = [(k, v)]"
| "bt_put k v ((a, b) # m) =
     (if k < a then (k, v) # (a, b) # m
      else if k = a then (k, v) # m
      else (a, b) # bt_put k v m)"

definition bt_remove :: "'k \<Rightarrow> ('k \<times> 'v) list \<Rightarrow> ('k \<times> 'v) list" where
  "bt_remove k m = filter (\<lambda>(a, b). a \<noteq> k) m"

definition bt_retain :: "('k \<Rightarrow> 'v \<Rightarrow> bool) \<Rightarrow> ('k \<times> 'v) list \<Rightarrow> ('k \<times> 'v) list" where
  "bt_retain P m = filter (\<lambda>(a, b). P a b) m"

text \<open>\<open>get_mut\<close>: change the value of a key that is there.\<close>

definition bt_update :: "'k \<Rightarrow> ('v \<Rightarrow> 'v) \<Rightarrow> ('k \<times> 'v) list \<Rightarrow> ('k \<times> 'v) list" where
  "bt_update k f m = map (\<lambda>(a, b). if a = k then (a, f b) else (a, b)) m"

definition bt_sorted :: "('k::linorder \<times> 'v) list \<Rightarrow> bool" where
  "bt_sorted m \<longleftrightarrow> sorted_wrt (<) (map fst m)"

lemma map_of_bt_put [simp]: "map_of (bt_put k v m) = (map_of m)(k \<mapsto> v)"
  by (induction k v m rule: bt_put.induct) auto

lemma bt_put_keys [simp]: "fst ` set (bt_put k v m) = insert k (fst ` set m)"
  by (induction k v m rule: bt_put.induct) auto

lemma bt_sorted_Nil [simp]: "bt_sorted []"
  by (simp add: bt_sorted_def)

lemma bt_sorted_put [simp]: "bt_sorted m \<Longrightarrow> bt_sorted (bt_put k v m)"
  unfolding bt_sorted_def
proof (induction k v m rule: bt_put.induct)
  case (2 k v a b m)
  show ?case
  proof (cases "k < a \<or> k = a")
    case True
    with 2(2) show ?thesis by (auto dest: less_trans)
  next
    case False
    have "set (map fst (bt_put k v m)) = insert k (fst ` set m)" by simp
    with False 2 show ?thesis by auto
  qed
qed simp

lemma bt_sorted_distinct: "bt_sorted m \<Longrightarrow> distinct (map fst m)"
  unfolding bt_sorted_def by (simp add: strict_sorted_iff)

lemma bt_length_put:
  "bt_sorted m \<Longrightarrow> length (bt_put k v m) = length m + (if k \<in> fst ` set m then 0 else 1)"
  unfolding bt_sorted_def
  by (induction k v m rule: bt_put.induct) (auto dest: order.asym)

lemma map_of_bt_remove [simp]: "map_of (bt_remove k m) = (map_of m)(k := None)"
  by (induction m) (auto simp: bt_remove_def fun_eq_iff)

lemma bt_sorted_filter: "bt_sorted m \<Longrightarrow> bt_sorted (filter P m)"
  by (simp add: bt_sorted_def sorted_wrt_map sorted_wrt_filter)

lemma bt_sorted_remove [simp]: "bt_sorted m \<Longrightarrow> bt_sorted (bt_remove k m)"
  by (simp add: bt_remove_def bt_sorted_filter)

lemma bt_sorted_retain [simp]: "bt_sorted m \<Longrightarrow> bt_sorted (bt_retain P m)"
  by (simp add: bt_retain_def bt_sorted_filter)

lemma map_of_bt_retain:
  "distinct (map fst m) \<Longrightarrow>
     map_of (bt_retain P m) k = (case map_of m k of None \<Rightarrow> None | Some v \<Rightarrow> if P k v then Some v else None)"
  by (induction m) (auto simp: bt_retain_def map_of_eq_None_iff split: option.splits dest: map_of_SomeD)

lemma bt_update_keys [simp]: "map fst (bt_update k f m) = map fst m"
  by (induction m) (auto simp: bt_update_def)

lemma bt_sorted_update [simp]: "bt_sorted (bt_update k f m) = bt_sorted m"
  by (simp add: bt_sorted_def)

lemma map_of_bt_update [simp]: "map_of (bt_update k f m) = (\<lambda>a. if a = k then map_option f (map_of m k) else map_of m a)"
  by (induction m) (auto simp: bt_update_def fun_eq_iff)

text \<open>A sum over the values, and how an insertion changes it.\<close>

definition bt_sum :: "('v \<Rightarrow> nat) \<Rightarrow> ('k \<times> 'v) list \<Rightarrow> nat" where
  "bt_sum f m = sum_list (map (f \<circ> snd) m)"

lemma bt_sum_put:
  "bt_sorted m \<Longrightarrow>
     bt_sum f (bt_put k v m) + (case map_of m k of None \<Rightarrow> 0 | Some w \<Rightarrow> f w) = bt_sum f m + f v"
  unfolding bt_sorted_def
proof (induction k v m rule: bt_put.induct)
  case (2 k v a b m)
  show ?case
  proof (cases "k < a")
    case True
    with 2(2) have "map_of ((a, b) # m) k = None" by (auto simp: map_of_eq_None_iff)
    with True show ?thesis by (simp add: bt_sum_def)
  next
    case False
    with 2 show ?thesis by (cases "k = a") (auto simp: bt_sum_def)
  qed
qed (simp add: bt_sum_def)

lemma bt_sum_update:
  "distinct (map fst m) \<Longrightarrow> map_of m k = Some v \<Longrightarrow> bt_sum f (bt_update k g m) + f v = bt_sum f m + f (g v)"
proof (induction m)
  case (Cons x m)
  obtain a b where x: "x = (a, b)" by (cases x)
  show ?case
  proof (cases "a = k")
    case True
    with Cons.prems x have "k \<notin> fst ` set m" by auto
    then have "bt_update k g m = m" by (induction m) (auto simp: bt_update_def)
    with True x Cons.prems show ?thesis by (simp add: bt_sum_def bt_update_def)
  next
    case False
    with Cons x show ?thesis by (simp add: bt_sum_def bt_update_def)
  qed
qed simp

end
