(* ===== verification/Audit_Event.thy ===== *)
theory Audit_Event
  imports Prelude
begin

text \<open>
  The audit event model of \<open>src/audit/event.rs\<close>: the record an event becomes, the client it
  concerns, the events themselves with the source's variants and fields, the severities, the
  indexed \<open>kind\<close> and \<open>node_id\<close> of an event, and \<open>clip\<close>, which bounds text a client chose.
  Instants are \<^typ>\<open>time\<close>, text is UTF-8 (a list of bytes), \<open>serde_json::Value\<close> is \<open>json\<close>.
\<close>

section \<open>Bounding client-chosen text\<close>

definition MAX_NAME :: nat where "MAX_NAME = 256"
definition MAX_TEXT :: nat where "MAX_TEXT = 1024"

text \<open>The three UTF-8 bytes of the ellipsis the source appends.\<close>

definition ellipsis :: string where
  "ellipsis = [char_of (226::nat), char_of (128::nat), char_of (166::nat)]"

definition clip :: "string \<Rightarrow> nat \<Rightarrow> string" where
  "clip text max_chars =
     (case char_index max_chars text of
        None \<Rightarrow> text
      | Some k \<Rightarrow> take k text @ ellipsis @ '' ('' @ nat_str (chars_count text) @ '' characters)'')"

lemma clip_short: "chars_count text \<le> n \<Longrightarrow> clip text n = text"
  by (simp add: clip_def flip: char_index_None)

text \<open>A clipped text keeps its first \<open>n\<close> characters and says how long it was.\<close>

lemma clip_long:
  assumes "n < chars_count text"
  shows "\<exists>k. chars_count (take k text) = n \<and>
     clip text n = take k text @ ellipsis @ '' ('' @ nat_str (chars_count text) @ '' characters)''"
proof -
  from assms obtain k where k: "char_index n text = Some k"
    by (metis char_index_None linorder_not_less option.exhaust)
  then show ?thesis
    using char_index_Some [OF k] by (auto simp: clip_def)
qed

section \<open>Values\<close>

text \<open>A \<open>serde_json::Value\<close>; a finite \<open>f64\<close> keeps its 64 bits.\<close>

datatype json =
    JNull
  | JBool bool
  | JInt int
  | JFloat "64 word"
  | JString string
  | JArray "json list"
  | JObject "(string \<times> json) list"

record audit_value =
  data_type :: string
  av_value :: json

section \<open>Who did it\<close>

datatype user_identity =
    Anonymous
  | UserName string
  | Certificate string string  \<comment> \<open>subject, thumbprint\<close>
  | IssuedToken

fun label :: "user_identity \<Rightarrow> string" where
  "label Anonymous = ''anonymous''"
| "label (UserName name) = name"
| "label (Certificate subject thumbprint) = subject"
| "label IssuedToken = ''issued-token''"

record client_context =
  remote_addr :: string
  application_uri :: "string option"
  application_name :: "string option"
  certificate_thumbprint :: "string option"
  user :: "user_identity option"
  session_id :: "string option"

definition default_client :: client_context where
  "default_client = \<lparr>remote_addr = [], application_uri = None, application_name = None,
     certificate_thumbprint = None, user = None, session_id = None\<rparr>"

section \<open>Events\<close>

datatype severity = Warning | Error

datatype audit_event =
    GatewayStarted string                              \<comment> \<open>version\<close>
  | GatewayStopped
  | ConfigChanged string string                        \<comment> \<open>by, summary\<close>
  | UiLogin string                                     \<comment> \<open>user\<close>
  | UiLoginFailed string                               \<comment> \<open>user\<close>
  | ApiTokenRejected string                            \<comment> \<open>token id\<close>
  | McpQuery string string string string               \<comment> \<open>by, token, tool, arguments\<close>
  | Discovery string string                            \<comment> \<open>by, endpoint url\<close>
  | RetentionPruned nat int string                     \<comment> \<open>deleted, last seq, last hash\<close>
  | EventsLost nat                                     \<comment> \<open>count\<close>
  | TrailTruncated int int                             \<comment> \<open>expected seq, found seq\<close>
  | ExportGap string int int string                    \<comment> \<open>destination, after, next, reason\<close>
  | ClockJumped int                                    \<comment> \<open>seconds\<close>
  | UpstreamAvailable string nat                       \<comment> \<open>endpoint url, endpoints\<close>
  | UpstreamUnavailable string string                  \<comment> \<open>endpoint url, reason\<close>
  | TargetNotTrusted string                            \<comment> \<open>endpoint url\<close>
  | TargetRefusedGateway string string                 \<comment> \<open>endpoint url, detail\<close>
  | TargetTrustRestored string string                  \<comment> \<open>endpoint url, policy\<close>
  | UpstreamEndpointsChanged string "string list" "string list"  \<comment> \<open>url, before, after\<close>
  | ClientConnected
  | ConnectionsRefused string nat string               \<comment> \<open>remote addr, count, reason\<close>
  | ClientDisconnected string                          \<comment> \<open>reason\<close>
  | SecureChannelOpened string string                  \<comment> \<open>policy, mode\<close>
  | SessionCreated string                              \<comment> \<open>session name\<close>
  | SessionActivated
  | SessionClosed
  | AuthenticationFailed string                        \<comment> \<open>status\<close>
  | CertificateRejected string string string           \<comment> \<open>subject, thumbprint, reason\<close>
  | ChangeIntent u32 string "string list" "json list"  \<comment> \<open>handle, service, node ids, details\<close>
  | EvWrite u32 string "string option" string "string option" "audit_value option" audit_value
      "string option" "string option" "string option" string
      \<comment> \<open>handle, node id, display name, attribute, index range, old value, new value,
        written status, source timestamp, server timestamp, status\<close>
  | EvCall u32 string string "string option" "audit_value list" string
      \<comment> \<open>handle, object id, method id, display name, input arguments, status\<close>
  | EvHistoryUpdate u32 string string string           \<comment> \<open>handle, node id, details, status\<close>
  | EvNodeManagement u32 string string string          \<comment> \<open>handle, service, node id, status\<close>
  | SubscriptionsTransferred u32 "u32 list" string     \<comment> \<open>handle, subscription ids, status\<close>
  | AlarmsAcknowledged string severity int nat         \<comment> \<open>by, severity, up to seq, count\<close>
  | EvIgnoredWrites string "string option" nat nat time time audit_value string "string list"
      \<comment> \<open>node id, display name, count, failed, first, last, last value, last status, clients\<close>

record audit_entry =
  ts :: time
  e_target :: "string option"
  e_client :: "client_context option"
  e_event :: audit_event

text \<open>\<open>AuditEntry::new\<close> stamps the current time; \<open>target\<close> and \<open>client\<close> fill in the rest.\<close>

definition new_entry :: "time \<Rightarrow> audit_event \<Rightarrow> audit_entry" where
  "new_entry now ev = \<lparr>ts = now, e_target = None, e_client = None, e_event = ev\<rparr>"

definition with_target :: "string \<Rightarrow> audit_entry \<Rightarrow> audit_entry" where
  "with_target t e = e\<lparr>e_target := Some t\<rparr>"

definition with_client :: "client_context \<Rightarrow> audit_entry \<Rightarrow> audit_entry" where
  "with_client c e = e\<lparr>e_client := Some c\<rparr>"

lemma new_entry_simps [simp]:
  "ts (new_entry now ev) = now" "e_event (new_entry now ev) = ev"
  "e_target (new_entry now ev) = None" "e_client (new_entry now ev) = None"
  "e_event (with_target t e) = e_event e" "e_event (with_client c e) = e_event e"
  "e_target (with_target t e) = Some t" "e_client (with_client c e) = Some c"
  "e_target (with_client c e) = e_target e" "e_client (with_target t e) = e_client e"
  "ts (with_target t e) = ts e" "ts (with_client c e) = ts e"
  by (simp_all add: new_entry_def with_target_def with_client_def)

section \<open>Kinds, nodes and severities\<close>

primrec kind :: "audit_event \<Rightarrow> string" where
  "kind (GatewayStarted _) = ''gateway_started''"
| "kind GatewayStopped = ''gateway_stopped''"
| "kind (ConfigChanged _ _) = ''config_changed''"
| "kind (UiLogin _) = ''ui_login''"
| "kind (McpQuery _ _ _ _) = ''mcp_query''"
| "kind (UiLoginFailed _) = ''ui_login_failed''"
| "kind (Discovery _ _) = ''discovery''"
| "kind (RetentionPruned _ _ _) = ''retention_pruned''"
| "kind (EventsLost _) = ''events_lost''"
| "kind (TrailTruncated _ _) = ''trail_truncated''"
| "kind (ClockJumped _) = ''clock_jumped''"
| "kind (ExportGap _ _ _ _) = ''export_gap''"
| "kind (UpstreamAvailable _ _) = ''upstream_available''"
| "kind (UpstreamUnavailable _ _) = ''upstream_unavailable''"
| "kind (TargetNotTrusted _) = ''target_not_trusted''"
| "kind (TargetRefusedGateway _ _) = ''target_refused_gateway''"
| "kind (TargetTrustRestored _ _) = ''target_trust_restored''"
| "kind (ApiTokenRejected _) = ''api_token_rejected''"
| "kind (UpstreamEndpointsChanged _ _ _) = ''upstream_endpoints_changed''"
| "kind ClientConnected = ''client_connected''"
| "kind (ConnectionsRefused _ _ _) = ''connections_refused''"
| "kind (ClientDisconnected _) = ''client_disconnected''"
| "kind (SecureChannelOpened _ _) = ''secure_channel_opened''"
| "kind (SessionCreated _) = ''session_created''"
| "kind SessionActivated = ''session_activated''"
| "kind SessionClosed = ''session_closed''"
| "kind (AuthenticationFailed _) = ''authentication_failed''"
| "kind (CertificateRejected _ _ _) = ''certificate_rejected''"
| "kind (ChangeIntent _ _ _ _) = ''change_intent''"
| "kind (EvWrite _ _ _ _ _ _ _ _ _ _ _) = ''write''"
| "kind (EvCall _ _ _ _ _ _) = ''call''"
| "kind (EvHistoryUpdate _ _ _ _) = ''history_update''"
| "kind (EvNodeManagement _ _ _ _) = ''node_management''"
| "kind (SubscriptionsTransferred _ _ _) = ''subscriptions_transferred''"
| "kind (EvIgnoredWrites _ _ _ _ _ _ _ _ _) = ''ignored_writes''"
| "kind (AlarmsAcknowledged _ _ _ _) = ''alarms_acknowledged''"

definition node_id :: "audit_event \<Rightarrow> string option" where
  "node_id ev = (case ev of
       EvWrite _ n _ _ _ _ _ _ _ _ _ \<Rightarrow> Some n
     | EvIgnoredWrites n _ _ _ _ _ _ _ _ \<Rightarrow> Some n
     | EvHistoryUpdate _ n _ _ \<Rightarrow> Some n
     | EvNodeManagement _ _ n _ \<Rightarrow> Some n
     | EvCall _ _ m _ _ _ \<Rightarrow> Some m
     | _ \<Rightarrow> None)"

definition severity_ALL :: "severity list" where
  "severity_ALL = [Warning, Error]"

fun kinds :: "severity \<Rightarrow> string list" where
  "kinds Error = [''events_lost'', ''trail_truncated'', ''export_gap'', ''upstream_unavailable'',
     ''target_not_trusted'', ''target_refused_gateway'', ''upstream_endpoints_changed'']"
| "kinds Warning = [''certificate_rejected'', ''authentication_failed'', ''ui_login_failed'',
     ''api_token_rejected'', ''connections_refused'', ''clock_jumped'']"

lemma kind_retention_pruned:
  "kind ev = ''retention_pruned'' \<longleftrightarrow> (\<exists>d s h. ev = RetentionPruned d s h)"
  by (cases ev) simp_all

lemma kind_alarms_acknowledged:
  "kind ev = ''alarms_acknowledged'' \<longleftrightarrow> (\<exists>b s u c. ev = AlarmsAcknowledged b s u c)"
  by (cases ev) simp_all

text \<open>The two severities name different kinds, and no acknowledgement is itself an alarm.\<close>

lemma kinds_disjoint: "set (kinds Warning) \<inter> set (kinds Error) = {}"
  by simp

lemma acknowledgement_no_alarm: "kind (AlarmsAcknowledged b s u c) \<notin> set (kinds sev)"
  by (cases sev) simp_all

end
