(* ===== verification/Audit_Store.thy ===== *)
theory Audit_Store
  imports Prelude Audit_Event
begin

text \<open>
  The tamper-evident store of \<open>src/audit/store.rs\<close>. The \<open>audit\<close> table is its rows in \<open>seq\<close> order
  (the rowid b-tree), \<open>chain_head\<close> its single row or nothing; every SQL statement of the source
  is the list operation it denotes, every transaction either commits as a whole or leaves the
  database as it was. SHA-256 (hex), the serde JSON codec and chrono's timestamp rendering are
  the fields of a \<open>codec\<close>.
\<close>

section \<open>State\<close>

record codec =
  sha256_hex :: "string \<Rightarrow> string"
  to_json :: "audit_entry \<Rightarrow> string"
  from_json :: "string \<Rightarrow> audit_entry option"
  render_ts :: "time \<Rightarrow> string"

record row =
  seq :: int
  r_ts :: string
  r_target :: "string option"
  r_kind :: string
  r_remote_addr :: "string option"
  r_application_uri :: "string option"
  r_user :: "string option"
  r_node_id :: "string option"
  body :: string
  prev_hash :: string
  hash :: string

record db =
  audit :: "row list"
  chain_head :: "(int \<times> string) option"

record store =
  conn :: db
  last_seq :: int
  last_hash :: string

datatype store_error = SqlFailed | UniqueViolation int | NoRows | UnreadableRecord int

definition GENESIS_HASH :: string where
  "GENESIS_HASH = replicate 64 CHR ''0''"

definition MAX_PRUNE :: int where "MAX_PRUNE = 20000"

definition hash_input :: "string \<Rightarrow> int \<Rightarrow> string \<Rightarrow> string" where
  "hash_input p n b = p @ [newline] @ int_str n @ [newline] @ b"

definition record_hash :: "codec \<Rightarrow> string \<Rightarrow> int \<Rightarrow> string \<Rightarrow> string" where
  "record_hash C p n b = sha256_hex C (hash_input p n b)"

definition ts_column :: "codec \<Rightarrow> time \<Rightarrow> string" where
  "ts_column C t = render_ts C t"

section \<open>The indexed columns and inserting\<close>

type_synonym columns = "string \<times> string option \<times> string \<times> string option \<times> string option
  \<times> string option \<times> string option"

definition columns :: "codec \<Rightarrow> audit_entry \<Rightarrow> columns" where
  "columns C e =
     (ts_column C (ts e), e_target e, kind (e_event e),
      map_option remote_addr (e_client e),
      Option.bind (e_client e) application_uri,
      map_option label (Option.bind (e_client e) user),
      node_id (e_event e))"

definition make_row :: "int \<Rightarrow> columns \<Rightarrow> string \<Rightarrow> string \<Rightarrow> string \<Rightarrow> row" where
  "make_row n cs b p h =
     (case cs of (t, tg, k, ra, au, us, nd) \<Rightarrow>
        \<lparr>seq = n, r_ts = t, r_target = tg, r_kind = k, r_remote_addr = ra,
         r_application_uri = au, r_user = us, r_node_id = nd,
         body = b, prev_hash = p, hash = h\<rparr>)"

text \<open>\<open>seq\<close> is the primary key: inserting a number twice is an error.\<close>

fun insert_rows :: "codec \<Rightarrow> row list \<Rightarrow> audit_entry list \<Rightarrow> int \<Rightarrow> string
    \<Rightarrow> store_error + (row list \<times> int list \<times> int \<times> string)" where
  "insert_rows C rows [] n h = Inr (rows, [], n, h)"
| "insert_rows C rows (e # es) n h =
     (let n' = n + 1; b = to_json C e; h' = record_hash C h n' b in
      if n' \<in> seq ` set rows then Inl (UniqueViolation n')
      else (case insert_rows C (insort_key seq (make_row n' (columns C e) b h h') rows) es n' h' of
              Inl err \<Rightarrow> Inl err
            | Inr (rows', ns, m, g) \<Rightarrow> Inr (rows', n' # ns, m, g)))"

definition insert_entries :: "codec \<Rightarrow> db \<Rightarrow> audit_entry list \<Rightarrow> int \<Rightarrow> string
    \<Rightarrow> store_error + (db \<times> int list \<times> int \<times> string)" where
  "insert_entries C d es n h =
     (case insert_rows C (audit d) es n h of
        Inl err \<Rightarrow> Inl err
      | Inr (rows, ns, m, g) \<Rightarrow> Inr (\<lparr>audit = rows, chain_head = Some (m, g)\<rparr>, ns, m, g))"

text \<open>\<open>fails\<close> says that SQLite fails somewhere in the transaction, which then rolls back.\<close>

definition append :: "codec \<Rightarrow> bool \<Rightarrow> audit_entry list \<Rightarrow> store
    \<Rightarrow> (store_error + int list) \<times> store" where
  "append C fails es s =
     (if fails then (Inl SqlFailed, s)
      else case insert_entries C (conn s) es (last_seq s) (last_hash s) of
        Inl err \<Rightarrow> (Inl err, s)
      | Inr (d, ns, m, g) \<Rightarrow> (Inr ns, s\<lparr>conn := d, last_seq := m, last_hash := g\<rparr>))"

section \<open>Opening\<close>

definition table_head :: "row list \<Rightarrow> (int \<times> string) option" where
  "table_head rows = (case rows of [] \<Rightarrow> None | _ \<Rightarrow> Some (seq (last rows), hash (last rows)))"

text \<open>\<open>now\<close> is the clock, \<open>fails\<close> the fate of the transaction that records a truncation.\<close>

definition open_store :: "codec \<Rightarrow> time \<Rightarrow> bool \<Rightarrow> db \<Rightarrow> store_error + store" where
  "open_store C now fails d =
     (let th = table_head (audit d);
          written = chain_head d;
          found = (case th of None \<Rightarrow> 0 | Some (n, _) \<Rightarrow> n);
          (n, h, truncated) =
            (case (th, written) of
               (_, Some (w, wh)) \<Rightarrow>
                 if found < w then (w, wh, True)
                 else (case th of Some (t, tah) \<Rightarrow> (t, tah, False) | None \<Rightarrow> (0, GENESIS_HASH, False))
             | (Some (t, tah), None) \<Rightarrow> (t, tah, False)
             | (None, None) \<Rightarrow> (0, GENESIS_HASH, False));
          s = \<lparr>conn = d, last_seq = n, last_hash = h\<rparr>
      in if truncated
         then (case append C fails [new_entry now (TrailTruncated n found)] s of
                 (Inl err, _) \<Rightarrow> Inl err
               | (Inr _, s') \<Rightarrow> Inr s')
         else Inr s)"

section \<open>Retention\<close>

definition min_seq :: "row list \<Rightarrow> int option" where
  "min_seq rows = (case rows of [] \<Rightarrow> None | r # _ \<Rightarrow> Some (seq r))"

text \<open>The last sequence number retention would delete.\<close>

definition prune_last :: "codec \<Rightarrow> time \<Rightarrow> row list \<Rightarrow> int \<Rightarrow> int \<Rightarrow> int" where
  "prune_last C cutoff rows head_seq first_seq =
     (let first_kept = min_seq (filter (\<lambda>r. ts_column C cutoff \<le> r_ts r) rows)
      in min (min (case first_kept of None \<Rightarrow> head_seq | Some k \<Rightarrow> k) head_seq - 1)
             (first_seq + MAX_PRUNE - 1))"

definition prune_before :: "codec \<Rightarrow> time \<Rightarrow> bool \<Rightarrow> time \<Rightarrow> store
    \<Rightarrow> (store_error + nat) \<times> store" where
  "prune_before C now fails cutoff s =
     (let rows = audit (conn s) in
      if rows = [] then (Inr 0, s)
      else if ts_column C (now + secs 300) < r_ts (last rows) then (Inr 0, s)
      else
       (let l = prune_last C cutoff rows (seq (last rows)) (seq (hd rows)) in
        if l < seq (hd rows) then (Inr 0, s)
        else (case find (\<lambda>r. seq r = l) rows of
            None \<Rightarrow> (Inl NoRows, s)
          | Some r \<Rightarrow>
              if fails then (Inl SqlFailed, s)
              else
               (let kept = filter (\<lambda>r. \<not> seq r \<le> l) rows;
                    deleted = length rows - length kept
                in case insert_entries C ((conn s)\<lparr>audit := kept\<rparr>)
                          [new_entry now (RetentionPruned deleted l (hash r))]
                          (last_seq s) (last_hash s) of
                     Inl err \<Rightarrow> (Inl err, s)
                   | Inr (d, _, m, g) \<Rightarrow>
                       (Inr deleted, s\<lparr>conn := d, last_seq := m, last_hash := g\<rparr>)))))"

section \<open>Verification\<close>

datatype verify_error =
    NotGenesis int              \<comment> \<open>first record does not link to the genesis hash\<close>
  | SequenceGap int int         \<comment> \<open>the record, and the one before the gap\<close>
  | NotLinked int               \<comment> \<open>does not link to the previous record\<close>
  | HashMismatch int            \<comment> \<open>record was modified\<close>
  | UnreadableBody int
  | ColumnsMismatch int         \<comment> \<open>indexed columns do not match the record body\<close>
  | Unaccounted int             \<comment> \<open>records up to here missing, no retention record accounts\<close>
  | AnchorMissing int           \<comment> \<open>records up to the anchor are missing\<close>
  | AnchorDiffers int

record report =
  records :: nat
  first_seq :: "int option"
  report_last :: "int option"
  head_hash :: string
  report_error :: "verify_error option"

definition row_columns :: "row \<Rightarrow> columns" where
  "row_columns r = (r_ts r, r_target r, r_kind r, r_remote_addr r, r_application_uri r,
     r_user r, r_node_id r)"

text \<open>
  The link to what came before: an error, or the gap before the first record that a retention
  record still has to vouch for.
\<close>

definition link_check :: "report \<Rightarrow> (int \<times> string) option \<Rightarrow> row
    \<Rightarrow> verify_error + (int \<times> string) option" where
  "link_check rep gap r =
     (case report_last rep of
        None \<Rightarrow>
          if seq r = 1 \<and> prev_hash r \<noteq> GENESIS_HASH then Inl (NotGenesis (seq r))
          else if seq r \<noteq> 1 then Inr (Some (seq r - 1, prev_hash r))
          else Inr gap
      | Some l \<Rightarrow>
          if seq r \<noteq> l + 1 then Inl (SequenceGap (seq r) l)
          else if prev_hash r \<noteq> head_hash rep then Inl (NotLinked (seq r))
          else Inr gap)"

definition verify_row :: "codec \<Rightarrow> report \<Rightarrow> (int \<times> string) option \<Rightarrow> row
    \<Rightarrow> verify_error + (int \<times> string) option" where
  "verify_row C rep gap r =
     (case link_check rep gap r of
        Inl err \<Rightarrow> Inl err
      | Inr gap1 \<Rightarrow>
          if record_hash C (prev_hash r) (seq r) (body r) \<noteq> hash r then Inl (HashMismatch (seq r))
          else (case from_json C (body r) of
             None \<Rightarrow> Inl (UnreadableBody (seq r))
           | Some e \<Rightarrow>
               if columns C e \<noteq> row_columns r then Inl (ColumnsMismatch (seq r))
               else (case e_event e of
                  RetentionPruned _ l lh \<Rightarrow> Inr (if gap1 = Some (l, lh) then None else gap1)
                | _ \<Rightarrow> Inr gap1)))"

fun verify_rows :: "codec \<Rightarrow> report \<Rightarrow> (int \<times> string) option \<Rightarrow> row list \<Rightarrow> report" where
  "verify_rows C rep gap [] =
     (case gap of None \<Rightarrow> rep | Some (n, _) \<Rightarrow> rep\<lparr>report_error := Some (Unaccounted n)\<rparr>)"
| "verify_rows C rep gap (r # rs) =
     (case verify_row C rep gap r of
        Inl err \<Rightarrow> rep\<lparr>report_error := Some err\<rparr>
      | Inr gap' \<Rightarrow>
          verify_rows C
            (rep\<lparr>records := Suc (records rep),
                 first_seq := (case first_seq rep of None \<Rightarrow> Some (seq r) | Some n \<Rightarrow> Some n),
                 report_last := Some (seq r),
                 head_hash := hash r\<rparr>) gap' rs)"

definition empty_report :: report where
  "empty_report = \<lparr>records = 0, first_seq = None, report_last = None, head_hash = GENESIS_HASH,
     report_error = None\<rparr>"

definition verify_chain :: "codec \<Rightarrow> db \<Rightarrow> report" where
  "verify_chain C d = verify_rows C empty_report None (audit d)"

definition report_ok :: "report \<Rightarrow> bool" where
  "report_ok rep \<longleftrightarrow> report_error rep = None"

record anchor =
  a_seq :: int
  a_hash :: string

definition anchor_problem :: "db \<Rightarrow> report \<Rightarrow> anchor \<Rightarrow> verify_error option" where
  "anchor_problem d rep a =
     (if (case report_last rep of None \<Rightarrow> True | Some l \<Rightarrow> l < a_seq a)
      then Some (AnchorMissing (a_seq a))
      else if (case first_seq rep of None \<Rightarrow> False | Some f \<Rightarrow> a_seq a < f) then None
      else if map_option hash (find (\<lambda>r. seq r = a_seq a) (audit d)) \<noteq> Some (a_hash a)
      then Some (AnchorDiffers (a_seq a)) else None)"

fun check_anchors :: "db \<Rightarrow> report \<Rightarrow> anchor list \<Rightarrow> report" where
  "check_anchors d rep [] = rep"
| "check_anchors d rep (a # as) =
     (case anchor_problem d rep a of
        Some p \<Rightarrow> rep\<lparr>report_error := Some p\<rparr>
      | None \<Rightarrow> check_anchors d rep as)"

definition verify_against :: "codec \<Rightarrow> db \<Rightarrow> anchor list \<Rightarrow> report" where
  "verify_against C d anchors =
     (let rep = verify_chain C d in if report_ok rep then check_anchors d rep anchors else rep)"

section \<open>Reading\<close>

text \<open>Records after \<open>after_seq\<close>, oldest first, for exporting; \<open>limit\<close> as in SQL's \<open>LIMIT\<close>.\<close>

record stored_record =
  sr_seq :: int
  sr_hash :: string
  sr_prev_hash :: string
  sr_entry :: audit_entry

fun read_rows :: "codec \<Rightarrow> row list \<Rightarrow> store_error + stored_record list" where
  "read_rows C [] = Inr []"
| "read_rows C (r # rs) =
     (case from_json C (body r) of
        None \<Rightarrow> Inl (UnreadableRecord (seq r))
      | Some e \<Rightarrow> (case read_rows C rs of
            Inl err \<Rightarrow> Inl err
          | Inr out \<Rightarrow> Inr (\<lparr>sr_seq = seq r, sr_hash = hash r, sr_prev_hash = prev_hash r,
                              sr_entry = e\<rparr> # out)))"

definition query_after :: "codec \<Rightarrow> db \<Rightarrow> int \<Rightarrow> nat \<Rightarrow> store_error + stored_record list" where
  "query_after C d after_seq limit =
     read_rows C (take limit (filter (\<lambda>r. after_seq < seq r) (audit d)))"

definition head_seq :: "db \<Rightarrow> int" where
  "head_seq d = (case audit d of [] \<Rightarrow> 0 | rows \<Rightarrow> seq (last rows))"

end
