(* ===== verification/Audit_Chain.thy ===== *)
theory Audit_Chain
  imports Prelude Audit_Event Audit_Store
begin

text \<open>
  What the audit store guarantees: the declarative meaning of a verified trail and its
  equivalence with \<open>verify_chain\<close>, the invariant of the writer that every operation keeps, what
  retention may delete, and tamper evidence up to hash collisions.
\<close>

section \<open>The declarative specification of a trail\<close>

definition row_ok :: "codec \<Rightarrow> row \<Rightarrow> bool" where
  "row_ok C r \<longleftrightarrow> record_hash C (prev_hash r) (seq r) (body r) = hash r \<and>
     map_option (columns C) (from_json C (body r)) = Some (row_columns r)"

fun linked_from :: "int \<Rightarrow> string \<Rightarrow> row list \<Rightarrow> bool" where
  "linked_from n h [] = True"
| "linked_from n h (r # rs) = (seq r = n + 1 \<and> prev_hash r = h \<and> linked_from (seq r) (hash r) rs)"

fun linked :: "row list \<Rightarrow> bool" where
  "linked [] = True"
| "linked (r # rs) = linked_from (seq r) (hash r) rs"

definition vouches :: "codec \<Rightarrow> int \<Rightarrow> string \<Rightarrow> row \<Rightarrow> bool" where
  "vouches C n h r \<longleftrightarrow> (case from_json C (body r) of
     Some e \<Rightarrow> (case e_event e of RetentionPruned _ l lh \<Rightarrow> l = n \<and> lh = h | _ \<Rightarrow> False)
   | None \<Rightarrow> False)"

fun accounted :: "codec \<Rightarrow> row list \<Rightarrow> bool" where
  "accounted C [] = True"
| "accounted C (r # rs) =
     (if seq r = 1 then prev_hash r = GENESIS_HASH
      else \<exists>v \<in> set (r # rs). vouches C (seq r - 1) (prev_hash r) v)"

definition verified :: "codec \<Rightarrow> row list \<Rightarrow> bool" where
  "verified C rows \<longleftrightarrow> (\<forall>r \<in> set rows. row_ok C r) \<and> linked rows \<and> accounted C rows"

section \<open>The verifier decides the specification\<close>

definition gap_step :: "codec \<Rightarrow> (int \<times> string) option \<Rightarrow> row \<Rightarrow> (int \<times> string) option" where
  "gap_step C gap r = (case gap of Some (n, h) \<Rightarrow> if vouches C n h r then None else gap | None \<Rightarrow> None)"

lemma verify_row_link:
  "verify_row C rep gap r =
     (case link_check rep gap r of
        Inl err \<Rightarrow> Inl err
      | Inr gap1 \<Rightarrow>
          if record_hash C (prev_hash r) (seq r) (body r) \<noteq> hash r then Inl (HashMismatch (seq r))
          else if from_json C (body r) = None then Inl (UnreadableBody (seq r))
          else if \<not> row_ok C r then Inl (ColumnsMismatch (seq r))
          else Inr (gap_step C gap1 r))"
  by (auto simp: verify_row_def row_ok_def gap_step_def vouches_def
      split: sum.splits option.splits audit_event.splits)

lemma verify_row_ok:
  assumes "link_check rep gap r = Inr gap1" and "row_ok C r"
  shows "verify_row C rep gap r = Inr (gap_step C gap1 r)"
  using assms by (auto simp: verify_row_link row_ok_def)

lemma verify_row_bad:
  assumes "\<not> row_ok C r"
  shows "\<exists>err. verify_row C rep gap r = Inl err"
proof (cases "link_check rep gap r")
  case (Inr gap1)
  with assms show ?thesis by (simp add: verify_row_link)
qed (simp add: verify_row_link)

lemma verify_row_unlinked:
  "link_check rep gap r = Inl err \<Longrightarrow> verify_row C rep gap r = Inl err"
  by (simp add: verify_row_link)

definition pass :: "report \<Rightarrow> row \<Rightarrow> report" where
  "pass rep r = rep\<lparr>records := Suc (records rep),
     first_seq := (case first_seq rep of None \<Rightarrow> Some (seq r) | Some n \<Rightarrow> Some n),
     report_last := Some (seq r), head_hash := hash r\<rparr>"

lemma pass_simps [simp]:
  "report_last (pass rep r) = Some (seq r)" "head_hash (pass rep r) = hash r"
  "report_error (pass rep r) = report_error rep"
  "records (pass rep r) = Suc (records rep)"
  "first_seq (pass rep r) = (case first_seq rep of None \<Rightarrow> Some (seq r) | Some n \<Rightarrow> Some n)"
  by (simp_all add: pass_def)

lemma verify_rows_Cons:
  "verify_rows C rep gap (r # rs) = (case verify_row C rep gap r of
     Inl err \<Rightarrow> rep\<lparr>report_error := Some err\<rparr> | Inr gap' \<Rightarrow> verify_rows C (pass rep r) gap' rs)"
  by (simp add: pass_def split: sum.splits)

declare verify_rows.simps(2) [simp del]

definition gap_closed :: "codec \<Rightarrow> (int \<times> string) option \<Rightarrow> row list \<Rightarrow> bool" where
  "gap_closed C gap rows \<longleftrightarrow> (case gap of None \<Rightarrow> True | Some (n, h) \<Rightarrow> \<exists>v \<in> set rows. vouches C n h v)"

lemma gap_closed_simps [simp]:
  "gap_closed C None rows"
  "gap_closed C gap [] \<longleftrightarrow> gap = None"
  "gap_closed C gap (r # rs) \<longleftrightarrow> gap_closed C (gap_step C gap r) rs"
  by (auto simp: gap_closed_def gap_step_def split: option.splits)

lemma verify_rows_tail:
  assumes "report_last rep = Some n" and "report_error rep = None"
  shows "report_error (verify_rows C rep gap rows) = None \<longleftrightarrow>
     (\<forall>r \<in> set rows. row_ok C r) \<and> linked_from n (head_hash rep) rows \<and> gap_closed C gap rows"
  using assms
proof (induction rows arbitrary: rep gap n)
  case Nil
  then show ?case by (auto split: option.splits)
next
  case (Cons r rs)
  have lc: "link_check rep gap r =
      (if seq r \<noteq> n + 1 then Inl (SequenceGap (seq r) n)
       else if prev_hash r \<noteq> head_hash rep then Inl (NotLinked (seq r)) else Inr gap)"
    using Cons.prems by (simp add: link_check_def)
  consider (bad) "\<not> row_ok C r" | (unlinked) "\<not> (seq r = n + 1 \<and> prev_hash r = head_hash rep)"
    | (ok) "row_ok C r" "seq r = n + 1" "prev_hash r = head_hash rep"
    by blast
  then show ?case
  proof cases
    case bad
    with verify_row_bad [OF bad, of rep gap] show ?thesis by (auto simp: verify_rows_Cons)
  next
    case unlinked
    then have "\<exists>err. link_check rep gap r = Inl err"
      unfolding lc by (cases "seq r = n + 1") simp_all
    with unlinked show ?thesis by (auto simp: verify_rows_Cons verify_row_unlinked)
  next
    case ok
    with lc Cons.prems Cons.IH [of "pass rep r" "seq r" "gap_step C gap r"] show ?thesis
      by (simp add: verify_rows_Cons verify_row_ok)
  qed
qed

lemma verify_rows_first:
  "report_error (verify_rows C empty_report None rows) = None \<longleftrightarrow> verified C rows"
proof (cases rows)
  case Nil
  then show ?thesis by (simp add: verified_def empty_report_def)
next
  case (Cons r rs)
  define g where "g = (if seq r = 1 then None else Some (seq r - 1, prev_hash r))"
  have e: "report_last empty_report = None" "report_error empty_report = None"
    by (simp_all add: empty_report_def)
  have lc: "link_check empty_report None r =
      (if seq r = 1 \<and> prev_hash r \<noteq> GENESIS_HASH then Inl (NotGenesis 1) else Inr g)"
    by (simp add: link_check_def g_def e)
  have acc: "accounted C (r # rs) \<longleftrightarrow>
      \<not> (seq r = 1 \<and> prev_hash r \<noteq> GENESIS_HASH) \<and> gap_closed C g (r # rs)"
    by (simp only: accounted.simps gap_closed_def g_def) auto
  show ?thesis
  proof (cases "row_ok C r \<and> \<not> (seq r = 1 \<and> prev_hash r \<noteq> GENESIS_HASH)")
    case False
    then show ?thesis
    proof (cases "row_ok C r")
      case True
      with False lc have "verify_row C empty_report None r = Inl (NotGenesis 1)"
        by (simp add: verify_row_unlinked)
      with False True acc Cons show ?thesis by (auto simp: verify_rows_Cons verified_def)
    next
      case bad: False
      from verify_row_bad [OF bad] obtain err where "verify_row C empty_report None r = Inl err"
        by blast
      with bad Cons show ?thesis by (simp add: verify_rows_Cons verified_def)
    qed
  next
    case True
    with lc have "verify_row C empty_report None r = Inr (gap_step C g r)"
      by (simp add: verify_row_ok)
    with verify_rows_tail [of "pass empty_report r" "seq r" C "gap_step C g r" rs] True acc Cons e
    show ?thesis by (simp add: verify_rows_Cons verified_def)
  qed
qed

lemma verify_chain_verified: "report_ok (verify_chain C d) \<longleftrightarrow> verified C (audit d)"
  by (simp add: report_ok_def verify_chain_def verify_rows_first)

text \<open>What a report without an error says about the table.\<close>

lemma verify_rows_report:
  assumes "report_error (verify_rows C rep gap rows) = None"
  shows "report_last (verify_rows C rep gap rows) =
      (if rows = [] then report_last rep else Some (seq (last rows)))"
    and "head_hash (verify_rows C rep gap rows) =
      (if rows = [] then head_hash rep else hash (last rows))"
    and "first_seq (verify_rows C rep gap rows) =
      (case first_seq rep of Some n \<Rightarrow> Some n | None \<Rightarrow> if rows = [] then None else Some (seq (hd rows)))"
    and "records (verify_rows C rep gap rows) = records rep + length rows"
  using assms
proof (induction rows arbitrary: rep gap)
  case Nil
  {
    case 1 then show ?case by (auto split: option.splits)
  next
    case 2 then show ?case by (auto split: option.splits)
  next
    case 3 then show ?case by (auto split: option.splits)
  next
    case 4 then show ?case by (auto split: option.splits)
  }
next
  case (Cons r rs)
  {
    case 1 with Cons.IH(1) [of "pass rep r"] show ?case
      by (auto simp: verify_rows_Cons split: sum.splits)
  next
    case 2 with Cons.IH(2) [of "pass rep r"] show ?case
      by (auto simp: verify_rows_Cons split: sum.splits)
  next
    case 3 with Cons.IH(3) [of "pass rep r"] show ?case
      by (auto simp: verify_rows_Cons split: sum.splits option.splits)
  next
    case 4 with Cons.IH(4) [of "pass rep r"] show ?case
      by (auto simp: verify_rows_Cons split: sum.splits)
  }
qed

lemma verified_report:
  assumes "verified C (audit d)"
  shows "report_last (verify_chain C d) = (if audit d = [] then None else Some (seq (last (audit d))))"
    and "head_hash (verify_chain C d) = (if audit d = [] then GENESIS_HASH else hash (last (audit d)))"
    and "first_seq (verify_chain C d) = (if audit d = [] then None else Some (seq (hd (audit d))))"
    and "records (verify_chain C d) = length (audit d)"
proof -
  have e: "report_last empty_report = None" "first_seq empty_report = None"
      "head_hash empty_report = GENESIS_HASH" "records empty_report = 0"
    by (simp_all add: empty_report_def)
  from assms have "report_error (verify_rows C empty_report None (audit d)) = None"
    by (simp only: verify_rows_first)
  note r = verify_rows_report [OF this, unfolded e, folded verify_chain_def]
  from r show "report_last (verify_chain C d) = (if audit d = [] then None else Some (seq (last (audit d))))"
    and "head_hash (verify_chain C d) = (if audit d = [] then GENESIS_HASH else hash (last (audit d)))"
    and "first_seq (verify_chain C d) = (if audit d = [] then None else Some (seq (hd (audit d))))"
    and "records (verify_chain C d) = length (audit d)"
    by simp_all
qed

section \<open>Tables in order\<close>

fun end_seq :: "int \<Rightarrow> row list \<Rightarrow> int" where
  "end_seq n [] = n" | "end_seq n (r # rs) = end_seq (seq r) rs"

fun end_hash :: "string \<Rightarrow> row list \<Rightarrow> string" where
  "end_hash h [] = h" | "end_hash h (r # rs) = end_hash (hash r) rs"

lemma end_of_last: "rows \<noteq> [] \<Longrightarrow> end_seq n rows = seq (last rows) \<and> end_hash h rows = hash (last rows)"
  by (induction rows arbitrary: n h) auto

lemma linked_from_append [simp]:
  "linked_from n h (xs @ ys) \<longleftrightarrow> linked_from n h xs \<and> linked_from (end_seq n xs) (end_hash h xs) ys"
  by (induction xs arbitrary: n h) auto

lemma linked_append:
  "xs \<noteq> [] \<Longrightarrow> linked (xs @ ys) \<longleftrightarrow>
     linked xs \<and> linked_from (seq (last xs)) (hash (last xs)) ys"
  by (cases xs) (auto simp: end_of_last split: if_splits)

lemma linked_from_nth:
  "linked_from n h rows \<Longrightarrow> i < length rows \<Longrightarrow> seq (rows ! i) = n + 1 + int i"
proof (induction rows arbitrary: n h i)
  case Nil
  then show ?case by simp
next
  case (Cons r rs)
  then show ?case by (cases i) auto
qed

lemma linked_nth: "linked rows \<Longrightarrow> i < length rows \<Longrightarrow> seq (rows ! i) = seq (hd rows) + int i"
  by (cases rows; cases i) (auto dest: linked_from_nth)

lemma linked_nth_prev:
  "linked rows \<Longrightarrow> Suc i < length rows \<Longrightarrow> prev_hash (rows ! Suc i) = hash (rows ! i)"
proof (induction rows arbitrary: i)
  case Nil
  then show ?case by simp
next
  case (Cons r rs)
  then show ?case by (cases rs; cases i) auto
qed

lemma linked_sorted: "linked rows \<Longrightarrow> sorted_wrt (<) (map seq rows)"
  by (auto simp: sorted_wrt_iff_nth_less linked_nth)

lemma linked_drop: "linked rows \<Longrightarrow> linked (drop k rows)"
proof (induction k arbitrary: rows)
  case (Suc k)
  then show ?case by (cases rows; cases "tl rows") (auto intro: Suc.IH)
qed simp

lemma in_set_seq_inj:
  "sorted_wrt (<) (map seq rows) \<Longrightarrow> r \<in> set rows \<Longrightarrow> r' \<in> set rows \<Longrightarrow> seq r = seq r' \<Longrightarrow> r = r'"
  by (induction rows) auto

lemma sorted_last_max:
  "sorted_wrt (<) (map seq rows) \<Longrightarrow> r \<in> set rows \<Longrightarrow> seq r \<le> seq (last rows)"
  by (cases rows rule: rev_cases) (auto simp: sorted_wrt_append)

lemma sorted_hd_min:
  "sorted_wrt (<) (map seq rows) \<Longrightarrow> r \<in> set rows \<Longrightarrow> seq (hd rows) \<le> seq r"
  by (cases rows) auto

lemma find_seq:
  assumes "linked rows" and "rows \<noteq> []" and "seq (hd rows) \<le> n" and "n \<le> seq (last rows)"
  shows "\<exists>r. find (\<lambda>r. seq r = n) rows = Some r \<and> r \<in> set rows \<and> seq r = n"
proof -
  define i where "i = nat (n - seq (hd rows))"
  from assms have "seq (last rows) = seq (hd rows) + int (length rows - 1)"
    by (simp add: last_conv_nth linked_nth)
  with assms have i: "i < length rows" by (cases rows) (auto simp: i_def)
  with assms have "seq (rows ! i) = n" by (simp add: linked_nth i_def)
  with i have "\<exists>x \<in> set rows. seq x = n" using nth_mem by blast
  then obtain r where "find (\<lambda>r. seq r = n) rows = Some r"
    using find_None_iff' [of "\<lambda>r. seq r = n" rows] by fastforce
  with find_Some_in [OF this] show ?thesis by blast
qed

section \<open>What inserting appends\<close>

fun chain_rows :: "codec \<Rightarrow> audit_entry list \<Rightarrow> int \<Rightarrow> string \<Rightarrow> row list" where
  "chain_rows C [] n h = []"
| "chain_rows C (e # es) n h =
     (let r = make_row (n + 1) (columns C e) (to_json C e) h (record_hash C h (n + 1) (to_json C e))
      in r # chain_rows C es (n + 1) (hash r))"

lemma make_row_simps [simp]:
  "seq (make_row n cs b p h) = n" "body (make_row n cs b p h) = b"
  "prev_hash (make_row n cs b p h) = p" "hash (make_row n cs b p h) = h"
  "row_columns (make_row n cs b p h) = cs"
  by (cases cs; simp add: make_row_def row_columns_def)+

lemma chain_rows_seqs: "map seq (chain_rows C es n h) = map (\<lambda>i. n + 1 + int i) [0..<length es]"
proof (induction es arbitrary: n h)
  case (Cons e es)
  show ?case
    by (simp add: Let_def Cons.IH upt_conv_Cons map_Suc_upt [symmetric] del: upt_Suc)
qed simp

lemma chain_rows_length [simp]: "length (chain_rows C es n h) = length es"
  by (induction es arbitrary: n h) (simp_all add: Let_def)

lemma chain_rows_linked: "linked_from n h (chain_rows C es n h)"
  by (induction es arbitrary: n h) (simp_all add: Let_def)

lemma chain_rows_end_seq: "end_seq n (chain_rows C es n h) = n + int (length es)"
  by (induction es arbitrary: n h) (simp_all add: Let_def)

definition serde_roundtrip :: "codec \<Rightarrow> bool" where
  "serde_roundtrip C \<longleftrightarrow> (\<forall>e. from_json C (to_json C e) = Some e)"

lemma chain_rows_ok:
  "serde_roundtrip C \<Longrightarrow> r \<in> set (chain_rows C es n h) \<Longrightarrow> row_ok C r"
proof (induction es arbitrary: n h)
  case (Cons e es)
  then show ?case by (auto simp: Let_def row_ok_def serde_roundtrip_def)
qed simp

lemma insert_rows_append:
  assumes "\<forall>r \<in> set rows. seq r \<le> n"
  shows "insert_rows C rows es n h =
     Inr (rows @ chain_rows C es n h, map seq (chain_rows C es n h),
          end_seq n (chain_rows C es n h), end_hash h (chain_rows C es n h))"
  using assms
proof (induction es arbitrary: rows n h)
  case (Cons e es)
  let ?h = "record_hash C h (n + 1) (to_json C e)"
  let ?r = "make_row (n + 1) (columns C e) (to_json C e) h ?h"
  from Cons.prems have fresh: "n + 1 \<notin> seq ` set rows" by auto
  from Cons.prems have ins: "insort_key seq ?r rows = rows @ [?r]"
    by (intro insort_key_append) force
  from Cons.prems have "\<forall>r \<in> set (rows @ [?r]). seq r \<le> n + 1" by auto
  note IH = Cons.IH [OF this, of ?h]
  show ?case by (simp add: Let_def fresh ins IH)
qed simp

lemma insert_entries_append:
  assumes "\<forall>r \<in> set (audit d). seq r \<le> n"
  shows "insert_entries C d es n h =
     Inr (\<lparr>audit = audit d @ chain_rows C es n h,
           chain_head = Some (end_seq n (chain_rows C es n h), end_hash h (chain_rows C es n h))\<rparr>,
          map seq (chain_rows C es n h),
          end_seq n (chain_rows C es n h), end_hash h (chain_rows C es n h))"
  by (simp add: insert_entries_def insert_rows_append [OF assms])

section \<open>The writer's invariant\<close>

text \<open>
  \<open>table_wf\<close> is what holds of every table the gateway wrote, gaps included: rows in key order and
  none beyond the writer's position. \<open>store_inv\<close> adds that the trail verifies and that the writer
  and \<open>chain_head\<close> stand on its last record.
\<close>

definition table_wf :: "store \<Rightarrow> bool" where
  "table_wf s \<longleftrightarrow> sorted_wrt (<) (map seq (audit (conn s))) \<and>
     (\<forall>r \<in> set (audit (conn s)). seq r \<le> last_seq s)"

definition store_inv :: "codec \<Rightarrow> store \<Rightarrow> bool" where
  "store_inv C s \<longleftrightarrow> verified C (audit (conn s)) \<and>
     (\<forall>r \<in> set (audit (conn s)). 1 \<le> seq r) \<and>
     table_head (audit (conn s)) =
       (if audit (conn s) = [] then None else Some (last_seq s, last_hash s)) \<and>
     (audit (conn s) = [] \<longrightarrow> last_seq s = 0 \<and> last_hash s = GENESIS_HASH) \<and>
     chain_head (conn s) \<in> (if audit (conn s) = [] then {None, Some (0, GENESIS_HASH)}
                             else {Some (last_seq s, last_hash s)})"

definition fresh_store :: store where
  "fresh_store = \<lparr>conn = \<lparr>audit = [], chain_head = None\<rparr>, last_seq = 0, last_hash = GENESIS_HASH\<rparr>"

lemma store_inv_fresh: "store_inv C fresh_store"
  by (simp add: store_inv_def fresh_store_def verified_def table_head_def)

lemma table_head_last: "rows \<noteq> [] \<Longrightarrow> table_head rows = Some (seq (last rows), hash (last rows))"
  by (simp add: table_head_def split: list.splits)

lemma table_head_Nil [simp]: "table_head [] = None"
  by (simp add: table_head_def)

lemma store_inv_last:
  assumes "store_inv C s" and "audit (conn s) \<noteq> []"
  shows "seq (last (audit (conn s))) = last_seq s" "hash (last (audit (conn s))) = last_hash s"
  using assms by (simp_all add: store_inv_def table_head_last)

lemma store_inv_wf: "store_inv C s \<Longrightarrow> table_wf s"
proof -
  assume inv: "store_inv C s"
  then have linked: "linked (audit (conn s))" by (simp add: store_inv_def verified_def)
  have "seq r \<le> last_seq s" if r: "r \<in> set (audit (conn s))" for r
  proof -
    from r obtain i where i: "i < length (audit (conn s))" "r = audit (conn s) ! i"
      by (metis in_set_conv_nth)
    then have ne: "audit (conn s) \<noteq> []" by auto
    with i linked have "seq r \<le> seq (last (audit (conn s)))"
      by (simp add: last_conv_nth linked_nth)
    with store_inv_last [OF inv ne] show ?thesis by simp
  qed
  with linked_sorted [OF linked] show ?thesis by (simp add: table_wf_def)
qed

lemma accounted_append:
  assumes "accounted C rows" and "rows \<noteq> []"
  shows "accounted C (rows @ new)"
  using assms by (cases rows) auto

lemma append_result:
  assumes "table_wf s" and "\<not> fails"
  shows "append C fails es s =
    (let new = chain_rows C es (last_seq s) (last_hash s) in
     (Inr (map seq new),
      s\<lparr>conn := \<lparr>audit = audit (conn s) @ new,
                 chain_head = Some (end_seq (last_seq s) new, end_hash (last_hash s) new)\<rparr>,
        last_seq := end_seq (last_seq s) new, last_hash := end_hash (last_hash s) new\<rparr>))"
  using assms by (simp add: append_def insert_entries_append table_wf_def Let_def)

lemma append_fails [simp]: "append C True es s = (Inl SqlFailed, s)"
  by (simp add: append_def)

lemma chain_rows_pos: "r \<in> set (chain_rows C es n h) \<Longrightarrow> n < seq r \<and> seq r \<le> n + int (length es)"
proof -
  assume "r \<in> set (chain_rows C es n h)"
  then have "seq r \<in> set (map seq (chain_rows C es n h))" by simp
  then show ?thesis unfolding chain_rows_seqs by auto
qed

lemma store_inv_extend:
  assumes serde: "serde_roundtrip C" and inv: "store_inv C s"
    and new: "new = chain_rows C es (last_seq s) (last_hash s)"
  shows "store_inv C (s\<lparr>conn := \<lparr>audit = audit (conn s) @ new,
            chain_head = Some (end_seq (last_seq s) new, end_hash (last_hash s) new)\<rparr>,
          last_seq := end_seq (last_seq s) new, last_hash := end_hash (last_hash s) new\<rparr>)"
proof (cases "audit (conn s) = []")
  case True
  with inv have start: "last_seq s = 0" "last_hash s = GENESIS_HASH"
    by (simp_all add: store_inv_def)
  show ?thesis
  proof (cases es)
    case Nil
    with True start new show ?thesis by (simp add: store_inv_def verified_def)
  next
    case (Cons e es')
    with new have ne: "new \<noteq> []" by (metis chain_rows_length length_0_conv list.discI)
    from new Cons start have acc: "accounted C new" and lin: "linked new"
      using chain_rows_linked [of 0 GENESIS_HASH C es] by (auto simp: Let_def)
    from new serde have ok: "\<forall>r \<in> set new. row_ok C r" by (auto dest: chain_rows_ok)
    have pos: "\<forall>r \<in> set new. 1 \<le> seq r"
      using new start by (auto dest!: chain_rows_pos)
    from ne True acc lin ok pos show ?thesis
      by (simp add: store_inv_def verified_def table_head_last end_of_last)
  qed
next
  case False
  let ?rows = "audit (conn s)"
  from inv have v: "verified C ?rows" by (simp add: store_inv_def)
  from new serde have ok: "\<forall>r \<in> set new. row_ok C r" by (auto dest: chain_rows_ok)
  have lin: "linked (?rows @ new)"
    using v False store_inv_last [OF inv False] chain_rows_linked
    by (simp add: linked_append verified_def new)
  have acc: "accounted C (?rows @ new)"
    using v False by (simp add: accounted_append verified_def)
  from inv False have base: "1 \<le> last_seq s"
    using store_inv_last(1) [OF inv False] by (metis last_in_set store_inv_def)
  have pos: "\<forall>r \<in> set (?rows @ new). 1 \<le> seq r"
    using inv base new by (auto simp: store_inv_def dest!: chain_rows_pos)
  have head: "table_head (?rows @ new) =
      Some (end_seq (last_seq s) new, end_hash (last_hash s) new)"
    using False store_inv_last [OF inv False]
    by (cases "new = []") (simp_all add: table_head_last end_of_last)
  from v ok lin acc pos head False show ?thesis
    by (simp add: store_inv_def verified_def ball_Un)
qed

lemma append_inv [inv_intros]:
  assumes "serde_roundtrip C" and "store_inv C s"
  shows "store_inv C (snd (append C fails es s))"
proof (cases fails)
  case False
  with store_inv_extend [OF assms refl] append_result [OF store_inv_wf [OF assms(2)] False]
  show ?thesis by (simp add: Let_def)
qed (simp add: assms)

section \<open>Retention\<close>

lemma sorted_filter_drop:
  assumes "sorted_wrt (<) (map f xs)"
  shows "filter (\<lambda>x. (l::int) < f x) xs = drop (length xs - length (filter (\<lambda>x. l < f x) xs)) xs"
    and "filter (\<lambda>x. f x \<le> l) xs = take (length xs - length (filter (\<lambda>x. l < f x) xs)) xs"
proof -
  have "filter (\<lambda>x. f x \<le> l) xs @ filter (\<lambda>x. l < f x) xs = xs"
    using assms
  proof (induction xs)
    case (Cons x xs)
    show ?case
    proof (cases "f x \<le> l")
      case True
      with Cons show ?thesis by simp
    next
      case False
      with Cons.prems have "filter (\<lambda>x. f x \<le> l) xs = []" "filter (\<lambda>x. l < f x) xs = xs"
        by (auto simp: filter_eq_Nil_iff filter_id_conv)
      with False show ?thesis by simp
    qed
  qed simp
  then have split: "xs = filter (\<lambda>x. f x \<le> l) xs @ filter (\<lambda>x. l < f x) xs" by simp
  then have len: "length xs - length (filter (\<lambda>x. l < f x) xs) = length (filter (\<lambda>x. f x \<le> l) xs)"
    by (metis add_diff_cancel_right' length_append)
  show "filter (\<lambda>x. l < f x) xs = drop (length xs - length (filter (\<lambda>x. l < f x) xs)) xs"
    by (subst (3) split) (simp add: len)
  show "filter (\<lambda>x. f x \<le> l) xs = take (length xs - length (filter (\<lambda>x. l < f x) xs)) xs"
    by (subst (3) split) (simp add: len)
qed

lemma min_seq_le:
  assumes "sorted_wrt (<) (map seq rows)" and "r \<in> set rows" and "P r"
  shows "\<exists>k. min_seq (filter P rows) = Some k \<and> k \<le> seq r"
  using assms
proof (induction rows)
  case (Cons x xs)
  then show ?case by (cases "P x") (auto simp: min_seq_def)
qed simp

lemma prune_last_bounds:
  assumes "sorted_wrt (<) (map seq rows)" and "r \<in> set rows"
    and "seq r \<le> prune_last C cutoff rows hs fs"
  shows "r_ts r < ts_column C cutoff" and "seq r < hs" and "seq r < fs + MAX_PRUNE"
proof -
  show "r_ts r < ts_column C cutoff"
  proof (rule ccontr)
    assume "\<not> ?thesis"
    with min_seq_le [OF assms(1,2), of "\<lambda>r. ts_column C cutoff \<le> r_ts r"] obtain k where
      "min_seq (filter (\<lambda>r. ts_column C cutoff \<le> r_ts r) rows) = Some k" "k \<le> seq r"
      by force
    with assms(3) show False by (simp add: prune_last_def)
  qed
  from assms(3) show "seq r < hs" "seq r < fs + MAX_PRUNE"
    by (auto simp: prune_last_def Let_def split: option.splits)
qed

definition pruned_store :: "codec \<Rightarrow> time \<Rightarrow> row list \<Rightarrow> nat \<Rightarrow> int \<Rightarrow> string \<Rightarrow> store \<Rightarrow> store" where
  "pruned_store C now kept n l h s =
     (let new = chain_rows C [new_entry now (RetentionPruned n l h)] (last_seq s) (last_hash s) in
      s\<lparr>conn := \<lparr>audit = kept @ new,
                 chain_head = Some (end_seq (last_seq s) new, end_hash (last_hash s) new)\<rparr>,
        last_seq := end_seq (last_seq s) new, last_hash := end_hash (last_hash s) new\<rparr>)"

lemma prune_before_nonempty:
  assumes "audit (conn s) = rows" and "rows \<noteq> []"
    and "l = prune_last C cutoff rows (seq (last rows)) (seq (hd rows))"
    and "kept = filter (\<lambda>x. l < seq x) rows" and "n = length rows - length kept"
  shows "prune_before C now fails cutoff s =
    (if ts_column C (now + secs 300) < r_ts (last rows) then (Inr 0, s)
     else if l < seq (hd rows) then (Inr 0, s)
     else (case find (\<lambda>r. seq r = l) rows of
         None \<Rightarrow> (Inl NoRows, s)
       | Some r \<Rightarrow>
           if fails then (Inl SqlFailed, s)
           else (case insert_entries C ((conn s)\<lparr>audit := kept\<rparr>)
                        [new_entry now (RetentionPruned n l (hash r))] (last_seq s) (last_hash s) of
                   Inl err \<Rightarrow> (Inl err, s)
                 | Inr (d, _, m, g) \<Rightarrow> (Inr n, s\<lparr>conn := d, last_seq := m, last_hash := g\<rparr>))))"
  unfolding prune_before_def assms(1) Let_def not_le assms(3) assms(4) assms(5)
  using assms(2) by (simp only: if_False)

text \<open>Retention changes nothing, or it drops the rows up to \<open>l\<close> and appends one record naming \<open>l\<close>.\<close>

lemma prune_cases:
  assumes wf: "table_wf s"
  obtains (same) "snd (prune_before C now fails cutoff s) = s"
      "fst (prune_before C now fails cutoff s) = Inr 0 \<or>
       (\<exists>err. fst (prune_before C now fails cutoff s) = Inl err)"
  | (pruned) rows l r kept where
      "rows = audit (conn s)" "rows \<noteq> []"
      "l = prune_last C cutoff rows (seq (last rows)) (seq (hd rows))" "seq (hd rows) \<le> l"
      "r \<in> set rows" "seq r = l" "kept = filter (\<lambda>x. l < seq x) rows"
      "prune_before C now fails cutoff s =
         (Inr (length rows - length kept),
          pruned_store C now kept (length rows - length kept) l (hash r) s)"
proof (cases "audit (conn s) = []")
  case True
  then show thesis by (intro same) (simp_all add: prune_before_def)
next
  case ne: False
  define rows where "rows = audit (conn s)"
  define l where "l = prune_last C cutoff rows (seq (last rows)) (seq (hd rows))"
  define kept where "kept = filter (\<lambda>x. l < seq x) rows"
  note unfold = prune_before_nonempty [OF rows_def [symmetric] ne [folded rows_def] l_def kept_def refl]
  show thesis
  proof (cases "ts_column C (now + secs 300) < r_ts (last rows) \<or> l < seq (hd rows) \<or> fails \<or>
      find (\<lambda>r. seq r = l) rows = None")
    case True
    then show thesis by (intro same) (auto simp: unfold split: option.splits)
  next
    case False
    then obtain r where r: "find (\<lambda>r. seq r = l) rows = Some r" by auto
    with find_Some_in [OF r] have rin: "r \<in> set rows" "seq r = l" by auto
    have le: "\<forall>x \<in> set (audit ((conn s)\<lparr>audit := kept\<rparr>)). seq x \<le> last_seq s"
      using wf by (auto simp: kept_def rows_def table_wf_def)
    have "prune_before C now fails cutoff s =
         (Inr (length rows - length kept),
          pruned_store C now kept (length rows - length kept) l (hash r) s)"
      unfolding unfold r option.case insert_entries_append [OF le] pruned_store_def Let_def sum.case
        prod.case
      using False by simp
    note this' = this
    from False have "seq (hd rows) \<le> l" by (simp only: not_le de_Morgan_disj not_less)
    from pruned [OF rows_def ne [folded rows_def] l_def this rin kept_def this'] show thesis .
  qed
qed

lemma pruned_inv:
  assumes serde: "serde_roundtrip C" and inv: "store_inv C s"
    and rows: "rows = audit (conn s)" "rows \<noteq> []"
    and l: "l = prune_last C cutoff rows (seq (last rows)) (seq (hd rows))" "seq (hd rows) \<le> l"
    and r: "r \<in> set rows" "seq r = l" and kept: "kept = filter (\<lambda>x. l < seq x) rows"
  shows "store_inv C (pruned_store C now kept n l (hash r) s)"
proof -
  from inv rows have v: "verified C rows" and pos: "\<forall>x \<in> set rows. 1 \<le> seq x"
    by (simp_all add: store_inv_def)
  then have lin: "linked rows" and sorted: "sorted_wrt (<) (map seq rows)"
    by (simp_all add: verified_def linked_sorted)
  have last: "seq (last rows) = last_seq s" "hash (last rows) = last_hash s"
    using store_inv_last [OF inv] rows by auto
  from r l obtain i where i: "i < length rows" "rows ! i = r" by (metis in_set_conv_nth)
  have "l < seq (last rows)"
    using prune_last_bounds(2) [OF sorted r(1), of C cutoff "seq (last rows)" "seq (hd rows)"] l r by simp
  moreover have "seq (last rows) = seq (hd rows) + int (length rows - 1)"
    using lin rows(2) by (simp add: last_conv_nth linked_nth)
  moreover have "l = seq (hd rows) + int i"
    using linked_nth [OF lin i(1)] i(2) r(2) by simp
  ultimately have Suc_i: "Suc i < length rows" by linarith
  obtain k where k: "kept = drop k rows" using sorted_filter_drop(1) [OF sorted] kept by blast
  have memk: "x \<in> set kept \<longleftrightarrow> x \<in> set rows \<and> l < seq x" for x by (simp add: kept)
  have nxt: "rows ! Suc i \<in> set kept" "seq (rows ! Suc i) = l + 1"
      "prev_hash (rows ! Suc i) = hash r"
    using Suc_i i r lin linked_nth [OF lin, of i]
    by (auto simp: memk linked_nth linked_nth_prev)
  obtain f ks where f: "kept = f # ks" using nxt(1) by (cases kept) auto
  have klin: "linked kept" using lin by (simp add: k linked_drop)
  have "seq f \<le> seq (rows ! Suc i)"
    using nxt(1) linked_sorted [OF klin] f by auto
  with memk [of f] f nxt have feq: "seq f = l + 1" by force
  with in_set_seq_inj [OF sorted] memk f nxt have "f = rows ! Suc i"
    by (metis list.set_intros(1))
  with nxt have fprev: "prev_hash f = hash r" by simp
  have klast: "last kept = last rows" using k f by (metis last_drop drop_eq_Nil list.discI not_le)
  let ?new = "chain_rows C [new_entry now (RetentionPruned n l (hash r))] (last_seq s) (last_hash s)"
  have new_ok: "\<forall>x \<in> set ?new. row_ok C x" using serde by (metis chain_rows_ok)
  have lin': "linked (kept @ ?new)"
    using klin klast last f by (subst linked_append) (simp_all add: Let_def)
  have "1 \<le> l" using pos r by auto
  moreover have "\<exists>x \<in> set ?new. vouches C l (hash r) x"
    using serde by (simp add: Let_def vouches_def serde_roundtrip_def)
  ultimately have acc: "accounted C (kept @ ?new)"
    using f feq fprev by auto
  have "\<forall>x \<in> set (kept @ ?new). row_ok C x"
    using v new_ok memk by (auto simp: verified_def)
  moreover have "1 \<le> last_seq s" using pos last(1) rows(2) by (metis last_in_set)
  then have "1 \<le> seq x" if "x \<in> set (kept @ ?new)" for x
    using that pos memk [of x] chain_rows_pos [of x C _ "last_seq s" "last_hash s"] by force
  moreover have "table_head (kept @ ?new) =
      Some (end_seq (last_seq s) ?new, end_hash (last_hash s) ?new)"
    by (simp add: table_head_last Let_def)
  ultimately show ?thesis
    using lin' acc unfolding store_inv_def pruned_store_def verified_def Let_def by simp
qed

lemma prune_inv [inv_intros]:
  assumes "serde_roundtrip C" and "store_inv C s"
  shows "store_inv C (snd (prune_before C now fails cutoff s))"
  using store_inv_wf [OF assms(2)]
proof (cases rule: prune_cases [where C = C and now = now and fails = fails and cutoff = cutoff])
  case same
  with assms show ?thesis by simp
next
  case (pruned rows l r kept)
  with pruned_inv [OF assms pruned(1,2,3,4,5,6,7)] show ?thesis by simp
qed

lemma prune_slice:
  assumes sorted: "sorted_wrt (<) (map seq rows)" and r: "r \<in> set rows" "seq r = l"
    and last: "l < seq (last rows)" and n: "n = length rows - length (filter (\<lambda>x. l < seq x) rows)"
  shows "filter (\<lambda>x. l < seq x) rows = drop n rows" and "filter (\<lambda>x. seq x \<le> l) rows = take n rows"
    and "n < length rows" and "0 < n" and "rows ! (n - 1) = r"
proof -
  show kd: "filter (\<lambda>x. l < seq x) rows = drop n rows" and kt: "filter (\<lambda>x. seq x \<le> l) rows = take n rows"
    using sorted_filter_drop [OF sorted, of l] n by simp_all
  from r have ne: "rows \<noteq> []" by auto
  with last have "last rows \<in> set (drop n rows)" by (simp flip: kd)
  then show nlen: "n < length rows" by (metis drop_all equals0D list.set(1) not_less)
  have rt: "r \<in> set (take n rows)" using r by (simp flip: kt)
  then show n0: "0 < n" by (cases n) auto
  from rt obtain i where i: "i < n" "rows ! i = r"
    by (metis in_set_conv_nth length_take min_less_iff_conj nth_take)
  have "rows ! (n - 1) \<in> set (take n rows)"
    using n0 nlen by (auto simp: in_set_conv_nth intro!: exI [of _ "n - 1"])
  then have "seq (rows ! (n - 1)) \<le> seq r" using r by (simp flip: kt)
  moreover have "seq r < seq (rows ! (n - 1))" if "i < n - 1"
    using sorted that i nlen by (auto simp: sorted_wrt_iff_nth_less)
  ultimately have "\<not> i < n - 1" by force
  with i have "i = n - 1" by simp
  with i show "rows ! (n - 1) = r" by simp
qed

lemma sorted_window_length:
  assumes "sorted_wrt (<) (map seq xs)" and "\<And>x. x \<in> set xs \<Longrightarrow> a \<le> seq x \<and> seq x < a + int k"
  shows "length xs \<le> k"
proof -
  have "distinct (map seq xs)" using assms(1) by (simp add: strict_sorted_iff)
  then have "length xs = card (seq ` set xs)" by (metis distinct_card length_map list.set_map)
  also have "\<dots> \<le> card {a ..< a + int k}"
    using assms(2) by (intro card_mono) auto
  finally show ?thesis by simp
qed

text \<open>What a pruning run of \<open>n\<close> records did, whatever state the table was in.\<close>

definition pruned_by :: "codec \<Rightarrow> time \<Rightarrow> nat \<Rightarrow> store \<Rightarrow> store \<Rightarrow> bool" where
  "pruned_by C now n s s' \<longleftrightarrow>
     (let rows = audit (conn s); cut_row = rows ! (n - 1) in
      \<exists>p. audit (conn s') = drop n rows @ [p] \<and> seq p = last_seq s + 1 \<and>
        body p = to_json C (new_entry now (RetentionPruned n (seq cut_row) (hash cut_row))))"

lemma prune_result:
  assumes wf: "table_wf s" and res: "prune_before C now fails cutoff s = (Inr n, s')"
    and rows: "rows = audit (conn s)"
  shows "n = 0 \<and> s' = s \<or>
     0 < n \<and> n < length rows \<and> n \<le> 20000 \<and>
     (\<forall>r \<in> set (take n rows). r_ts r < ts_column C cutoff) \<and> pruned_by C now n s s'"
  using wf
proof (cases rule: prune_cases [where C = C and now = now and fails = fails and cutoff = cutoff])
  case same
  with res show ?thesis by auto
next
  case (pruned rows' l r kept)
  from pruned(1) rows have [simp]: "rows' = rows" by simp
  from wf rows have sorted: "sorted_wrt (<) (map seq rows)" by (simp add: table_wf_def)
  note bounds = prune_last_bounds [OF sorted, of _ C cutoff "seq (last rows)" "seq (hd rows)",
      folded pruned(3) [simplified]]
  have llast: "l < seq (last rows)" using bounds(2) [of r] pruned(5,6) by simp
  from res pruned(7,8) have n: "n = length rows - length (filter (\<lambda>x. l < seq x) rows)"
    and s': "s' = pruned_store C now kept n l (hash r) s" by auto
  note slice = prune_slice [OF sorted pruned(5) [simplified] pruned(6) llast n]
  have del: "x \<in> set rows \<and> seq x \<le> l" if "x \<in> set (take n rows)" for x
    using that by (simp flip: slice(2))
  have old: "r_ts x < ts_column C cutoff" if "x \<in> set (take n rows)" for x
    using bounds(1) del [OF that] by blast
  have "seq (hd rows) \<le> seq x \<and> seq x < seq (hd rows) + int 20000" if "x \<in> set (take n rows)" for x
  proof -
    have "seq (hd rows) \<le> seq x" using sorted del [OF that] by (cases rows) auto
    moreover have "seq x < seq (hd rows) + MAX_PRUNE" using bounds(3) del [OF that] by blast
    ultimately show ?thesis by (simp add: MAX_PRUNE_def)
  qed
  moreover have "sorted_wrt (<) (map seq (take n rows))"
    using sorted by (metis sorted_wrt_take take_map)
  ultimately have "length (take n rows) \<le> 20000" by (rule sorted_window_length [rotated])
  moreover have "pruned_by C now n s s'"
    using slice(1,5) pruned(6,7) rows
    by (simp add: pruned_by_def s' pruned_store_def Let_def)
  ultimately show ?thesis using slice(3,4) old by simp
qed

section \<open>Opening a database\<close>

lemma open_store_clean:
  assumes inv: "store_inv C s"
  shows "open_store C now fails (conn s) = Inr s"
proof (cases "audit (conn s) = []")
  case True
  with inv have "chain_head (conn s) \<in> {None, Some (0, GENESIS_HASH)}" and "last_seq s = 0"
    and "last_hash s = GENESIS_HASH"
    by (simp_all add: store_inv_def)
  with True show ?thesis by (auto simp: open_store_def)
next
  case False
  with inv have "table_head (audit (conn s)) = Some (last_seq s, last_hash s)"
    and "chain_head (conn s) = Some (last_seq s, last_hash s)"
    by (simp_all add: store_inv_def)
  then show ?thesis by (simp add: open_store_def)
qed

definition found_seq :: "db \<Rightarrow> int" where
  "found_seq d = (case table_head (audit d) of None \<Rightarrow> 0 | Some (n, _) \<Rightarrow> n)"

lemma open_store_truncated:
  assumes head: "chain_head d = Some (w, wh)" and cut: "found_seq d < w"
    and le: "\<forall>r \<in> set (audit d). seq r \<le> w"
  shows "open_store C now False d =
    Inr (snd (append C False [new_entry now (TrailTruncated w (found_seq d))]
                \<lparr>conn = d, last_seq = w, last_hash = wh\<rparr>))"
  using assms
  by (auto simp: open_store_def found_seq_def append_def insert_entries_append Let_def
      split: option.splits sum.splits)

lemma linked_gap:
  assumes "rows \<noteq> []" and "new \<noteq> []" and "seq (hd new) \<noteq> seq (last rows) + 1"
  shows "\<not> linked (rows @ new)"
  using assms by (cases new) (auto simp: linked_append)

text \<open>The operations of a writer's life; a step keeps the old state when the operation fails.\<close>

datatype store_op =
    Append bool "audit_entry list"
  | Prune time bool time
  | Reopen time bool

definition store_step :: "codec \<Rightarrow> store \<Rightarrow> store_op \<Rightarrow> store" where
  "store_step C s op = (case op of
     Append fails es \<Rightarrow> snd (append C fails es s)
   | Prune now fails cutoff \<Rightarrow> snd (prune_before C now fails cutoff s)
   | Reopen now fails \<Rightarrow> (case open_store C now fails (conn s) of Inl _ \<Rightarrow> s | Inr s' \<Rightarrow> s'))"

lemma store_step_inv:
  assumes "serde_roundtrip C" and "store_inv C s"
  shows "store_inv C (store_step C s op)"
  using assms by (cases op) (simp_all add: store_step_def inv_intros open_store_clean)

text \<open>A step under the round-trip law of serde, as an instance of the run contract.\<close>

interpretation writer: stepper "store_step C" "\<lambda>s. serde_roundtrip C \<and> store_inv C s" for C
  by unfold_locales (simp add: store_step_inv)

section \<open>Tamper evidence\<close>

lemma split_at_newline:
  assumes "xs @ [c] @ ys = xs' @ [c] @ ys'" and "c \<notin> set xs" and "c \<notin> set xs'"
  shows "xs = xs' \<and> ys = ys'"
proof -
  have "takeWhile (\<lambda>x. x \<noteq> c) (xs @ [c] @ ys) = xs" "takeWhile (\<lambda>x. x \<noteq> c) (xs' @ [c] @ ys') = xs'"
    using assms(2,3) by (auto simp: takeWhile_append2 takeWhile_tail intro!: takeWhile_append2 [THEN trans])
  with assms(1) show ?thesis by auto
qed

text \<open>
  The hashed text of a record with a newline-free predecessor hash and body (hex, and JSON as serde
  writes it) determines the record, even against texts whose parts contain newlines.
\<close>

lemma hash_input_inject:
  assumes eq: "hash_input p n b = hash_input p' n' b'"
    and plain: "newline \<notin> set p" "newline \<notin> set b"
  shows "p = p' \<and> n = n' \<and> b = b'"
proof -
  have cnt: "count_list (hash_input q m c) newline = count_list q newline + count_list c newline + 2"
    for q m c
    by (simp add: hash_input_def int_str_no_newline count_notin)
  have "count_list p newline = 0" "count_list b newline = 0"
    using plain by (simp_all add: count_notin)
  with eq cnt [of p n b] cnt [of p' n' b'] have "count_list p' newline = 0" "count_list b' newline = 0"
    by simp_all
  then have plain': "newline \<notin> set p'" "newline \<notin> set b'"
    by (simp_all add: count_list_0_iff)
  have 1: "p = p' \<and> int_str n @ [newline] @ b = int_str n' @ [newline] @ b'"
    using eq plain plain' unfolding hash_input_def by (intro split_at_newline) auto
  then have "int_str n = int_str n' \<and> b = b'"
    by (intro split_at_newline) (auto simp: int_str_no_newline)
  with 1 show ?thesis by (auto dest: int_str_inject)
qed

definition row_input :: "row \<Rightarrow> string" where
  "row_input r = hash_input (prev_hash r) (seq r) (body r)"

text \<open>Two different hashed texts, one from each table, with the same SHA-256.\<close>

definition collision :: "codec \<Rightarrow> row list \<Rightarrow> row list \<Rightarrow> bool" where
  "collision C xs ys \<longleftrightarrow> (\<exists>r \<in> set xs. \<exists>r' \<in> set ys. row_input r \<noteq> row_input r' \<and>
     sha256_hex C (row_input r) = sha256_hex C (row_input r'))"

definition plain_row :: "row \<Rightarrow> bool" where
  "plain_row r \<longleftrightarrow> newline \<notin> set (prev_hash r) \<and> newline \<notin> set (body r)"

lemma row_eqI:
  assumes "seq r = seq r'" "prev_hash r = prev_hash r'" "body r = body r'" "hash r = hash r'"
    and "row_columns r = row_columns r'"
  shows "r = (r' :: row)"
  using assms by (cases r; cases r') (simp add: row_columns_def)

lemma same_hash_same_row:
  assumes "row_ok C r" and "row_ok C r'" and "hash r = hash r'" and "plain_row r"
    and "r \<in> set xs" and "r' \<in> set ys" and "\<not> collision C xs ys"
  shows "r = r'"
proof -
  from assms(1,2,3) have "sha256_hex C (row_input r) = sha256_hex C (row_input r')"
    by (simp add: row_ok_def record_hash_def row_input_def)
  with assms(5,6,7) have "row_input r = row_input r'" by (auto simp: collision_def)
  with assms(4) have "prev_hash r = prev_hash r' \<and> seq r = seq r' \<and> body r = body r'"
    unfolding row_input_def plain_row_def by (intro hash_input_inject) auto
  with assms(1,2,3) show ?thesis by (intro row_eqI) (auto simp: row_ok_def)
qed

lemma chain_determined:
  assumes xs: "\<forall>r \<in> set xs. row_ok C r \<and> plain_row r" "linked xs"
    and ys: "\<forall>r \<in> set ys. row_ok C r" "linked ys"
    and ends: "xs \<noteq> []" "ys \<noteq> []" "hash (last xs) = hash (last ys)" and nc: "\<not> collision C xs ys"
  shows "k < length xs \<Longrightarrow> k < length ys \<Longrightarrow> rev xs ! k = rev ys ! k"
proof (induction k)
  case 0
  from ends have "last xs = last ys"
    using xs ys nc by (intro same_hash_same_row [where xs = xs and ys = ys]) auto
  with ends show ?case by (simp add: rev_nth last_conv_nth)
next
  case (Suc k)
  let ?i = "length xs - Suc (Suc k)" and ?j = "length ys - Suc (Suc k)"
  have ij: "Suc ?i = length xs - Suc k" "Suc ?j = length ys - Suc k" using Suc.prems by simp_all
  from Suc have "xs ! Suc ?i = ys ! Suc ?j" by (simp add: rev_nth ij)
  with linked_nth_prev [OF xs(2), of ?i] linked_nth_prev [OF ys(2), of ?j] Suc.prems
  have "hash (xs ! ?i) = hash (ys ! ?j)" by simp
  then have "xs ! ?i = ys ! ?j"
    using xs ys nc Suc.prems by (intro same_hash_same_row [where xs = xs and ys = ys]) auto
  with Suc.prems show ?case by (simp add: rev_nth)
qed

lemma linked_rev_nth:
  assumes "linked xs" and "k < length xs"
  shows "seq (rev xs ! k) = seq (last xs) - int k"
proof -
  from assms(2) have "xs \<noteq> []" by auto
  then have "seq (last xs) = seq (hd xs) + int (length xs - 1)"
    using assms(1) by (simp add: last_conv_nth linked_nth)
  moreover have "seq (rev xs ! k) = seq (hd xs) + int (length xs - Suc k)"
    using assms by (simp add: rev_nth linked_nth)
  ultimately show ?thesis using assms(2) by simp
qed

end
