(* ===== verification/Reference_Codec.thy ===== *)
theory Reference_Codec
  imports Prelude Audit_Event Audit_Store
begin

text \<open>
  A concrete codec that satisfies every law the store's theorems assume of SHA-256, serde and
  chrono: the JSON of an entry is its number in a countable enumeration written as that many
  marks, the timestamp is its decimal text, the hash is the hexadecimal text itself. The witnesses
  of the store's properties use it.
\<close>

instance json :: countable by countable_datatype
instance user_identity :: countable by countable_datatype
instance severity :: countable by countable_datatype

lemma audit_value_countable:
  "\<exists>f :: 'a::countable audit_value_scheme \<Rightarrow> nat. inj f"
  by (rule exI [of _ "\<lambda>v. to_nat (data_type v, av_value v, audit_value.more v)"])
     (auto intro!: injI)

instance audit_value_ext :: (countable) countable
proof
  obtain f :: "'a audit_value_scheme \<Rightarrow> nat" where "inj f" using audit_value_countable by blast
  then show "\<exists>f :: ('a audit_value_ext) \<Rightarrow> nat. inj f" by blast
qed

instance client_context_ext :: (countable) countable
proof
  have "inj (\<lambda>c :: 'a client_context_scheme. to_nat (remote_addr c, application_uri c,
      application_name c, certificate_thumbprint c, user c, session_id c, client_context.more c))"
    by (auto intro!: injI)
  then show "\<exists>f :: ('a client_context_ext) \<Rightarrow> nat. inj f" by blast
qed

instance audit_event :: countable by countable_datatype

instance audit_entry_ext :: (countable) countable
proof
  have "inj (\<lambda>e :: 'a audit_entry_scheme. to_nat (ts e, e_target e, e_client e, e_event e,
      audit_entry.more e))"
    by (auto intro!: injI)
  then show "\<exists>f :: ('a audit_entry_ext) \<Rightarrow> nat. inj f" by blast
qed

definition hex_digit :: "nat \<Rightarrow> char" where
  "hex_digit n = char_of (if n < 10 then 48 + n else 87 + n)"

definition hexify :: "string \<Rightarrow> string" where
  "hexify s = concat (map (\<lambda>c. [hex_digit (of_char c div 16), hex_digit (of_char c mod 16)]) s)"

definition reference_codec :: codec where
  "reference_codec = \<lparr>sha256_hex = hexify, to_json = (\<lambda>e. replicate (to_nat e) CHR ''x''),
     from_json = (\<lambda>s. Some (from_nat (length s))), render_ts = int_str\<rparr>"

lemma reference_codec_roundtrip: "from_json reference_codec (to_json reference_codec e) = Some e"
  by (simp add: reference_codec_def)

lemma hex_digit_plain: "n < 16 \<Longrightarrow> hex_digit n \<noteq> newline"
proof -
  assume "n < 16"
  then have "of_char (hex_digit n) = (if n < 10 then 48 + n else 87 + n :: nat)"
    by (simp add: hex_digit_def)
  then have "of_char (hex_digit n) \<noteq> (10 :: nat)" by auto
  then show ?thesis by (auto simp: newline_def)
qed

lemma hexify_plain: "newline \<notin> set (hexify s)"
proof (induction s)
  case (Cons c s)
  have "of_char c < (256 :: nat)" by simp
  then have "of_char c div 16 < (16 :: nat)" by (intro less_mult_imp_div_less) simp
  moreover have "of_char c mod 16 < (16 :: nat)" by simp
  ultimately show ?case
    using Cons hex_digit_plain [of "of_char c div 16"] hex_digit_plain [of "of_char c mod 16"]
    by (auto simp: hexify_def)
qed (simp add: hexify_def)

lemma reference_codec_plain:
  "newline \<notin> set (sha256_hex reference_codec s)" "newline \<notin> set (to_json reference_codec e)"
  by (simp_all add: reference_codec_def hexify_plain) (simp add: newline_def)

end
