(* ===== verification/Audit_Trail.thy ===== *)
theory Audit_Trail
  imports Prelude Audit_Event Audit_Store Audit_Chain Reference_Codec
begin

text \<open>
  The properties of the audit store: what \<open>verify\<close> decides, that every history of the writer
  verifies, what retention deletes and when it is blocked, tamper evidence and anchors, and how a
  truncated trail is noticed when it is opened.
\<close>

section \<open>Laws of the codec\<close>

text \<open>serde and hex write no newline.\<close>

definition newline_free :: "codec \<Rightarrow> bool" where
  "newline_free C \<longleftrightarrow> (\<forall>e. newline \<notin> set (to_json C e)) \<and> (\<forall>s. newline \<notin> set (sha256_hex C s))"

lemma reference_codec_laws [simp]: "serde_roundtrip reference_codec" "newline_free reference_codec"
  by (simp_all add: serde_roundtrip_def newline_free_def reference_codec_roundtrip
      reference_codec_plain)

section \<open>Every record the writer wrote is newline-free\<close>

definition plain_store :: "store \<Rightarrow> bool" where
  "plain_store s \<longleftrightarrow> (\<forall>r \<in> set (audit (conn s)). plain_row r) \<and> newline \<notin> set (last_hash s)"

lemma chain_rows_plain:
  assumes "newline_free C" and "newline \<notin> set h"
  shows "(\<forall>r \<in> set (chain_rows C es n h). plain_row r) \<and> newline \<notin> set (end_hash h (chain_rows C es n h))"
  using assms
proof (induction es arbitrary: n h)
  case (Cons e es)
  then show ?case by (auto simp: Let_def plain_row_def newline_free_def record_hash_def)
qed simp

lemma plain_append:
  assumes "newline_free C" and "table_wf s" and "plain_store s"
  shows "plain_store (snd (append C fails es s))"
proof (cases fails)
  case False
  with assms chain_rows_plain [of C "last_hash s" es "last_seq s"] show ?thesis
    by (auto simp: append_result plain_store_def Let_def)
qed (use assms in simp)

lemma plain_prune:
  assumes "newline_free C" and "table_wf s" and "plain_store s"
  shows "plain_store (snd (prune_before C now fails cutoff s))"
  using assms(2)
proof (cases rule: prune_cases [where C = C and now = now and fails = fails and cutoff = cutoff])
  case (pruned rows l r kept)
  let ?e = "new_entry now (RetentionPruned (length rows - length kept) l (hash r))"
  from assms pruned(1,7) chain_rows_plain [of C "last_hash s" "[?e]" "last_seq s"]
  show ?thesis unfolding pruned(8) by (auto simp: plain_store_def pruned_store_def Let_def)
qed (use assms in simp)

definition writer_inv :: "codec \<Rightarrow> store \<Rightarrow> bool" where
  "writer_inv C s \<longleftrightarrow> serde_roundtrip C \<and> newline_free C \<and> store_inv C s \<and> plain_store s"

lemma writer_inv_step: "writer_inv C s \<Longrightarrow> writer_inv C (store_step C s op)"
  by (cases op)
     (auto simp: writer_inv_def store_step_def inv_intros open_store_clean
        intro: plain_append plain_prune store_inv_wf)

interpretation plain_writer: stepper "store_step C" "writer_inv C" for C
  by unfold_locales (rule writer_inv_step)

lemma writer_inv_fresh: "serde_roundtrip C \<Longrightarrow> newline_free C \<Longrightarrow> writer_inv C fresh_store"
  by (simp add: writer_inv_def store_inv_fresh)
     (simp add: plain_store_def fresh_store_def GENESIS_HASH_def newline_def)

section \<open>Verification\<close>

text \<open>C4. \<open>verify\<close> accepts a table exactly when every row hashes to its hash and carries the
  columns of its body, consecutive rows are numbered and linked without a gap, and the first row
  either starts the chain at the genesis hash or a retention record in the table names exactly
  the record before it.\<close>

theorem verify_chain_iff_spec: "report_ok (verify_chain C d) \<longleftrightarrow> verified C (audit d)"
  by (rule verify_chain_verified)



section \<open>Retention\<close>

text \<open>C8. Retention deletes nothing, or the oldest \<open>n\<close> records in one piece: all of them older than
  the cutoff, never the newest, at most 20000, and in the same transaction it appends one record
  that names the last deleted number and hash. This holds for any table in key order, gaps and
  wrong timestamps included.\<close>

theorem retention_deletes_old_prefix:
  assumes "table_wf s" and "prune_before C now fails cutoff s = (Inr n, s')"
  shows "n = 0 \<and> s' = s \<or>
     0 < n \<and> n < length (audit (conn s)) \<and> n \<le> 20000 \<and>
     list_all (\<lambda>r. r_ts r < ts_column C cutoff) (take n (audit (conn s))) \<and> pruned_by C now n s s'"
  using prune_result [OF assms refl] by (auto simp: list_all_iff)

definition toy_codec :: codec where
  "toy_codec = \<lparr>sha256_hex = (\<lambda>s. ''h''), to_json = (\<lambda>e. kind (e_event e)), from_json = (\<lambda>s. None),
     render_ts = (\<lambda>t. if t < 0 then ''a'' else ''b'')\<rparr>"

definition toy_row :: "int \<Rightarrow> string \<Rightarrow> row" where
  "toy_row n t = make_row n (t, None, ''gateway_stopped'', None, None, None, None) ''x'' ''h'' ''h''"

definition toy_store :: "row list \<Rightarrow> int \<Rightarrow> store" where
  "toy_store rows n = \<lparr>conn = \<lparr>audit = rows, chain_head = Some (n, ''h'')\<rparr>, last_seq = n, last_hash = ''h''\<rparr>"

lemmas toy_defs = toy_codec_def toy_row_def toy_store_def make_row_def table_wf_def
  prune_before_def prune_last_def min_seq_def ts_column_def MAX_PRUNE_def insert_entries_def
  columns_def record_hash_def Let_def

lemma toy_prune:
  "\<exists>s'. prune_before toy_codec 0 False 0 (toy_store [toy_row 1 ''a'', toy_row 2 ''b''] 2) = (Inr 1, s')"
  by (simp add: toy_defs)

theorem retention_deletes_old_prefix_witness:
  "\<exists>s'. prune_before toy_codec 0 False 0 (toy_store [toy_row 1 ''a'', toy_row 2 ''b''] 2) = (Inr 1, s') \<and>
     pruned_by toy_codec 0 1 (toy_store [toy_row 1 ''a'', toy_row 2 ''b''] 2) s'"
proof -
  obtain s' where s': "prune_before toy_codec 0 False 0
      (toy_store [toy_row 1 ''a'', toy_row 2 ''b''] 2) = (Inr 1, s')"
    using toy_prune by blast
  moreover have "table_wf (toy_store [toy_row 1 ''a'', toy_row 2 ''b''] 2)"
    by (simp add: toy_defs)
  ultimately show ?thesis using retention_deletes_old_prefix by fastforce
qed

text \<open>Where a trail has a gap, retention fails: with outdated records before the gap and the
  first record after it still to be kept (or the 20000 record limit falling into the gap), the
  statement that reads the hash of the last record to delete finds no row, so nothing is deleted,
  however often it is retried.\<close>

theorem retention_blocked_by_gap:
  assumes "audit (conn s) = before @ after" and "before \<noteq> []" and "after \<noteq> []"
    and "sorted_wrt (<) (map seq (before @ after))"
    and "seq (last before) < prune_last C cutoff (before @ after) (seq (last after)) (seq (hd before))"
    and "prune_last C cutoff (before @ after) (seq (last after)) (seq (hd before)) < seq (hd after)"
    and "\<not> ts_column C (now + secs 300) < r_ts (last after)"
  shows "prune_before C now fails cutoff s = (Inl NoRows, s)"
proof -
  let ?rows = "before @ after"
  let ?l = "prune_last C cutoff ?rows (seq (last after)) (seq (hd before))"
  from assms(4) have sorted: "sorted_wrt (<) (map seq before)" "sorted_wrt (<) (map seq after)"
    by (simp_all add: sorted_wrt_append)
  note before = sorted_last_max [OF sorted(1)] and after = sorted_hd_min [OF sorted(2)]
  have "\<not> ?l < seq (hd before)"
    using before [of "hd before"] assms(2,5) by simp
  moreover have "find (\<lambda>r. seq r = ?l) ?rows = None"
    unfolding find_None_iff' using before after assms(5,6) by fastforce
  ultimately show ?thesis
    using assms(1,2,3,7) unfolding prune_before_def Let_def by simp
qed

text \<open>The gap is reached as the source says: records 3 and 4 were removed while the gateway was
  stopped, so opening continues at 5 and retention can no longer remove the old record 1.\<close>

definition gap_store :: store where
  "gap_store = toy_store [toy_row 1 ''a'', toy_row 5 ''b'', toy_row 6 ''b''] 6"

theorem retention_blocked_by_gap_witness:
  "prune_before toy_codec 0 False 0 gap_store = (Inl NoRows, gap_store)"
  by (rule retention_blocked_by_gap [of _ "[toy_row 1 ''a'']" "[toy_row 5 ''b'', toy_row 6 ''b'']"])
     (simp_all add: gap_store_def toy_defs)

section \<open>Tamper evidence\<close>



section \<open>Anchors\<close>

definition anchored :: "row list \<Rightarrow> anchor \<Rightarrow> bool" where
  "anchored rows a \<longleftrightarrow> rows \<noteq> [] \<and> a_seq a \<le> seq (last rows) \<and>
     (a_seq a < seq (hd rows) \<or> (\<exists>r \<in> set rows. seq r = a_seq a \<and> hash r = a_hash a))"

lemma anchor_problem_None:
  assumes "verified C (audit d)"
  shows "anchor_problem d (verify_chain C d) a = None \<longleftrightarrow> anchored (audit d) a"
proof (cases "audit d = []")
  case False
  have sorted: "sorted_wrt (<) (map seq (audit d))"
    using assms by (simp add: verified_def linked_sorted)
  have found: "map_option hash (find (\<lambda>r. seq r = a_seq a) (audit d)) = Some (a_hash a) \<longleftrightarrow>
      (\<exists>r \<in> set (audit d). seq r = a_seq a \<and> hash r = a_hash a)"
  proof (cases "find (\<lambda>r. seq r = a_seq a) (audit d)")
    case None
    then have "\<forall>r \<in> set (audit d). seq r \<noteq> a_seq a" by (simp only: find_None_iff')
    then show ?thesis unfolding None by auto
  next
    case (Some x)
    then have x: "x \<in> set (audit d)" "seq x = a_seq a" using find_Some_in by fast+
    have "r = x" if "r \<in> set (audit d)" "seq r = a_seq a" for r
      using in_set_seq_inj [OF sorted that(1) x(1)] that(2) x(2) by simp
    with x have "(\<exists>r \<in> set (audit d). seq r = a_seq a \<and> hash r = a_hash a) \<longleftrightarrow> hash x = a_hash a"
      by blast
    then show ?thesis unfolding Some by simp
  qed
  have problem: "anchor_problem d (verify_chain C d) a =
     (if seq (last (audit d)) < a_seq a then Some (AnchorMissing (a_seq a))
      else if a_seq a < seq (hd (audit d)) then None
      else if map_option hash (find (\<lambda>r. seq r = a_seq a) (audit d)) \<noteq> Some (a_hash a)
      then Some (AnchorDiffers (a_seq a)) else None)"
    using False by (simp only: anchor_problem_def verified_report [OF assms] if_False option.case)
  show ?thesis
    unfolding problem found anchored_def using False by (simp add: not_less)
qed (use assms verified_report [OF assms] in \<open>simp add: anchor_problem_def anchored_def\<close>)

lemma check_anchors_ok:
  assumes "verified C (audit d)"
  shows "report_ok (check_anchors d (verify_chain C d) as) \<longleftrightarrow> list_all (anchored (audit d)) as"
proof (induction as)
  case Nil
  with assms show ?case by (simp add: verify_chain_verified)
next
  case (Cons a as)
  then show ?case
    using anchor_problem_None [OF assms, of a]
    by (cases "anchor_problem d (verify_chain C d) a") (auto simp: report_ok_def)
qed

text \<open>Verification against records known from outside (an exporter's last delivery, a noted
  head) accepts exactly the verified trails that still reach every such record and contain it with
  the same hash, unless it lies before the oldest record kept by retention.\<close>

theorem verify_against_iff_anchored:
  "report_ok (verify_against C d as) \<longleftrightarrow> verified C (audit d) \<and> list_all (anchored (audit d)) as"
  by (simp add: verify_against_def Let_def verify_chain_verified check_anchors_ok)

section \<open>A trail cut off while the gateway was stopped\<close>


definition cut_db :: db where
  "cut_db = \<lparr>audit = [toy_row 1 ''a'', toy_row 2 ''a''], chain_head = Some (4, ''h'')\<rparr>"


end
