(* ===== verification/Audit_Query.thy ===== *)
theory Audit_Query
  imports Prelude Text Audit_Event Audit_Store Audit_Chain Reference_Codec
begin

text \<open>
  The read side of src/audit/store.rs: the filtered query with its paging, and the alarm counts
  with their acknowledgements. \<open>json_extract\<close> of SQLite is the parameter \<open>J\<close> (the text at a path of
  a body, if it is there).
\<close>

section \<open>Text as SQLite and Rust handle it\<close>

text \<open>SQLite's \<open>lower\<close> folds ASCII letters only; \<open>instr\<close> is \<open>contains\<close>.\<close>

text \<open>A comparison with NULL is not true.\<close>

definition has_text :: "string \<Rightarrow> string option \<Rightarrow> bool" where
  "has_text v t = (case t of None \<Rightarrow> False | Some t \<Rightarrow> contains (ascii_lower t) (ascii_lower v))"

fun coalesce :: "'a option list \<Rightarrow> 'a option" where
  "coalesce [] = None"
| "coalesce (Some x # _) = Some x"
| "coalesce (None # xs) = coalesce xs"

section \<open>The filtered query\<close>

record audit_query =
  q_target :: "string option"
  q_kind :: "string option"
  q_user :: "string option"
  q_node_id :: "string option"
  since :: "time option"
  until :: "time option"
  before_seq :: "int option"
  q_after_seq :: "int option"
  q_kinds :: "string option"
  q_limit :: "nat option"

definition default_query :: audit_query where
  "default_query = \<lparr>q_target = None, q_kind = None, q_user = None, q_node_id = None, since = None,
     until = None, before_seq = None, q_after_seq = None, q_kinds = None, q_limit = None\<rparr>"

definition clause :: "'a option \<Rightarrow> ('a \<Rightarrow> bool) \<Rightarrow> bool" where
  "clause v p = (case v of None \<Rightarrow> True | Some v \<Rightarrow> p v)"

definition kind_list :: "string \<Rightarrow> string list" where
  "kind_list ks = filter (\<lambda>k. k \<noteq> []) (map trim (split_on CHR '','' ks))"

definition in_kinds :: "string \<Rightarrow> string \<Rightarrow> bool" where
  "in_kinds k ks = (let l = kind_list ks in l = [] \<or> k \<in> set l)"

definition query_matches :: "codec \<Rightarrow> (string \<Rightarrow> string \<Rightarrow> string option) \<Rightarrow> audit_query \<Rightarrow> row \<Rightarrow> bool" where
  "query_matches C J q r \<longleftrightarrow>
     clause (q_target q) (\<lambda>v. r_target r = Some v) \<and>
     clause (q_kind q) (\<lambda>v. r_kind r = v) \<and>
     clause (q_user q) (\<lambda>v. has_text v
        (coalesce [r_user r, J (body r) ''$.event.by'', J (body r) ''$.event.user''])) \<and>
     clause (q_node_id q) (\<lambda>v. has_text v (r_node_id r) \<or>
        has_text v (J (body r) ''$.event.display_name'')) \<and>
     clause (since q) (\<lambda>v. ts_column C v \<le> r_ts r) \<and>
     clause (until q) (\<lambda>v. r_ts r < ts_column C v) \<and>
     clause (before_seq q) (\<lambda>v. seq r < v) \<and>
     clause (q_after_seq q) (\<lambda>v. v < seq r) \<and>
     clause (q_kinds q) (in_kinds (r_kind r))"

definition query_limit :: "audit_query \<Rightarrow> nat" where
  "query_limit q = min (max (case q_limit q of None \<Rightarrow> 100 | Some l \<Rightarrow> l) 1) 1000"

text \<open>Newest records first.\<close>

definition query :: "codec \<Rightarrow> (string \<Rightarrow> string \<Rightarrow> string option) \<Rightarrow> db \<Rightarrow> audit_query
    \<Rightarrow> store_error + stored_record list" where
  "query C J d q = read_rows C (take (query_limit q) (rev (filter (query_matches C J q) (audit d))))"

section \<open>Alarms\<close>

record alarm_count =
  al_severity :: severity
  acknowledged_up_to :: int
  unacknowledged :: nat
  al_kinds :: "string list"

fun add_marks :: "codec \<Rightarrow> (severity \<rightharpoonup> int) \<Rightarrow> string list \<Rightarrow> (severity \<rightharpoonup> int)" where
  "add_marks C m [] = m"
| "add_marks C m (b # bs) =
     (case from_json C b of
        None \<Rightarrow> add_marks C m bs
      | Some e \<Rightarrow>
          (case e_event e of
             AlarmsAcknowledged _ sev up_to _ \<Rightarrow>
               add_marks C (case m sev of None \<Rightarrow> m(sev \<mapsto> up_to) | Some _ \<Rightarrow> m) bs
           | _ \<Rightarrow> add_marks C m bs))"

definition ack_bodies :: "db \<Rightarrow> string list" where
  "ack_bodies d = map body (take 100 (rev (filter (\<lambda>r. r_kind r = ''alarms_acknowledged'') (audit d))))"

definition alarm_row :: "db \<Rightarrow> (severity \<rightharpoonup> int) \<Rightarrow> severity \<Rightarrow> alarm_count" where
  "alarm_row d marks sev =
     (let mark = (case marks sev of None \<Rightarrow> 0 | Some n \<Rightarrow> n)
      in \<lparr>al_severity = sev, acknowledged_up_to = mark,
          unacknowledged = length (filter (\<lambda>r. mark < seq r \<and> r_kind r \<in> set (kinds sev)) (audit d)),
          al_kinds = kinds sev\<rparr>)"

definition alarms :: "codec \<Rightarrow> db \<Rightarrow> alarm_count list" where
  "alarms C d = map (alarm_row d (add_marks C (\<lambda>_. None) (ack_bodies d))) severity_ALL"


section \<open>Pages\<close>

lemma read_rows_append:
  "read_rows C (xs @ ys) =
     (case read_rows C xs of Inl err \<Rightarrow> Inl err
      | Inr a \<Rightarrow> (case read_rows C ys of Inl err \<Rightarrow> Inl err | Inr b \<Rightarrow> Inr (a @ b)))"
  by (induction xs) (auto split: option.splits sum.splits)

lemma read_rows_seqs: "read_rows C rows = Inr out \<Longrightarrow> map sr_seq out = map seq rows"
  by (induction rows arbitrary: out) (auto split: option.splits sum.splits)

lemma filter_and: "filter (\<lambda>x. P x \<and> Q x) xs = filter P (filter Q xs)"
  by (simp add: conj_commute)

text \<open>Below the last of the first \<open>n\<close> of a decreasing list lies exactly the rest.\<close>

lemma below_page:
  fixes f :: "'a \<Rightarrow> int"
  assumes "sorted_wrt (>) (map f xs)" and "take n xs \<noteq> []"
  shows "filter (\<lambda>x. f x < f (last (take n xs))) xs = drop n xs"
proof -
  let ?p = "take n xs"
  from assms(2) obtain ys y where p: "?p = ys @ [y]" by (metis rev_exhaust)
  from assms(1) have "sorted_wrt (>) (map f (ys @ [y] @ drop n xs))"
    by (metis append_assoc append_take_drop_id p)
  then have "filter (\<lambda>x. f x < f y) (ys @ [y] @ drop n xs) = drop n xs"
    by (auto simp: sorted_wrt_append filter_eq_Nil_iff intro!: filter_True)
  with p show ?thesis by (metis append_assoc append_take_drop_id last_snoc)
qed

definition next_page :: "audit_query \<Rightarrow> stored_record list \<Rightarrow> nat \<Rightarrow> audit_query" where
  "next_page q page limit = q\<lparr>before_seq := Some (sr_seq (last page)), q_limit := Some limit\<rparr>"

lemma query_matches_before:
  "query_matches C J (q\<lparr>before_seq := Some b, q_limit := l\<rparr>) r \<longleftrightarrow>
     query_matches C J (q\<lparr>before_seq := None\<rparr>) r \<and> seq r < b"
  by (auto simp: query_matches_def clause_def)

lemma query_matches_bound:
  "query_matches C J q r \<longleftrightarrow> query_matches C J (q\<lparr>before_seq := None\<rparr>) r \<and> clause (before_seq q) (\<lambda>v. seq r < v)"
  by (auto simp: query_matches_def clause_def)

lemma rev_filter_sorted:
  assumes "sorted_wrt (<) (map seq rows)"
  shows "sorted_wrt (>) (map seq (rev (filter P rows)))"
proof -
  from assms have "sorted_wrt (<) (map seq (filter P rows))"
    by (simp add: sorted_wrt_map sorted_wrt_filter)
  then show ?thesis by (simp add: sorted_wrt_rev flip: rev_map)
qed

lemma next_page_rows:
  assumes "sorted_wrt (<) (map seq rows)" and "M = rev (filter (query_matches C J q) rows)"
    and "take n M \<noteq> []" and "b = seq (last (take n M))"
  shows "rev (filter (query_matches C J (q\<lparr>before_seq := Some b, q_limit := l\<rparr>)) rows) = drop n M"
proof -
  let ?m = "query_matches C J (q\<lparr>before_seq := None\<rparr>)"
  have low: "clause (before_seq q) (\<lambda>v. seq r < v)" if "seq r < b" for r
  proof -
    from assms(3) have "last (take n M) \<in> set M" by (meson in_set_takeD last_in_set)
    then have "query_matches C J q (last (take n M))" by (simp add: assms(2))
    then have "clause (before_seq q) (\<lambda>v. b < v)" by (simp add: query_matches_bound [of C J q] assms(4))
    with that show ?thesis by (auto simp: clause_def split: option.splits)
  qed
  have "query_matches C J (q\<lparr>before_seq := Some b, q_limit := l\<rparr>) r \<longleftrightarrow>
      seq r < b \<and> query_matches C J q r" for r
    unfolding query_matches_before query_matches_bound [of C J q] using low by blast
  then have "query_matches C J (q\<lparr>before_seq := Some b, q_limit := l\<rparr>) =
      (\<lambda>r. seq r < b \<and> query_matches C J q r)" by blast
  then have "rev (filter (query_matches C J (q\<lparr>before_seq := Some b, q_limit := l\<rparr>)) rows) =
      filter (\<lambda>r. seq r < b) M"
    by (simp only: assms(2) rev_filter filter_and)
  also have "\<dots> = drop n M"
    unfolding assms(4)
    by (rule below_page) (use rev_filter_sorted [OF assms(1)] assms(2,3) in auto)
  finally show ?thesis .
qed

text \<open>Paging backwards through a query loses and repeats nothing: a page, and then the page asked
  for below its last record, are together the newest records that match, as if they had been asked
  for in one query.\<close>

theorem query_pages_compose:
  assumes "sorted_wrt (<) (map seq (audit d))"
    and "query C J d q = Inr page" and "page \<noteq> []"
    and "query C J d (next_page q page limit) = Inr page'"
  shows "read_rows C (take (query_limit q + query_limit (next_page q page limit))
           (rev (filter (query_matches C J q) (audit d)))) = Inr (page @ page')"
proof -
  define M where "M = rev (filter (query_matches C J q) (audit d))"
  let ?n = "query_limit q" and ?q' = "next_page q page limit"
  from assms(2) have page: "read_rows C (take ?n M) = Inr page" by (simp add: query_def M_def)
  from read_rows_seqs [OF this] assms(3) have ne: "take ?n M \<noteq> []" by (metis map_is_Nil_conv)
  with read_rows_seqs [OF page] assms(3) have "sr_seq (last page) = seq (last (take ?n M))"
    by (metis last_map)
  from next_page_rows [OF assms(1) M_def ne this]
  have "read_rows C (take (query_limit ?q') (drop ?n M)) = Inr page'"
    using assms(4) by (simp add: query_def next_page_def)
  with page show ?thesis
    unfolding M_def [symmetric] by (simp add: take_add read_rows_append)
qed

definition page_codec :: codec where
  "page_codec = \<lparr>sha256_hex = (\<lambda>s. ''h''), to_json = (\<lambda>e. kind (e_event e)),
     from_json = (\<lambda>b. Some (new_entry 0
        (if b = ''e'' then AlarmsAcknowledged ''op'' Error 1 1
         else if b = ''w'' then AlarmsAcknowledged ''op'' Warning 1 0 else EventsLost 1))),
     render_ts = (\<lambda>t. ''t'')\<rparr>"

definition page_row :: "int \<Rightarrow> string \<Rightarrow> row" where
  "page_row n b = make_row n (columns page_codec (the (from_json page_codec b))) b ''h'' ''h''"

definition page_db :: db where
  "page_db = \<lparr>audit = [page_row 1 ''e'', page_row 2 ''x'', page_row 3 ''w''], chain_head = None\<rparr>"

lemma page_codec_reads:
  "from_json page_codec ''e'' = Some (new_entry 0 (AlarmsAcknowledged ''op'' Error 1 1))"
  "from_json page_codec ''w'' = Some (new_entry 0 (AlarmsAcknowledged ''op'' Warning 1 0))"
  "from_json page_codec ''x'' = Some (new_entry 0 (EventsLost 1))"
  by (simp_all add: page_codec_def)

lemma page_row_fields [simp]:
  "seq (page_row n b) = n" "body (page_row n b) = b"
  by (simp_all add: page_row_def)

lemma page_row_kind [simp]:
  "r_kind (page_row n b) = kind (e_event (the (from_json page_codec b)))"
  by (simp add: page_row_def make_row_def columns_def)

theorem query_pages_compose_witness:
  "let q = default_query\<lparr>q_limit := Some 1\<rparr>;
       p = [\<lparr>sr_seq = 3, sr_hash = ''h'', sr_prev_hash = ''h'',
             sr_entry = new_entry 0 (AlarmsAcknowledged ''op'' Warning 1 0)\<rparr>];
       p' = [\<lparr>sr_seq = 2, sr_hash = ''h'', sr_prev_hash = ''h'', sr_entry = new_entry 0 (EventsLost 1)\<rparr>]
   in read_rows page_codec (take 2 (rev (filter (query_matches page_codec (\<lambda>_ _. None) q)
        (audit page_db)))) = Inr (p @ p')"
proof -
  let ?q = "default_query\<lparr>q_limit := Some 1\<rparr>"
  let ?p = "[\<lparr>sr_seq = 3, sr_hash = ''h'', sr_prev_hash = ''h'',
             sr_entry = new_entry 0 (AlarmsAcknowledged ''op'' Warning 1 0)\<rparr>]"
  let ?p' = "[\<lparr>sr_seq = 2, sr_hash = ''h'', sr_prev_hash = ''h'', sr_entry = new_entry 0 (EventsLost 1)\<rparr>]"
  have fields: "hash (page_row n b) = ''h''" "prev_hash (page_row n b) = ''h''" for n b
    by (simp_all add: page_row_def)
  note eval = query_def query_matches_def query_limit_def clause_def default_query_def page_db_def
    page_codec_reads fields next_page_def
  have sorted: "sorted_wrt (<) (map seq (audit page_db))" by (simp add: page_db_def)
  have first: "query page_codec (\<lambda>_ _. None) page_db ?q = Inr ?p" by (simp add: eval)
  have second: "query page_codec (\<lambda>_ _. None) page_db (next_page ?q ?p 1) = Inr ?p'"
    by (simp add: eval)
  have "query_limit ?q + query_limit (next_page ?q ?p 1) = 2"
    by (simp add: query_limit_def next_page_def)
  with query_pages_compose [OF sorted first _ second] show ?thesis by simp
qed

section \<open>What the alarm counts mean\<close>

text \<open>The acknowledgement a record holds for a severity, and the last one in a trail (0: never).\<close>

definition ack_up_to :: "codec \<Rightarrow> severity \<Rightarrow> string \<Rightarrow> int option" where
  "ack_up_to C sev b = (case from_json C b of
     Some e \<Rightarrow> (case e_event e of AlarmsAcknowledged _ s u _ \<Rightarrow> if s = sev then Some u else None | _ \<Rightarrow> None)
   | None \<Rightarrow> None)"

definition last_ack :: "codec \<Rightarrow> row list \<Rightarrow> severity \<Rightarrow> int" where
  "last_ack C rows sev = (case rev (List.map_filter (ack_up_to C sev) (map body rows)) of
     [] \<Rightarrow> 0 | u # _ \<Rightarrow> u)"

definition is_alarm :: "codec \<Rightarrow> severity \<Rightarrow> row \<Rightarrow> bool" where
  "is_alarm C sev r = (case from_json C (body r) of
     Some e \<Rightarrow> kind (e_event e) \<in> set (kinds sev) | None \<Rightarrow> False)"

lemma ack_up_to_event:
  "from_json C b = Some e \<Longrightarrow> e_event e = AlarmsAcknowledged x s u n \<Longrightarrow>
     ack_up_to C sev b = (if s = sev then Some u else None)"
  "from_json C b = None \<Longrightarrow> ack_up_to C sev b = None"
  by (simp_all add: ack_up_to_def)

lemma no_ack_case:
  "\<nexists>x s u n. ev = AlarmsAcknowledged x s u n \<Longrightarrow>
     (case ev of AlarmsAcknowledged x s u n \<Rightarrow> f s u | _ \<Rightarrow> d) = d"
  by (cases ev) simp_all

lemma no_ack_event:
  assumes "from_json C b = Some e" and "\<nexists>x s u n. e_event e = AlarmsAcknowledged x s u n"
  shows "add_marks C m (b # bs) = add_marks C m bs" "ack_up_to C sev b = None"
  by (simp_all only: add_marks.simps ack_up_to_def assms(1) option.case no_ack_case [OF assms(2)])

lemma add_marks_first:
  "add_marks C m bs sev = (case m sev of Some u \<Rightarrow> Some u | None \<Rightarrow>
     (case List.map_filter (ack_up_to C sev) bs of [] \<Rightarrow> None | u # _ \<Rightarrow> Some u))"
proof (induction bs arbitrary: m)
  case (Cons b bs)
  show ?case
  proof (cases "\<exists>e x s u n. from_json C b = Some e \<and> e_event e = AlarmsAcknowledged x s u n")
    case True
    then obtain e x s u n where e: "from_json C b = Some e" "e_event e = AlarmsAcknowledged x s u n"
      by blast
    then show ?thesis
      by (auto simp: Cons.IH ack_up_to_event(1) [OF e] split: option.splits)
  next
    case False
    have "add_marks C m (b # bs) = add_marks C m bs \<and> ack_up_to C sev b = None"
    proof (cases "from_json C b")
      case None
      then show ?thesis by (simp only: add_marks.simps ack_up_to_def option.case simp_thms)
    next
      case (Some e)
      with False have "\<nexists>x s u n. e_event e = AlarmsAcknowledged x s u n" by blast
      from no_ack_event [OF Some this] show ?thesis by blast
    qed
    then show ?thesis by (simp only: Cons.IH map_filter_simps option.case)
  qed
qed (simp split: option.splits)

lemma alarm_row_first:
  "alarm_row d (add_marks C (\<lambda>_. None) bs) sev =
     (let mark = (case List.map_filter (ack_up_to C sev) bs of [] \<Rightarrow> 0 | u # _ \<Rightarrow> u)
      in \<lparr>al_severity = sev, acknowledged_up_to = mark,
          unacknowledged = length (filter (\<lambda>r. mark < seq r \<and> r_kind r \<in> set (kinds sev)) (audit d)),
          al_kinds = kinds sev\<rparr>)"
  by (simp add: alarm_row_def add_marks_first split: list.splits)

text \<open>In a verified table the kind column is the kind of the record.\<close>

lemma row_ok_kind:
  "row_ok C r \<Longrightarrow> \<exists>e. from_json C (body r) = Some e \<and> r_kind r = kind (e_event e)"
  by (auto simp: row_ok_def row_columns_def columns_def)

lemma row_ok_alarm: "row_ok C r \<Longrightarrow> is_alarm C sev r \<longleftrightarrow> r_kind r \<in> set (kinds sev)"
  by (auto simp: is_alarm_def dest: row_ok_kind)

lemma row_ok_ack:
  assumes "row_ok C r" and "r_kind r \<noteq> ''alarms_acknowledged''"
  shows "ack_up_to C sev (body r) = None"
proof -
  obtain e where e: "from_json C (body r) = Some e" "r_kind r = kind (e_event e)"
    using row_ok_kind [OF assms(1)] by blast
  then have "\<nexists>x s u n. e_event e = AlarmsAcknowledged x s u n" using assms(2) by auto
  from no_ack_event(2) [OF e(1) this] show ?thesis .
qed

lemma map_filter_rev: "List.map_filter f (rev xs) = rev (List.map_filter f xs)"
  by (simp add: List.map_filter_def rev_filter rev_map)

lemma map_filter_acks:
  assumes "\<forall>r \<in> set rows. row_ok C r"
  shows "List.map_filter (ack_up_to C sev) (map body (filter (\<lambda>r. r_kind r = ''alarms_acknowledged'') rows)) =
     List.map_filter (ack_up_to C sev) (map body rows)"
  using assms by (induction rows) (auto simp: row_ok_ack split: option.splits)

text \<open>In a verified trail with at most 100 acknowledgements the alarm counts are what they say: per
  severity the number up to which it was last acknowledged, and how many alarm records of that
  severity came after it.\<close>

theorem alarms_count_unacknowledged:
  assumes "verified C (audit d)"
    and "length (filter (\<lambda>r. r_kind r = ''alarms_acknowledged'') (audit d)) \<le> 100"
  shows "alarms C d = map (\<lambda>sev. \<lparr>al_severity = sev,
     acknowledged_up_to = last_ack C (audit d) sev,
     unacknowledged = length (filter (\<lambda>r. last_ack C (audit d) sev < seq r \<and> is_alarm C sev r) (audit d)),
     al_kinds = kinds sev\<rparr>) [Warning, Error]"
proof -
  let ?acks = "filter (\<lambda>r. r_kind r = ''alarms_acknowledged'') (audit d)"
  from assms(1) have ok: "\<forall>r \<in> set (audit d). row_ok C r" by (simp add: verified_def)
  from assms(2) have "ack_bodies d = rev (map body ?acks)" by (simp add: ack_bodies_def rev_map)
  then have marks: "(case List.map_filter (ack_up_to C sev) (ack_bodies d) of [] \<Rightarrow> 0 | u # _ \<Rightarrow> u) =
      last_ack C (audit d) sev" for sev
    by (simp add: map_filter_rev map_filter_acks [OF ok] last_ack_def)
  have "filter (\<lambda>r. k < seq r \<and> r_kind r \<in> set (kinds sev)) (audit d) =
      filter (\<lambda>r. k < seq r \<and> is_alarm C sev r) (audit d)" for k sev
    using ok by (intro filter_cong) (auto simp: row_ok_alarm)
  then show ?thesis by (simp add: alarms_def alarm_row_first marks Let_def severity_ALL_def del: kinds.simps)
qed

text \<open>When the 100 newest acknowledgements are all of one severity, the acknowledgement of the
  other is forgotten: its alarms all count as unacknowledged again.\<close>

theorem old_acknowledgement_forgotten:
  assumes "list_all (\<lambda>b. ack_up_to C other b \<noteq> None) (ack_bodies d)" and "other \<noteq> sev"
    and "list_all (\<lambda>r. 0 < seq r) (audit d)"
  shows "alarm_row d (add_marks C (\<lambda>_. None) (ack_bodies d)) sev = \<lparr>al_severity = sev,
     acknowledged_up_to = 0,
     unacknowledged = length (filter (\<lambda>r. r_kind r \<in> set (kinds sev)) (audit d)), al_kinds = kinds sev\<rparr>"
proof -
  have "ack_up_to C other b \<noteq> None \<Longrightarrow> ack_up_to C sev b = None" for b
    using assms(2) by (auto simp: ack_up_to_def split: option.splits audit_event.splits if_splits)
  with assms(1) have "List.map_filter (ack_up_to C sev) (ack_bodies d) = []"
    by (auto simp: List.map_filter_def list_all_iff filter_empty_conv)
  moreover have "filter (\<lambda>r. 0 < seq r \<and> r_kind r \<in> set (kinds sev)) (audit d) =
      filter (\<lambda>r. r_kind r \<in> set (kinds sev)) (audit d)"
    using assms(3) by (intro filter_cong) (auto simp: list_all_iff)
  ultimately show ?thesis by (simp add: alarm_row_first Let_def)
qed

definition forgetful_db :: db where
  "forgetful_db = \<lparr>audit = page_row 1 ''x'' # page_row 2 ''e'' #
     map (\<lambda>n. page_row (3 + int n) ''w'') [0..<100], chain_head = None\<rparr>"

lemma forgetful_acks: "ack_bodies forgetful_db = replicate 100 ''w''"
proof -
  let ?ws = "map (\<lambda>n. page_row (3 + int n) ''w'') [0..<100]"
  have "filter (\<lambda>r. r_kind r = ''alarms_acknowledged'') (audit forgetful_db) = page_row 2 ''e'' # ?ws"
    by (auto simp: forgetful_db_def page_codec_reads intro!: filter_True)
  then have "ack_bodies forgetful_db = map body (rev ?ws)" by (simp add: ack_bodies_def)
  also have "\<dots> = replicate 100 ''w''"
    by (simp only: rev_map [symmetric] map_map) (simp add: comp_def map_replicate_const)
  finally show ?thesis .
qed

theorem old_acknowledgement_forgotten_witness:
  "last_ack page_codec (audit forgetful_db) Error = 1 \<and>
   alarm_row forgetful_db (add_marks page_codec (\<lambda>_. None) (ack_bodies forgetful_db)) Error =
     \<lparr>al_severity = Error, acknowledged_up_to = 0, unacknowledged = 1, al_kinds = kinds Error\<rparr>"
proof -
  let ?ws = "map (\<lambda>n. page_row (3 + int n) ''w'') [0..<100]"
  have w: "ack_up_to page_codec Error ''w'' = None" "ack_up_to page_codec Error ''e'' = Some 1"
    "ack_up_to page_codec Error ''x'' = None" "ack_up_to page_codec Warning ''w'' = Some 1"
    by (simp_all add: ack_up_to_def page_codec_reads)
  have none: "List.map_filter (ack_up_to page_codec Error) (map body ?ws) = []"
    by (auto simp: List.map_filter_def filter_empty_conv w)
  then have "last_ack page_codec (audit forgetful_db) Error = 1"
    by (simp add: last_ack_def forgetful_db_def w del: upt.simps)
  moreover have "filter (\<lambda>r. r_kind r \<in> set (kinds Error)) (audit forgetful_db) = [page_row 1 ''x'']"
    by (auto simp: forgetful_db_def page_codec_reads filter_empty_conv)
  moreover have "list_all (\<lambda>r. 0 < seq r) (audit forgetful_db)"
    by (auto simp: forgetful_db_def list_all_iff)
  moreover have "list_all (\<lambda>b. ack_up_to page_codec Warning b \<noteq> None) (ack_bodies forgetful_db)"
    by (simp add: forgetful_acks w list_all_iff)
  ultimately show ?thesis
    using old_acknowledgement_forgotten [of page_codec Warning forgetful_db Error] by simp
qed

theorem alarms_count_unacknowledged_witness:
  "alarms page_codec \<lparr>audit = [], chain_head = None\<rparr> = map (\<lambda>sev. \<lparr>al_severity = sev,
     acknowledged_up_to = 0, unacknowledged = 0, al_kinds = kinds sev\<rparr>) [Warning, Error]"
  using alarms_count_unacknowledged [of page_codec "\<lparr>audit = [], chain_head = None\<rparr>"]
  by (simp add: verified_def last_ack_def)

end
