(* ===== verification/Written_Nodes.thy ===== *)
theory Written_Nodes
  imports Prelude Text Audit_Event Audit_Store Audit_Query "HOL-Library.Multiset"
begin

text \<open>
  The nodes written most often (\<open>most_written\<close> of src/audit/store.rs). SQLite may list nodes with as many
  writes in any order, in the inner and in the outer query: the arguments \<open>O1\<close> and \<open>O2\<close> arrange the groups.
\<close>

section \<open>The query\<close>

record written_filter =
  wf_target :: "string option"
  wf_client :: "string option"

record written_node =
  wn_target :: "string option"
  wn_node_id :: string
  wn_display_name :: "string option"
  wn_count :: nat
  wn_last :: stored_record

text \<open>The address with or without its port, or the application URI.\<close>

definition from_client :: "string \<Rightarrow> row \<Rightarrow> bool" where
  "from_client c r \<longleftrightarrow> r_application_uri r = Some c \<or>
     (case r_remote_addr r of None \<Rightarrow> False
      | Some a \<Rightarrow> a = c \<or> starts_with a (c @ '':'') \<or> starts_with a (''['' @ c @ '']:''))"

definition counts_write :: "codec \<Rightarrow> time \<Rightarrow> written_filter \<Rightarrow> row \<Rightarrow> bool" where
  "counts_write C after f r \<longleftrightarrow> r_kind r = ''write'' \<and> ts_column C after \<le> r_ts r \<and>
     clause (wf_target f) (\<lambda>v. r_target r = Some v) \<and> clause (wf_client f) (\<lambda>v. from_client v r)"

type_synonym written_key = "string option \<times> string option"

abbreviation write_key :: "row \<Rightarrow> written_key" where
  "write_key r \<equiv> (r_target r, r_node_id r)"

record written_group =
  wg_key :: written_key
  wg_count :: nat
  wg_last :: int

definition group_of :: "row list \<Rightarrow> written_key \<Rightarrow> written_group" where
  "group_of ws k = (let own = filter (\<lambda>r. write_key r = k) ws
     in \<lparr>wg_key = k, wg_count = length own, wg_last = fold max (map seq own) 0\<rparr>)"

definition written_groups :: "row list \<Rightarrow> written_group list" where
  "written_groups ws = map (group_of ws) (remdups (map write_key ws))"

definition most_first :: "(written_group list \<Rightarrow> written_group list) \<Rightarrow> written_group list \<Rightarrow> written_group list" where
  "most_first A gs = sort_key (\<lambda>g. - int (wg_count g)) (A gs)"

definition node_shown :: "codec \<Rightarrow> db \<Rightarrow> written_group \<Rightarrow> store_error + written_node option" where
  "node_shown C d g = (case find (\<lambda>r. seq r = wg_last g) (audit d) of
     None \<Rightarrow> Inr None
   | Some r \<Rightarrow> (case from_json C (body r) of
       None \<Rightarrow> Inl (UnreadableRecord (seq r))
     | Some e \<Rightarrow> Inr (Some \<lparr>wn_target = fst (wg_key g), wn_node_id = (case snd (wg_key g) of Some n \<Rightarrow> n | None \<Rightarrow> []),
         wn_display_name = (case e_event e of EvWrite _ _ name _ _ _ _ _ _ _ _ \<Rightarrow> name | _ \<Rightarrow> None), wn_count = wg_count g,
         wn_last = \<lparr>sr_seq = seq r, sr_hash = hash r, sr_prev_hash = prev_hash r, sr_entry = e\<rparr>\<rparr>)))"

fun written_nodes :: "codec \<Rightarrow> db \<Rightarrow> written_group list \<Rightarrow> store_error + written_node list" where
  "written_nodes C d [] = Inr []"
| "written_nodes C d (g # gs) = (case node_shown C d g of
     Inl e \<Rightarrow> Inl e
   | Inr w \<Rightarrow> (case written_nodes C d gs of Inl e \<Rightarrow> Inl e
      | Inr ws \<Rightarrow> Inr (case w of None \<Rightarrow> ws | Some w \<Rightarrow> w # ws)))"

definition most_written :: "(written_group list \<Rightarrow> written_group list) \<Rightarrow> (written_group list \<Rightarrow> written_group list)
    \<Rightarrow> codec \<Rightarrow> db \<Rightarrow> time \<Rightarrow> nat \<Rightarrow> written_filter \<Rightarrow> store_error + written_node list" where
  "most_written O1 O2 C d after limit f =
     written_nodes C d (most_first O2 (take limit (most_first O1 (written_groups (filter (counts_write C after f) (audit d))))))"

section \<open>What is listed\<close>

definition arranges :: "(written_group list \<Rightarrow> written_group list) \<Rightarrow> bool" where
  "arranges A \<longleftrightarrow> (\<forall>gs. mset (A gs) = mset gs)"

lemma most_first_mset: "arranges A \<Longrightarrow> mset (most_first A gs) = mset gs"
  by (simp add: most_first_def arranges_def)

lemma most_first_set: "arranges A \<Longrightarrow> set (most_first A gs) = set gs"
  using most_first_mset [of A gs] by (metis set_mset_mset)

lemma most_first_sorted: "sorted_wrt (\<lambda>a b. wg_count b \<le> wg_count a) (most_first A gs)"
  using sorted_sort_key [of "\<lambda>g. - int (wg_count g)" "A gs"]
  by (simp add: most_first_def sorted_map [of "\<lambda>g. - int (wg_count g)"] sorted_wrt_map)

lemma fold_max_seq: "\<forall>r \<in> set rs. (0::int) < seq r \<Longrightarrow> 0 \<le> m \<Longrightarrow>
    fold max (map seq rs) m \<in> insert m (seq ` set rs) \<and> m \<le> fold max (map seq rs) m \<and> (\<forall>r \<in> set rs. seq r \<le> fold max (map seq rs) m)"
proof (induction rs arbitrary: m)
  case (Cons r rs)
  from Cons.IH [of "max (seq r) m"] Cons.prems show ?case by (auto simp: max_def split: if_splits)
qed simp

text \<open>A group's record is the newest of its writes.\<close>

lemma group_last:
  assumes "\<forall>r \<in> set ws. 0 < seq r" and "g \<in> set (written_groups ws)"
  shows "\<exists>r \<in> set ws. write_key r = wg_key g \<and> seq r = wg_last g \<and>
    (\<forall>r' \<in> set ws. write_key r' = wg_key g \<longrightarrow> seq r' \<le> wg_last g)"
proof -
  obtain r0 where r0: "r0 \<in> set ws" "g = group_of ws (write_key r0)" using assms(2) by (auto simp: written_groups_def)
  let ?own = "filter (\<lambda>r. write_key r = write_key r0) ws"
  have g: "wg_key g = write_key r0" "wg_last g = fold max (map seq ?own) 0" by (simp_all add: r0(2) group_of_def Let_def)
  have f: "wg_last g \<in> insert 0 (seq ` set ?own)" "\<forall>r \<in> set ?own. seq r \<le> wg_last g"
    using fold_max_seq [of ?own 0] assms(1) g(2) by auto
  then have "wg_last g \<noteq> 0" using r0(1) assms(1) by force
  with f(1) obtain r where "r \<in> set ?own" "wg_last g = seq r" by auto
  with f(2) g(1) show ?thesis by (intro bexI [of _ r]) auto
qed

definition describes :: "written_group \<Rightarrow> written_node \<Rightarrow> bool" where
  "describes g w \<longleftrightarrow> wn_target w = fst (wg_key g) \<and> wn_node_id w = (case snd (wg_key g) of Some n \<Rightarrow> n | None \<Rightarrow> []) \<and>
     wn_count w = wg_count g \<and> sr_seq (wn_last w) = wg_last g"

lemma written_nodes_all:
  assumes "written_nodes C d gs = Inr ns" and "\<forall>g \<in> set gs. \<exists>r \<in> set (audit d). seq r = wg_last g"
  shows "list_all2 describes gs ns"
  using assms
proof (induction gs arbitrary: ns)
  case (Cons g gs)
  obtain r where "find (\<lambda>r. seq r = wg_last g) (audit d) = Some r" using Cons.prems(2)
    by (cases "find (\<lambda>r. seq r = wg_last g) (audit d)") (auto simp: find_None_iff)
  moreover from this have "seq r = wg_last g" by (auto simp: find_Some_iff)
  ultimately show ?case using Cons
    by (auto simp: node_shown_def describes_def split: sum.splits option.splits)
qed simp

text \<open>
  The list holds at most as many nodes as asked for, each once, with the number of its matching writes
  and the newest of them, the most written first; and no node left out has been written more often.
\<close>

theorem most_written_lists_top:
  assumes "arranges O1" and "arranges O2" and "\<forall>r \<in> set (audit d). 0 < seq r"
    and "most_written O1 O2 C d after limit f = Inr ns"
  defines "ws \<equiv> filter (counts_write C after f) (audit d)"
  shows "\<exists>gs. list_all2 describes gs ns \<and> length gs \<le> limit \<and> distinct gs \<and> set gs \<subseteq> set (written_groups ws) \<and>
    sorted_wrt (\<lambda>a b. wg_count b \<le> wg_count a) gs \<and>
    (\<forall>g \<in> set gs. \<forall>g' \<in> set (written_groups ws) - set gs. wg_count g' \<le> wg_count g) \<and>
    (\<forall>g \<in> set gs. \<exists>r \<in> set ws. write_key r = wg_key g \<and> seq r = wg_last g \<and>
      (\<forall>r' \<in> set ws. write_key r' = wg_key g \<longrightarrow> seq r' \<le> wg_last g))"
proof -
  let ?all = "most_first O1 (written_groups ws)"
  let ?gs = "most_first O2 (take limit ?all)"
  have "distinct (written_groups ws)"
    by (auto simp: written_groups_def distinct_map inj_on_def group_of_def Let_def)
  then have d: "distinct ?all" using most_first_mset [OF assms(1)] by (metis mset_eq_imp_distinct_iff)
  then have dg: "distinct ?gs" using most_first_mset [OF assms(2), of "take limit ?all"] by (metis mset_eq_imp_distinct_iff distinct_take)
  have sg: "set ?gs = set (take limit ?all)" by (rule most_first_set [OF assms(2)])
  have len: "length ?gs \<le> limit" using most_first_mset [OF assms(2), of "take limit ?all"] by (metis length_take min.cobounded2 size_mset)
  have sub: "set ?gs \<subseteq> set (written_groups ws)" using sg most_first_set [OF assms(1)] by (metis set_take_subset)
  have top: "wg_count g' \<le> wg_count g" if "g \<in> set ?gs" "g' \<in> set (written_groups ws) - set ?gs" for g g'
  proof -
    have "g' \<in> set (drop limit ?all)" using that(2) sg most_first_set [OF assms(1), of "written_groups ws"]
      by (metis DiffD1 DiffD2 Un_iff append_take_drop_id set_append)
    moreover have "g \<in> set (take limit ?all)" using that(1) sg by simp
    moreover have "sorted_wrt (\<lambda>a b. wg_count b \<le> wg_count a) (take limit ?all @ drop limit ?all)"
      using most_first_sorted [of O1] by simp
    ultimately show ?thesis unfolding sorted_wrt_append by blast
  qed
  have newest: "\<exists>r \<in> set ws. write_key r = wg_key g \<and> seq r = wg_last g \<and>
      (\<forall>r' \<in> set ws. write_key r' = wg_key g \<longrightarrow> seq r' \<le> wg_last g)" if "g \<in> set ?gs" for g
    by (rule group_last) (use assms(3) sub that in \<open>auto simp: ws_def\<close>)
  have "list_all2 describes ?gs ns"
  proof (rule written_nodes_all)
    show "written_nodes C d ?gs = Inr ns" using assms(4) by (simp add: most_written_def ws_def)
    show "\<forall>g \<in> set ?gs. \<exists>r \<in> set (audit d). seq r = wg_last g" using newest by (fastforce simp: ws_def)
  qed
  with dg len sub top newest most_first_sorted [of O2] show ?thesis by blast
qed

end
