(* ===== verification/Fsutil.thy ===== *)
theory Fsutil
  imports Prelude
begin

text \<open>
  Replacing a file in one piece (src/fsutil.rs). Of a directory the operating system keeps, per name, what
  is there now and what of it may still be found on the disk after a power cut; a file's bytes are certain
  to be there only once it was flushed, an entry only once its directory was. The calls of
  \<open>write_atomic\<close> are done one after another; which one fails, or where the power goes, is an argument.
\<close>

section \<open>Files and calls\<close>

record file_node =
  fn_bytes :: string
  fn_mode :: nat
  fn_flushed :: bool

text \<open>The entry of a name: latest first, what it was since the directory was last flushed.\<close>

type_synonym directory = "string \<Rightarrow> file_node option list"

definition entry :: "directory \<Rightarrow> string \<Rightarrow> file_node option" where
  "entry d n = (case d n of [] \<Rightarrow> None | v # _ \<Rightarrow> v)"

definition set_entry :: "string \<Rightarrow> file_node option \<Rightarrow> directory \<Rightarrow> directory" where
  "set_entry n v d = d(n := v # d n)"

text \<open>A change of the file itself, not of its name.\<close>

definition touch :: "string \<Rightarrow> (file_node \<Rightarrow> file_node) \<Rightarrow> directory \<Rightarrow> directory" where
  "touch n f d = (case d n of Some x # vs \<Rightarrow> d(n := Some (f x) # vs) | _ \<Rightarrow> d)"

definition flush_dir :: "directory \<Rightarrow> directory" where
  "flush_dir d = (\<lambda>n. [entry d n])"

datatype fs_call = RemoveFile string | OpenFile string nat | SetMode string nat | WriteAll string string | SyncFile string
  | Rename string string | SyncDir

text \<open>Opening creates or truncates; an existing file keeps its permissions.\<close>

fun fs_do :: "fs_call \<Rightarrow> directory \<Rightarrow> directory" where
  "fs_do (RemoveFile n) d = (if entry d n = None then d else set_entry n None d)"
| "fs_do (OpenFile n m) d = (case entry d n of
     None \<Rightarrow> set_entry n (Some \<lparr>fn_bytes = [], fn_mode = m, fn_flushed = False\<rparr>) d
   | Some x \<Rightarrow> touch n (\<lambda>x. x\<lparr>fn_bytes := [], fn_flushed := False\<rparr>) d)"
| "fs_do (SetMode n m) d = touch n (\<lambda>x. x\<lparr>fn_mode := m, fn_flushed := False\<rparr>) d"
| "fs_do (WriteAll n b) d = touch n (\<lambda>x. x\<lparr>fn_bytes := fn_bytes x @ b, fn_flushed := False\<rparr>) d"
| "fs_do (SyncFile n) d = touch n (\<lambda>x. x\<lparr>fn_flushed := True\<rparr>) d"
| "fs_do (Rename a b) d = set_entry a None (set_entry b (entry d a) d)"
| "fs_do SyncDir d = flush_dir d"

text \<open>What a call may have done when it fails: some bytes were written, or nothing.\<close>

fun fs_fail :: "string \<Rightarrow> fs_call \<Rightarrow> directory \<Rightarrow> directory" where
  "fs_fail part (WriteAll n b) d = fs_do (WriteAll n part) d"
| "fs_fail part c d = d"

section \<open>Writing\<close>

text \<open>The temporary file is named after the file and the process. 384 is the mode 0600.\<close>

definition tmp_name :: "string \<Rightarrow> nat \<Rightarrow> string" where
  "tmp_name path pid = ''.'' @ path @ ''.'' @ nat_str pid @ ''.tmp''"

lemma tmp_name_differs [simp]: "path \<noteq> tmp_name path pid"
proof
  assume "path = tmp_name path pid"
  then have "length path = length (tmp_name path pid)" by simp
  then show False by (simp add: tmp_name_def)
qed

definition new_mode :: "string \<Rightarrow> nat option \<Rightarrow> directory \<Rightarrow> nat" where
  "new_mode path mode d = (case mode of Some m \<Rightarrow> m | None \<Rightarrow> (case entry d path of Some x \<Rightarrow> fn_mode x | None \<Rightarrow> 384))"

definition write_calls :: "string \<Rightarrow> string \<Rightarrow> string \<Rightarrow> nat \<Rightarrow> fs_call list" where
  "write_calls path tmp b m =
     [OpenFile tmp m, SetMode tmp m, WriteAll tmp b, SyncFile tmp, Rename tmp path, SyncDir]"

definition do_calls :: "fs_call list \<Rightarrow> directory \<Rightarrow> directory" where
  "do_calls cs d = fold fs_do cs d"

text \<open>The result of removing an old temporary file is not looked at. \<open>fate\<close>: the call that fails, if one
  does, with the bytes it wrote. Whether it succeeded, and the directory.\<close>

definition write_atomic :: "(nat \<times> string) option \<Rightarrow> bool \<Rightarrow> string \<Rightarrow> nat \<Rightarrow> string \<Rightarrow> nat option \<Rightarrow> directory \<Rightarrow> bool \<times> directory" where
  "write_atomic fate removed path pid b mode d =
     (let tmp = tmp_name path pid; d1 = (if removed then fs_do (RemoveFile tmp) d else d);
          cs = write_calls path tmp b (new_mode path mode d)
      in case fate of
           Some (k, part) \<Rightarrow>
             if k < length cs then (False, fs_fail part (cs ! k) (do_calls (take k cs) d1)) else (True, do_calls cs d1)
         | None \<Rightarrow> (True, do_calls cs d1))"

section \<open>What a power cut leaves\<close>

text \<open>One of the versions of each name; a file that was not flushed may hold anything.\<close>

definition may_hold :: "directory \<Rightarrow> string \<Rightarrow> file_node option \<Rightarrow> bool" where
  "may_hold d n r \<longleftrightarrow> (\<exists>v \<in> set (d n). case v of None \<Rightarrow> r = None | Some f \<Rightarrow> r \<noteq> None \<and> (fn_flushed f \<longrightarrow> r = Some f))"

definition settled_file :: "directory \<Rightarrow> string \<Rightarrow> bool" where
  "settled_file d n \<longleftrightarrow> (\<exists>v. d n = [v] \<and> (\<forall>f. v = Some f \<longrightarrow> fn_flushed f))"

definition new_file :: "string \<Rightarrow> nat \<Rightarrow> file_node" where
  "new_file b m = \<lparr>fn_bytes = b, fn_mode = m, fn_flushed = True\<rparr>"

lemma entry_simps [simp]:
  "entry (set_entry n v d) k = (if k = n then v else entry d k)"
  "entry (touch n f d) k = (if k = n then map_option f (entry d k) else entry d k)"
  "entry (flush_dir d) k = entry d k"
  by (auto simp: entry_def set_entry_def touch_def flush_dir_def split: list.splits option.splits)

lemma other_name [simp]:
  "k \<noteq> n \<Longrightarrow> set_entry n v d k = d k" "k \<noteq> n \<Longrightarrow> touch n f d k = d k"
  by (auto simp: set_entry_def touch_def split: list.splits option.splits)

text \<open>Only renaming and flushing the directory change what is at the path.\<close>

lemma fs_do_other: "path \<noteq> tmp \<Longrightarrow> c \<in> {RemoveFile tmp, OpenFile tmp m, SetMode tmp m, WriteAll tmp b, SyncFile tmp} \<Longrightarrow>
    fs_do c d path = d path"
  by (auto split: option.split)

lemma before_rename:
  assumes "path \<noteq> tmp" and "k \<le> 4"
  shows "do_calls (take k (write_calls path tmp b m)) d path = d path"
  using assms by (auto simp: do_calls_def write_calls_def fs_do_other take_Cons' split: option.split)

text \<open>The temporary file just before it is renamed.\<close>

lemma temporary_file:
  "entry (do_calls (take 4 (write_calls path tmp b m)) d) tmp = Some (new_file b m)"
  by (auto simp: do_calls_def write_calls_def new_file_def split: option.split)

lemma renamed:
  assumes "path \<noteq> tmp"
  shows "do_calls (take 5 (write_calls path tmp b m)) d path = Some (new_file b m) # d path"
proof -
  let ?d = "do_calls (take 4 (write_calls path tmp b m)) d"
  have "do_calls (take 5 (write_calls path tmp b m)) d = fs_do (Rename tmp path) ?d"
    by (simp add: do_calls_def write_calls_def)
  then show ?thesis
    using assms temporary_file [of path tmp b m d] before_rename [OF assms, of 4 b m d] by (simp add: set_entry_def)
qed

lemma all_done:
  assumes "path \<noteq> tmp"
  shows "do_calls (write_calls path tmp b m) d path = [Some (new_file b m)]"
proof -
  have "do_calls (write_calls path tmp b m) d = flush_dir (do_calls (take 5 (write_calls path tmp b m)) d)"
    by (simp add: do_calls_def write_calls_def)
  then show ?thesis using renamed [OF assms, of b m d] by (simp add: flush_dir_def entry_def)
qed

lemma do_calls_path:
  assumes "path \<noteq> tmp"
  shows "do_calls (take k (write_calls path tmp b m)) d path =
    (if k < 5 then d path else if k = 5 then Some (new_file b m) # d path else [Some (new_file b m)])"
proof (cases "k \<le> 4")
  case False
  then consider "k = 5" | "6 \<le> k" by linarith
  then show ?thesis using renamed [OF assms, of b m d] all_done [OF assms, of b m d]
    by cases (simp_all add: write_calls_def)
qed (use before_rename [OF assms, of k b m d] in simp)

lemma failed_call_path:
  assumes "path \<noteq> tmp" and "k < 6"
  shows "fs_fail part (write_calls path tmp b m ! k) d path = d path"
proof -
  have "k \<in> {0, 1, 2, 3, 4, 5}" using assms(2) by auto
  with assms(1) show ?thesis by (auto simp: write_calls_def)
qed

text \<open>What is at the path in the end, and the answer.\<close>

lemma write_atomic_path:
  shows "snd (write_atomic fate removed path pid b mode d) path =
      (let new = Some (new_file b (new_mode path mode d)) in case fate of None \<Rightarrow> [new]
        | Some (k, part) \<Rightarrow> if k < 5 then d path else if k = 5 then new # d path else [new])"
    and "fst (write_atomic fate removed path pid b mode d) = (case fate of None \<Rightarrow> True | Some (k, part) \<Rightarrow> \<not> k < 6)"
proof -
  let ?d = "if removed then fs_do (RemoveFile (tmp_name path pid)) d else d" and ?cs = "write_calls path (tmp_name path pid) b (new_mode path mode d)"
  have l: "length ?cs = 6" by (simp add: write_calls_def)
  have d: "?d path = d path" by simp
  show "snd (write_atomic fate removed path pid b mode d) path =
      (let new = Some (new_file b (new_mode path mode d)) in case fate of None \<Rightarrow> [new]
        | Some (k, part) \<Rightarrow> if k < 5 then d path else if k = 5 then new # d path else [new])"
    using d by (simp add: write_atomic_def l Let_def do_calls_path all_done failed_call_path split: option.split)
  show "fst (write_atomic fate removed path pid b mode d) = (case fate of None \<Rightarrow> True | Some (k, part) \<Rightarrow> \<not> k < 6)"
    by (simp add: write_atomic_def l Let_def split: option.split)
qed

text \<open>C28. A power cut at any moment of writing, in the middle of a call or after one that failed, leaves at the
  path the file that was there or the new one, each whole; when the write succeeded, the new one.\<close>

theorem crash_leaves_old_or_new:
  assumes "settled_file d path"
    and "write_atomic fate removed path pid b mode d = (ok, d1)" and "may_hold d1 path r"
  shows "r = Some (new_file b (new_mode path mode d)) \<or> \<not> ok \<and> r = entry d path"
proof -
  obtain v where v: "d path = [v]" "\<And>f. v = Some f \<Longrightarrow> fn_flushed f" using assms(1) by (auto simp: settled_file_def)
  let ?new = "Some (new_file b (new_mode path mode d))"
  have "d1 path = [v] \<and> \<not> ok \<or> d1 path = [?new, v] \<and> \<not> ok \<or> d1 path = [?new]"
    using write_atomic_path [of fate removed path pid b mode d] assms(2) v(1)
    by (auto simp: Let_def split: option.splits if_splits)
  with assms(3) v show ?thesis by (auto simp: may_hold_def new_file_def entry_def split: option.splits)
qed

text \<open>The write can fail although the file was replaced: when the directory cannot be flushed.\<close>

theorem failed_flush_replaces:
  "case write_atomic (Some (5, part)) removed path pid b mode d of
    (ok, d1) \<Rightarrow> \<not> ok \<and> entry d1 path = Some (new_file b (new_mode path mode d))"
  using write_atomic_path [of "Some (5, part)" removed path pid b mode d]
  by (auto simp: Let_def entry_def split: prod.split)

text \<open>Every other failure leaves the path as it was.\<close>

lemma failed_write_keeps:
  assumes "k < 5"
  shows "case write_atomic (Some (k, part)) removed path pid b mode d of (ok, d1) \<Rightarrow> \<not> ok \<and> d1 path = d path"
  using write_atomic_path [of "Some (k, part)" removed path pid b mode d] assms
  by (auto simp: Let_def split: prod.split)

text \<open>A configuration file written while the power fails in the middle of the bytes.\<close>

definition one_file :: directory where
  "one_file = (\<lambda>n. if n = ''config.toml'' then [Some (new_file ''old'' 416)] else [None])"

theorem crash_leaves_old_or_new_witness:
  "let (ok, d1) = write_atomic (Some (2, ''n'')) True ''config.toml'' 7 ''new'' None one_file in
     may_hold d1 ''config.toml'' (Some (new_file ''old'' 416)) \<and> \<not> ok \<and>
     (\<forall>r. may_hold d1 ''config.toml'' r \<longrightarrow> r = Some (new_file ''new'' 416) \<or> r = entry one_file ''config.toml'')"
proof -
  obtain ok d1 where w: "write_atomic (Some (2, ''n'')) True ''config.toml'' 7 ''new'' None one_file = (ok, d1)"
    by fastforce
  have s: "settled_file one_file ''config.toml''" by (simp add: settled_file_def one_file_def new_file_def)
  have m: "new_mode ''config.toml'' None one_file = 416" by (simp add: new_mode_def entry_def one_file_def new_file_def)
  have "\<not> ok" "d1 ''config.toml'' = one_file ''config.toml''"
    using failed_write_keeps [where path = "''config.toml''" and pid = 7 and k = 2 and part = "''n''"
      and removed = True and b = "''new''" and mode = None and d = one_file] w by auto
  then have "may_hold d1 ''config.toml'' (Some (new_file ''old'' 416))" by (simp add: may_hold_def one_file_def new_file_def)
  moreover have "r = Some (new_file ''new'' 416) \<or> r = entry one_file ''config.toml''" if "may_hold d1 ''config.toml'' r" for r
    using crash_leaves_old_or_new [OF s w that] m by auto
  ultimately show ?thesis using \<open>\<not> ok\<close> unfolding w Let_def prod.case by blast
qed

end
