(* ===== verification/Audit_Pipeline.thy ===== *)
theory Audit_Pipeline
  imports Prelude Audit_Event Audit_Store Audit_Chain Reference_Codec
begin

text \<open>
  src/audit/mod.rs: the settings, the queue between the callers and the writer thread, batching,
  the count of lost events with its file, and the retention task. One \<open>pipe\<close> holds what the handles
  and the writer share; the channel is a list, the answers to waiting callers are collected in
  \<open>replies\<close> under the caller's number. Failures of SQLite, of the disk and panics of the writer are
  arguments of the steps, as is how much of the queue the writer sees when it looks.
\<close>

section \<open>Settings\<close>

datatype fail_mode = FailOpen | FailClosed

record audit_config =
  fail_mode :: fail_mode
  record_old_value :: bool
  retention_days :: nat
  ignored_summary_secs :: nat

record audit_settings =
  fail_closed :: bool
  s_record_old_value :: bool
  s_retention_days :: nat
  s_ignored_summary_secs :: nat

definition settings_apply :: "audit_config \<Rightarrow> audit_settings \<Rightarrow> audit_settings" where
  "settings_apply c s =
     s\<lparr>fail_closed := (fail_mode c = FailClosed), s_record_old_value := record_old_value c,
       s_retention_days := retention_days c, s_ignored_summary_secs := max (ignored_summary_secs c) 1\<rparr>"

definition settings_new :: "audit_config \<Rightarrow> audit_settings" where
  "settings_new c = settings_apply c
     \<lparr>fail_closed = False, s_record_old_value = False, s_retention_days = 0, s_ignored_summary_secs = 1\<rparr>"

definition settings_fail_mode :: "audit_settings \<Rightarrow> fail_mode" where
  "settings_fail_mode s = (if fail_closed s then FailClosed else FailOpen)"

definition ignored_summary :: "audit_settings \<Rightarrow> time" where
  "ignored_summary s = secs (int (s_ignored_summary_secs s))"

section \<open>The queue and the lost events\<close>

definition QUEUE_CAPACITY :: nat where "QUEUE_CAPACITY = 10000"
definition MAX_BATCH :: nat where "MAX_BATCH = 512"

datatype command =
    CAppend audit_entry "nat option"
  | CPrune time nat
  | CFlush nat

datatype reply =
    RSeq int
  | RFailed store_error
  | RPruned nat
  | RPruneFailed store_error
  | RFlushed
  | RDropped

record pipe =
  p_store :: store
  queue :: "command list"
  lost :: nat
  in_flight :: nat
  saved :: nat
  replies :: "(nat \<times> reply) list"

text \<open>\<open>LostEvents::open\<close> reads the file; \<open>save_locked\<close> writes it if the count changed.\<close>

definition start_pipe :: "store \<Rightarrow> nat option \<Rightarrow> pipe" where
  "start_pipe s file =
     (let n = (case file of None \<Rightarrow> 0 | Some n \<Rightarrow> n)
      in \<lparr>p_store = s, queue = [], lost = n, in_flight = 0, saved = n, replies = []\<rparr>)"

definition save_locked :: "bool \<Rightarrow> pipe \<Rightarrow> pipe" where
  "save_locked disk p =
     (if lost p = saved p then p else if disk then p\<lparr>saved := lost p\<rparr> else p)"

definition lost_add :: "nat \<Rightarrow> pipe \<Rightarrow> pipe" where
  "lost_add n p = p\<lparr>lost := lost p + n\<rparr>"

definition try_send :: "command \<Rightarrow> pipe \<Rightarrow> pipe option" where
  "try_send c p =
     (if length (queue p) < QUEUE_CAPACITY then Some (p\<lparr>queue := queue p @ [c]\<rparr>) else None)"

text \<open>
  \<open>record\<close> in fail-open mode; \<open>room\<close> says whether the full queue had room within \<open>QUEUE_WAIT\<close>. In
  fail-closed mode \<open>record\<close> is \<open>record_committed\<close>, whose first half queues the entry for the caller
  \<open>a\<close> and whose second half looks at the answer.
\<close>

definition record_open :: "bool \<Rightarrow> audit_entry \<Rightarrow> pipe \<Rightarrow> pipe" where
  "record_open room e p =
     (case try_send (CAppend e None) p of
        Some p' \<Rightarrow> p'
      | None \<Rightarrow> if room then p\<lparr>queue := queue p @ [CAppend e None]\<rparr> else lost_add 1 p)"

definition record_committed :: "audit_entry \<Rightarrow> nat \<Rightarrow> pipe \<Rightarrow> pipe" where
  "record_committed e a p = p\<lparr>queue := queue p @ [CAppend e (Some a)]\<rparr>"

datatype audit_error = WriterStopped | StoreFailed store_error

definition committed_result :: "fail_mode \<Rightarrow> reply \<Rightarrow> pipe \<Rightarrow> (audit_error + int) \<times> pipe" where
  "committed_result mode r p =
     (let result = (case r of
          RSeq n \<Rightarrow> Inr n
        | RFailed e \<Rightarrow> Inl (StoreFailed e)
        | _ \<Rightarrow> Inl WriterStopped)
      in (result, if \<not> is_ok result \<and> mode = FailOpen then lost_add 1 p else p))"

definition submit_prune :: "time \<Rightarrow> nat \<Rightarrow> pipe \<Rightarrow> pipe" where
  "submit_prune cutoff a p = p\<lparr>queue := queue p @ [CPrune cutoff a]\<rparr>"

definition submit_flush :: "nat \<Rightarrow> pipe \<Rightarrow> pipe" where
  "submit_flush a p = p\<lparr>queue := queue p @ [CFlush a]\<rparr>"

section \<open>The writer\<close>

type_synonym batch = "(audit_entry \<times> nat option) list"

text \<open>
  The inner loop of \<open>writer_loop\<close>: appends are collected while the batch has room and \<open>try_recv\<close>
  finds more (\<open>visible\<close> further commands have arrived); another command ends the batch.
\<close>

fun gather :: "nat \<Rightarrow> nat \<Rightarrow> command list \<Rightarrow> batch \<times> command option \<times> command list" where
  "gather room visible [] = ([], None, [])"
| "gather room visible (CAppend e a # q) =
     (if 1 < room \<and> 0 < visible then
        (case gather (room - 1) (visible - 1) q of (b, after, rest) \<Rightarrow> ((e, a) # b, after, rest))
      else ([(e, a)], None, q))"
| "gather room visible (c # q) = ([], Some c, q)"

definition replies_to :: "nat option list \<Rightarrow> 'a list \<Rightarrow> ('a \<Rightarrow> reply) \<Rightarrow> (nat \<times> reply) list" where
  "replies_to acks xs f = concat (map (\<lambda>(a, x). case a of None \<Rightarrow> [] | Some a \<Rightarrow> [(a, f x)]) (zip acks xs))"

definition unacked :: "batch \<Rightarrow> nat" where
  "unacked b = length (filter (\<lambda>(e, a). a = None) b)"

definition write_batch :: "codec \<Rightarrow> time \<Rightarrow> bool \<Rightarrow> bool \<Rightarrow> batch \<Rightarrow> pipe \<Rightarrow> pipe" where
  "write_batch C now fails disk b p =
     (let lost_before = lost p;
          es = map fst b @ (if 0 < lost_before then [new_entry now (EventsLost lost_before)] else []);
          p1 = p\<lparr>lost := 0, in_flight := lost_before + unacked b\<rparr>
      in case append C fails es (p_store p1) of
           (Inr seqs, s) \<Rightarrow>
             save_locked disk (p1\<lparr>p_store := s, in_flight := 0,
               replies := replies p @ replies_to (map snd b) seqs RSeq\<rparr>)
         | (Inl err, s) \<Rightarrow>
             save_locked disk (lost_add (lost_before + unacked b) (p1\<lparr>p_store := s, in_flight := 0,
               replies := replies p @ replies_to (map snd b) (map snd b) (\<lambda>_. RFailed err)\<rparr>)))"

definition run_command :: "codec \<Rightarrow> time \<Rightarrow> bool \<Rightarrow> command \<Rightarrow> pipe \<Rightarrow> pipe" where
  "run_command C now fails c p =
     (case c of
        CPrune cutoff a \<Rightarrow>
          (case prune_before C now fails cutoff (p_store p) of
             (Inr n, s) \<Rightarrow> p\<lparr>p_store := s, replies := replies p @ [(a, RPruned n)]\<rparr>
           | (Inl err, s) \<Rightarrow> p\<lparr>p_store := s, replies := replies p @ [(a, RPruneFailed err)]\<rparr>)
      | CFlush a \<Rightarrow> p\<lparr>replies := replies p @ [(a, RFlushed)]\<rparr>
      | CAppend _ _ \<Rightarrow> p)"

text \<open>One turn of \<open>writer_loop\<close>; with an empty queue it waits.\<close>

definition writer_round :: "codec \<Rightarrow> time \<Rightarrow> bool \<Rightarrow> bool \<Rightarrow> nat \<Rightarrow> pipe \<Rightarrow> pipe" where
  "writer_round C now fails disk visible p =
     (if queue p = [] then p
      else case gather MAX_BATCH visible (queue p) of
        (b, after, rest) \<Rightarrow>
          (let p1 = p\<lparr>queue := rest\<rparr>;
               p2 = (if b = [] then p1 else write_batch C now fails disk b p1)
           in case after of None \<Rightarrow> p2 | Some c \<Rightarrow> run_command C now fails c p2))"

text \<open>
  The writer panics while it stores a batch: nothing of the transaction is committed, the waiting
  callers' channels close, what nobody waits for is counted, and the store is opened again.
\<close>

definition dropped :: "batch \<Rightarrow> command option \<Rightarrow> (nat \<times> reply) list" where
  "dropped b after =
     concat (map (\<lambda>(e, a). case a of None \<Rightarrow> [] | Some a \<Rightarrow> [(a, RDropped)]) b) @
     (case after of Some (CPrune _ a) \<Rightarrow> [(a, RDropped)] | Some (CFlush a) \<Rightarrow> [(a, RDropped)] | _ \<Rightarrow> [])"

definition writer_panics :: "codec \<Rightarrow> time \<Rightarrow> bool \<Rightarrow> nat \<Rightarrow> pipe \<Rightarrow> pipe option" where
  "writer_panics C now fails visible p =
     (case gather MAX_BATCH visible (queue p) of
        (b, after, rest) \<Rightarrow>
          (let p1 = p\<lparr>queue := rest, lost := 0, in_flight := lost p + unacked b\<rparr>;
               p2 = lost_add (in_flight p1) (p1\<lparr>in_flight := 0, replies := replies p @ dropped b after\<rparr>)
           in case open_store C now fails (conn (p_store p)) of
                Inl _ \<Rightarrow> None
              | Inr s \<Rightarrow> Some (p2\<lparr>p_store := s\<rparr>)))"

section \<open>Retention\<close>

datatype retention_action = Idle | ReportJump int | PruneUntilDone time

definition num_seconds :: "int \<Rightarrow> int" where
  "num_seconds d = (if d < 0 then - (- d div nanos_per_sec) else d div nanos_per_sec)"

text \<open>One round at monotonic time \<open>tick\<close> and wall time \<open>wall\<close>; \<open>previous\<close> is the round before.\<close>

definition retention_round :: "nat \<Rightarrow> time \<Rightarrow> time \<Rightarrow> (time \<times> time) option
    \<Rightarrow> retention_action \<times> (time \<times> time) option" where
  "retention_round days tick wall previous =
     (let jump = (case previous of None \<Rightarrow> 0
        | Some (m, w) \<Rightarrow> (wall - w) - max 0 (tick - m))
      in if 300 < \<bar>num_seconds jump\<bar> then (ReportJump (num_seconds jump), Some (tick, wall))
         else if days = 0 then (Idle, Some (tick, wall))
         else (PruneUntilDone (wall - secs (int days * 86400)), Some (tick, wall)))"

text \<open>The inner loop, with the outcome of each deletion as the store gives it; the fuel bounds it.\<close>

fun prune_loop :: "nat \<Rightarrow> codec \<Rightarrow> time \<Rightarrow> time \<Rightarrow> store \<Rightarrow> store option" where
  "prune_loop 0 C now cutoff s = None"
| "prune_loop (Suc k) C now cutoff s =
     (case prune_before C now False cutoff s of
        (Inl _, s') \<Rightarrow> Some s'
      | (Inr n, s') \<Rightarrow>
          if n = 0 then Some s'
          else if int n < MAX_PRUNE then Some s'
          else prune_loop k C now cutoff s')"

text \<open>One turn of the task on the store; the report of a jump is stored like any record.\<close>

definition retention_task :: "nat \<Rightarrow> codec \<Rightarrow> nat \<Rightarrow> time \<Rightarrow> time \<Rightarrow> (time \<times> time) option \<Rightarrow> store
    \<Rightarrow> store option \<times> (time \<times> time) option" where
  "retention_task fuel C days tick wall previous s =
     (case retention_round days tick wall previous of
        (Idle, r) \<Rightarrow> (Some s, r)
      | (ReportJump n, r) \<Rightarrow> (Some (snd (append C False [new_entry wall (ClockJumped n)] s)), r)
      | (PruneUntilDone cutoff, r) \<Rightarrow> (prune_loop fuel C wall cutoff s, r))"

section \<open>Batches\<close>

lemma end_seq_append [simp]: "end_seq n (xs @ ys) = end_seq (end_seq n xs) ys"
  by (induction xs arbitrary: n) auto

lemma end_hash_append [simp]: "end_hash h (xs @ ys) = end_hash (end_hash h xs) ys"
  by (induction xs arbitrary: h) auto

lemma chain_rows_append:
  "chain_rows C (xs @ ys) n h =
     chain_rows C xs n h @ chain_rows C ys (end_seq n (chain_rows C xs n h)) (end_hash h (chain_rows C xs n h))"
  by (induction xs arbitrary: n h) (simp_all add: Let_def)

lemma wf_append:
  assumes "table_wf s"
  shows "table_wf (snd (append C fails es s))"
proof (cases fails)
  case False
  let ?new = "chain_rows C es (last_seq s) (last_hash s)"
  have "sorted_wrt (<) (map seq ?new)"
    by (auto simp: chain_rows_seqs sorted_wrt_map sorted_wrt_upt sorted_wrt_mono_rel [of _ "(<)"])
  moreover have "seq r < seq r'" if "r \<in> set (audit (conn s))" "r' \<in> set ?new" for r r'
    using assms that chain_rows_pos [of r' C es] by (force simp: table_wf_def)
  ultimately show ?thesis
    using assms False chain_rows_pos [of _ C es "last_seq s" "last_hash s"]
    by (fastforce simp: append_result table_wf_def Let_def sorted_wrt_append chain_rows_end_seq)
qed (use assms in simp)

text \<open>Appending in two transactions is appending in one.\<close>

lemma append_append:
  assumes "table_wf s" and "append C False xs s = (Inr ns, s')" and "append C False ys s' = (Inr ms, s'')"
  shows "append C False (xs @ ys) s = (Inr (ns @ ms), s'')"
proof -
  have "table_wf s'" using wf_append [OF assms(1), of C False xs] assms(2) by simp
  with assms show ?thesis
    by (auto simp: append_result Let_def chain_rows_append)
qed

lemma append_ok: "table_wf s \<Longrightarrow> \<exists>s'. append C False es s =
    (Inr (map (\<lambda>i. last_seq s + 1 + int i) [0..<length es]), s') \<and> table_wf s'"
  using wf_append [of s C False es] by (simp add: append_result Let_def chain_rows_seqs)

section \<open>Answers\<close>

definition answer_ok :: "codec \<Rightarrow> store \<Rightarrow> batch \<Rightarrow> nat \<times> reply \<Rightarrow> bool" where
  "answer_ok C s b ar \<longleftrightarrow> (case ar of (a, r) \<Rightarrow>
     (case r of
        RSeq n \<Rightarrow> list_ex (\<lambda>(e, a'). a' = Some a \<and>
           list_ex (\<lambda>w. seq w = n \<and> body w = to_json C e \<and> row_columns w = columns C e) (audit (conn s))) b
      | RFailed _ \<Rightarrow> True
      | _ \<Rightarrow> False))"

definition waiting :: "batch \<Rightarrow> nat list" where
  "waiting b = List.map_filter snd b"

lemma answers_keys:
  "length xs \<ge> length acks \<Longrightarrow> map fst (replies_to acks xs f) = List.map_filter id acks"
proof (induction acks arbitrary: xs)
  case (Cons a acks)
  then show ?case by (cases xs) (auto simp: replies_to_def split: option.splits)
qed (simp add: replies_to_def)

lemma waiting_acks: "waiting b = List.map_filter id (map snd b)"
  by (induction b) (auto simp: waiting_def split: option.splits)

lemma answers_in:
  assumes "(a, r) \<in> set (replies_to (map snd b) xs f)"
  shows "\<exists>i < length b. i < length xs \<and> snd (b ! i) = Some a \<and> r = f (xs ! i)"
  using assms
proof (induction b arbitrary: xs)
  case (Cons e b)
  show ?case
  proof (cases xs)
    case (Cons x ys)
    have "(a, r) \<in> set (replies_to (map snd b) ys f) \<or> (snd e = Some a \<and> r = f x)"
      using Cons.prems Cons by (auto simp: replies_to_def split: option.splits)
    then show ?thesis using Cons.IH [of ys] Cons by fastforce
  qed (use Cons.prems in \<open>simp add: replies_to_def\<close>)
qed (simp add: replies_to_def)

lemma chain_rows_nth:
  "i < length es \<Longrightarrow> seq (chain_rows C es n h ! i) = n + 1 + int i \<and>
     body (chain_rows C es n h ! i) = to_json C (es ! i) \<and>
     row_columns (chain_rows C es n h ! i) = columns C (es ! i)"
proof (induction es arbitrary: n h i)
  case (Cons e es)
  then show ?case by (cases i) (simp_all add: Let_def)
qed simp

lemma save_locked_fields [simp]:
  "p_store (save_locked disk p) = p_store p" "queue (save_locked disk p) = queue p"
  "lost (save_locked disk p) = lost p" "replies (save_locked disk p) = replies p"
  "in_flight (save_locked disk p) = in_flight p"
  by (simp_all add: save_locked_def)

text \<open>The two outcomes of a batch.\<close>

definition batch_entries :: "time \<Rightarrow> batch \<Rightarrow> pipe \<Rightarrow> audit_entry list" where
  "batch_entries now b p =
     map fst b @ (if 0 < lost p then [new_entry now (EventsLost (lost p))] else [])"

lemma write_batch_cases:
  assumes "table_wf (p_store p)" and "p' = write_batch C now fails disk b p"
  obtains (stored) s where "\<not> fails"
      "append C False (batch_entries now b p) (p_store p) =
         (Inr (map (\<lambda>i. last_seq (p_store p) + 1 + int i) [0..<length (batch_entries now b p)]), s)"
      "p_store p' = s" "queue p' = queue p" "lost p' = 0" "in_flight p' = 0"
      "replies p' = replies p @ replies_to (map snd b)
         (map (\<lambda>i. last_seq (p_store p) + 1 + int i) [0..<length (batch_entries now b p)]) RSeq"
  | (failed) fails "p_store p' = p_store p" "queue p' = queue p" "lost p' = lost p + unacked b"
      "in_flight p' = 0"
      "replies p' = replies p @ replies_to (map snd b) (map snd b) (\<lambda>_. RFailed SqlFailed)"
proof (cases fails)
  case True
  then show thesis
    using assms(2) by (intro failed) (simp_all add: write_batch_def Let_def lost_add_def)
next
  case False
  obtain s where s: "append C False (batch_entries now b p) (p_store p) =
      (Inr (map (\<lambda>i. last_seq (p_store p) + 1 + int i) [0..<length (batch_entries now b p)]), s)"
    using append_ok [OF assms(1)] by blast
  from False s have "p' = save_locked disk (p\<lparr>lost := 0, p_store := s, in_flight := 0,
      replies := replies p @ replies_to (map snd b)
        (map (\<lambda>i. last_seq (p_store p) + 1 + int i) [0..<length (batch_entries now b p)]) RSeq\<rparr>)"
    by (simp add: assms(2) write_batch_def Let_def batch_entries_def)
  then show thesis by (intro stored [OF False s]) simp_all
qed

text \<open>C14. Every caller who waits gets exactly one answer, in the order of the batch. A sequence number
  is only answered when the caller's own entry is in the trail under that number, with its columns;
  when the store fails, everyone is told and the store is unchanged.\<close>

theorem acknowledged_is_committed:
  assumes "table_wf (p_store p)" and "p' = write_batch C now fails disk b p"
  shows "\<exists>new. replies p' = replies p @ new \<and> map fst new = waiting b \<and>
     list_all (answer_ok C (p_store p') b) new \<and>
     (if fails then p_store p' = p_store p \<and> list_all (\<lambda>(a, r). r = RFailed SqlFailed) new
      else list_all (\<lambda>(a, r). \<exists>n. r = RSeq n) new)"
  using assms
proof (cases rule: write_batch_cases)
  case (stored s)
  let ?es = "batch_entries now b p" and ?n = "last_seq (p_store p)"
  let ?new = "replies_to (map snd b) (map (\<lambda>i. ?n + 1 + int i) [0..<length ?es]) RSeq"
  have keys: "map fst ?new = waiting b"
    by (subst answers_keys) (simp_all add: waiting_acks batch_entries_def)
  have rows: "\<exists>new. audit (conn s) = audit (conn (p_store p)) @ new \<and>
      new = chain_rows C ?es ?n (last_hash (p_store p))"
    using stored(2) assms(1) by (auto simp: append_result Let_def)
  have "answer_ok C s b ar \<and> (\<exists>n. snd ar = RSeq n)" if ar: "ar \<in> set ?new" for ar
  proof -
    obtain a r where a: "ar = (a, r)" by (cases ar)
    from answers_in [OF ar [unfolded a]] obtain i where i: "i < length b" "snd (b ! i) = Some a"
      "i < length ?es" "r = RSeq (?n + 1 + int i)" by auto
    then have es: "?es ! i = fst (b ! i)" by (simp add: batch_entries_def nth_append)
    note row = chain_rows_nth [OF i(3), of C ?n "last_hash (p_store p)"]
    have "chain_rows C ?es ?n (last_hash (p_store p)) ! i \<in> set (audit (conn s))"
      using rows i(3) by auto
    with row es i show ?thesis
      by (force simp: answer_ok_def a list_ex_iff split: prod.splits intro!: bexI [of _ "b ! i"])
  qed
  then have "list_all (answer_ok C (p_store p') b) ?new \<and> list_all (\<lambda>(a, r). \<exists>n. r = RSeq n) ?new"
    by (auto simp: list_all_iff stored(3))
  with stored(1,7) keys show ?thesis by auto
next
  case failed
  let ?new = "replies_to (map snd b) (map snd b) (\<lambda>_. RFailed SqlFailed)"
  have "map fst ?new = waiting b" by (subst answers_keys) (simp_all add: waiting_acks)
  moreover have "snd ar = RFailed SqlFailed" if "ar \<in> set ?new" for ar
    using answers_in [of "fst ar" "snd ar"] that by auto
  moreover have "answer_ok C t b ar" if "snd ar = RFailed SqlFailed" for ar t
    using that by (cases ar) (simp add: answer_ok_def)
  ultimately show ?thesis using failed by (fastforce simp: list_all_iff)
qed

theorem acknowledged_is_committed_witness:
  "let e = new_entry 0 GatewayStopped;
       p = write_batch reference_codec 1 False True [(e, Some 7), (e, None)]
             (start_pipe fresh_store (Some 3))
   in map fst (replies p) = [7] \<and> list_all (\<lambda>(a, r). \<exists>n. r = RSeq n) (replies p)"
proof -
  let ?e = "new_entry 0 GatewayStopped" and ?p = "start_pipe fresh_store (Some 3)"
  have "table_wf (p_store ?p)" "replies ?p = []" "waiting [(?e, Some 7), (?e, None)] = [7]"
    by (simp_all add: start_pipe_def fresh_store_def table_wf_def waiting_def)
  from acknowledged_is_committed [OF this(1) refl, of reference_codec 1 False True
      "[(?e, Some 7), (?e, None)]"] this(2,3)
  show ?thesis by (auto simp: Let_def)
qed

section \<open>Batching changes nothing\<close>

text \<open>The reference: every command handled on its own, in the order of the queue.\<close>

definition serve :: "codec \<Rightarrow> time \<Rightarrow> pipe \<Rightarrow> command \<Rightarrow> pipe" where
  "serve C now p c = (case c of
       CAppend e a \<Rightarrow> write_batch C now False True [(e, a)] p
     | _ \<Rightarrow> run_command C now False c p)"

lemma serve_append [simp]: "serve C now p (CAppend e a) = write_batch C now False True [(e, a)] p"
  by (simp add: serve_def)

lemma gather_concat:
  "gather room visible q = (b, after, rest) \<Longrightarrow>
     q = map (\<lambda>x. CAppend (fst x) (snd x)) b @ (case after of None \<Rightarrow> [] | Some c \<Rightarrow> [c]) @ rest"
  by (induction room visible q arbitrary: b after rest rule: gather.induct)
     (auto split: if_splits prod.splits)

lemma gather_other: "gather room visible q = (b, Some c, rest) \<Longrightarrow> c \<noteq> CAppend e a"
  by (induction room visible q arbitrary: b rest rule: gather.induct)
     (auto split: if_splits prod.splits)

lemma gather_progress: "q \<noteq> [] \<Longrightarrow> gather room visible q = (b, after, rest) \<Longrightarrow> length rest < length q"
  by (induction room visible q arbitrary: b after rest rule: gather.induct)
     (auto split: if_splits prod.splits dest!: gather_concat)

lemma gather_limit: "0 < room \<Longrightarrow> gather room visible q = (b, after, rest) \<Longrightarrow> length b \<le> room"
  by (induction room visible q arbitrary: b after rest rule: gather.induct)
     (fastforce split: if_splits prod.splits)+

definition quiet :: "pipe \<Rightarrow> bool" where
  "quiet p \<longleftrightarrow> table_wf (p_store p) \<and> lost p = 0 \<and> saved p = 0 \<and> in_flight p = 0"

lemma quiet_write:
  assumes "quiet p" and "append C False (map fst b) (p_store p) = (Inr ns, s)"
  shows "write_batch C now False True b p =
      p\<lparr>p_store := s, replies := replies p @ replies_to (map snd b) ns RSeq\<rparr>"
    and "quiet (write_batch C now False True b p)"
  using assms wf_append [of "p_store p" C False "map fst b"]
  by (cases p; auto simp: write_batch_def Let_def save_locked_def quiet_def)+

lemma answers_append:
  "length xs = length ys \<Longrightarrow> replies_to (xs @ xs') (ys @ ys') f = replies_to xs ys f @ replies_to xs' ys' f"
  by (simp add: replies_to_def)

lemma serve_batch:
  assumes "quiet p" and "b \<noteq> []"
  shows "write_batch C now False True b p = foldl (serve C now) p (map (\<lambda>x. CAppend (fst x) (snd x)) b) \<and>
     quiet (write_batch C now False True b p)"
  using assms(2,1)
proof (induction b arbitrary: p rule: list_nonempty_induct)
  case (single x)
  obtain ns s where "append C False (map fst [x]) (p_store p) = (Inr ns, s)"
    using append_ok [of "p_store p" C "map fst [x]"] single by (auto simp: quiet_def)
  from quiet_write(2) [OF single this] show ?case by simp
next
  case (cons x xs)
  have wf: "table_wf (p_store p)" using cons.prems by (simp add: quiet_def)
  obtain ns s where one: "append C False (map fst [x]) (p_store p) = (Inr ns, s)" "table_wf s"
      and ns: "length ns = 1"
    using append_ok [OF wf, of C "map fst [x]"] by auto
  obtain ms t where rest: "append C False (map fst xs) s = (Inr ms, t)"
    using append_ok [OF one(2), of C "map fst xs"] by auto
  have both: "append C False (map fst (x # xs)) (p_store p) = (Inr (ns @ ms), t)"
    using append_append [OF wf one(1) rest] by simp
  let ?p = "write_batch C now False True [x] p"
  note p1 = quiet_write [OF cons.prems one(1), of now]
  have "append C False (map fst xs) (p_store ?p) = (Inr ms, t)" using rest p1(1) by simp
  note p2 = quiet_write [OF p1(2) this, of now]
  have "write_batch C now False True (x # xs) p = write_batch C now False True xs ?p"
    using quiet_write(1) [OF cons.prems both, of now] p1(1) p2(1) ns
      answers_append [of "[snd x]" ns "map snd xs" ms RSeq] by simp
  with conjunct1 [OF cons.IH [OF p1(2)]] conjunct2 [OF cons.IH [OF p1(2)]] show ?case by simp
qed

lemma wf_prune: "table_wf s \<Longrightarrow> table_wf (snd (prune_before C now fails cutoff s))"
proof -
  assume wf: "table_wf s"
  then show ?thesis
  proof (cases rule: prune_cases [where C = C and now = now and fails = fails and cutoff = cutoff])
    case (pruned rows l r kept)
    have seq_end: "end_seq (last_seq s) (chain_rows C [e] (last_seq s) (last_hash s)) = last_seq s + 1" for e
      by (simp add: Let_def)
    have "sorted_wrt (<) (map seq kept)" "\<forall>r \<in> set kept. seq r \<le> last_seq s"
      using wf pruned(1) by (auto simp: pruned(7) table_wf_def sorted_wrt_map sorted_wrt_filter)
    with pruned(8) show ?thesis
      by (auto simp: pruned_store_def table_wf_def Let_def sorted_wrt_append)
  qed (use wf in simp)
qed

lemma quiet_run:
  assumes "quiet p" and "\<And>e a. c \<noteq> CAppend e a"
  shows "quiet (run_command C now False c p)" "serve C now p c = run_command C now False c p"
proof -
  have wf: "prune_before C now False cutoff (p_store p) = (r, s) \<Longrightarrow> table_wf s" for cutoff r s
    using wf_prune [of "p_store p" C now False cutoff] assms(1) by (simp add: quiet_def)
  show "quiet (run_command C now False c p)"
    using assms by (cases c) (auto simp: run_command_def quiet_def wf split: prod.splits sum.splits)
  show "serve C now p c = run_command C now False c p"
    using assms(2) by (cases c) (auto simp: serve_def)
qed

lemma serve_queue: "serve C now (p\<lparr>queue := q\<rparr>) c = (serve C now p c)\<lparr>queue := q\<rparr>"
  by (cases c) (auto simp: serve_def run_command_def write_batch_def Let_def save_locked_def
      lost_add_def split: prod.splits sum.splits)

lemma foldl_serve_queue: "foldl (serve C now) (p\<lparr>queue := q\<rparr>) cs = (foldl (serve C now) p cs)\<lparr>queue := q\<rparr>"
  by (induction cs arbitrary: p) (simp_all add: serve_queue)

lemma quiet_queue [simp]: "quiet (p\<lparr>queue := q\<rparr>) = quiet p"
  by (simp add: quiet_def)

lemma round_serves:
  assumes "quiet p" and "queue p \<noteq> []"
  shows "\<exists>cs rest. cs \<noteq> [] \<and> queue p = cs @ rest \<and> quiet (writer_round C now False True visible p) \<and>
     writer_round C now False True visible p = (foldl (serve C now) p cs)\<lparr>queue := rest\<rparr>"
proof -
  obtain b after rest where g: "gather MAX_BATCH visible (queue p) = (b, after, rest)"
    by (metis prod_cases3)
  define p1 where "p1 = p\<lparr>queue := rest\<rparr>"
  define bs where "bs = map (\<lambda>x. CAppend (fst x) (snd x)) b"
  define p2 where "p2 = (if b = [] then p1 else write_batch C now False True b p1)"
  have two: "p2 = foldl (serve C now) p1 bs" "quiet p2"
    using serve_batch [of p1 b C now] assms(1) by (auto simp: p1_def p2_def bs_def)
  have round: "writer_round C now False True visible p =
      (case after of None \<Rightarrow> p2 | Some c \<Rightarrow> run_command C now False c p2)"
    using g assms(2) by (simp add: writer_round_def Let_def p1_def p2_def split: option.split)
  let ?cs = "bs @ (case after of None \<Rightarrow> [] | Some c \<Rightarrow> [c])"
  have "writer_round C now False True visible p = foldl (serve C now) p1 ?cs \<and>
      quiet (writer_round C now False True visible p)"
  proof (cases after)
    case None
    with two round show ?thesis by simp
  next
    case (Some c)
    from g Some have "c \<noteq> CAppend e a" for e a by (intro gather_other) simp
    from quiet_run [OF two(2) this, of C now] two Some round show ?thesis by simp
  qed
  moreover have "queue p = ?cs @ rest" using gather_concat [OF g] by (simp add: bs_def)
  moreover have "?cs \<noteq> []" using gather_progress [OF assms(2) g] calculation(2) by auto
  ultimately show ?thesis unfolding p1_def foldl_serve_queue by blast
qed



section \<open>No event disappears unnoticed\<close>

text \<open>
  How many of the callers' events a stored record stands for: an \<open>EventsLost\<close> record for as many as
  it counts, the writer's own records for none.
\<close>

definition event_weight :: "audit_event \<Rightarrow> nat" where
  "event_weight ev = (case ev of
     EventsLost n \<Rightarrow> n | TrailTruncated _ _ \<Rightarrow> 0 | RetentionPruned _ _ _ \<Rightarrow> 0 | _ \<Rightarrow> 1)"

definition row_weight :: "codec \<Rightarrow> row \<Rightarrow> nat" where
  "row_weight C r = (case from_json C (body r) of None \<Rightarrow> 0 | Some e \<Rightarrow> event_weight (e_event e))"

definition trail_weight :: "codec \<Rightarrow> pipe \<Rightarrow> nat" where
  "trail_weight C p = sum_list (map (row_weight C) (audit (conn (p_store p))))"

definition refused :: "(nat \<times> reply) list \<Rightarrow> nat" where
  "refused rs = length (filter (\<lambda>(a, r). case r of RFailed _ \<Rightarrow> True | RDropped \<Rightarrow> True | _ \<Rightarrow> False) rs)"

text \<open>Everything the callers handed in is in one of four places.\<close>

definition total :: "codec \<Rightarrow> pipe \<Rightarrow> nat" where
  "total C p = trail_weight C p + lost p + refused (replies p) + length (queue p)"

datatype pipe_op =
    RecordOpen bool audit_entry
  | RecordCommitted audit_entry nat
  | Round time bool bool nat
  | Panic time bool nat

definition pipe_step :: "codec \<Rightarrow> pipe \<Rightarrow> pipe_op \<Rightarrow> pipe" where
  "pipe_step C p op = (case op of
     RecordOpen room e \<Rightarrow> record_open room e p
   | RecordCommitted e a \<Rightarrow> record_committed e a p
   | Round now fails disk visible \<Rightarrow> writer_round C now fails disk visible p
   | Panic now fails visible \<Rightarrow> (case writer_panics C now fails visible p of None \<Rightarrow> p | Some p' \<Rightarrow> p'))"

definition handed :: "pipe_op \<Rightarrow> nat" where
  "handed op = (case op of RecordOpen _ _ \<Rightarrow> 1 | RecordCommitted _ _ \<Rightarrow> 1 | _ \<Rightarrow> 0)"

text \<open>Callers hand in no record of the writer's own.\<close>

definition plain_entry :: "audit_entry \<Rightarrow> bool" where
  "plain_entry e \<longleftrightarrow> event_weight (e_event e) = 1"

definition op_plain :: "pipe_op \<Rightarrow> bool" where
  "op_plain op = (case op of RecordOpen _ e \<Rightarrow> plain_entry e | RecordCommitted e _ \<Rightarrow> plain_entry e | _ \<Rightarrow> True)"

definition cmd_plain :: "command \<Rightarrow> bool" where
  "cmd_plain c = (case c of CAppend e _ \<Rightarrow> plain_entry e | _ \<Rightarrow> False)"

definition pipe_inv :: "codec \<Rightarrow> pipe \<Rightarrow> bool" where
  "pipe_inv C p \<longleftrightarrow> serde_roundtrip C \<and> store_inv C (p_store p) \<and> (\<forall>c \<in> set (queue p). cmd_plain c)"

lemma cmd_plain_append [simp]: "cmd_plain (CAppend e a) = plain_entry e"
  by (simp add: cmd_plain_def)

lemma chain_rows_weight:
  "serde_roundtrip C \<Longrightarrow> sum_list (map (row_weight C) (chain_rows C es n h)) =
     sum_list (map (\<lambda>e. event_weight (e_event e)) es)"
  by (induction es arbitrary: n h) (simp_all add: Let_def row_weight_def serde_roundtrip_def)

lemma weight_plain: "(\<forall>x \<in> set b. plain_entry (fst x)) \<Longrightarrow>
    sum_list (map (\<lambda>e. event_weight (e_event e)) (map fst b)) = length b"
  by (induction b) (simp_all add: plain_entry_def)

lemma refused_append [simp]: "refused (xs @ ys) = refused xs + refused ys"
  by (simp add: refused_def)

lemma refused_seqs: "refused (replies_to acks xs RSeq) = 0"
  by (induction acks arbitrary: xs)
     (auto simp: refused_def replies_to_def filter_empty_conv split: prod.splits option.splits)

lemma refused_failed: "refused (replies_to (map snd b) (map snd b) (\<lambda>_. RFailed e)) + unacked b = length b"
  by (induction b) (auto simp: refused_def replies_to_def unacked_def split: option.splits)

lemma refused_dropped: "refused (dropped b None) + unacked b = length b"
  by (induction b) (auto simp: refused_def dropped_def unacked_def split: option.splits)

lemma event_weight_lost [simp]: "event_weight (EventsLost n) = n"
  by (simp add: event_weight_def)

lemma total_write_batch:
  assumes "serde_roundtrip C" and "store_inv C (p_store p)" and "\<forall>x \<in> set b. plain_entry (fst x)"
  shows "total C (write_batch C now fails disk b p) = total C p + length b"
  using store_inv_wf [OF assms(2)] refl
proof (cases rule: write_batch_cases [of p _ C now fails disk b])
  case (stored s)
  have "audit (conn s) = audit (conn (p_store p)) @
      chain_rows C (batch_entries now b p) (last_seq (p_store p)) (last_hash (p_store p))"
    using stored(2) store_inv_wf [OF assms(2)] by (auto simp: append_result Let_def)
  moreover have "sum_list (map (\<lambda>e. event_weight (e_event e)) (batch_entries now b p)) = length b + lost p"
    using weight_plain [OF assms(3)] by (simp add: batch_entries_def)
  ultimately show ?thesis
    by (simp add: total_def trail_weight_def stored(3-7) chain_rows_weight [OF assms(1)] refused_seqs)
next
  case failed
  with refused_failed [of b SqlFailed] show ?thesis by (simp add: total_def trail_weight_def)
qed

lemma write_batch_inv:
  assumes "serde_roundtrip C" and "store_inv C (p_store p)"
  shows "store_inv C (p_store (write_batch C now fails disk b p))"
  using store_inv_wf [OF assms(2)] refl
proof (cases rule: write_batch_cases [of p _ C now fails disk b])
  case (stored s)
  with append_inv [OF assms, of False "batch_entries now b p"] show ?thesis by simp
qed (use assms in simp)

text \<open>With only appends in the queue, a gathered batch is a prefix of it.\<close>

lemma gather_plain:
  assumes "\<forall>c \<in> set q. cmd_plain c" and "gather room visible q = (b, after, rest)"
  shows "after = None" "\<forall>x \<in> set b. plain_entry (fst x)" "\<forall>c \<in> set rest. cmd_plain c"
    "length q = length b + length rest"
proof -
  note q = gather_concat [OF assms(2)]
  have "cmd_plain c" if "after = Some c" for c using assms(1) q that by simp
  then show none: "after = None"
    using gather_other [of room visible q b _ rest] assms(2) by (cases after) (auto simp: cmd_plain_def split: command.splits)
  have "plain_entry (fst x)" if "x \<in> set b" for x
  proof -
    from q that have "CAppend (fst x) (snd x) \<in> set q" by auto
    with assms(1) show ?thesis by (metis cmd_plain_append)
  qed
  then show "\<forall>x \<in> set b. plain_entry (fst x)" by blast
  from assms(1) q none show "\<forall>c \<in> set rest. cmd_plain c" "length q = length b + length rest" by auto
qed

lemma pipe_step_total:
  assumes "pipe_inv C p" and "op_plain op"
  shows "pipe_inv C (pipe_step C p op) \<and> total C (pipe_step C p op) = total C p + handed op"
proof (cases op)
  case (RecordOpen room e)
  then show ?thesis using assms
    by (auto simp: pipe_step_def record_open_def try_send_def lost_add_def total_def trail_weight_def
        pipe_inv_def handed_def op_plain_def cmd_plain_def split: option.splits if_splits)
next
  case (RecordCommitted e a)
  then show ?thesis using assms
    by (auto simp: pipe_step_def record_committed_def total_def trail_weight_def pipe_inv_def
        handed_def op_plain_def cmd_plain_def)
next
  case (Round now fails disk visible)
  show ?thesis
  proof (cases "queue p = []")
    case True
    then show ?thesis using assms Round by (simp add: pipe_step_def writer_round_def handed_def)
  next
    case False
    obtain b after rest where g: "gather MAX_BATCH visible (queue p) = (b, after, rest)"
      by (metis prod_cases3)
    from assms(1) have inv: "serde_roundtrip C" "store_inv C (p_store p)"
      "\<forall>c \<in> set (queue p). cmd_plain c" by (simp_all add: pipe_inv_def)
    note parts = gather_plain [OF inv(3) g]
    let ?p1 = "p\<lparr>queue := rest\<rparr>"
    let ?p2 = "if b = [] then ?p1 else write_batch C now fails disk b ?p1"
    have "pipe_step C p op = ?p2"
      using Round False g parts(1) by (simp add: pipe_step_def writer_round_def)
    moreover have "total C ?p2 = total C p"
      using total_write_batch [of C ?p1 b now fails disk] inv parts(2,4)
      by (simp add: total_def trail_weight_def)
    moreover have "queue (write_batch C now fails disk b ?p1) = rest"
      by (auto simp: write_batch_def Let_def lost_add_def split: prod.splits sum.splits)
    then have "pipe_inv C ?p2"
      using write_batch_inv [of C ?p1 now fails disk b] inv parts(3) by (simp add: pipe_inv_def)
    ultimately show ?thesis by (simp add: Round handed_def)
  qed
next
  case (Panic now fails visible)
  obtain b after rest where g: "gather MAX_BATCH visible (queue p) = (b, after, rest)"
    by (metis prod_cases3)
  from assms(1) have inv: "serde_roundtrip C" "store_inv C (p_store p)"
    "\<forall>c \<in> set (queue p). cmd_plain c" by (simp_all add: pipe_inv_def)
  note parts = gather_plain [OF inv(3) g]
  have "pipe_step C p op = p\<lparr>queue := rest, lost := lost p + unacked b, in_flight := 0,
      replies := replies p @ dropped b None\<rparr>"
    using Panic g parts(1) open_store_clean [OF inv(2), of now fails]
    by (simp add: pipe_step_def writer_panics_def Let_def lost_add_def)
  with refused_dropped [of b] inv parts(3,4) show ?thesis
    by (simp add: total_def trail_weight_def pipe_inv_def Panic handed_def)
qed



section \<open>Retention and the clock\<close>

lemma num_seconds_bound: "\<bar>num_seconds d\<bar> \<le> 300 \<longleftrightarrow> \<bar>d\<bar> < secs 301"
  by (auto simp: num_seconds_def)

lemma retention_round_jump:
  "retention_round days tick wall (Some (m, w)) =
     (if secs 301 \<le> \<bar>(wall - w) - max 0 (tick - m)\<bar>
      then ReportJump (num_seconds ((wall - w) - max 0 (tick - m)))
      else if days = 0 then Idle else PruneUntilDone (wall - secs (int days * 86400)),
      Some (tick, wall))"
proof -
  have "300 < \<bar>num_seconds j\<bar> \<longleftrightarrow> secs 301 \<le> \<bar>j\<bar>" for j
    using num_seconds_bound [of j] by linarith
  then show ?thesis by (simp add: retention_round_def Let_def)
qed

text \<open>What is left when a retention run is over.\<close>

definition nothing_outdated :: "codec \<Rightarrow> time \<Rightarrow> time \<Rightarrow> store \<Rightarrow> bool" where
  "nothing_outdated C now cutoff s \<longleftrightarrow>
     (let rows = audit (conn s) in
      length rows \<le> 2 \<or> ts_column C (now + secs 300) < r_ts (last rows) \<or>
      ts_column C cutoff \<le> r_ts (hd rows))"

lemma min_seq_filter_hd:
  assumes "sorted_wrt (<) (map seq rows)" and "min_seq (filter P rows) = Some k" and "k \<le> seq (hd rows)"
    and "rows \<noteq> []"
  shows "P (hd rows)"
proof -
  from assms(2) obtain r rs where f: "filter P rows = r # rs" "seq r = k"
    by (auto simp: min_seq_def split: list.splits)
  then have "r \<in> set (filter P rows)" by simp
  then have r: "r \<in> set rows" "P r" by simp_all
  with sorted_hd_min [OF assms(1)] f(2) assms(3) have "seq r = seq (hd rows)" by force
  with in_set_seq_inj [OF assms(1) r(1), of "hd rows"] assms(4) r(2) show ?thesis by simp
qed

lemma prune_zero:
  assumes inv: "store_inv C s" and res: "prune_before C now False cutoff s = (r, s')"
    and zero: "r = Inr 0 \<or> (\<exists>err. r = Inl err)"
  shows "nothing_outdated C now cutoff s"
proof (cases "audit (conn s) = []")
  case False
  define rows where "rows = audit (conn s)"
  have ne: "rows \<noteq> []" using False by (simp add: rows_def)
  have linked: "linked rows" using inv by (simp add: rows_def store_inv_def verified_def)
  define l where "l = prune_last C cutoff rows (seq (last rows)) (seq (hd rows))"
  consider "ts_column C (now + secs 300) < r_ts (last rows)" | "l < seq (hd rows)"
    | "\<not> ts_column C (now + secs 300) < r_ts (last rows)" "seq (hd rows) \<le> l" by linarith
  then show ?thesis
  proof cases
    case 1
    then show ?thesis by (simp add: nothing_outdated_def rows_def Let_def)
  next
    case 2
    then have "(case min_seq (filter (\<lambda>r. ts_column C cutoff \<le> r_ts r) rows) of
        None \<Rightarrow> seq (last rows) | Some k \<Rightarrow> k) \<le> seq (hd rows) \<or> seq (last rows) \<le> seq (hd rows)"
      by (auto simp: l_def prune_last_def Let_def MAX_PRUNE_def min_def split: if_splits)
    then have "ts_column C cutoff \<le> r_ts (hd rows) \<or> seq (last rows) \<le> seq (hd rows)"
      using min_seq_filter_hd [OF linked_sorted [OF linked] _ _ ne]
      by (auto split: option.splits)
    moreover have "length rows \<le> 1" if "seq (last rows) \<le> seq (hd rows)"
      using that ne linked_nth [OF linked, of "length rows - 1"] by (simp add: last_conv_nth)
    ultimately show ?thesis by (auto simp: nothing_outdated_def rows_def Let_def)
  next
    case 3
    have "l \<le> seq (last rows)" by (simp add: l_def prune_last_def Let_def)
    from find_seq [OF linked ne 3(2) this] obtain x where "find (\<lambda>r. seq r = l) rows = Some x" by blast
    moreover have "\<forall>r \<in> set (filter (\<lambda>x. l < seq x) rows). seq r \<le> last_seq s"
      using store_inv_wf [OF inv] by (simp add: table_wf_def rows_def)
    moreover obtain x0 where "x0 \<in> set rows" "\<not> l < seq x0" using 3(2) ne by (metis hd_in_set not_le)
    then have "length (filter (\<lambda>x. l < seq x) rows) < length rows" by (rule length_filter_less)
    ultimately have False
      using res zero 3 prune_before_nonempty [OF rows_def [symmetric] ne l_def refl refl, of now False]
      by (auto simp: insert_entries_append Let_def)
    then show ?thesis ..
  qed
qed (simp add: nothing_outdated_def)

lemma prune_some:
  assumes inv: "store_inv C s" and res: "prune_before C now False cutoff s = (Inr n, s')" and "n \<noteq> 0"
  shows "length (audit (conn s')) = length (audit (conn s)) - n + 1" "n < length (audit (conn s))"
    and "int n < MAX_PRUNE \<Longrightarrow> nothing_outdated C now cutoff s'"
proof -
  have wf: "table_wf s" by (rule store_inv_wf [OF inv])
  from prune_result [OF wf res refl] assms(3) have n: "n < length (audit (conn s))"
    "pruned_by C now n s s'" by auto
  then show "n < length (audit (conn s))" "length (audit (conn s')) = length (audit (conn s)) - n + 1"
    by (auto simp: pruned_by_def Let_def)
  assume small: "int n < MAX_PRUNE"
  from wf show "nothing_outdated C now cutoff s'"
  proof (cases rule: prune_cases [where C = C and now = now and fails = False and cutoff = cutoff])
    case same
    with res assms(3) show ?thesis by auto
  next
    case (pruned rows l r kept)
    have linked: "linked rows" using inv pruned(1) by (simp add: store_inv_def verified_def)
    note sorted = linked_sorted [OF linked]
    from res pruned(8) have n_eq: "n = length rows - length kept" by simp
    obtain p where p: "audit (conn s') = drop n rows @ [p]"
      using n(2) pruned(1) by (auto simp: pruned_by_def Let_def)
    from pruned(8) res have "audit (conn s') = kept @ [last (audit (conn s'))]"
      by (auto simp: pruned_store_def Let_def)
    with p have kept: "kept = drop n rows" by simp
    with n(1) pruned(1) have kne: "kept \<noteq> []" "hd kept = rows ! n" "n < length rows"
      by (auto simp: hd_drop_conv_nth)
    have "hd kept \<in> set kept" using kne(1) by simp
    then have above: "l < seq (hd kept)" using pruned(7) by simp
    have "seq (rows ! (n - 1)) \<le> l"
    proof (rule ccontr)
      assume "\<not> ?thesis"
      then have "rows ! (n - 1) \<in> set kept" using kne(3) by (auto simp: pruned(7))
      then obtain i where "i < length rows - n" "rows ! (n - 1) = rows ! (n + i)"
        by (auto simp: kept in_set_conv_nth)
      moreover from this have "n - 1 < length rows" "n + i < length rows" by simp_all
      ultimately have "int (n - 1) = int (n + i)"
        using linked_nth [OF linked, of "n - 1"] linked_nth [OF linked, of "n + i"] by simp
      with assms(3) show False by simp
    qed
    with above linked_nth [OF linked, of n] linked_nth [OF linked, of "n - 1"] assms(3) kne
    have l: "l = seq (hd rows) + int n - 1" by simp
    let ?fk = "min_seq (filter (\<lambda>r. ts_column C cutoff \<le> r_ts r) rows)"
    have "l = min (case ?fk of None \<Rightarrow> seq (last rows) | Some k \<Rightarrow> k) (seq (last rows)) - 1"
      using pruned(3) l small by (auto simp: prune_last_def Let_def)
    then consider "l = seq (last rows) - 1" | k where "?fk = Some k" "l = k - 1"
      by (auto simp: min_def split: option.splits if_splits)
    then show ?thesis
    proof cases
      case 1
      then have "length rows = n + 1"
        using l linked_nth [OF linked, of "length rows - 1"] pruned(2) kne(3)
        by (simp add: last_conv_nth)
      then show ?thesis by (simp add: nothing_outdated_def Let_def p)
    next
      case 2
      then obtain x xs where x: "filter (\<lambda>r. ts_column C cutoff \<le> r_ts r) rows = x # xs" "seq x = k"
        by (auto simp: min_seq_def split: list.splits)
      then have "x \<in> set (filter (\<lambda>r. ts_column C cutoff \<le> r_ts r) rows)" by simp
      then have "x \<in> set rows" "ts_column C cutoff \<le> r_ts x" by simp_all
      moreover have "seq x = seq (hd kept)"
        using x(2) 2(2) l linked_nth [OF linked, of n] kne by simp
      ultimately have "ts_column C cutoff \<le> r_ts (hd kept)"
        using in_set_seq_inj [OF sorted, of x "hd kept"] kne by (simp add: nth_mem)
      with kne(1) show ?thesis by (simp add: nothing_outdated_def Let_def p kept)
    qed
  qed
qed

lemma prune_loop_done:
  assumes "serde_roundtrip C" and "store_inv C s" and "length (audit (conn s)) < fuel"
  shows "\<exists>s'. prune_loop fuel C now cutoff s = Some s' \<and> store_inv C s' \<and> nothing_outdated C now cutoff s'"
  using assms(2,3)
proof (induction fuel arbitrary: s)
  case (Suc k)
  obtain r s' where res: "prune_before C now False cutoff s = (r, s')" by fastforce
  have inv: "store_inv C s'" using prune_inv [OF assms(1) Suc.prems(1), of now False cutoff] res by simp
  show ?case
  proof (cases "\<exists>n. r = Inr n \<and> n \<noteq> 0")
    case True
    then obtain n where r: "r = Inr n" "n \<noteq> 0" by blast
    note p = prune_some [OF Suc.prems(1) res [unfolded r(1)] r(2)]
    show ?thesis
    proof (cases "int n < MAX_PRUNE")
      case True
      with r res p inv show ?thesis by simp
    next
      case False
      with p(1,2) Suc.prems(2) have "length (audit (conn s')) < k" by (simp add: MAX_PRUNE_def)
      from Suc.IH [OF inv this] r res False show ?thesis by simp
    qed
  next
    case False
    then have "r = Inr 0 \<or> (\<exists>err. r = Inl err)" by (cases r) auto
    moreover have "nothing_outdated C now cutoff s" using prune_zero [OF Suc.prems(1) res] calculation by blast
    moreover have "s' = s"
      using store_inv_wf [OF Suc.prems(1)]
    proof (cases rule: prune_cases [where C = C and now = now and fails = False and cutoff = cutoff])
      case same
      with res show ?thesis by simp
    next
      case (pruned rows l x kept)
      have "\<not> l < seq x" using pruned(6) by simp
      then have "length kept < length rows"
        unfolding pruned(7) using pruned(5) by (intro length_filter_less) auto
      with pruned(8) res False show ?thesis by auto
    qed
    ultimately show ?thesis using res Suc.prems(1) by auto
  qed
qed simp



end
