(* ===== verification/Summarise.thy ===== *)
theory Summarise
  imports Prelude Text Ordered_Map Audit_Event "HOL-Library.List_Lexorder" "HOL-Library.Char_ord"
begin

text \<open>
  Summarised nodes: the groups of a target's configuration (src/config.rs) with the clean-up of
  overlapping groups and the migration of old \<open>ignore\<close> rules, the lookup built from them, and the
  counters kept between two summaries (src/relay/ignore.rs). Parsing a node id is the opcua
  library's: the parameter \<open>P\<close> reads trimmed text.
\<close>

section \<open>The groups of a target\<close>

record summarise_group =
  g_name :: "string option"
  g_client :: "string option"
  nodes :: "string list"
  names :: "(string \<times> string) list"

record ignore_rule =
  ir_node_id :: string
  ir_client :: "string option"
  ir_name :: "string option"

definition MAX_SUMMARISED_NODES :: nat where "MAX_SUMMARISED_NODES = 1000"
definition MAX_SUMMARISE_GROUPS :: nat where "MAX_SUMMARISE_GROUPS = 100"

definition group_label :: "summarise_group \<Rightarrow> string" where
  "group_label g =
     (let name = (case g_name g of Some n \<Rightarrow> [CHR 0x27] @ n @ [CHR 0x27] | None \<Rightarrow> ''an unnamed group'')
      in case g_client g of
           Some c \<Rightarrow> name @ '' (from '' @ c @ '')''
         | None \<Rightarrow> name @ '' (from every client)'')"

definition parse_node :: "(string \<Rightarrow> 'n option) \<Rightarrow> string \<Rightarrow> 'n option" where
  "parse_node P t = P (trim t)"

text \<open>The nodes of a group that parse.\<close>

definition node_set :: "(string \<Rightarrow> 'n option) \<Rightarrow> summarise_group \<Rightarrow> 'n list" where
  "node_set P g = List.map_filter (parse_node P) (nodes g)"

definition groups_overlap :: "summarise_group \<Rightarrow> summarise_group \<Rightarrow> bool" where
  "groups_overlap a b \<longleftrightarrow> g_client a = None \<or> g_client b = None \<or> g_client a = g_client b"

definition in_nodes :: "(string \<Rightarrow> 'n option) \<Rightarrow> 'n list \<Rightarrow> string \<Rightarrow> bool" where
  "in_nodes P earlier n = (case parse_node P n of None \<Rightarrow> False | Some p \<Rightarrow> p \<in> set earlier)"

fun overlap_with :: "(string \<Rightarrow> 'n option) \<Rightarrow> summarise_group \<Rightarrow> summarise_group list
    \<Rightarrow> (string \<times> string \<times> string) option" where
  "overlap_with P a [] = None"
| "overlap_with P a (b # bs) =
     (if \<not> groups_overlap a b then overlap_with P a bs
      else case find (in_nodes P (node_set P a)) (nodes b) of
        Some n \<Rightarrow> Some (n, group_label a, group_label b)
      | None \<Rightarrow> overlap_with P a bs)"

fun summarise_overlap :: "(string \<Rightarrow> 'n option) \<Rightarrow> summarise_group list \<Rightarrow> (string \<times> string \<times> string) option" where
  "summarise_overlap P [] = None"
| "summarise_overlap P (a # gs) =
     (case overlap_with P a gs of Some x \<Rightarrow> Some x | None \<Rightarrow> summarise_overlap P gs)"

section \<open>Validation\<close>

datatype summarise_error =
    TooManyGroups
  | TooManyNodes nat
  | SameGroupTwice string
  | BadGroupName
  | BadGroupClient
  | NotANodeId string
  | NodeTwice string string
  | NameOutsideGroup string
  | NodeInTwoGroups string string string

fun check_nodes :: "(string \<Rightarrow> 'n option) \<Rightarrow> string \<Rightarrow> 'n set \<Rightarrow> string list \<Rightarrow> summarise_error option" where
  "check_nodes P l seen [] = None"
| "check_nodes P l seen (n # ns) =
     (case parse_node P n of
        None \<Rightarrow> Some (NotANodeId n)
      | Some p \<Rightarrow> if p \<in> seen then Some (NodeTwice n l) else check_nodes P l (insert p seen) ns)"

definition check_group :: "(string \<Rightarrow> 'n option) \<Rightarrow> summarise_group \<Rightarrow> summarise_error option" where
  "check_group P g =
     (if (case g_name g of None \<Rightarrow> False | Some n \<Rightarrow> trim n = [] \<or> 100 < chars_count n) then Some BadGroupName
      else if (case g_client g of None \<Rightarrow> False | Some c \<Rightarrow> trim c = [] \<or> 256 < length c) then Some BadGroupClient
      else case check_nodes P (group_label g) {} (nodes g) of
        Some e \<Rightarrow> Some e
      | None \<Rightarrow> (case find (\<lambda>k. k \<notin> set (nodes g)) (map fst (names g)) of
            Some k \<Rightarrow> Some (NameOutsideGroup k)
          | None \<Rightarrow> None))"

fun check_groups :: "(string \<Rightarrow> 'n option) \<Rightarrow> (string option \<times> string option) set \<Rightarrow> summarise_group list
    \<Rightarrow> summarise_error option" where
  "check_groups P seen [] = None"
| "check_groups P seen (g # gs) =
     (if (g_name g, g_client g) \<in> seen then Some (SameGroupTwice (group_label g))
      else case check_group P g of
        Some e \<Rightarrow> Some e
      | None \<Rightarrow> check_groups P (insert (g_name g, g_client g) seen) gs)"

definition validate_summarise :: "(string \<Rightarrow> 'n option) \<Rightarrow> summarise_group list \<Rightarrow> summarise_error option" where
  "validate_summarise P gs =
     (let total = sum_list (map (length \<circ> nodes) gs) in
      if MAX_SUMMARISE_GROUPS < length gs then Some TooManyGroups
      else if MAX_SUMMARISED_NODES < total then Some (TooManyNodes total)
      else case check_groups P {} gs of
        Some e \<Rightarrow> Some e
      | None \<Rightarrow> (case summarise_overlap P gs of
            Some (n, a, b) \<Rightarrow> Some (NodeInTwoGroups n a b)
          | None \<Rightarrow> None))"

section \<open>Cleaning up old configurations\<close>

definition drop_nodes :: "(string \<Rightarrow> 'n option) \<Rightarrow> 'n list \<Rightarrow> summarise_group \<Rightarrow> summarise_group" where
  "drop_nodes P earlier g =
     (let kept = filter (\<lambda>n. \<not> in_nodes P earlier n) (nodes g)
      in g\<lparr>nodes := kept, names := filter (\<lambda>(k, v). k \<in> set kept) (names g)\<rparr>)"

text \<open>One group against the later ones; the messages name the node and both groups.\<close>

fun drop_from :: "(string \<Rightarrow> 'n option) \<Rightarrow> summarise_group \<Rightarrow> summarise_group list
    \<Rightarrow> summarise_group list \<times> (string \<times> string \<times> string) list" where
  "drop_from P a [] = ([], [])"
| "drop_from P a (b # bs) =
     (case drop_from P a bs of (bs', msgs) \<Rightarrow>
        if \<not> groups_overlap a b then (b # bs', msgs)
        else (let b' = drop_nodes P (node_set P a) b
              in (b' # bs', map (\<lambda>n. (n, group_label b', group_label a))
                              (filter (\<lambda>n. n \<notin> set (nodes b')) (nodes b)) @ msgs)))"

lemma drop_from_length [simp]: "length (fst (drop_from P a bs)) = length bs"
  by (induction bs) (auto simp: Let_def split: prod.splits)

function drop_summarise_overlaps :: "(string \<Rightarrow> 'n option) \<Rightarrow> summarise_group list
    \<Rightarrow> summarise_group list \<times> (string \<times> string \<times> string) list" where
  "drop_summarise_overlaps P [] = ([], [])"
| "drop_summarise_overlaps P (a # gs) =
     (case drop_summarise_overlaps P (fst (drop_from P a gs)) of
        (gs', msgs) \<Rightarrow> (a # gs', snd (drop_from P a gs) @ msgs))"
  by pat_completeness auto
termination by (relation "measure (length \<circ> snd)") auto

definition rule_client :: "ignore_rule \<Rightarrow> string option" where
  "rule_client r = (case ir_client r of None \<Rightarrow> None
     | Some c \<Rightarrow> if trim c = [] then None else Some (trim c))"

definition with_group :: "string option \<Rightarrow> summarise_group list \<Rightarrow> summarise_group list" where
  "with_group k gs =
     (if \<exists>g \<in> set gs. g_client g = k then gs
      else gs @ [\<lparr>g_name = None, g_client = k, nodes = [], names = []\<rparr>])"

definition rule_into :: "ignore_rule \<Rightarrow> summarise_group \<Rightarrow> summarise_group" where
  "rule_into r g =
     (let node = trim (ir_node_id r);
          g1 = (if node \<in> set (nodes g) then g else g\<lparr>nodes := nodes g @ [node]\<rparr>)
      in case ir_name r of
           Some n \<Rightarrow> if trim n = [] then g1 else g1\<lparr>names := bt_put node n (names g1)\<rparr>
         | None \<Rightarrow> g1)"

definition migrate_rule :: "ignore_rule \<Rightarrow> summarise_group list \<Rightarrow> summarise_group list" where
  "migrate_rule r gs =
     (let gs' = with_group (rule_client r) gs;
          i = length (takeWhile (\<lambda>g. g_client g \<noteq> rule_client r) gs')
      in gs'[i := rule_into r (gs' ! i)])"

definition migrate_ignore :: "ignore_rule list \<Rightarrow> summarise_group list \<Rightarrow> summarise_group list" where
  "migrate_ignore rules gs = fold migrate_rule rules gs"

section \<open>The lookup\<close>

record 'n lookup =
  all :: "'n set"
  by_client :: "string \<rightharpoonup> 'n set"

definition empty_lookup :: "'n lookup" where
  "empty_lookup = \<lparr>all = {}, by_client = \<lambda>_. None\<rparr>"

definition add_group :: "(string \<Rightarrow> 'n option) \<Rightarrow> summarise_group \<Rightarrow> 'n lookup \<Rightarrow> 'n lookup" where
  "add_group P g l =
     (case g_client g of
        Some c \<Rightarrow> l\<lparr>by_client := (by_client l)(trim c \<mapsto>
                     (case by_client l (trim c) of None \<Rightarrow> {} | Some ns \<Rightarrow> ns) \<union> set (node_set P g))\<rparr>
      | None \<Rightarrow> l\<lparr>all := all l \<union> set (node_set P g)\<rparr>)"

definition summarise_list :: "(string \<Rightarrow> 'n option) \<Rightarrow> summarise_group list \<Rightarrow> 'n lookup" where
  "summarise_list P gs =
     (let l = fold (add_group P) gs empty_lookup
      in l\<lparr>by_client := (\<lambda>c. case by_client l c of Some ns \<Rightarrow> if ns = {} then None else Some ns | None \<Rightarrow> None)\<rparr>)"

definition lookup_empty :: "'n lookup \<Rightarrow> bool" where
  "lookup_empty l \<longleftrightarrow> all l = {} \<and> by_client l = (\<lambda>_. None)"

definition trim_matches_start :: "char \<Rightarrow> string \<Rightarrow> string" where
  "trim_matches_start c = dropWhile (\<lambda>x. x = c)"

definition trim_matches_end :: "char \<Rightarrow> string \<Rightarrow> string" where
  "trim_matches_end c s = rev (dropWhile (\<lambda>x. x = c) (rev s))"

definition client_ip :: "string \<Rightarrow> string" where
  "client_ip addr =
     (let host = (case rsplit_once CHR '':'' addr of None \<Rightarrow> addr | Some (h, _) \<Rightarrow> h)
      in trim_matches_end CHR '']'' (trim_matches_start CHR ''['' host))"

definition summarise_matches :: "'n lookup \<Rightarrow> 'n \<Rightarrow> client_context \<Rightarrow> bool" where
  "summarise_matches l n c =
     (let for_client = (\<lambda>key. case by_client l key of None \<Rightarrow> False | Some ns \<Rightarrow> n \<in> ns)
      in n \<in> all l \<or> for_client (client_ip (remote_addr c)) \<or>
         (case application_uri c of None \<Rightarrow> False | Some u \<Rightarrow> for_client u))"

section \<open>Counting summarised writes\<close>

definition MAX_CLIENTS :: nat where "MAX_CLIENTS = 20"
definition MAX_NODES :: nat where "MAX_NODES = 10000"

record summary =
  display_name :: "string option"
  count :: nat
  failed :: nat
  first :: time
  s_last :: time
  last_value :: audit_value
  last_status :: string
  clients :: "string list"

type_synonym ignored_writes = "(string \<times> summary) list"

definition client_label :: "client_context \<Rightarrow> string" where
  "client_label c =
     (let app = (case application_name c of Some a \<Rightarrow> Some a | None \<Rightarrow> application_uri c)
      in clip (client_ip (remote_addr c)
           @ (case app of Some a \<Rightarrow> '' '' @ a | None \<Rightarrow> [])
           @ (case user c of Some u \<Rightarrow> '' ('' @ label u @ '')'' | None \<Rightarrow> [])) MAX_NAME)"

definition new_summary :: "time \<Rightarrow> audit_value \<Rightarrow> summary" where
  "new_summary now v = \<lparr>display_name = None, count = 0, failed = 0, first = now, s_last = now,
     last_value = v, last_status = [], clients = []\<rparr>"

definition count_write :: "time \<Rightarrow> string option \<Rightarrow> audit_value \<Rightarrow> string \<Rightarrow> client_context \<Rightarrow> summary \<Rightarrow> summary" where
  "count_write now name v status c s =
     s\<lparr>count := count s + 1,
       failed := (if starts_with status ''Good'' then failed s else failed s + 1),
       s_last := now, last_value := v, last_status := status,
       display_name := (case name of Some n \<Rightarrow> Some n | None \<Rightarrow> display_name s),
       clients := (if length (clients s) < MAX_CLIENTS then insort_insert (client_label c) (clients s)
                   else clients s)\<rparr>"

definition add_ignored :: "time \<Rightarrow> string \<Rightarrow> string option \<Rightarrow> audit_value \<Rightarrow> string \<Rightarrow> client_context
    \<Rightarrow> ignored_writes \<Rightarrow> bool \<times> ignored_writes" where
  "add_ignored now n name v status c m =
     (if map_of m n = None \<and> MAX_NODES \<le> length m then (False, m)
      else (let s = (case map_of m n of Some s \<Rightarrow> s | None \<Rightarrow> new_summary now v)
            in (True, bt_put n (count_write now name v status c s) m)))"

definition summary_event :: "string \<times> summary \<Rightarrow> audit_event" where
  "summary_event ns = (case ns of (n, s) \<Rightarrow>
     EvIgnoredWrites n (display_name s) (count s) (failed s) (first s) (s_last s) (last_value s)
       (last_status s) (clients s))"

definition take_ignored :: "ignored_writes \<Rightarrow> audit_event list \<times> ignored_writes" where
  "take_ignored m = (map summary_event m, [])"

section \<open>What the lookup answers\<close>

text \<open>The declarative meaning: a group applies to the writes of a client, and summarises a node.\<close>

definition applies_to :: "string option \<Rightarrow> client_context \<Rightarrow> bool" where
  "applies_to k c = (case k of None \<Rightarrow> True
     | Some k \<Rightarrow> k = client_ip (remote_addr c) \<or> application_uri c = Some k)"

definition summarises :: "(string \<Rightarrow> 'n option) \<Rightarrow> 'n \<Rightarrow> client_context \<Rightarrow> summarise_group \<Rightarrow> bool" where
  "summarises P n c g \<longleftrightarrow> n \<in> set (node_set P g) \<and> applies_to (map_option trim (g_client g)) c"

definition keyed :: "'n lookup \<Rightarrow> 'n \<Rightarrow> string \<Rightarrow> bool" where
  "keyed l n key = (case by_client l key of None \<Rightarrow> False | Some ns \<Rightarrow> n \<in> ns)"

lemma keyed_add:
  "keyed (add_group P g l) n key \<longleftrightarrow>
     keyed l n key \<or> (map_option trim (g_client g) = Some key \<and> n \<in> set (node_set P g))"
  by (auto simp: keyed_def add_group_def split: option.splits)

lemma all_add: "n \<in> all (add_group P g l) \<longleftrightarrow> n \<in> all l \<or> (g_client g = None \<and> n \<in> set (node_set P g))"
  by (auto simp: add_group_def split: option.splits)

lemma keyed_fold:
  "keyed (fold (add_group P) gs l) n key \<longleftrightarrow>
     keyed l n key \<or> (\<exists>g \<in> set gs. map_option trim (g_client g) = Some key \<and> n \<in> set (node_set P g))"
  by (induction gs arbitrary: l) (auto simp: keyed_add)

lemma all_fold:
  "n \<in> all (fold (add_group P) gs l) \<longleftrightarrow>
     n \<in> all l \<or> (\<exists>g \<in> set gs. g_client g = None \<and> n \<in> set (node_set P g))"
  by (induction gs arbitrary: l) (auto simp: all_add)

lemma summarise_list_keyed:
  "keyed (summarise_list P gs) n key = keyed (fold (add_group P) gs empty_lookup) n key"
  by (auto simp: keyed_def summarise_list_def Let_def split: option.splits)

lemma summarise_list_all: "all (summarise_list P gs) = all (fold (add_group P) gs empty_lookup)"
  by (simp add: summarise_list_def Let_def)

lemma matches_keyed:
  "summarise_matches l n c \<longleftrightarrow> n \<in> all l \<or> keyed l n (client_ip (remote_addr c)) \<or>
     (\<exists>u. application_uri c = Some u \<and> keyed l n u)"
  by (auto simp: summarise_matches_def keyed_def split: option.splits)

lemma matches_spec:
  "summarise_matches (summarise_list P gs) n c \<longleftrightarrow> (\<exists>g \<in> set gs. summarises P n c g)"
proof -
  have "summarises P n c g \<longleftrightarrow> n \<in> set (node_set P g) \<and> (g_client g = None \<or>
      map_option trim (g_client g) = Some (client_ip (remote_addr c)) \<or>
      (\<exists>u. application_uri c = Some u \<and> map_option trim (g_client g) = Some u))" for g
    by (cases "g_client g") (auto simp: summarises_def applies_to_def)
  moreover have "\<not> keyed empty_lookup n key" "n \<notin> all empty_lookup" for key
    by (simp_all add: empty_lookup_def keyed_def)
  ultimately show ?thesis
    unfolding matches_keyed summarise_list_keyed summarise_list_all keyed_fold all_fold by blast
qed

text \<open>The lookup answers what the groups say: a write is summarised exactly when some group names
  its node and is for every client, or for this client's address or application URI.\<close>

theorem summarise_lookup_spec:
  "summarise_matches (summarise_list P gs) n c \<longleftrightarrow> list_ex (summarises P n c) gs"
  by (simp add: matches_spec list_ex_iff)

section \<open>Old configurations\<close>

lemma node_set_append: "node_set P (g\<lparr>nodes := xs @ ys\<rparr>) = List.map_filter (parse_node P) xs @ List.map_filter (parse_node P) ys"
  by (simp add: node_set_def List.map_filter_def)

lemma in_node_set: "n \<in> set (node_set P g) \<longleftrightarrow> (\<exists>t \<in> set (nodes g). parse_node P t = Some n)"
  by (force simp: node_set_def List.map_filter_def)

lemma parse_node_trim [simp]: "parse_node P (trim t) = parse_node P t"
  by (simp add: parse_node_def)

definition rule_applies :: "(string \<Rightarrow> 'n option) \<Rightarrow> 'n \<Rightarrow> client_context \<Rightarrow> ignore_rule \<Rightarrow> bool" where
  "rule_applies P n c r \<longleftrightarrow> parse_node P (ir_node_id r) = Some n \<and> applies_to (rule_client r) c"

lemma rule_client_trim: "map_option trim (rule_client r) = rule_client r"
  by (simp add: rule_client_def split: option.split)

lemma length_takeWhile_less_ex: "\<exists>x \<in> set xs. \<not> P x \<Longrightarrow> length (takeWhile P xs) < length xs"
  by (induction xs) auto

lemma list_update_ex:
  assumes "i < length xs"
  shows "(\<exists>x \<in> set (xs[i := y]). Q x) \<longleftrightarrow> Q y \<or> (\<exists>j < length xs. j \<noteq> i \<and> Q (xs ! j))"
proof -
  have "(\<exists>x \<in> set (xs[i := y]). Q x) \<longleftrightarrow> (\<exists>j < length xs. Q (xs[i := y] ! j))"
    by (metis in_set_conv_nth length_list_update)
  also have "\<dots> \<longleftrightarrow> Q y \<or> (\<exists>j < length xs. j \<noteq> i \<and> Q (xs ! j))"
    using assms by (metis nth_list_update)
  finally show ?thesis .
qed

lemma rule_into_spec:
  assumes "g_client g = rule_client r"
  shows "summarises P n c (rule_into r g) \<longleftrightarrow> summarises P n c g \<or> rule_applies P n c r"
proof -
  have "g_client (rule_into r g) = rule_client r"
    "set (nodes (rule_into r g)) = insert (trim (ir_node_id r)) (set (nodes g))"
    using assms by (auto simp: rule_into_def Let_def split: option.splits)
  then show ?thesis
    using assms by (auto simp: summarises_def rule_applies_def in_node_set rule_client_trim)
qed

lemma migrate_rule_spec:
  "(\<exists>g \<in> set (migrate_rule r gs). summarises P n c g) \<longleftrightarrow>
     (\<exists>g \<in> set gs. summarises P n c g) \<or> rule_applies P n c r"
proof -
  define gs' where "gs' = with_group (rule_client r) gs"
  define i where "i = length (takeWhile (\<lambda>g. g_client g \<noteq> rule_client r) gs')"
  have same: "(\<exists>g \<in> set gs'. summarises P n c g) \<longleftrightarrow> (\<exists>g \<in> set gs. summarises P n c g)"
    by (auto simp: gs'_def with_group_def summarises_def node_set_def)
  have "\<exists>g \<in> set gs'. g_client g = rule_client r" by (auto simp: gs'_def with_group_def)
  then have i: "i < length gs'" unfolding i_def by (intro length_takeWhile_less_ex) auto
  then have ik: "g_client (gs' ! i) = rule_client r"
    using nth_length_takeWhile [of "\<lambda>g. g_client g \<noteq> rule_client r" gs'] by (simp add: i_def)
  have "migrate_rule r gs = gs'[i := rule_into r (gs' ! i)]"
    by (simp add: migrate_rule_def Let_def gs'_def i_def)
  then have "(\<exists>g \<in> set (migrate_rule r gs). summarises P n c g) \<longleftrightarrow>
      summarises P n c (rule_into r (gs' ! i)) \<or> (\<exists>j < length gs'. j \<noteq> i \<and> summarises P n c (gs' ! j))"
    by (simp add: list_update_ex [OF i])
  also have "\<dots> \<longleftrightarrow> (\<exists>g \<in> set gs'. summarises P n c g) \<or> rule_applies P n c r"
    unfolding rule_into_spec [OF ik] using i by (metis in_set_conv_nth)
  finally show ?thesis using same by simp
qed

text \<open>Moving the old \<open>ignore\<close> rules into groups changes no decision: a write is summarised
  afterwards exactly when a group summarised it before or a rule ignored it.\<close>

theorem migration_keeps_rules:
  "summarise_matches (summarise_list P (migrate_ignore rules gs)) n c \<longleftrightarrow>
     summarise_matches (summarise_list P gs) n c \<or> list_ex (rule_applies P n c) rules"
  unfolding matches_spec migrate_ignore_def
  by (induction rules arbitrary: gs) (auto simp: migrate_rule_spec)

text \<open>Dropping nodes keeps a group's client, and its nodes are those it had that the other lacks.\<close>

lemma drop_nodes_fields [simp]:
  "g_client (drop_nodes P e g) = g_client g" "g_name (drop_nodes P e g) = g_name g"
  "nodes (drop_nodes P e g) = filter (\<lambda>n. \<not> in_nodes P e n) (nodes g)"
  by (simp_all add: drop_nodes_def Let_def)

lemma groups_overlap_drop [simp]: "groups_overlap a (drop_nodes P e b) = groups_overlap a b"
  "groups_overlap (drop_nodes P e b) a = groups_overlap b a"
  by (simp_all add: groups_overlap_def)

definition thinner :: "summarise_group \<Rightarrow> summarise_group \<Rightarrow> bool" where
  "thinner b a \<longleftrightarrow> g_client b = g_client a \<and> g_name b = g_name a \<and> set (nodes b) \<subseteq> set (nodes a)"

lemma list_all2_in: "list_all2 R xs ys \<Longrightarrow> x \<in> set xs \<Longrightarrow> \<exists>y \<in> set ys. R x y"
  by (induction xs ys rule: list_all2_induct) auto

lemma drop_from_thinner: "list_all2 thinner (fst (drop_from P a bs)) bs"
  by (induction bs) (auto simp: Let_def thinner_def split: prod.splits)

lemma thinner_trans: "thinner a b \<Longrightarrow> thinner b c \<Longrightarrow> thinner a c"
  by (auto simp: thinner_def)

lemma drop_thinner: "list_all2 thinner (fst (drop_summarise_overlaps P gs)) gs"
proof (induction P gs rule: drop_summarise_overlaps.induct)
  case (2 P a gs)
  have "list_all2 thinner (fst (drop_summarise_overlaps P (fst (drop_from P a gs)))) gs"
    by (rule list_all2_trans [OF _ 2 drop_from_thinner]) (rule thinner_trans)
  moreover have "thinner a a" by (simp add: thinner_def)
  ultimately show ?case by (simp add: split_beta)
qed simp

lemma thinner_summarises: "thinner b a \<Longrightarrow> summarises P n c b \<Longrightarrow> summarises P n c a"
  by (auto simp: thinner_def summarises_def in_node_set)

lemma overlap_with_iff:
  "overlap_with P a bs = None \<longleftrightarrow>
     (\<forall>b \<in> set bs. groups_overlap a b \<longrightarrow> (\<forall>t \<in> set (nodes b). \<not> in_nodes P (node_set P a) t))"
  by (induction bs) (auto simp: find_None_iff' split: option.splits dest: find_Some_in)

lemma drop_from_clean: "overlap_with P a (fst (drop_from P a bs)) = None"
  unfolding overlap_with_iff by (induction bs) (auto simp: Let_def split: prod.splits)

lemma overlap_with_thinner:
  assumes "overlap_with P a bs = None" and "list_all2 thinner bs' bs"
  shows "overlap_with P a bs' = None"
proof -
  have "\<exists>b \<in> set bs. thinner b' b" if "b' \<in> set bs'" for b'
    by (rule list_all2_in [OF assms(2) that])
  with assms(1) show ?thesis
    unfolding overlap_with_iff thinner_def groups_overlap_def by (metis subsetD)
qed

lemma drop_no_overlap: "summarise_overlap P (fst (drop_summarise_overlaps P gs)) = None"
proof (induction P gs rule: drop_summarise_overlaps.induct)
  case (2 P a gs)
  have "overlap_with P a (fst (drop_summarise_overlaps P (fst (drop_from P a gs)))) = None"
    by (rule overlap_with_thinner [OF drop_from_clean drop_thinner])
  with 2 show ?case by (simp add: split_beta)
qed simp

text \<open>Cleaning up an old configuration leaves no node in two groups that apply to the same
  writes, and never makes the gateway summarise a write it recorded before.\<close>

theorem cleanup_removes_overlaps:
  "summarise_overlap P (fst (drop_summarise_overlaps P gs)) = None \<and>
   (summarise_matches (summarise_list P (fst (drop_summarise_overlaps P gs))) n c \<longrightarrow>
      summarise_matches (summarise_list P gs) n c)"
proof -
  have "\<exists>g \<in> set gs. summarises P n c g"
    if g': "g' \<in> set (fst (drop_summarise_overlaps P gs))" "summarises P n c g'" for g'
  proof -
    obtain g where g: "g \<in> set gs" "thinner g' g"
      using list_all2_in [OF drop_thinner g'(1)] by blast
    from g(1) thinner_summarises [OF g(2) g'(2)] show ?thesis by (rule bexI [rotated])
  qed
  then show ?thesis unfolding matches_spec using drop_no_overlap by blast
qed

definition any_client :: client_context where
  "any_client = default_client\<lparr>remote_addr := ''10.0.0.9:1''\<rparr>"

definition group_of :: "string option \<Rightarrow> string list \<Rightarrow> summarise_group" where
  "group_of k ns = \<lparr>g_name = None, g_client = k, nodes = ns, names = []\<rparr>"

lemma trim_i: "trim ''i'' = ''i''" and trim_k: "trim ''k'' = ''k''"
  by (simp_all add: trim_visible visible_def)

theorem cleanup_removes_overlaps_witness:
  "let gs = [group_of None [''i''], group_of (Some ''k'') [''i'']]
   in summarise_matches (summarise_list Some (fst (drop_summarise_overlaps Some gs))) ''i'' any_client \<and>
      summarise_matches (summarise_list Some gs) ''i'' any_client"
proof -
  let ?gs = "[group_of None [''i''], group_of (Some ''k'') [''i'']]"
  have "summarise_matches (summarise_list Some (fst (drop_summarise_overlaps Some ?gs))) ''i'' any_client"
    unfolding matches_spec
    by (simp add: group_of_def drop_nodes_def Let_def summarises_def applies_to_def node_set_def
        parse_node_def trim_i split: prod.splits)
  with cleanup_removes_overlaps [of Some ?gs "''i''" any_client] show ?thesis by (simp add: Let_def)
qed

text \<open>It can make the gateway record more than the configuration asked for: when an earlier group
  summarises a node for one client and a later one for every client, the node is taken out of the
  later group for all clients, so the other clients' writes are no longer summarised.\<close>

theorem cleanup_forgets_other_clients:
  assumes "g_client a = Some k" and "g_client b = None" and "n \<in> set (node_set P a)"
    and "n \<in> set (node_set P b)" and "\<not> applies_to (Some (trim k)) c"
  shows "summarise_matches (summarise_list P [a, b]) n c \<and>
     \<not> summarise_matches (summarise_list P (fst (drop_summarise_overlaps P [a, b]))) n c"
proof -
  have "summarises P n c b" "\<not> summarises P n c a"
    using assms by (simp_all add: summarises_def applies_to_def)
  moreover have "\<not> summarises P n c (drop_nodes P (node_set P a) b)"
    using assms(3) by (auto simp: summarises_def in_node_set in_nodes_def)
  ultimately show ?thesis
    unfolding matches_spec using assms(1,2) by (simp add: groups_overlap_def Let_def)
qed

theorem cleanup_forgets_other_clients_witness:
  "let gs = [group_of (Some ''k'') [''i''], group_of None [''i'']]
   in summarise_matches (summarise_list Some gs) ''i'' any_client \<and>
      \<not> summarise_matches (summarise_list Some (fst (drop_summarise_overlaps Some gs))) ''i'' any_client"
  unfolding Let_def
  by (rule cleanup_forgets_other_clients [of _ "''k''"])
     (simp_all add: group_of_def node_set_def parse_node_def trim_i trim_k applies_to_def any_client_def
       default_client_def client_ip_def rsplit_once_def trim_matches_start_def trim_matches_end_def)

section \<open>No summarised write goes uncounted\<close>

datatype ignored_op =
    AddWrite time string "string option" audit_value string client_context
  | TakeSummaries

text \<open>The counters, the summary events handed out, and the writes \<open>add\<close> accepted (node, status).\<close>

type_synonym ignored_state = "ignored_writes \<times> audit_event list \<times> (string \<times> string) list"

definition ignored_step :: "ignored_state \<Rightarrow> ignored_op \<Rightarrow> ignored_state" where
  "ignored_step st op = (case st of (m, evs, acc) \<Rightarrow>
     (case op of
        AddWrite now n name v status c \<Rightarrow>
          (case add_ignored now n name v status c m of
             (True, m') \<Rightarrow> (m', evs, acc @ [(n, status)])
           | (False, m') \<Rightarrow> (m', evs, acc))
      | TakeSummaries \<Rightarrow> (case take_ignored m of (es, m') \<Rightarrow> (m', evs @ es, acc))))"

text \<open>How many writes, and how many failed ones, of node \<open>n\<close> an event stands for.\<close>

definition event_counts :: "string \<Rightarrow> audit_event \<Rightarrow> nat \<times> nat" where
  "event_counts n ev = (case ev of
     EvIgnoredWrites n' _ k f _ _ _ _ _ \<Rightarrow> if n' = n then (k, f) else (0, 0) | _ \<Rightarrow> (0, 0))"

definition pending_counts :: "string \<Rightarrow> ignored_writes \<Rightarrow> nat \<times> nat" where
  "pending_counts n m = (case map_of m n of None \<Rightarrow> (0, 0) | Some s \<Rightarrow> (count s, failed s))"

definition accepted_counts :: "string \<Rightarrow> (string \<times> string) list \<Rightarrow> nat \<times> nat" where
  "accepted_counts n acc =
     (length (filter (\<lambda>(k, st). k = n) acc),
      length (filter (\<lambda>(k, st). k = n \<and> \<not> starts_with st ''Good'') acc))"

definition add2 :: "nat \<times> nat \<Rightarrow> nat \<times> nat \<Rightarrow> nat \<times> nat" where
  "add2 a b = (fst a + fst b, snd a + snd b)"

definition sum2 :: "(nat \<times> nat) list \<Rightarrow> nat \<times> nat" where
  "sum2 xs = foldr add2 xs (0, 0)"

lemma sum2_simps [simp]: "sum2 [] = (0, 0)" "sum2 (x # xs) = add2 x (sum2 xs)"
  "sum2 (xs @ ys) = add2 (sum2 xs) (sum2 ys)"
  "add2 x (0, 0) = x" "add2 (0, 0) x = x" "add2 (add2 x y) z = add2 x (add2 y z)"
  by (induction xs) (simp_all add: sum2_def add2_def)

definition summary_ok :: "summary \<Rightarrow> bool" where
  "summary_ok s \<longleftrightarrow> 0 < count s \<and> failed s \<le> count s \<and> length (clients s) \<le> MAX_CLIENTS \<and>
     sorted_wrt (<) (clients s)"

definition ignored_inv :: "ignored_state \<Rightarrow> bool" where
  "ignored_inv st \<longleftrightarrow> (case st of (m, evs, acc) \<Rightarrow>
     bt_sorted m \<and> length m \<le> MAX_NODES \<and> (\<forall>(n, s) \<in> set m. summary_ok s) \<and>
     (\<forall>n. add2 (sum2 (map (event_counts n) evs)) (pending_counts n m) = accepted_counts n acc))"

lemma taken_counts:
  "distinct (map fst m) \<Longrightarrow> sum2 (map (event_counts n) (map summary_event m)) = pending_counts n m"
proof (induction m)
  case (Cons x m)
  obtain k s where x: "x = (k, s)" by (cases x)
  show ?case
  proof (cases "k = n")
    case True
    with Cons.prems x have "map_of m n = None" by (auto simp: map_of_eq_None_iff)
    with Cons x True show ?thesis by (simp add: pending_counts_def event_counts_def summary_event_def)
  next
    case False
    with Cons x show ?thesis by (simp add: pending_counts_def event_counts_def summary_event_def)
  qed
qed (simp add: pending_counts_def)

lemma accepted_append: "accepted_counts n (acc @ [(k, st)]) =
    (if k = n then (fst (accepted_counts n acc) + 1,
       snd (accepted_counts n acc) + (if starts_with st ''Good'' then 0 else 1))
     else accepted_counts n acc)"
  by (simp add: accepted_counts_def)

lemma insort_insert_strict: "sorted_wrt (<) xs \<Longrightarrow> sorted_wrt (<) (insort_insert x xs)"
  by (simp add: strict_sorted_iff sorted_insort_insert distinct_insort_insert)

lemma count_write_ok:
  assumes "summary_ok s \<or> s = new_summary now v"
  shows "summary_ok (count_write now name v status c s)"
proof -
  have "length (insort_insert x xs) \<le> Suc (length xs)" for x :: string and xs
    by (simp add: insort_insert_key_def)
  then have "length xs < 20 \<Longrightarrow> length (insort_insert x xs) \<le> 20" for x :: string and xs
    by (metis Suc_leI order_trans)
  with assms show ?thesis
    by (auto simp: summary_ok_def count_write_def new_summary_def MAX_CLIENTS_def insort_insert_strict)
qed

lemma set_bt_put: "x \<in> set (bt_put k v m) \<Longrightarrow> x = (k, v) \<or> x \<in> set m"
  by (induction k v m rule: bt_put.induct) (auto split: if_splits)

lemma ignored_step_inv: "ignored_inv st \<Longrightarrow> ignored_inv (ignored_step st op)"
proof -
  assume inv: "ignored_inv st"
  obtain m evs acc where st: "st = (m, evs, acc)" by (metis prod_cases3)
  from inv have m: "bt_sorted m" "length m \<le> MAX_NODES" "\<forall>(n, s) \<in> set m. summary_ok s"
    and counts: "add2 (sum2 (map (event_counts n) evs)) (pending_counts n m) = accepted_counts n acc" for n
    by (auto simp: ignored_inv_def st)
  show ?thesis
  proof (cases op)
    case (AddWrite now k name v status c)
    show ?thesis
    proof (cases "map_of m k = None \<and> MAX_NODES \<le> length m")
      case True
      then show ?thesis using inv by (simp add: AddWrite st ignored_step_def add_ignored_def)
    next
      case False
      define s where "s = (case map_of m k of Some s \<Rightarrow> s | None \<Rightarrow> new_summary now v)"
      let ?s = "count_write now name v status c s"
      have step: "ignored_step st op = (bt_put k ?s m, evs, acc @ [(k, status)])"
        using False by (simp add: AddWrite st ignored_step_def add_ignored_def s_def Let_def)
      have "summary_ok s \<or> s = new_summary now v"
        using m(3) map_of_SomeD [of m k] by (fastforce simp: s_def split: option.splits)
      from count_write_ok [OF this] have ok: "\<forall>(n, s) \<in> set (bt_put k ?s m). summary_ok s"
        using m(3) by (auto dest!: set_bt_put)
      have "length (bt_put k ?s m) \<le> MAX_NODES"
        using False m(1,2) by (auto simp: bt_length_put map_of_eq_None_iff)
      moreover have "pending_counts n (bt_put k ?s m) = (if n = k then add2 (pending_counts n m)
          (1, if starts_with status ''Good'' then 0 else 1) else pending_counts n m)" for n
        by (auto simp: pending_counts_def s_def count_write_def new_summary_def add2_def split: option.splits)
      then have "add2 (sum2 (map (event_counts n) evs)) (pending_counts n (bt_put k ?s m)) =
          accepted_counts n (acc @ [(k, status)])" for n
        unfolding accepted_append using counts [of n, symmetric]
        by (auto simp: add2_def)
      ultimately show ?thesis using m(1) ok by (simp add: ignored_inv_def step)
    qed
  next
    case TakeSummaries
    have "add2 (sum2 (map (event_counts n) (evs @ map summary_event m))) (pending_counts n []) =
        accepted_counts n acc" for n
      using counts [of n] taken_counts [OF bt_sorted_distinct [OF m(1)], of n]
      by (simp add: pending_counts_def)
    then show ?thesis by (simp add: TakeSummaries st ignored_step_def take_ignored_def ignored_inv_def)
  qed
qed

interpretation ignored: stepper ignored_step ignored_inv
  by unfold_locales (rule ignored_step_inv)

text \<open>C29. Through any sequence of writes and summaries, for every node: the writes and failed writes
  counted in the summaries handed out, plus those still pending, are exactly the summarised writes
  accepted. At most 10000 nodes are pending, each with at most 20 clients, listed once.\<close>

theorem no_summarised_write_is_lost:
  "case foldl ignored_step ([], [], []) ops of (m, evs, acc) \<Rightarrow>
     add2 (sum2 (map (event_counts n) evs)) (pending_counts n m) = accepted_counts n acc \<and>
     length m \<le> 10000 \<and> list_all (\<lambda>(n, s). failed s \<le> count s \<and> length (clients s) \<le> 20 \<and>
       sorted_wrt (<) (clients s)) m"
proof -
  have "ignored_inv ([], [], [])"
    by (simp add: ignored_inv_def pending_counts_def accepted_counts_def)
  from ignored.run_inv [OF this, of ops] show ?thesis
    by (auto simp: ignored_inv_def MAX_NODES_def MAX_CLIENTS_def list_all_iff summary_ok_def
        split: prod.splits)
qed

end
