(* ===== verification/Opcua.thy ===== *)
theory Opcua
  imports Prelude Audit_Event
begin

unbundle bit_operations_syntax

text \<open>
  What the relay sees of the opcua library: status codes, variants with the constructors
  src/relay/audit_map.rs matches on, requests and responses with the fields the relay reads.
  Library values that the code only prints (dates, GUIDs, qualified names and the like) are their
  printed text; node ids are a type of their own. The library's functions are the fields of a record
  the definitions take as an argument.
\<close>

type_synonym status = "32 word"

text \<open>An extension object: null, an undecoded body, or a decoded value with its debug text.\<close>

datatype ext_obj =
    ENull
  | ERaw string "string option"
  | EDecoded string string

datatype variant =
    VEmpty
  | VBoolean bool
  | VSByte "8 word"
  | VByte "8 word"
  | VInt16 "16 word"
  | VUInt16 "16 word"
  | VInt32 "32 word"
  | VUInt32 "32 word"
  | VInt64 "64 word"
  | VUInt64 "64 word"
  | VFloat "32 word"
  | VDouble "64 word"
  | VString "string option"
  | VDateTime string
  | VGuid string
  | VStatusCode status
  | VByteString "string option"
  | VXmlElement string
  | VQualifiedName string
  | VLocalizedText string
  | VNodeId string
  | VExpandedNodeId string
  | VExtensionObject ext_obj
  | VVariant variant
  | VDataValue "variant option"
  | VDiagnosticInfo string
  | VArray string "variant list" "nat list option"

record data_value =
  dv_value :: "variant option"
  dv_status :: "status option"

record 'n ua =
  node_text :: "'n \<Rightarrow> string"
  status_text :: "status \<Rightarrow> string"
  is_good :: "status \<Rightarrow> bool"
  is_bad :: "status \<Rightarrow> bool"
  render_json :: "json \<Rightarrow> string"
  hex :: "string \<Rightarrow> string"
  scalar_type :: "variant \<Rightarrow> string option"
  attribute_debug :: "u32 \<Rightarrow> string option"

section \<open>Requests and responses\<close>

record 'n request_header =
  rq_handle :: u32
  rq_token :: 'n
  rq_timeout_hint :: u32

record 'n write_value =
  wv_node :: 'n
  wv_attribute :: u32
  wv_range :: "string option"
  wv_value :: "variant option"
  wv_status :: "status option"
  wv_source_timestamp :: "string option"
  wv_server_timestamp :: "string option"

record 'n call_method =
  cm_object :: 'n
  cm_method :: 'n
  cm_arguments :: "variant list"

datatype history_detail =
    UpdateData string
  | UpdateStructureData string
  | UpdateEvent string
  | DeleteRawModified string
  | DeleteAtTime string
  | DeleteEvent string
  | OtherDetails string

text \<open>The services the relay tells apart; \<open>OtherRequest\<close> are all those it forwards unseen.\<close>

datatype 'n service =
    Write "'n write_value list"
  | Call "'n call_method list"
  | HistoryUpdate "history_detail list"
  | AddNodes "(string \<times> string) list"         \<comment> \<open>requested id, parent\<close>
  | DeleteNodes "string list"
  | AddReferences "(string \<times> string) list"    \<comment> \<open>source, target\<close>
  | DeleteReferences "(string \<times> string) list"
  | TransferSubscriptions "u32 list"
  | OtherRequest string

type_synonym 'n request = "'n request_header \<times> 'n service"

datatype response_body =
    WriteResults "status list option"
  | CallResults "status list option"
  | HistoryResults "status list option"
  | AddNodesResults "status list option"
  | DeleteNodesResults "status list option"
  | AddReferencesResults "status list option"
  | DeleteReferencesResults "status list option"
  | TransferResults "status list option"
  | ReadResults "data_value list option"
  | ServiceFault
  | OtherResponse string

record response =
  rs_handle :: u32
  rs_service_result :: status
  rs_body :: response_body

record 'n read_value_id =
  rv_node :: 'n
  rv_attribute :: u32
  rv_range :: "string option"

text \<open>The attribute ids of the OPC UA specification the relay uses.\<close>

definition attr_display_name :: u32 where "attr_display_name = 4"
definition attr_value :: u32 where "attr_value = 13"

end
