(* ===== verification/Audit_Value.thy ===== *)
theory Audit_Value
  imports Prelude Audit_Event Opcua
begin

unbundle bit_operations_syntax

text \<open>
  How src/relay/audit_map.rs renders a value for the trail: long texts, byte strings, arrays and
  whole values are cut down to a preview. Cutting the debug text of a structure at a fixed number of
  bytes panics inside a character; a panic is \<open>None\<close>.
\<close>

definition MAX_BYTES :: nat where "MAX_BYTES = 4096"
definition MAX_ELEMENTS :: nat where "MAX_ELEMENTS = 256"
definition MAX_VALUE_JSON :: nat where "MAX_VALUE_JSON = 64 * 1024"

definition text_json :: "string \<Rightarrow> json" where
  "text_json s =
     (if MAX_TEXT < chars_count s
      then JObject [(''text'', JString (clip s MAX_TEXT)), (''length'', JInt (int (chars_count s))),
                    (''truncated'', JBool True)]
      else JString s)"

text \<open>
  IEEE 754 doubles by their bits: finite unless the exponent is all ones; \<open>Display\<close> of the others;
  and the exact widening of a single.
\<close>

definition finite_f64 :: "64 word \<Rightarrow> bool" where
  "finite_f64 f \<longleftrightarrow> drop_bit 52 f AND 0x7FF \<noteq> 0x7FF"

definition display_nonfinite :: "64 word \<Rightarrow> string" where
  "display_nonfinite f =
     (if f AND (mask 52) \<noteq> 0 then ''NaN'' else if bit f 63 then ''-inf'' else ''inf'')"

fun top_bit :: "nat \<Rightarrow> nat" where
  "top_bit n = (if n < 2 then 0 else Suc (top_bit (n div 2)))"

declare top_bit.simps [simp del]

definition widen_f32 :: "32 word \<Rightarrow> 64 word" where
  "widen_f32 f =
     (let s = unat (drop_bit 31 f); e = unat (drop_bit 23 f AND 0xFF); m = unat (f AND mask 23);
          (e', m') =
            (if e = 255 then (2047, m * 2 ^ 29)
             else if e = 0 \<and> m = 0 then (0, 0)
             else if e = 0 then (let k = top_bit m in (k + 874, (m - 2 ^ k) * 2 ^ (52 - k)))
             else (e + 896, m * 2 ^ 29))
      in of_nat (s * 2 ^ 63 + e' * 2 ^ 52 + m'))"

definition float_json :: "64 word \<Rightarrow> json" where
  "float_json f = (if finite_f64 f then JFloat f else JString (display_nonfinite f))"

definition bytes_json :: "'n ua \<Rightarrow> string \<Rightarrow> json" where
  "bytes_json L b =
     (if MAX_BYTES < length b
      then JObject [(''hex'', JString (hex L (take MAX_BYTES b))), (''length'', JInt (int (length b))),
                    (''truncated'', JBool True)]
      else JObject [(''hex'', JString (hex L b))])"

definition opt_json :: "('a \<Rightarrow> json) \<Rightarrow> 'a option \<Rightarrow> json" where
  "opt_json f v = (case v of None \<Rightarrow> JNull | Some x \<Rightarrow> f x)"

text \<open>\<open>String::truncate\<close> panics unless the new length is a character boundary.\<close>

definition char_boundary :: "string \<Rightarrow> nat \<Rightarrow> bool" where
  "char_boundary s n \<longleftrightarrow> n = length s \<or> (n < length s \<and> char_start (s ! n))"

definition truncate :: "nat \<Rightarrow> string \<Rightarrow> string option" where
  "truncate n s = (if length s < n then Some s else if char_boundary s n then Some (take n s) else None)"

definition extension_object :: "'n ua \<Rightarrow> ext_obj \<Rightarrow> json option" where
  "extension_object L e = (case e of
       ENull \<Rightarrow> Some JNull
     | ERaw type_id raw \<Rightarrow>
         Some (JObject [(''encoding_id'', JString type_id), (''body'', opt_json (bytes_json L) raw)])
     | EDecoded type_id debug \<Rightarrow>
         (if MAX_BYTES < length debug
          then map_option (\<lambda>t. JObject [(''encoding_id'', JString type_id), (''body'', JString (t @ ellipsis))])
                 (truncate MAX_BYTES debug)
          else Some (JObject [(''encoding_id'', JString type_id), (''body'', JString debug)])))"

definition array_json :: "nat list option \<Rightarrow> nat \<Rightarrow> json list \<Rightarrow> json" where
  "array_json dims n values =
     (let truncated = MAX_ELEMENTS < n;
          plain = (if truncated
                   then JObject [(''values'', JArray values), (''length'', JInt (int n)),
                                 (''truncated'', JBool True)]
                   else JArray values)
      in case dims of
           Some ds \<Rightarrow> (if 1 < length ds
             then JObject [(''dimensions'', JArray (map (JInt \<circ> int) ds)), (''values'', JArray values),
                           (''truncated'', JBool truncated)]
             else plain)
         | None \<Rightarrow> plain)"

fun json_value :: "'n ua \<Rightarrow> variant \<Rightarrow> json option"
  and json_values :: "'n ua \<Rightarrow> nat \<Rightarrow> variant list \<Rightarrow> json list option" where
  "json_value L VEmpty = Some JNull"
| "json_value L (VBoolean b) = Some (JBool b)"
| "json_value L (VSByte n) = Some (JInt (sint n))"
| "json_value L (VByte n) = Some (JInt (uint n))"
| "json_value L (VInt16 n) = Some (JInt (sint n))"
| "json_value L (VUInt16 n) = Some (JInt (uint n))"
| "json_value L (VInt32 n) = Some (JInt (sint n))"
| "json_value L (VUInt32 n) = Some (JInt (uint n))"
| "json_value L (VInt64 n) = Some (JInt (sint n))"
| "json_value L (VUInt64 n) = Some (JInt (uint n))"
| "json_value L (VFloat f) = Some (float_json (widen_f32 f))"
| "json_value L (VDouble f) = Some (float_json f)"
| "json_value L (VString s) = Some (opt_json text_json s)"
| "json_value L (VDateTime d) = Some (JString d)"
| "json_value L (VGuid g) = Some (JString g)"
| "json_value L (VStatusCode s) = Some (JString (status_text L s))"
| "json_value L (VByteString b) = Some (opt_json (bytes_json L) b)"
| "json_value L (VXmlElement x) = Some (text_json x)"
| "json_value L (VQualifiedName q) = Some (text_json q)"
| "json_value L (VLocalizedText t) = Some (text_json t)"
| "json_value L (VNodeId n) = Some (text_json n)"
| "json_value L (VExpandedNodeId n) = Some (text_json n)"
| "json_value L (VExtensionObject e) = extension_object L e"
| "json_value L (VVariant inner) = json_value L inner"
| "json_value L (VDataValue None) = Some JNull"
| "json_value L (VDataValue (Some v)) = json_value L v"
| "json_value L (VDiagnosticInfo d) = Some (JString d)"
| "json_value L (VArray t vs dims) =
     map_option (array_json dims (length vs)) (json_values L MAX_ELEMENTS vs)"
| "json_values L n [] = Some []"
| "json_values L 0 (v # vs) = Some []"
| "json_values L (Suc n) (v # vs) =
     (case json_value L v of
        None \<Rightarrow> None
      | Some j \<Rightarrow> map_option (\<lambda>js. j # js) (json_values L n vs))"

definition type_text :: "'n ua \<Rightarrow> variant \<Rightarrow> string" where
  "type_text L v = (case v of
     VEmpty \<Rightarrow> ''Null''
   | VArray t _ _ \<Rightarrow> t @ ''[]''
   | _ \<Rightarrow> (case scalar_type L v of Some t \<Rightarrow> t | None \<Rightarrow> ''Unknown''))"

definition to_audit_value :: "'n ua \<Rightarrow> variant \<Rightarrow> audit_value option" where
  "to_audit_value L v =
     (case json_value L v of
        None \<Rightarrow> None
      | Some value \<Rightarrow>
          (let rendered = render_json L value in
           Some \<lparr>data_type = type_text L v,
             av_value = (if MAX_VALUE_JSON < length rendered
               then JObject [(''preview'', JString (clip rendered MAX_TEXT)),
                             (''length'', JInt (int (length rendered))), (''truncated'', JBool True)]
               else value)\<rparr>))"

section \<open>When rendering panics\<close>

text \<open>A structure whose debug text has its 4097th byte inside a character.\<close>

definition splits_char :: "ext_obj \<Rightarrow> bool" where
  "splits_char e = (case e of
     EDecoded _ debug \<Rightarrow> MAX_BYTES < length debug \<and> \<not> char_start (debug ! MAX_BYTES) | _ \<Rightarrow> False)"

fun has_split :: "variant \<Rightarrow> bool" and any_split :: "nat \<Rightarrow> variant list \<Rightarrow> bool" where
  "has_split (VExtensionObject e) \<longleftrightarrow> splits_char e"
| "has_split (VVariant v) \<longleftrightarrow> has_split v"
| "has_split (VDataValue (Some v)) \<longleftrightarrow> has_split v"
| "has_split (VArray t vs dims) \<longleftrightarrow> any_split MAX_ELEMENTS vs"
| "has_split _ \<longleftrightarrow> False"
| "any_split n [] \<longleftrightarrow> False"
| "any_split 0 (v # vs) \<longleftrightarrow> False"
| "any_split (Suc n) (v # vs) \<longleftrightarrow> has_split v \<or> any_split n vs"

lemma extension_object_panics: "extension_object L e = None \<longleftrightarrow> splits_char e"
  by (cases e) (auto simp: extension_object_def splits_char_def truncate_def char_boundary_def)

lemma json_value_panics:
  "json_value L v = None \<longleftrightarrow> has_split v"
  "json_values L n vs = None \<longleftrightarrow> any_split n vs"
  by (induction L v and L n vs rule: json_value_json_values.induct)
     (auto simp: extension_object_panics split: option.splits)

text \<open>Rendering a value panics exactly when it holds, among the elements that are shown, a
  structure whose debug text is longer than 4096 bytes and has a character across byte 4096; every
  other value is rendered.\<close>

theorem rendering_panics_iff: "to_audit_value L v = None \<longleftrightarrow> has_split v"
  by (simp add: to_audit_value_def json_value_panics(1) [of L, symmetric] Let_def split: option.splits)

end
