(* ===== verification/Audit_Map.thy ===== *)
theory Audit_Map
  imports Prelude Audit_Event Opcua Audit_Value
begin

text \<open>
  src/relay/audit_map.rs: the plan made from a change request before it is forwarded, the writes
  taken out of it because their node is summarised, the reads sent along with it, the intent
  recorded first in fail-closed mode, and the events that combine the plan with the response. A
  definition that renders a value may panic (\<open>None\<close>).
\<close>

section \<open>Plans\<close>

definition MAX_FAILED_ITEMS :: nat where "MAX_FAILED_ITEMS = 100"
definition NAME_CACHE_SIZE :: nat where "NAME_CACHE_SIZE = 100000"

record 'n write_item =
  wi_index :: nat
  wi_node :: 'n
  wi_attribute_id :: u32
  wi_range :: "string option"
  wi_node_id :: string
  wi_attribute :: string
  wi_index_range :: "string option"
  wi_new_value :: audit_value
  wi_written_status :: "string option"
  wi_source_timestamp :: "string option"
  wi_server_timestamp :: "string option"
  wi_old_value :: "audit_value option"
  wi_display_name :: "string option"

record 'n call_item =
  ci_method :: 'n
  ci_object_id :: string
  ci_method_id :: string
  ci_input_arguments :: "audit_value list"
  ci_display_name :: "string option"

record history_item =
  hi_node_id :: string
  hi_details :: string

datatype 'n plan =
    PWrite u32 "'n write_item list"
  | PCall u32 "'n call_item list"
  | PHistoryUpdate u32 "history_item list"
  | PNodeManagement u32 string "string list"
  | PTransferSubscriptions u32 "u32 list"

definition is_audited :: "'n service \<Rightarrow> bool" where
  "is_audited s = (case s of OtherRequest _ \<Rightarrow> False | _ \<Rightarrow> True)"

definition attribute_name :: "'n ua \<Rightarrow> u32 \<Rightarrow> string" where
  "attribute_name L i = (case attribute_debug L i of Some a \<Rightarrow> a
     | None \<Rightarrow> ''Attribute('' @ nat_str (unat i) @ '')'')"

definition plan_write_item :: "'n ua \<Rightarrow> nat \<times> 'n write_value \<Rightarrow> 'n write_item option" where
  "plan_write_item L iw = (case iw of (i, w) \<Rightarrow>
     map_option (\<lambda>v.
       \<lparr>wi_index = i, wi_node = wv_node w, wi_attribute_id = wv_attribute w, wi_range = wv_range w,
        wi_node_id = clip (node_text L (wv_node w)) MAX_TEXT,
        wi_attribute = attribute_name L (wv_attribute w), wi_index_range = wv_range w,
        wi_new_value = v, wi_written_status = map_option (status_text L) (wv_status w),
        wi_source_timestamp = wv_source_timestamp w, wi_server_timestamp = wv_server_timestamp w,
        wi_old_value = None, wi_display_name = None\<rparr>)
       (to_audit_value L (case wv_value w of Some v \<Rightarrow> v | None \<Rightarrow> VEmpty)))"

definition plan_call_item :: "'n ua \<Rightarrow> 'n call_method \<Rightarrow> 'n call_item option" where
  "plan_call_item L c =
     map_option (\<lambda>args.
       \<lparr>ci_method = cm_method c, ci_object_id = clip (node_text L (cm_object c)) MAX_TEXT,
        ci_method_id = clip (node_text L (cm_method c)) MAX_TEXT, ci_input_arguments = args,
        ci_display_name = None\<rparr>)
       (those (map (to_audit_value L) (cm_arguments c)))"

definition history_item_of :: "history_detail \<Rightarrow> history_item" where
  "history_item_of d = (case d of
       UpdateData n \<Rightarrow> \<lparr>hi_node_id = clip n MAX_TEXT, hi_details = ''UpdateData''\<rparr>
     | UpdateStructureData n \<Rightarrow> \<lparr>hi_node_id = clip n MAX_TEXT, hi_details = ''UpdateStructureData''\<rparr>
     | UpdateEvent n \<Rightarrow> \<lparr>hi_node_id = clip n MAX_TEXT, hi_details = ''UpdateEvent''\<rparr>
     | DeleteRawModified n \<Rightarrow> \<lparr>hi_node_id = clip n MAX_TEXT, hi_details = ''DeleteRawModified''\<rparr>
     | DeleteAtTime n \<Rightarrow> \<lparr>hi_node_id = clip n MAX_TEXT, hi_details = ''DeleteAtTime''\<rparr>
     | DeleteEvent n \<Rightarrow> \<lparr>hi_node_id = clip n MAX_TEXT, hi_details = ''DeleteEvent''\<rparr>
     | OtherDetails t \<Rightarrow> \<lparr>hi_node_id = [], hi_details = ''unknown ('' @ t @ '')''\<rparr>)"

text \<open>\<open>None\<close>: rendering a value panicked; \<open>Some None\<close>: nothing to audit.\<close>

definition make_plan :: "'n ua \<Rightarrow> 'n request \<Rightarrow> 'n plan option option" where
  "make_plan L r = (case r of (q, s) \<Rightarrow>
     (let h = rq_handle q in case s of
        Write ws \<Rightarrow> map_option (\<lambda>is. Some (PWrite h is)) (those (map (plan_write_item L) (enumerate 0 ws)))
      | Call cs \<Rightarrow> map_option (\<lambda>is. Some (PCall h is)) (those (map (plan_call_item L) cs))
      | HistoryUpdate ds \<Rightarrow> Some (Some (PHistoryUpdate h (map history_item_of ds)))
      | AddNodes ns \<Rightarrow> Some (Some (PNodeManagement h ''AddNodes''
          (map (\<lambda>(n, p). clip (n @ '' (parent '' @ p @ '')'') MAX_TEXT) ns)))
      | DeleteNodes ns \<Rightarrow> Some (Some (PNodeManagement h ''DeleteNodes'' (map (\<lambda>n. clip n MAX_TEXT) ns)))
      | AddReferences rs \<Rightarrow> Some (Some (PNodeManagement h ''AddReferences''
          (map (\<lambda>(a, b). clip (a @ '' -> '' @ b) MAX_TEXT) rs)))
      | DeleteReferences rs \<Rightarrow> Some (Some (PNodeManagement h ''DeleteReferences''
          (map (\<lambda>(a, b). clip (a @ '' -> '' @ b) MAX_TEXT) rs)))
      | TransferSubscriptions ids \<Rightarrow> Some (Some (PTransferSubscriptions h ids))
      | OtherRequest _ \<Rightarrow> Some None))"

section \<open>Summarised writes\<close>

definition take_summarised :: "('n \<Rightarrow> bool) \<Rightarrow> 'n plan \<Rightarrow> 'n write_item list option \<times> 'n plan" where
  "take_summarised f p = (case p of
     PWrite h items \<Rightarrow>
       (case partition (\<lambda>w. wi_attribute_id w = attr_value \<and> f (wi_node w)) items of
          (taken, kept) \<Rightarrow> ((if taken = [] then None else Some taken), PWrite h kept))
   | _ \<Rightarrow> (None, p))"

definition plan_empty :: "'n plan \<Rightarrow> bool" where
  "plan_empty p = (case p of PWrite _ items \<Rightarrow> items = [] | _ \<Rightarrow> False)"

section \<open>Reads sent along with a change\<close>

type_synonym 'n name_cache = "('n \<times> string) list"

definition cache_insert :: "'n \<Rightarrow> string \<Rightarrow> 'n name_cache \<Rightarrow> 'n name_cache" where
  "cache_insert n name c =
     (let c1 = (if NAME_CACHE_SIZE \<le> length c then [] else c)
      in (n, name) # filter (\<lambda>(k, v). k \<noteq> n) c1)"

datatype read_kind = OldValue | Name

record 'n pre_read =
  nodes_to_read :: "'n read_value_id list"
  targets :: "(nat \<times> read_kind) list"

definition want_name :: "'n name_cache \<Rightarrow> nat \<Rightarrow> 'n \<Rightarrow> ('n read_value_id \<times> nat \<times> read_kind) list" where
  "want_name names i n = (case map_of names n of
     Some _ \<Rightarrow> []
   | None \<Rightarrow> [(\<lparr>rv_node = n, rv_attribute = attr_display_name, rv_range = None\<rparr>, i, Name)])"

definition cached_name :: "'n name_cache \<Rightarrow> 'n \<Rightarrow> string option \<Rightarrow> string option" where
  "cached_name names n old = (case map_of names n of Some c \<Rightarrow> Some c | None \<Rightarrow> old)"

definition item_reads :: "bool \<Rightarrow> 'n name_cache \<Rightarrow> nat \<times> 'n write_item \<Rightarrow> ('n read_value_id \<times> nat \<times> read_kind) list" where
  "item_reads old_values names iw = (case iw of (i, w) \<Rightarrow>
     (if old_values
      then [(\<lparr>rv_node = wi_node w, rv_attribute = wi_attribute_id w, rv_range = wi_range w\<rparr>, i, OldValue)]
      else []) @ want_name names i (wi_node w))"

definition pre_of :: "('n read_value_id \<times> nat \<times> read_kind) list \<Rightarrow> 'n pre_read option" where
  "pre_of rs = (if rs = [] then None else Some \<lparr>nodes_to_read = map fst rs, targets = map snd rs\<rparr>)"

definition plan_pre_read :: "bool \<Rightarrow> 'n name_cache \<Rightarrow> 'n plan \<Rightarrow> 'n plan \<times> 'n pre_read option" where
  "plan_pre_read old_values names p = (case p of
     PWrite h items \<Rightarrow>
       (PWrite h (map (\<lambda>w. w\<lparr>wi_display_name := cached_name names (wi_node w) (wi_display_name w)\<rparr>) items),
        pre_of (concat (map (item_reads old_values names) (enumerate 0 items))))
   | PCall h items \<Rightarrow>
       (PCall h (map (\<lambda>c. c\<lparr>ci_display_name := cached_name names (ci_method c) (ci_display_name c)\<rparr>) items),
        pre_of (concat (map (\<lambda>(i, c). want_name names i (ci_method c)) (enumerate 0 items))))
   | _ \<Rightarrow> (p, None))"

definition good_value :: "'n ua \<Rightarrow> data_value \<Rightarrow> variant option" where
  "good_value L d = (if (case dv_status d of None \<Rightarrow> True | Some s \<Rightarrow> is_good L s) then dv_value d else None)"

definition apply_result :: "'n ua \<Rightarrow> (nat \<times> read_kind) \<times> data_value \<Rightarrow> 'n plan \<times> 'n name_cache
    \<Rightarrow> ('n plan \<times> 'n name_cache) option" where
  "apply_result L tr st = (case tr of ((i, k), d) \<Rightarrow> (case st of (p, names) \<Rightarrow>
     (case good_value L d of
        None \<Rightarrow> Some (p, names)
      | Some v \<Rightarrow> (case k of
          OldValue \<Rightarrow> (case p of
              PWrite h items \<Rightarrow> map_option (\<lambda>a. (PWrite h (items[i := (items ! i)\<lparr>wi_old_value := Some a\<rparr>]), names))
                                 (to_audit_value L v)
            | _ \<Rightarrow> Some (p, names))
        | Name \<Rightarrow> (case v of
              VLocalizedText t \<Rightarrow>
                (let name = clip t MAX_NAME in case p of
                   PWrite h items \<Rightarrow>
                     Some (PWrite h (items[i := (items ! i)\<lparr>wi_display_name := Some name\<rparr>]),
                           cache_insert (wi_node (items ! i)) name names)
                 | PCall h items \<Rightarrow>
                     Some (PCall h (items[i := (items ! i)\<lparr>ci_display_name := Some name\<rparr>]),
                           cache_insert (ci_method (items ! i)) name names)
                 | _ \<Rightarrow> Some (p, names))
            | _ \<Rightarrow> Some (p, names))))))"

fun apply_results :: "'n ua \<Rightarrow> ((nat \<times> read_kind) \<times> data_value) list \<Rightarrow> 'n plan \<times> 'n name_cache
    \<Rightarrow> ('n plan \<times> 'n name_cache) option" where
  "apply_results L [] st = Some st"
| "apply_results L (tr # trs) st =
     (case apply_result L tr st of None \<Rightarrow> None | Some st' \<Rightarrow> apply_results L trs st')"

definition apply_pre_read :: "'n ua \<Rightarrow> 'n pre_read \<Rightarrow> data_value list \<Rightarrow> 'n plan \<times> 'n name_cache
    \<Rightarrow> ('n plan \<times> 'n name_cache) option" where
  "apply_pre_read L pre results st = apply_results L (zip (targets pre) results) st"

section \<open>The intent\<close>

definition service_name :: "'n plan \<Rightarrow> string" where
  "service_name p = (case p of
     PWrite _ _ \<Rightarrow> ''Write'' | PCall _ _ \<Rightarrow> ''Call'' | PHistoryUpdate _ _ \<Rightarrow> ''HistoryUpdate''
   | PNodeManagement _ s _ \<Rightarrow> s | PTransferSubscriptions _ _ \<Rightarrow> ''TransferSubscriptions'')"

definition value_json :: "audit_value \<Rightarrow> json" where
  "value_json v = JObject [(''data_type'', JString (data_type v)), (''value'', av_value v)]"

definition plan_intent :: "'n plan \<Rightarrow> audit_event" where
  "plan_intent p = (case p of
     PWrite h items \<Rightarrow> ChangeIntent h (service_name p) (map wi_node_id items)
       (map (\<lambda>i. JObject [(''attribute'', JString (wi_attribute i)), (''new_value'', value_json (wi_new_value i))]) items)
   | PCall h items \<Rightarrow> ChangeIntent h (service_name p) (map ci_method_id items)
       (map (\<lambda>i. JObject [(''object_id'', JString (ci_object_id i)),
                           (''input_arguments'', JArray (map value_json (ci_input_arguments i)))]) items)
   | PHistoryUpdate h items \<Rightarrow> ChangeIntent h (service_name p) (map hi_node_id items)
       (map (\<lambda>i. JObject [(''details'', JString (hi_details i))]) items)
   | PNodeManagement h _ ns \<Rightarrow> ChangeIntent h (service_name p) ns []
   | PTransferSubscriptions h ids \<Rightarrow> ChangeIntent h (service_name p) (map (nat_str \<circ> unat) ids) [])"

section \<open>The outcome\<close>

definition BadUnexpectedError :: status where "BadUnexpectedError = 0x80010000"

definition item_status :: "'n ua \<Rightarrow> status list option \<Rightarrow> nat \<Rightarrow> status \<Rightarrow> string option \<Rightarrow> string" where
  "item_status L results i service_result unknown = (case unknown of
     Some u \<Rightarrow> u
   | None \<Rightarrow>
       (if is_bad L service_result then status_text L service_result
        else status_text L (case results of
               Some rs \<Rightarrow> (if i < length rs then rs ! i else BadUnexpectedError)
             | None \<Rightarrow> BadUnexpectedError)))"

record summarised_write =
  sw_node_id :: string
  sw_display_name :: "string option"
  sw_value :: audit_value
  sw_status :: string

definition write_results :: "response \<Rightarrow> status list option" where
  "write_results r = (case rs_body r of WriteResults rs \<Rightarrow> rs | _ \<Rightarrow> None)"

definition summarised_outcomes :: "'n ua \<Rightarrow> response \<Rightarrow> status option \<Rightarrow> 'n name_cache \<Rightarrow> 'n write_item list
    \<Rightarrow> summarised_write list" where
  "summarised_outcomes L r unknown names items =
     (let u = map_option (\<lambda>s. ''Uncertain: no response ('' @ status_text L s @ '')'') unknown
      in map (\<lambda>w. \<lparr>sw_node_id = wi_node_id w, sw_display_name = map_of names (wi_node w),
               sw_value = wi_new_value w,
               sw_status = item_status L (write_results r) (wi_index w) (rs_service_result r) u\<rparr>) items)"

fun comma_join :: "string list \<Rightarrow> string" where
  "comma_join [] = []"
| "comma_join [x] = x"
| "comma_join (x # y # ys) = x @ '', '' @ comma_join (y # ys)"

definition events_all :: "'n ua \<Rightarrow> response \<Rightarrow> string option \<Rightarrow> 'n plan \<Rightarrow> audit_event list" where
  "events_all L r unknown p =
     (let status = (\<lambda>results i. item_status L results i (rs_service_result r) unknown) in case p of
        PWrite h items \<Rightarrow>
          map (\<lambda>w. EvWrite h (wi_node_id w) (wi_display_name w) (wi_attribute w) (wi_index_range w)
                 (wi_old_value w) (wi_new_value w) (wi_written_status w) (wi_source_timestamp w)
                 (wi_server_timestamp w) (status (write_results r) (wi_index w))) items
      | PCall h items \<Rightarrow>
          (let results = (case rs_body r of CallResults rs \<Rightarrow> rs | _ \<Rightarrow> None)
           in map (\<lambda>(i, c). EvCall h (ci_object_id c) (ci_method_id c) (ci_display_name c)
                     (ci_input_arguments c) (status results i)) (enumerate 0 items))
      | PHistoryUpdate h items \<Rightarrow>
          (let results = (case rs_body r of HistoryResults rs \<Rightarrow> rs | _ \<Rightarrow> None)
           in map (\<lambda>(i, x). EvHistoryUpdate h (hi_node_id x) (hi_details x) (status results i)) (enumerate 0 items))
      | PNodeManagement h service ns \<Rightarrow>
          (let results = (case rs_body r of AddNodesResults rs \<Rightarrow> rs | DeleteNodesResults rs \<Rightarrow> rs
                 | AddReferencesResults rs \<Rightarrow> rs | DeleteReferencesResults rs \<Rightarrow> rs | _ \<Rightarrow> None)
           in map (\<lambda>(i, n). EvNodeManagement h service n (status results i)) (enumerate 0 ns))
      | PTransferSubscriptions h ids \<Rightarrow>
          (let results = (case rs_body r of TransferResults rs \<Rightarrow> rs | _ \<Rightarrow> None);
               st = (if unknown \<noteq> None \<or> is_bad L (rs_service_result r) then status None 0
                     else (let rs = (case results of Some rs \<Rightarrow> rs | None \<Rightarrow> [])
                           in if list_all (is_good L) rs \<and> rs \<noteq> [] then ''Good''
                              else comma_join (map (status_text L) rs)))
           in [SubscriptionsTransferred h ids st]))"

definition events_with :: "'n ua \<Rightarrow> response \<Rightarrow> string option \<Rightarrow> 'n plan \<Rightarrow> audit_event list" where
  "events_with L r unknown p =
     (let events = events_all L r unknown p
      in if is_bad L (rs_service_result r) \<and> unknown = None \<and> MAX_FAILED_ITEMS < length events
         then take MAX_FAILED_ITEMS events else events)"

definition plan_events :: "'n ua \<Rightarrow> response \<Rightarrow> 'n plan \<Rightarrow> audit_event list" where
  "plan_events L r p = events_with L r None p"

definition plan_events_unknown :: "'n ua \<Rightarrow> response \<Rightarrow> status \<Rightarrow> 'n plan \<Rightarrow> audit_event list" where
  "plan_events_unknown L r s p =
     events_with L r (Some (''Uncertain: no response ('' @ status_text L s @ ''); the server may have applied it'')) p"

section \<open>Every item gets its own result\<close>

lemma those_Some: "those xs = Some ys \<longleftrightarrow> xs = map Some ys"
  by (induction xs arbitrary: ys) (auto split: option.splits)

lemma those_map: "those (map f xs) = Some ys \<longleftrightarrow> list_all2 (\<lambda>x y. f x = Some y) xs ys"
  unfolding those_Some list_all2_conv_all_nth
  by (auto simp: list_eq_iff_nth_eq)

definition summarised_by :: "('n \<Rightarrow> bool) \<Rightarrow> nat \<times> 'n write_value \<Rightarrow> bool" where
  "summarised_by f iw \<longleftrightarrow> wv_attribute (snd iw) = attr_value \<and> f (wv_node (snd iw))"

definition event_outcome :: "audit_event \<Rightarrow> (string \<times> string) option" where
  "event_outcome ev = (case ev of EvWrite _ n _ _ _ _ _ _ _ _ st \<Rightarrow> Some (n, st) | _ \<Rightarrow> None)"

definition own_result :: "'n ua \<Rightarrow> response \<Rightarrow> string option \<Rightarrow> nat \<times> 'n write_value \<Rightarrow> string \<times> string" where
  "own_result L r u iw = (clip (node_text L (wv_node (snd iw))) MAX_TEXT,
     item_status L (write_results r) (fst iw) (rs_service_result r) u)"

lemma write_item_fields:
  assumes "plan_write_item L iw = Some w"
  shows "wi_index w = fst iw" "wi_node w = wv_node (snd iw)" "wi_attribute_id w = wv_attribute (snd iw)"
    "wi_node_id w = clip (node_text L (wv_node (snd iw))) MAX_TEXT" "wi_old_value w = None" "wi_display_name w = None"
    "wi_range w = wv_range (snd iw)"
  using assms by (auto simp: plan_write_item_def split: prod.splits)

lemma list_all2_filter_map:
  assumes "list_all2 R xs ys" and "\<And>x y. R x y \<Longrightarrow> P x = Q y" and "\<And>x y. R x y \<Longrightarrow> f x = g y"
  shows "map g (filter Q ys) = map f (filter P xs)"
  using assms(1) by (induction xs ys rule: list_all2_induct) (auto simp: assms(2,3))

text \<open>C26. Whatever writes of a request are summarised, every write is either recorded by one event or
  counted by one outcome, in the order of the request, under its own node and with the result the
  server gave at the write's own position (the service result if the request failed as a whole, the
  uncertain status if no response came).\<close>

theorem each_write_gets_its_result:
  assumes "make_plan L (q, Write ws) = Some (Some p)" and "take_summarised f p = (taken, p')"
  shows "map event_outcome (events_all L r u p') =
      map (Some \<circ> own_result L r u) (filter (Not \<circ> summarised_by f) (enumerate 0 ws)) \<and>
    map (\<lambda>s. (sw_node_id s, sw_status s))
        (summarised_outcomes L r s names (case taken of None \<Rightarrow> [] | Some items \<Rightarrow> items)) =
      map (own_result L r (map_option (\<lambda>s. ''Uncertain: no response ('' @ status_text L s @ '')'') s))
        (filter (summarised_by f) (enumerate 0 ws))"
proof -
  from assms(1) obtain items where items: "p = PWrite (rq_handle q) items"
    "list_all2 (\<lambda>x y. plan_write_item L x = Some y) (enumerate 0 ws) items"
    by (auto simp: make_plan_def those_map)
  let ?f = "\<lambda>w. wi_attribute_id w = attr_value \<and> f (wi_node w)"
  from assms(2) items(1) have parts: "p' = PWrite (rq_handle q) (filter (Not \<circ> ?f) items)"
    "(case taken of None \<Rightarrow> [] | Some items \<Rightarrow> items) = filter ?f items"
    by (auto simp: take_summarised_def)
  show ?thesis
    unfolding parts
    by (auto simp: events_all_def summarised_outcomes_def Let_def event_outcome_def own_result_def
        summarised_by_def comp_def write_item_fields intro!: list_all2_filter_map [OF items(2)])
qed

section \<open>How many events\<close>

definition request_size :: "'n service \<Rightarrow> nat" where
  "request_size s = (case s of
     Write ws \<Rightarrow> length ws | Call cs \<Rightarrow> length cs | HistoryUpdate ds \<Rightarrow> length ds | AddNodes ns \<Rightarrow> length ns
   | DeleteNodes ns \<Rightarrow> length ns | AddReferences rs \<Rightarrow> length rs | DeleteReferences rs \<Rightarrow> length rs
   | TransferSubscriptions _ \<Rightarrow> 1 | OtherRequest _ \<Rightarrow> 0)"

lemma those_length: "those (map f xs) = Some ys \<Longrightarrow> length ys = length xs"
  by (auto simp: those_map dest: list_all2_lengthD)

text \<open>A request is planned exactly when it is of an audited service. A planned request yields one
  event per item (one for a transfer), whatever the response; only when the server failed it as a
  whole, and so applied nothing, the events stop at 100.\<close>

theorem one_event_per_item:
  assumes "make_plan L (q, s) = Some o1"
  shows "(o1 \<noteq> None \<longleftrightarrow> is_audited s) \<and>
     (case o1 of None \<Rightarrow> True | Some p \<Rightarrow>
        length (events_with L r u p) =
          (if is_bad L (rs_service_result r) \<and> u = None then min 100 (request_size s) else request_size s))"
  using assms
  by (cases s) (auto simp: make_plan_def is_audited_def events_with_def events_all_def Let_def
      request_size_def MAX_FAILED_ITEMS_def dest: those_length)

section \<open>Reads reach their items\<close>

definition item_after :: "'n ua \<Rightarrow> (nat \<times> read_kind) \<times> data_value \<Rightarrow> 'n write_item \<Rightarrow> 'n write_item" where
  "item_after L tr w = (case good_value L (snd tr) of
     None \<Rightarrow> w
   | Some v \<Rightarrow> (case snd (fst tr) of
       OldValue \<Rightarrow> (case to_audit_value L v of None \<Rightarrow> w | Some a \<Rightarrow> w\<lparr>wi_old_value := Some a\<rparr>)
     | Name \<Rightarrow> (case v of VLocalizedText t \<Rightarrow> w\<lparr>wi_display_name := Some (clip t MAX_NAME)\<rparr> | _ \<Rightarrow> w)))"

lemma apply_result_write:
  assumes "apply_result L ((i, k), d) (PWrite h items, names) = Some (p, n)" and "i < length items"
  shows "p = PWrite h (items[i := item_after L ((i, k), d) (items ! i)])"
  using assms by (auto simp: apply_result_def item_after_def Let_def
      split: option.splits read_kind.splits variant.splits)

lemma apply_results_write:
  assumes "apply_results L trs (PWrite h items, names) = Some (p, n)"
    and "\<forall>t \<in> set trs. fst (fst t) < length items"
  shows "\<exists>items'. p = PWrite h items' \<and> length items' = length items \<and>
     (\<forall>j < length items. items' ! j = fold (item_after L) (filter (\<lambda>t. fst (fst t) = j) trs) (items ! j))"
  using assms
proof (induction trs arbitrary: items names)
  case (Cons t trs)
  obtain i k d where t: "t = ((i, k), d)" by (metis prod.exhaust)
  from Cons.prems(1) obtain st where st: "apply_result L t (PWrite h items, names) = Some st"
    "apply_results L trs st = Some (p, n)" by (auto split: option.splits)
  obtain p1 n1 where p1: "st = (p1, n1)" by (cases st)
  let ?items = "items[i := item_after L t (items ! i)]"
  have i: "i < length items" using Cons.prems(2) t by auto
  from apply_result_write [of L i k d h items names p1 n1] st(1) i have "p1 = PWrite h ?items"
    by (simp add: t p1)
  with st(2) p1 have "apply_results L trs (PWrite h ?items, n1) = Some (p, n)" by simp
  from Cons.IH [OF this] Cons.prems(2) obtain items' where items': "p = PWrite h items'"
    "length items' = length items"
    "\<forall>j < length items. items' ! j = fold (item_after L) (filter (\<lambda>t. fst (fst t) = j) trs) (?items ! j)"
    by auto
  then show ?case by (auto simp: t nth_list_update)
qed auto

definition answers_of :: "('n read_value_id \<Rightarrow> data_value) \<Rightarrow> ('n read_value_id \<times> nat \<times> read_kind) list
    \<Rightarrow> ((nat \<times> read_kind) \<times> data_value) list" where
  "answers_of ans rs = map (\<lambda>(rv, t). (t, ans rv)) rs"

lemma zip_answers: "zip (map snd rs) (map (ans \<circ> fst) rs) = answers_of ans rs"
  by (induction rs) (auto simp: answers_of_def)

lemma reads_of_item:
  fixes items :: "'n write_item list"
  shows "filter (\<lambda>t. fst (fst t) = j) (answers_of ans (concat (map (item_reads ov names) (enumerate k items)))) =
     (if k \<le> j \<and> j < k + length items then answers_of ans (item_reads ov names (j, items ! (j - k))) else [])"
proof (induction items arbitrary: k)
  case (Cons x xs)
  have own: "filter (\<lambda>t. fst (fst t) = j) (answers_of ans (item_reads ov names (i, w))) =
      (if i = j then answers_of ans (item_reads ov names (i, w)) else [])" for i and w :: "'n write_item"
    by (auto simp: answers_of_def item_reads_def want_name_def split: option.splits)
  have "answers_of ans (concat (map (item_reads ov names) (enumerate k (x # xs)))) =
      answers_of ans (item_reads ov names (k, x)) @
      answers_of ans (concat (map (item_reads ov names) (enumerate (Suc k) xs)))"
    by (simp add: answers_of_def)
  with Cons own [of k x] show ?case
    by (cases "j = k") (auto simp: nth_Cons' Suc_le_eq)
qed (auto simp: answers_of_def)

definition old_value_read :: "'n ua \<Rightarrow> ('n read_value_id \<Rightarrow> data_value) \<Rightarrow> 'n write_item \<Rightarrow> audit_value option" where
  "old_value_read L ans w =
     Option.bind (good_value L (ans \<lparr>rv_node = wi_node w, rv_attribute = wi_attribute_id w, rv_range = wi_range w\<rparr>))
       (to_audit_value L)"

definition name_read :: "'n ua \<Rightarrow> ('n read_value_id \<Rightarrow> data_value) \<Rightarrow> 'n \<Rightarrow> string option" where
  "name_read L ans n =
     (case good_value L (ans \<lparr>rv_node = n, rv_attribute = attr_display_name, rv_range = None\<rparr>) of
        Some (VLocalizedText t) \<Rightarrow> Some (clip t MAX_NAME) | _ \<Rightarrow> None)"

lemma item_after_old: "wi_old_value w = None \<Longrightarrow>
    item_after L ((i, OldValue), d) w = w\<lparr>wi_old_value := Option.bind (good_value L d) (to_audit_value L)\<rparr>"
  by (auto simp: item_after_def split: option.split)

lemma item_after_name: "wi_display_name w = None \<Longrightarrow> item_after L ((i, Name), d) w =
    w\<lparr>wi_display_name := (case good_value L d of Some (VLocalizedText t) \<Rightarrow> Some (clip t MAX_NAME) | _ \<Rightarrow> None)\<rparr>"
  by (auto simp: item_after_def split: option.split variant.split)

lemma fold_item_reads:
  assumes "wi_display_name w = cached_name names (wi_node w) None" and "wi_old_value w = None"
    and "wi_node w0 = wi_node w" "wi_attribute_id w0 = wi_attribute_id w" "wi_range w0 = wi_range w"
  shows "fold (item_after L) (answers_of ans (item_reads ov names (j, w0))) w =
     w\<lparr>wi_old_value := (if ov then old_value_read L ans w else None),
       wi_display_name := (case map_of names (wi_node w) of Some c \<Rightarrow> Some c | None \<Rightarrow> name_read L ans (wi_node w))\<rparr>"
  using assms
  by (cases "map_of names (wi_node w)"; cases ov)
    (simp_all add: answers_of_def item_reads_def want_name_def item_after_old item_after_name old_value_read_def name_read_def
      cached_name_def)

text \<open>The reads sent along with a write request reach the items they were made for: if the server
  answers each read, then (unless rendering a value panics) every write ends up with the old value
  read at its own node, attribute and range, and with its node's cached or read display name; nothing
  else of it changes.\<close>

theorem reads_reach_their_items:
  assumes "make_plan L (q, Write ws) = Some (Some (PWrite h items))"
    and "plan_pre_read ov names (PWrite h items) = (p1, Some pre)"
    and "apply_pre_read L pre (map ans (nodes_to_read pre)) (p1, names) = Some (p2, names')"
  shows "p2 = PWrite h (map (\<lambda>w. w\<lparr>wi_old_value := (if ov then old_value_read L ans w else None),
     wi_display_name := (case map_of names (wi_node w) of Some c \<Rightarrow> Some c
       | None \<Rightarrow> name_read L ans (wi_node w))\<rparr>) items)"
proof -
  let ?name = "\<lambda>w. w\<lparr>wi_display_name := cached_name names (wi_node w) (wi_display_name w)\<rparr>"
  let ?rs = "concat (map (item_reads ov names) (enumerate 0 items))"
  let ?new = "\<lambda>w. w\<lparr>wi_old_value := (if ov then old_value_read L ans w else None),
     wi_display_name := (case map_of names (wi_node w) of Some c \<Rightarrow> Some c
       | None \<Rightarrow> name_read L ans (wi_node w))\<rparr>"
  from assms(1) have "list_all2 (\<lambda>x y. plan_write_item L x = Some y) (enumerate 0 ws) items"
    by (auto simp: make_plan_def those_map)
  then have fresh: "wi_old_value (items ! j) = None \<and> wi_display_name (items ! j) = None"
    if "j < length items" for j
    using that by (auto simp: list_all2_conv_all_nth write_item_fields)
  from assms(2) have p1: "p1 = PWrite h (map ?name items)" and pre: "targets pre = map snd ?rs"
    "nodes_to_read pre = map fst ?rs"
    by (auto simp: plan_pre_read_def pre_of_def split: if_splits)
  from assms(3) have run: "apply_results L (answers_of ans ?rs) (PWrite h (map ?name items), names) = Some (p2, names')"
    by (simp add: apply_pre_read_def pre p1 zip_answers)
  have range: "\<forall>t \<in> set (answers_of ans ?rs). fst (fst t) < length (map ?name items)"
    by (auto simp: answers_of_def item_reads_def want_name_def in_set_enumerate_eq split: option.splits if_splits)
  from apply_results_write [OF run range] obtain items' where items': "p2 = PWrite h items'"
    "length items' = length items"
    "\<And>j. j < length items \<Longrightarrow> items' ! j =
       fold (item_after L) (filter (\<lambda>t. fst (fst t) = j) (answers_of ans ?rs)) (?name (items ! j))"
    by auto
  have "items' ! j = ?new (items ! j)" if j: "j < length items" for j
  proof -
    have "filter (\<lambda>t. fst (fst t) = j) (answers_of ans ?rs) = answers_of ans (item_reads ov names (j, items ! j))"
      using reads_of_item [of j ans ov names 0 items] j by simp
    then show ?thesis
      using items'(3) [OF j] fold_item_reads [of "?name (items ! j)" names "items ! j" L ans ov j] fresh [OF j]
      by (simp add: cached_name_def old_value_read_def cong: if_cong option.case_cong)
  qed
  with items'(1,2) show ?thesis by (auto intro: nth_equalityI)
qed

section \<open>Concrete requests\<close>

definition toy_text :: "nat \<Rightarrow> string" where
  "toy_text n = (if n = 3 then ''A'' else ''B'')"

definition toy_ua :: "nat ua" where
  "toy_ua = \<lparr>node_text = toy_text, status_text = (\<lambda>s. if s = 0 then ''Good'' else ''Bad''),
     is_good = (\<lambda>s. s = 0), is_bad = (\<lambda>s. s \<noteq> 0), render_json = (\<lambda>_. ''j''), hex = (\<lambda>s. s),
     scalar_type = (\<lambda>_. Some ''Boolean''), attribute_debug = (\<lambda>_. Some ''Value'')\<rparr>"

definition toy_header :: "nat request_header" where
  "toy_header = \<lparr>rq_handle = 42, rq_token = 0, rq_timeout_hint = 0\<rparr>"

definition toy_write :: "nat \<Rightarrow> nat write_value" where
  "toy_write n = \<lparr>wv_node = n, wv_attribute = 13, wv_range = None, wv_value = Some (VBoolean True),
     wv_status = None, wv_source_timestamp = None, wv_server_timestamp = None\<rparr>"

definition toy_item :: "nat \<Rightarrow> nat \<Rightarrow> nat write_item" where
  "toy_item i n = \<lparr>wi_index = i, wi_node = n, wi_attribute_id = 13, wi_range = None,
     wi_node_id = toy_text n, wi_attribute = ''Value'', wi_index_range = None,
     wi_new_value = \<lparr>data_type = ''Boolean'', av_value = JBool True\<rparr>, wi_written_status = None,
     wi_source_timestamp = None, wi_server_timestamp = None, wi_old_value = None, wi_display_name = None\<rparr>"

lemma toy_ua_simps [simp]:
  "node_text toy_ua = toy_text" "status_text toy_ua s = (if s = 0 then ''Good'' else ''Bad'')"
  "is_good toy_ua s = (s = 0)" "is_bad toy_ua s = (s \<noteq> 0)" "attribute_debug toy_ua a = Some ''Value''"
  by (simp_all add: toy_ua_def)

lemma toy_boolean: "to_audit_value toy_ua (VBoolean b) = Some \<lparr>data_type = ''Boolean'', av_value = JBool b\<rparr>"
  by (simp add: to_audit_value_def toy_ua_def type_text_def MAX_VALUE_JSON_def)

lemma toy_clip [simp]: "clip (toy_text n) MAX_TEXT = toy_text n"
  by (rule clip_short) (simp add: toy_text_def MAX_TEXT_def)

lemma toy_write_item: "plan_write_item toy_ua (i, toy_write n) = Some (toy_item i n)"
  by (simp add: plan_write_item_def toy_write_def toy_boolean toy_item_def attribute_name_def)

lemma toy_plan: "make_plan toy_ua (toy_header, Write [toy_write 3, toy_write 4]) =
    Some (Some (PWrite 42 [toy_item 0 3, toy_item (Suc 0) 4]))"
  by (simp add: make_plan_def toy_header_def toy_write_item)

theorem each_write_gets_its_result_witness:
  "map event_outcome (events_all toy_ua \<lparr>rs_handle = 7, rs_service_result = 0, rs_body = WriteResults (Some [0, 5])\<rparr> None
       (PWrite 42 [toy_item (Suc 0) 4])) = [Some (''B'', ''Bad'')] \<and>
   map (\<lambda>s. (sw_node_id s, sw_status s)) (summarised_outcomes toy_ua
       \<lparr>rs_handle = 7, rs_service_result = 0, rs_body = WriteResults (Some [0, 5])\<rparr> None [] [toy_item 0 3]) = [(''A'', ''Good'')]"
proof -
  let ?r = "\<lparr>rs_handle = 7, rs_service_result = 0, rs_body = WriteResults (Some [0, 5])\<rparr>"
  have taken: "take_summarised (\<lambda>n. n = 3) (PWrite 42 [toy_item 0 3, toy_item (Suc 0) 4]) =
      (Some [toy_item 0 3], PWrite 42 [toy_item (Suc 0) 4])"
    by (simp add: take_summarised_def toy_item_def attr_value_def)
  have w: "wv_attribute (toy_write n) = attr_value" "wv_node (toy_write n) = n" for n
    by (simp_all add: toy_write_def attr_value_def)
  have "(5 :: status) \<noteq> 0" by simp
  with each_write_gets_its_result [OF toy_plan taken, of ?r None None "[]"]
  show ?thesis
    by (simp add: summarised_by_def own_result_def w item_status_def write_results_def comp_def)
       (simp add: toy_text_def)
qed

theorem one_event_per_item_witness:
  "length (events_with toy_ua \<lparr>rs_handle = 7, rs_service_result = 5, rs_body = ServiceFault\<rparr> None
     (PWrite 42 [toy_item 0 3, toy_item (Suc 0) 4])) = 2"
  using one_event_per_item [OF toy_plan, where r = "\<lparr>rs_handle = 7, rs_service_result = 5, rs_body = ServiceFault\<rparr>"
      and u = None]
  by (simp add: request_size_def)

theorem reads_reach_their_items_witness:
  "\<exists>p1 pre names' p2. plan_pre_read True [] (PWrite 42 [toy_item 0 3, toy_item (Suc 0) 4]) = (p1, Some pre) \<and>
     apply_pre_read toy_ua pre (map (\<lambda>rv. \<lparr>dv_value = Some (VBoolean (rv_node rv = 4)), dv_status = None\<rparr>)
       (nodes_to_read pre)) (p1, []) = Some (p2, names') \<and>
     p2 = PWrite 42 (map (\<lambda>w. w\<lparr>wi_old_value := Some \<lparr>data_type = ''Boolean'', av_value = JBool (wi_node w = 4)\<rparr>,
       wi_display_name := None\<rparr>) [toy_item 0 3, toy_item (Suc 0) 4])"
proof -
  let ?ans = "\<lambda>rv :: nat read_value_id. \<lparr>dv_value = Some (VBoolean (rv_node rv = 4)), dv_status = None\<rparr>"
  let ?p = "PWrite 42 [toy_item 0 3, toy_item (Suc 0) 4]"
  obtain p1 pre where pre: "plan_pre_read True [] ?p = (p1, Some pre)"
    by (simp add: plan_pre_read_def pre_of_def item_reads_def)
  have "\<exists>st. apply_pre_read toy_ua pre (map ?ans (nodes_to_read pre)) (p1, []) = Some st"
    using pre by (auto simp: plan_pre_read_def pre_of_def item_reads_def want_name_def apply_pre_read_def
        apply_result_def good_value_def toy_boolean toy_item_def)
  then obtain p2 names' where run: "apply_pre_read toy_ua pre (map ?ans (nodes_to_read pre)) (p1, []) = Some (p2, names')"
    by auto
  have good: "good_value toy_ua \<lparr>dv_value = Some (VBoolean b), dv_status = None\<rparr> = Some (VBoolean b)" for b
    by (simp add: good_value_def)
  have new: "p2 = PWrite 42 (map (\<lambda>w. w\<lparr>wi_old_value := Some \<lparr>data_type = ''Boolean'', av_value = JBool (wi_node w = 4)\<rparr>,
       wi_display_name := None\<rparr>) [toy_item 0 3, toy_item (Suc 0) 4])"
    using reads_reach_their_items [OF toy_plan pre run]
    by (simp add: old_value_read_def name_read_def good toy_boolean)
  show ?thesis by (intro exI conjI) (rule pre, rule run, rule new)
qed

end
