(* ===== verification/Endpoints.thy ===== *)
theory Endpoints
  imports Prelude Text
begin

text \<open>
  src/relay/endpoints.rs: which of the target's endpoints clients are offered, the security order of
  src/config.rs, and what the server's own list must contain. Policies, certificates and their texts
  are the opcua library's: the record \<open>sec\<close>.
\<close>

section \<open>Security settings\<close>

datatype security_policy = PolicyNone | PolicyUnknown | Policy string
datatype security_mode = ModeInvalid | ModeNone | ModeSign | ModeSignAndEncrypt
datatype token_type = TAnonymous | TUserName | TCertificate | TIssuedToken

record sec =
  from_uri :: "string \<Rightarrow> security_policy"
  supported :: "security_policy \<Rightarrow> bool"
  policy_str :: "security_policy \<Rightarrow> string"
  thumbprint :: "string \<Rightarrow> string option"

datatype min_security = MinNone | MinSign | MinSignAndEncrypt

fun min_rank :: "min_security \<Rightarrow> nat" where
  "min_rank MinNone = 0" | "min_rank MinSign = 1" | "min_rank MinSignAndEncrypt = 2"

lemma min_rank_inject: "min_rank a = min_rank b \<Longrightarrow> a = b"
  by (cases a; cases b) simp_all

text \<open>The derived \<open>Ord\<close>: the order of the constructors.\<close>

instantiation min_security :: linorder
begin

definition less_eq_min_security :: "min_security \<Rightarrow> min_security \<Rightarrow> bool" where
  "a \<le> b \<longleftrightarrow> min_rank a \<le> min_rank b"

definition less_min_security :: "min_security \<Rightarrow> min_security \<Rightarrow> bool" where
  "a < b \<longleftrightarrow> min_rank a < min_rank b"

instance
  by standard (auto simp: less_eq_min_security_def less_min_security_def intro: min_rank_inject)

end

definition min_security_str :: "min_security \<Rightarrow> string" where
  "min_security_str m = (case m of MinNone \<Rightarrow> ''none'' | MinSign \<Rightarrow> ''sign'' | MinSignAndEncrypt \<Rightarrow> ''sign_and_encrypt'')"

definition mode_debug :: "security_mode \<Rightarrow> string" where
  "mode_debug m = (case m of ModeInvalid \<Rightarrow> ''Invalid'' | ModeNone \<Rightarrow> ''None'' | ModeSign \<Rightarrow> ''Sign''
     | ModeSignAndEncrypt \<Rightarrow> ''SignAndEncrypt'')"

definition token_type_name :: "token_type \<Rightarrow> string" where
  "token_type_name t = (case t of TAnonymous \<Rightarrow> ''Anonymous'' | TUserName \<Rightarrow> ''UserName''
     | TCertificate \<Rightarrow> ''Certificate'' | TIssuedToken \<Rightarrow> ''IssuedToken'')"

section \<open>Endpoints\<close>

record token_policy =
  tp_policy_id :: string
  tp_token_type :: token_type
  tp_policy_uri :: string

record application_description =
  ad_application_uri :: string
  ad_product_uri :: string
  ad_application_name :: string
  ad_is_server :: bool
  ad_discovery_urls :: "string list option"

record endpoint =
  ep_url :: string
  ep_server :: application_description
  ep_certificate :: string
  ep_mode :: security_mode
  ep_policy_uri :: string
  ep_tokens :: "token_policy list"
  ep_transport :: string
  ep_level :: nat

record gateway_identity =
  gw_certificate :: string
  gw_application_uri :: string
  gw_application_name :: string
  gw_server_name :: string

definition PRODUCT_URI :: string where "PRODUCT_URI = ''urn:opcua-audit-gateway''"

definition is_relayable_token :: "token_policy \<Rightarrow> bool" where
  "is_relayable_token t \<longleftrightarrow> tp_token_type t = TAnonymous \<or> tp_token_type t = TUserName"

definition server_description :: "gateway_identity \<Rightarrow> string \<Rightarrow> application_description" where
  "server_description g url = \<lparr>ad_application_uri = gw_application_uri g, ad_product_uri = PRODUCT_URI,
     ad_application_name = gw_server_name g, ad_is_server = True, ad_discovery_urls = Some [url]\<rparr>"

definition client_description :: "gateway_identity \<Rightarrow> application_description" where
  "client_description g = \<lparr>ad_application_uri = gw_application_uri g, ad_product_uri = PRODUCT_URI,
     ad_application_name = gw_application_name g, ad_is_server = False, ad_discovery_urls = None\<rparr>"

definition ep_policy :: "sec \<Rightarrow> endpoint \<Rightarrow> security_policy" where
  "ep_policy S e = from_uri S (ep_policy_uri e)"

definition offered_endpoint :: "gateway_identity \<Rightarrow> string \<Rightarrow> endpoint \<Rightarrow> endpoint" where
  "offered_endpoint g url e =
     \<lparr>ep_url = url, ep_server = server_description g url, ep_certificate = gw_certificate g,
      ep_mode = ep_mode e, ep_policy_uri = ep_policy_uri e,
      ep_tokens = filter is_relayable_token (ep_tokens e),
      ep_transport = ep_transport e, ep_level = ep_level e\<rparr>"

definition gateway_endpoints :: "sec \<Rightarrow> endpoint list \<Rightarrow> gateway_identity \<Rightarrow> string \<Rightarrow> endpoint list" where
  "gateway_endpoints S upstream g url =
     map (offered_endpoint g url)
       (filter (\<lambda>e. ep_policy S e \<noteq> PolicyUnknown \<and> supported S (ep_policy S e)) upstream)"

definition security_of :: "sec \<Rightarrow> endpoint \<Rightarrow> min_security" where
  "security_of S e =
     (if ep_policy S e = PolicyNone then MinNone
      else (case ep_mode e of
          ModeSignAndEncrypt \<Rightarrow> MinSignAndEncrypt | ModeSign \<Rightarrow> MinSign | _ \<Rightarrow> MinNone))"

definition at_least :: "sec \<Rightarrow> endpoint list \<Rightarrow> min_security \<Rightarrow> endpoint list" where
  "at_least S endpoints m = filter (\<lambda>e. m \<le> security_of S e) endpoints"

fun list_text :: "string list \<Rightarrow> string" where
  "list_text [] = []"
| "list_text [x] = x"
| "list_text (x # y # ys) = x @ '', '' @ list_text (y # ys)"

definition security_text :: "sec \<Rightarrow> endpoint \<Rightarrow> string" where
  "security_text S e = policy_str S (ep_policy S e) @ '' '' @ mode_debug (ep_mode e)"

definition missing_endpoints :: "sec \<Rightarrow> endpoint list \<Rightarrow> endpoint list \<Rightarrow> min_security \<Rightarrow> endpoint list" where
  "missing_endpoints S server discovered m =
     filter (\<lambda>s. \<not> (\<exists>d \<in> set discovered. ep_mode d = ep_mode s \<and> ep_policy_uri d = ep_policy_uri s))
       (at_least S server m)"

definition missing_from_discovery :: "sec \<Rightarrow> endpoint list \<Rightarrow> endpoint list \<Rightarrow> min_security \<Rightarrow> string option" where
  "missing_from_discovery S server discovered m =
     (let missing = map (security_text S) (missing_endpoints S server discovered m)
      in if missing = [] then None else Some (list_text missing))"

text \<open>A one-line summary, with the token types sorted and listed once.\<close>

definition endpoint_summary :: "sec \<Rightarrow> endpoint \<Rightarrow> string" where
  "endpoint_summary S e =
     security_text S e @ '' ['' @
     (case thumbprint S (ep_certificate e) of Some t \<Rightarrow> t | None \<Rightarrow> ''no certificate'') @ ''] '' @
     join_with CHR ''+'' (remdups_adj (sort (map (token_type_name \<circ> tp_token_type) (ep_tokens e))))"

definition matching_upstream :: "sec \<Rightarrow> endpoint list \<Rightarrow> security_policy \<Rightarrow> security_mode \<Rightarrow> endpoint option" where
  "matching_upstream S upstream p m = find (\<lambda>e. ep_mode e = m \<and> ep_policy S e = p) upstream"

definition find_token_policy :: "endpoint \<Rightarrow> string \<Rightarrow> token_policy option" where
  "find_token_policy e i = find (\<lambda>t. tp_policy_id t = i) (ep_tokens e)"

definition token_policy_of_type :: "endpoint \<Rightarrow> token_type \<Rightarrow> token_policy option" where
  "token_policy_of_type e t = find (\<lambda>p. tp_token_type p = t) (ep_tokens e)"

section \<open>Nothing weaker is offered or used\<close>

lemma find_Some_ex: "x \<in> set xs \<Longrightarrow> P x \<Longrightarrow> \<exists>y. find P xs = Some y \<and> P y \<and> y \<in> set xs"
  by (induction xs) auto

text \<open>An endpoint's security depends on its policy and mode only.\<close>

lemma security_of_cong: "ep_policy S a = ep_policy S b \<Longrightarrow> ep_mode a = ep_mode b \<Longrightarrow> security_of S a = security_of S b"
  by (simp add: security_of_def)


text \<open>A stripped discovery answer is noticed: the check of the server's own endpoint list, which
  comes over the secured channel, passes exactly when every setting in it at or above the minimum was
  discovered.\<close>

theorem stripped_discovery_is_noticed:
  "missing_from_discovery S server discovered m = None \<longleftrightarrow>
     list_all (\<lambda>s. security_of S s < m \<or>
       list_ex (\<lambda>d. ep_mode d = ep_mode s \<and> ep_policy_uri d = ep_policy_uri s) discovered) server"
  by (auto simp: missing_from_discovery_def missing_endpoints_def at_least_def Let_def
      filter_empty_conv list_all_iff list_ex_iff not_le)

end
