(* ===== verification/Discovery.thy ===== *)
theory Discovery
  imports Prelude Text Ordered_Map Audit_Event Endpoints
begin

text \<open>
  The status of a target (src/discovery.rs): what a discovery result or a trust check changes in it
  and which records it makes, and the trust check itself (src/relay/mod.rs).
\<close>

section \<open>Status\<close>

datatype upstream_state = UpUnknown | UpAvailable | UpUnavailable

datatype gateway_trust =
    TrustUnknown
  | NoSecureEndpoint
  | TargetUntrusted
  | Refused string
  | Trusted string
  | Failed string

record token_info =
  ti_policy_id :: string
  ti_token_type :: string
  ti_policy_uri :: string

record endpoint_info =
  ei_url :: string
  ei_policy :: string
  ei_policy_uri :: string
  ei_mode :: string
  ei_level :: nat
  ei_tokens :: "token_info list"
  ei_application_uri :: string
  ei_application_name :: string
  ei_thumbprint :: "string option"

definition endpoint_info_of :: "sec \<Rightarrow> endpoint \<Rightarrow> endpoint_info" where
  "endpoint_info_of S e =
     \<lparr>ei_url = ep_url e, ei_policy = policy_str S (ep_policy S e), ei_policy_uri = ep_policy_uri e,
      ei_mode = mode_debug (ep_mode e), ei_level = ep_level e,
      ei_tokens = map (\<lambda>t. \<lparr>ti_policy_id = tp_policy_id t, ti_token_type = token_type_name (tp_token_type t),
                            ti_policy_uri = tp_policy_uri t\<rparr>) (ep_tokens e),
      ei_application_uri = ad_application_uri (ep_server e),
      ei_application_name = ad_application_name (ep_server e),
      ei_thumbprint = thumbprint S (ep_certificate e)\<rparr>"

record target_status =
  st_state :: upstream_state
  st_last_check :: "time option"
  st_last_error :: "string option"
  st_endpoints :: "endpoint_info list"
  st_raw :: "endpoint list"
  st_trust :: gateway_trust

definition new_status :: target_status where
  "new_status = \<lparr>st_state = UpUnknown, st_last_check = None, st_last_error = None, st_endpoints = [],
     st_raw = [], st_trust = TrustUnknown\<rparr>"

type_synonym statuses = "(string \<times> target_status) list"

text \<open>\<open>discover_within\<close> lists the endpoints most secure first; the sort is stable.\<close>

definition discovered :: "endpoint list \<Rightarrow> endpoint list" where
  "discovered es = sort_key (\<lambda>e. - int (ep_level e)) es"

section \<open>What a discovery result changes\<close>

definition discovery_ok :: "sec \<Rightarrow> time \<Rightarrow> string \<Rightarrow> endpoint list \<Rightarrow> target_status \<Rightarrow> target_status \<times> audit_event list" where
  "discovery_ok S now url es st =
     (let before = map (endpoint_summary S) (st_raw st); after = map (endpoint_summary S) es;
          avail = (if st_state st \<noteq> UpAvailable then [UpstreamAvailable url (length es)] else []);
          changed = (if before \<noteq> [] \<and> before \<noteq> after then [UpstreamEndpointsChanged url before after] else [])
      in (st\<lparr>st_last_check := Some now, st_state := UpAvailable, st_last_error := None,
             st_endpoints := map (endpoint_info_of S) es, st_raw := es\<rparr>, avail @ changed))"

definition discovery_failed :: "time \<Rightarrow> string \<Rightarrow> string \<Rightarrow> target_status \<Rightarrow> target_status \<times> audit_event list" where
  "discovery_failed now url reason st =
     (st\<lparr>st_last_check := Some now, st_state := UpUnavailable, st_last_error := Some reason\<rparr>,
      (if st_state st \<noteq> UpUnavailable then [UpstreamUnavailable url reason] else []))"

definition apply_status :: "sec \<Rightarrow> time \<Rightarrow> string \<Rightarrow> string + endpoint list \<Rightarrow> target_status
    \<Rightarrow> target_status \<times> audit_event list" where
  "apply_status S now url result st = (case result of
     Inr es \<Rightarrow> discovery_ok S now url es st | Inl reason \<Rightarrow> discovery_failed now url reason st)"

text \<open>A target that is gone meanwhile is left alone.\<close>

definition apply_discovery :: "sec \<Rightarrow> time \<Rightarrow> string \<Rightarrow> string \<Rightarrow> string + endpoint list \<Rightarrow> statuses
    \<Rightarrow> statuses \<times> audit_entry list" where
  "apply_discovery S now name url result m = (case map_of m name of
     None \<Rightarrow> (m, [])
   | Some st \<Rightarrow> (case apply_status S now url result st of
        (st', evs) \<Rightarrow> (bt_put name st' m, map (\<lambda>ev. with_target name (new_entry now ev)) evs)))"

section \<open>Trust of the target in the gateway\<close>

definition refusal_hint :: string where
  "refusal_hint = ''; the target probably does not trust the gateway'' @ [CHR 0x27] @
     ''s certificate yet (trust it on the target, e.g. move it from its rejected to its trusted certificates)''"

definition is_refused :: "gateway_trust \<Rightarrow> bool" where
  "is_refused t = (case t of Refused _ \<Rightarrow> True | _ \<Rightarrow> False)"

definition trust_problem :: "gateway_trust \<Rightarrow> bool" where
  "trust_problem t \<longleftrightarrow> is_refused t \<or> t = TargetUntrusted"

definition trust_event :: "string \<Rightarrow> gateway_trust \<Rightarrow> gateway_trust \<Rightarrow> audit_event option" where
  "trust_event url before after = (case after of
     Refused detail \<Rightarrow> (if \<not> is_refused before then Some (TargetRefusedGateway url (detail @ refusal_hint)) else None)
   | TargetUntrusted \<Rightarrow> (if before \<noteq> TargetUntrusted then Some (TargetNotTrusted url) else None)
   | Trusted policy \<Rightarrow> (if trust_problem before then Some (TargetTrustRestored url policy) else None)
   | _ \<Rightarrow> None)"

definition set_trust :: "string \<Rightarrow> gateway_trust \<Rightarrow> target_status \<Rightarrow> target_status \<times> audit_event option" where
  "set_trust url result st =
     (if st_trust st = result then (st, None)
      else (st\<lparr>st_trust := result\<rparr>, trust_event url (st_trust st) result))"

definition set_gateway_trust :: "time \<Rightarrow> string \<Rightarrow> string \<Rightarrow> gateway_trust \<Rightarrow> statuses \<Rightarrow> statuses \<times> audit_entry option" where
  "set_gateway_trust now name url result m = (case map_of m name of
     None \<Rightarrow> (m, None)
   | Some st \<Rightarrow> (case set_trust url result st of
        (st', ev) \<Rightarrow> (bt_put name st' m, map_option (\<lambda>e. with_target name (new_entry now e)) ev)))"

text \<open>
  The periodic check: the most secure endpoint the target offers (the last of equals, as
  \<open>max_by_key\<close>), a channel to it, and a session without logging in that is closed again.
\<close>

fun max_level :: "endpoint \<Rightarrow> endpoint list \<Rightarrow> endpoint" where
  "max_level b [] = b"
| "max_level b (e # es) = max_level (if ep_level b \<le> ep_level e then e else b) es"

definition BadCertificateInvalid :: u32 where "BadCertificateInvalid = 0x80120000"
definition BadSecurityChecksFailed :: u32 where "BadSecurityChecksFailed = 0x80130000"
definition BadCertificateUriInvalid :: u32 where "BadCertificateUriInvalid = 0x80170000"
definition BadCertificateUntrusted :: u32 where "BadCertificateUntrusted = 0x801A0000"

definition refused_status :: "u32 \<Rightarrow> bool" where
  "refused_status s \<longleftrightarrow> s = BadSecurityChecksFailed \<or> s = BadCertificateUntrusted \<or>
     s = BadCertificateInvalid \<or> s = BadCertificateUriInvalid"

datatype probe = SessionOk | ProbeAnswer u32 | ProbeSendError u32

definition probe_session :: "(u32 \<Rightarrow> string) \<Rightarrow> string \<Rightarrow> probe \<Rightarrow> gateway_trust" where
  "probe_session text policy p = (case p of
     SessionOk \<Rightarrow> Trusted policy
   | ProbeAnswer s \<Rightarrow> if refused_status s then Refused (text s) else Failed (''CreateSession: '' @ text s)
   | ProbeSendError s \<Rightarrow> if refused_status s then Refused (text s) else Failed (''CreateSession: '' @ text s))"

datatype connect_outcome = ConnectTimeout | ConnectUntrusted | ConnectError string | Connected probe

definition check_gateway_trust :: "sec \<Rightarrow> (u32 \<Rightarrow> string) \<Rightarrow> u32 + endpoint list \<Rightarrow> (endpoint \<Rightarrow> connect_outcome)
    \<Rightarrow> gateway_trust" where
  "check_gateway_trust S text endpoints connect = (case endpoints of
     Inl s \<Rightarrow> Failed (''target not reachable ('' @ text s @ '')'')
   | Inr es \<Rightarrow>
       (case filter (\<lambda>e. ep_policy S e \<noteq> PolicyNone) es of
          [] \<Rightarrow> NoSecureEndpoint
        | e # rest \<Rightarrow>
            (let best = max_level e rest in case connect best of
               ConnectTimeout \<Rightarrow> Failed ''no answer within 15 s''
             | ConnectUntrusted \<Rightarrow> TargetUntrusted
             | ConnectError d \<Rightarrow>
                 (if contains d ''BadSecurityChecksFailed'' \<or> contains d ''BadCertificateUntrusted''
                  then Refused d else Failed d)
             | Connected p \<Rightarrow> probe_session text (policy_str S (ep_policy S best)) p)))"

section \<open>What the trail tells about a target\<close>

text \<open>Results one after the other, and what a reader of the trail concludes from the records.\<close>

fun run_discovery :: "sec \<Rightarrow> string \<Rightarrow> (time \<times> (string + endpoint list)) list \<Rightarrow> target_status
    \<Rightarrow> target_status \<times> audit_event list" where
  "run_discovery S url [] st = (st, [])"
| "run_discovery S url ((now, r) # rs) st =
     (case apply_status S now url r st of (st1, e1) \<Rightarrow>
        (case run_discovery S url rs st1 of (st2, e2) \<Rightarrow> (st2, e1 @ e2)))"

definition replay_state :: "upstream_state \<Rightarrow> audit_event \<Rightarrow> upstream_state" where
  "replay_state s ev = (case ev of UpstreamAvailable _ _ \<Rightarrow> UpAvailable | UpstreamUnavailable _ _ \<Rightarrow> UpUnavailable | _ \<Rightarrow> s)"

definition replay_offer :: "string list \<Rightarrow> audit_event \<Rightarrow> string list" where
  "replay_offer o1 ev = (case ev of UpstreamEndpointsChanged _ _ after \<Rightarrow> after | _ \<Rightarrow> o1)"

definition known_offer :: "sec \<Rightarrow> target_status \<Rightarrow> string list" where
  "known_offer S st = map (endpoint_summary S) (st_raw st)"

text \<open>The first list of endpoints a sequence of results holds.\<close>

fun first_offer :: "sec \<Rightarrow> (time \<times> (string + endpoint list)) list \<Rightarrow> string list" where
  "first_offer S [] = []"
| "first_offer S ((now, Inl _) # rs) = first_offer S rs"
| "first_offer S ((now, Inr es) # rs) = map (endpoint_summary S) es"

lemma apply_status_replay:
  assumes "apply_status S now url r st = (st', evs)" and "r \<noteq> Inr []"
  shows "st_state st' = foldl replay_state (st_state st) evs"
    and "known_offer S st \<noteq> [] \<Longrightarrow> known_offer S st' = foldl replay_offer (known_offer S st) evs"
    and "known_offer S st = [] \<Longrightarrow> foldl replay_offer x evs = x \<and>
           known_offer S st' = (case r of Inl _ \<Rightarrow> [] | Inr es \<Rightarrow> map (endpoint_summary S) es)"
  using assms
  by (auto simp: apply_status_def discovery_ok_def discovery_failed_def replay_state_def replay_offer_def
      known_offer_def Let_def split: sum.splits if_splits)

lemma run_replay:
  assumes "run_discovery S url rs st = (st', evs)" and "list_all (\<lambda>(now, r). r \<noteq> Inr []) rs"
  shows "st_state st' = foldl replay_state (st_state st) evs \<and>
    (known_offer S st \<noteq> [] \<longrightarrow> known_offer S st' = foldl replay_offer (known_offer S st) evs) \<and>
    (known_offer S st = [] \<longrightarrow> known_offer S st' = foldl replay_offer (first_offer S rs) evs)"
  using assms
proof (induction S url rs st arbitrary: st' evs rule: run_discovery.induct)
  case (2 S url now r rs st)
  obtain st1 e1 where one: "apply_status S now url r st = (st1, e1)" by fastforce
  obtain st2 e2 where two: "run_discovery S url rs st1 = (st2, e2)" by fastforce
  have evs: "evs = e1 @ e2" "st' = st2" using 2(2) one two by auto
  have ne: "r \<noteq> Inr []" using 2(3) by simp
  note ap = apply_status_replay [OF one ne]
  have "list_all (\<lambda>(now, r). r \<noteq> Inr []) rs" using 2(3) by simp
  note IH = 2(1) [OF one [symmetric] two this]
  show ?case
  proof (cases "known_offer S st = []")
    case True
    note a3 = ap(3) [OF True]
    show ?thesis
    proof (cases r)
      case (Inl x)
      then show ?thesis using IH ap(1) a3 True evs by auto
    next
      case (Inr es)
      then have "known_offer S st1 \<noteq> []" using a3 ne by auto
      then show ?thesis using IH ap(1) a3 True evs Inr by auto
    qed
  next
    case False
    note a2 = ap(2) [OF False]
    have "known_offer S st1 \<noteq> []"
      using one ne False
      by (auto simp: apply_status_def discovery_ok_def discovery_failed_def known_offer_def Let_def
          split: sum.splits if_splits)
    then show ?thesis using IH ap(1) a2 False evs by auto
  qed
qed (auto split: list.splits)

text \<open>The trail tells a target's whole history: from its records alone a reader concludes the
  current availability, and from the first offer the current endpoints with their certificates and
  tokens; no change goes unrecorded, as long as the server never lists no endpoint at all.\<close>

theorem trail_tells_the_target:
  assumes "list_all (\<lambda>(now, r). r \<noteq> Inr []) rs"
  shows "case run_discovery S url rs new_status of (st, evs) \<Rightarrow>
     st_state st = foldl replay_state UpUnknown evs \<and>
     known_offer S st = foldl replay_offer (first_offer S rs) evs"
proof -
  obtain st evs where run: "run_discovery S url rs new_status = (st, evs)" by fastforce
  have "known_offer S new_status = []" "st_state new_status = UpUnknown"
    by (simp_all add: new_status_def known_offer_def)
  with run_replay [OF run assms] show ?thesis by (simp add: run)
qed

definition toy_sec :: sec where
  "toy_sec = \<lparr>from_uri = (\<lambda>u. if u = ''none'' then PolicyNone else Policy u), supported = (\<lambda>_. True),
     policy_str = (\<lambda>p. case p of Policy u \<Rightarrow> u | _ \<Rightarrow> ''None''), thumbprint = (\<lambda>c. Some c)\<rparr>"

definition toy_endpoint :: "string \<Rightarrow> endpoint" where
  "toy_endpoint p = \<lparr>ep_url = [], ep_server = server_description
     \<lparr>gw_certificate = [], gw_application_uri = [], gw_application_name = [], gw_server_name = []\<rparr> [],
     ep_certificate = ''c'', ep_mode = ModeSign, ep_policy_uri = p, ep_tokens = [], ep_transport = [], ep_level = 1\<rparr>"

theorem trail_tells_the_target_witness:
  "case run_discovery toy_sec ''u'' [(1, Inr [toy_endpoint ''a'']), (2, Inl ''gone''), (3, Inr [toy_endpoint ''b''])] new_status of
     (st, evs) \<Rightarrow> st_state st = foldl replay_state UpUnknown evs \<and>
       known_offer toy_sec st = foldl replay_offer [endpoint_summary toy_sec (toy_endpoint ''a'')] evs"
  using trail_tells_the_target [of "[(1, Inr [toy_endpoint ''a'']), (2, Inl ''gone''), (3, Inr [toy_endpoint ''b''])]" toy_sec "''u''"]
  by simp

fun run_trust :: "string \<Rightarrow> gateway_trust list \<Rightarrow> target_status \<Rightarrow> target_status \<times> audit_event list" where
  "run_trust url [] st = (st, [])"
| "run_trust url (t # rest) st =
     (case set_trust url t st of (st1, e) \<Rightarrow>
        (case run_trust url rest st1 of (st2, es) \<Rightarrow> (st2, (case e of None \<Rightarrow> [] | Some e \<Rightarrow> [e]) @ es)))"

lemma run_refused:
  "is_refused (st_trust st) \<Longrightarrow> run_trust url (map Refused ds @ [Trusted p]) st =
     (st\<lparr>st_trust := Trusted p\<rparr>, [TargetTrustRestored url p])"
  by (induction ds arbitrary: st)
     (auto simp: set_trust_def trust_event_def trust_problem_def is_refused_def split: gateway_trust.splits)

text \<open>A target that refuses the gateway is one record however often and with whatever detail the
  check or a client's connection finds it again, and its end, when the next finding is that the
  target accepts the gateway, is one record.\<close>

theorem refusal_is_recorded_once:
  "snd (run_trust url (map Refused (d # ds) @ [Trusted p]) new_status) =
     [TargetRefusedGateway url (d @ refusal_hint), TargetTrustRestored url p]"
proof -
  have "is_refused (st_trust (new_status\<lparr>st_trust := Refused d\<rparr>))" by (simp add: is_refused_def)
  from run_refused [OF this, of url ds p] show ?thesis
    by (simp add: set_trust_def trust_event_def new_status_def is_refused_def)
qed

text \<open>The end of a refusal is not recorded when a check fails in between, as when the target is
  restarted after the gateway was trusted on it: the trail then shows the refusal for ever.\<close>

theorem restored_trust_unrecorded:
  "run_trust url [Refused d, Failed reason, Trusted p] new_status =
     (new_status\<lparr>st_trust := Trusted p\<rparr>, [TargetRefusedGateway url (d @ refusal_hint)])"
  by (simp add: set_trust_def trust_event_def trust_problem_def is_refused_def new_status_def)

end
