(* ===== verification/Admission.thy ===== *)
theory Admission
  imports Complex_Main Prelude Ordered_Map "HOL-Library.List_Lexorder" "HOL-Library.Char_ord"
begin

text \<open>
  Which new connections a target accepts (src/relay/mod.rs): at most so many at once, so many per
  address, and a rate per address by a token bucket; refusals are counted and reported. Tokens are
  rationals (an idealisation of \<open>f64\<close>), addresses their text.
\<close>

section \<open>The bucket\<close>

definition CONNECTION_RATE :: rat where "CONNECTION_RATE = 5"

record address_state =
  as_active :: nat
  tokens :: rat
  as_last :: time
  as_refused :: nat
  reason :: string

record admission =
  max_total :: nat
  max_per_address :: nat
  active :: nat
  addresses :: "(string \<times> address_state) list"

definition elapsed_secs :: "time \<Rightarrow> time \<Rightarrow> rat" where
  "elapsed_secs now earlier = of_int (max 0 (now - earlier)) / of_int nanos_per_sec"

definition new_address :: "time \<Rightarrow> address_state" where
  "new_address now = \<lparr>as_active = 0, tokens = 2 * CONNECTION_RATE, as_last = now, as_refused = 0, reason = []\<rparr>"

definition refill :: "time \<Rightarrow> address_state \<Rightarrow> address_state" where
  "refill now s = s\<lparr>tokens := min (tokens s + elapsed_secs now (as_last s) * CONNECTION_RATE) (2 * CONNECTION_RATE),
     as_last := now\<rparr>"

text \<open>\<open>admit\<close>: the answer, and the state with the connection counted or the refusal noted.\<close>

definition admit :: "time \<Rightarrow> string \<Rightarrow> admission \<Rightarrow> bool \<times> admission" where
  "admit now ip a =
     (let s = refill now (case map_of (addresses a) ip of Some s \<Rightarrow> s | None \<Rightarrow> new_address now);
          refuse = (\<lambda>r. (False, a\<lparr>addresses := bt_put ip (s\<lparr>as_refused := as_refused s + 1, reason := r\<rparr>) (addresses a)\<rparr>))
      in if max_total a \<le> active a then refuse ''too many connections to this target''
         else if max_per_address a \<le> as_active s then refuse ''too many connections from this address''
         else if tokens s < 1 then refuse ''too many new connections per second from this address''
         else (True, a\<lparr>active := active a + 1,
                 addresses := bt_put ip (s\<lparr>tokens := tokens s - 1, as_active := as_active s + 1\<rparr>) (addresses a)\<rparr>))"

definition release :: "string \<Rightarrow> admission \<Rightarrow> admission" where
  "release ip a = a\<lparr>active := active a - 1,
     addresses := bt_update ip (\<lambda>s. s\<lparr>as_active := as_active s - 1\<rparr>) (addresses a)\<rparr>"

definition take_refused :: "time \<Rightarrow> admission \<Rightarrow> (string \<times> nat \<times> string) list \<times> admission" where
  "take_refused now a =
     (map (\<lambda>(ip, s). (ip, as_refused s, reason s)) (filter (\<lambda>(ip, s). 0 < as_refused s) (addresses a)),
      a\<lparr>addresses := bt_retain (\<lambda>ip s. 0 < as_active s \<or> max 0 (now - as_last s) < secs 60)
          (map (\<lambda>(ip, s). (ip, s\<lparr>as_refused := 0\<rparr>)) (addresses a))\<rparr>)"

section \<open>Runs\<close>

text \<open>
  A target's life: connections that arrive, that end (only open ones do), and the reports. The state
  keeps the open connections, how many were admitted per address since the start, and how many
  refusals were made and reported.
\<close>

datatype admission_op =
    Arrive time string
  | Leave string
  | Report time

record run_state =
  adm :: admission
  opened :: "string list"
  admitted :: "string \<Rightarrow> nat"
  refused_total :: "string \<Rightarrow> nat"
  reported :: "string \<Rightarrow> nat"

definition report_of :: "string \<Rightarrow> (string \<times> nat \<times> string) list \<Rightarrow> nat" where
  "report_of ip rs = sum_list (map (\<lambda>(a, n, r). if a = ip then n else 0) rs)"

definition run_step :: "run_state \<Rightarrow> admission_op \<Rightarrow> run_state" where
  "run_step s op = (case op of
     Arrive now ip \<Rightarrow> (case admit now ip (adm s) of
         (True, a) \<Rightarrow> s\<lparr>adm := a, opened := ip # opened s, admitted := (admitted s)(ip := admitted s ip + 1)\<rparr>
       | (False, a) \<Rightarrow> s\<lparr>adm := a, refused_total := (refused_total s)(ip := refused_total s ip + 1)\<rparr>)
   | Leave ip \<Rightarrow> (if ip \<in> set (opened s) then s\<lparr>adm := release ip (adm s), opened := remove1 ip (opened s)\<rparr> else s)
   | Report now \<Rightarrow> (case take_refused now (adm s) of
         (rs, a) \<Rightarrow> s\<lparr>adm := a, reported := (\<lambda>ip. reported s ip + report_of ip rs)\<rparr>))"

definition start_run :: "nat \<Rightarrow> nat \<Rightarrow> run_state" where
  "start_run most each = \<lparr>adm = \<lparr>max_total = most, max_per_address = each, active = 0, addresses = []\<rparr>,
     opened = [], admitted = (\<lambda>_. 0), refused_total = (\<lambda>_. 0), reported = (\<lambda>_. 0)\<rparr>"

definition active_of :: "admission \<Rightarrow> string \<Rightarrow> nat" where
  "active_of a ip = (case map_of (addresses a) ip of None \<Rightarrow> 0 | Some s \<Rightarrow> as_active s)"

definition refused_of :: "admission \<Rightarrow> string \<Rightarrow> nat" where
  "refused_of a ip = (case map_of (addresses a) ip of None \<Rightarrow> 0 | Some s \<Rightarrow> as_refused s)"

definition run_inv :: "run_state \<Rightarrow> bool" where
  "run_inv s \<longleftrightarrow> bt_sorted (addresses (adm s)) \<and>
     active (adm s) = length (opened s) \<and> active (adm s) \<le> max_total (adm s) \<and>
     (\<forall>ip. active_of (adm s) ip = count_list (opened s) ip \<and>
        count_list (opened s) ip \<le> max_per_address (adm s) \<and>
        reported s ip + refused_of (adm s) ip = refused_total s ip)"

lemma admit_cases:
  obtains (refused) s r where "admit now ip a = (False, a\<lparr>addresses := bt_put ip s (addresses a)\<rparr>)"
      "as_active s = active_of a ip" "as_refused s = refused_of a ip + 1"
      "s = refill now (case map_of (addresses a) ip of Some s \<Rightarrow> s | None \<Rightarrow> new_address now)
         \<lparr>as_refused := refused_of a ip + 1, reason := r\<rparr>"
  | (accepted) s s0 where "admit now ip a = (True, a\<lparr>active := active a + 1, addresses := bt_put ip s (addresses a)\<rparr>)"
      "active a < max_total a" "active_of a ip < max_per_address a"
      "as_active s = active_of a ip + 1" "as_refused s = refused_of a ip" "1 \<le> tokens s0"
      "s0 = refill now (case map_of (addresses a) ip of Some s \<Rightarrow> s | None \<Rightarrow> new_address now)"
      "s = s0\<lparr>tokens := tokens s0 - 1, as_active := as_active s0 + 1\<rparr>"
proof -
  let ?s = "refill now (case map_of (addresses a) ip of Some s \<Rightarrow> s | None \<Rightarrow> new_address now)"
  have s: "as_active ?s = active_of a ip" "as_refused ?s = refused_of a ip"
    by (auto simp: refill_def active_of_def refused_of_def new_address_def split: option.splits)
  show thesis
  proof (cases "max_total a \<le> active a \<or> max_per_address a \<le> as_active ?s \<or> tokens ?s < 1")
    case True
    let ?r = "if max_total a \<le> active a then ''too many connections to this target''
      else if max_per_address a \<le> as_active ?s then ''too many connections from this address''
      else ''too many new connections per second from this address''"
    from True have "admit now ip a =
        (False, a\<lparr>addresses := bt_put ip (?s\<lparr>as_refused := refused_of a ip + 1, reason := ?r\<rparr>) (addresses a)\<rparr>)"
      by (auto simp: admit_def Let_def s(2))
    with s show thesis by (intro refused [of _ ?r]) simp_all
  next
    case False
    then have "admit now ip a = (True, a\<lparr>active := active a + 1,
        addresses := bt_put ip (?s\<lparr>tokens := tokens ?s - 1, as_active := as_active ?s + 1\<rparr>) (addresses a)\<rparr>)"
      by (simp add: admit_def Let_def)
    with False s show thesis by (intro accepted) simp_all
  qed
qed

lemma report_of_addresses:
  "distinct (map fst m) \<Longrightarrow>
     report_of ip (map (\<lambda>(ip, s). (ip, as_refused s, reason s)) (filter (\<lambda>(ip, s). 0 < as_refused s) m)) =
       (case map_of m ip of None \<Rightarrow> 0 | Some s \<Rightarrow> as_refused s)"
proof (induction m)
  case (Cons x m)
  obtain k s where x: "x = (k, s)" by (cases x)
  show ?case
  proof (cases "k = ip")
    case True
    with Cons.prems x have "map_of m ip = None" by (auto simp: map_of_eq_None_iff)
    with Cons x True show ?thesis by (simp add: report_of_def)
  next
    case False
    with Cons x show ?thesis by (simp add: report_of_def)
  qed
qed (simp add: report_of_def)

lemma map_of_reset: "map_of (map (\<lambda>(ip, s). (ip, s\<lparr>as_refused := 0\<rparr>)) m) ip =
    map_option (\<lambda>s. s\<lparr>as_refused := 0\<rparr>) (map_of m ip)"
  by (induction m) auto

lemma fst_reset [simp]: "map fst (map (\<lambda>(ip, s). (ip, s\<lparr>as_refused := 0\<rparr>)) m) = map fst m"
  by (induction m) auto

lemma take_refused_addresses:
  assumes "bt_sorted (addresses a)"
  shows "map_of (addresses (snd (take_refused now a))) ip = (case map_of (addresses a) ip of
     None \<Rightarrow> None
   | Some s \<Rightarrow> if 0 < as_active s \<or> max 0 (now - as_last s) < secs 60 then Some (s\<lparr>as_refused := 0\<rparr>) else None)"
    and "bt_sorted (addresses (snd (take_refused now a)))"
proof -
  let ?m = "map (\<lambda>(ip, s). (ip, s\<lparr>as_refused := 0\<rparr>)) (addresses a)"
  have sorted: "bt_sorted ?m" using assms unfolding bt_sorted_def fst_reset .
  show "bt_sorted (addresses (snd (take_refused now a)))"
    using sorted by (simp add: take_refused_def)
  show "map_of (addresses (snd (take_refused now a))) ip = (case map_of (addresses a) ip of
     None \<Rightarrow> None
   | Some s \<Rightarrow> if 0 < as_active s \<or> max 0 (now - as_last s) < secs 60 then Some (s\<lparr>as_refused := 0\<rparr>) else None)"
    using map_of_bt_retain [OF bt_sorted_distinct [OF sorted]]
    by (simp add: take_refused_def map_of_reset split: option.splits)
qed

lemma run_step_inv: "run_inv s \<Longrightarrow> run_inv (run_step s op)"
proof -
  assume inv: "run_inv s"
  then have sorted: "bt_sorted (addresses (adm s))" by (simp add: run_inv_def)
  show ?thesis
  proof (cases op)
    case (Arrive now ip)
    show ?thesis
    proof (cases rule: admit_cases [of now ip "adm s"])
      case (refused s' r)
      with inv show ?thesis
        by (auto simp: Arrive run_step_def run_inv_def active_of_def refused_of_def)
    next
      case (accepted s' s0)
      from inv have "active_of (adm s) ip < max_per_address (adm s) \<Longrightarrow>
          count_list (opened s) ip + 1 \<le> max_per_address (adm s)" by (simp add: run_inv_def)
      with accepted inv show ?thesis
        by (auto simp: Arrive run_step_def run_inv_def active_of_def refused_of_def)
    qed
  next
    case (Leave ip)
    have count: "count_list (remove1 ip xs) k = (if k = ip then count_list xs k - 1 else count_list xs k)"
      for xs and k :: string by (induction xs) (auto simp: count_list_0_iff)
    have "active_of (release ip (adm s)) k = (if k = ip then active_of (adm s) k - 1 else active_of (adm s) k)"
      "refused_of (release ip (adm s)) k = refused_of (adm s) k" for k
      by (auto simp: release_def active_of_def refused_of_def split: option.splits)
    with inv show ?thesis
      by (auto simp: Leave run_step_def run_inv_def release_def count length_remove1 le_diff_conv intro: le_SucI)
  next
    case (Report now)
    obtain rs a where tr: "take_refused now (adm s) = (rs, a)" by fastforce
    note facts = take_refused_addresses [OF sorted, of now, unfolded tr snd_conv]
    have "active_of a k = active_of (adm s) k" "refused_of a k = 0" for k
      by (auto simp: active_of_def refused_of_def facts(1) split: option.splits)
    moreover have "report_of k rs = refused_of (adm s) k" for k
      using report_of_addresses [OF bt_sorted_distinct [OF sorted], of k] tr
      by (auto simp: take_refused_def refused_of_def)
    moreover have "active a = active (adm s)" "max_total a = max_total (adm s)"
      "max_per_address a = max_per_address (adm s)" using tr by (auto simp: take_refused_def)
    ultimately show ?thesis using inv facts(2) tr by (simp add: Report run_step_def run_inv_def)
  qed
qed

interpretation admission: stepper run_step run_inv
  by unfold_locales (rule run_step_inv)

lemma start_run_inv: "run_inv (start_run most each)"
  by (simp add: run_inv_def start_run_def active_of_def refused_of_def)

lemma limits_fixed:
  "max_total (adm (foldl run_step s ops)) = max_total (adm s) \<and>
   max_per_address (adm (foldl run_step s ops)) = max_per_address (adm s)"
proof (induction ops rule: rev_induct)
  case (snoc op ops)
  have "max_total (adm (run_step s' op)) = max_total (adm s') \<and>
      max_per_address (adm (run_step s' op)) = max_per_address (adm s')" for s'
    by (cases op) (auto simp: run_step_def admit_def release_def take_refused_def Let_def split: prod.splits)
  with snoc show ?case by simp
qed simp

text \<open>Through any sequence of connections, ends and reports: never more connections are open than
  the target's limit, nor from one address than the limit per address, and every refusal is reported
  or still to be, also when idle addresses are forgotten.\<close>

theorem connection_limits_hold:
  "let s = foldl run_step (start_run most each) ops in
     length (opened s) \<le> most \<and> count_list (opened s) ip \<le> each \<and>
     reported s ip + refused_of (adm s) ip = refused_total s ip"
  using admission.run_inv [OF start_run_inv, of most each ops] limits_fixed [of "start_run most each" ops]
  by (simp add: run_inv_def start_run_def Let_def)

section \<open>The rate\<close>

text \<open>What an address may still open at \<open>now\<close>: an unknown address has a full bucket.\<close>

definition budget :: "time \<Rightarrow> string \<Rightarrow> admission \<Rightarrow> rat" where
  "budget now ip a = (case map_of (addresses a) ip of
     None \<Rightarrow> 2 * CONNECTION_RATE
   | Some s \<Rightarrow> min (tokens s + elapsed_secs now (as_last s) * CONNECTION_RATE) (2 * CONNECTION_RATE))"

text \<open>Addresses were last seen before now and their buckets are not negative.\<close>

definition past :: "time \<Rightarrow> admission \<Rightarrow> bool" where
  "past now a \<longleftrightarrow> bt_sorted (addresses a) \<and>
     (\<forall>ip s. map_of (addresses a) ip = Some s \<longrightarrow> as_last s \<le> now \<and> 0 \<le> tokens s)"

fun op_time :: "admission_op \<Rightarrow> time option" where
  "op_time (Arrive now ip) = Some now" | "op_time (Leave ip) = None" | "op_time (Report now) = Some now"

text \<open>The times of a run do not decrease, and end at \<open>stop\<close>.\<close>

fun in_order :: "time \<Rightarrow> admission_op list \<Rightarrow> time \<Rightarrow> bool" where
  "in_order t [] stop \<longleftrightarrow> t \<le> stop"
| "in_order t (op # ops) stop \<longleftrightarrow>
     (case op_time op of None \<Rightarrow> in_order t ops stop | Some now \<Rightarrow> t \<le> now \<and> in_order now ops stop)"

lemma budget_later:
  assumes "past t a" and "t \<le> now"
  shows "budget now ip a \<le> budget t ip a + elapsed_secs now t * CONNECTION_RATE"
proof (cases "map_of (addresses a) ip")
  case (Some s)
  with assms(1) have "as_last s \<le> t" by (simp add: past_def)
  with assms(2) have "elapsed_secs now (as_last s) = elapsed_secs t (as_last s) + elapsed_secs now t"
    by (simp add: elapsed_secs_def add_divide_distrib [symmetric] flip: of_int_add)
  moreover have "0 \<le> elapsed_secs now t" by (simp add: elapsed_secs_def)
  ultimately show ?thesis using Some by (simp add: budget_def CONNECTION_RATE_def min_def)
qed (use assms in \<open>simp add: budget_def elapsed_secs_def CONNECTION_RATE_def\<close>)

lemma past_later: "past t a \<Longrightarrow> t \<le> now \<Longrightarrow> past now a"
  by (force simp: past_def)

lemma elapsed_add: "a \<le> b \<Longrightarrow> b \<le> c \<Longrightarrow> elapsed_secs c a = elapsed_secs c b + elapsed_secs b a"
  by (simp add: elapsed_secs_def add_divide_distrib [symmetric] flip: of_int_add)

lemma tokens_refill:
  "past now a \<Longrightarrow> map_of (addresses a) ip = None \<or> True \<Longrightarrow>
     tokens (refill now (case map_of (addresses a) ip of Some s \<Rightarrow> s | None \<Rightarrow> new_address now)) = budget now ip a"
  by (auto simp: refill_def budget_def new_address_def elapsed_secs_def split: option.splits)

lemma refill_last: "as_last (refill now s) = now"
  by (simp add: refill_def)

lemma elapsed_same [simp]: "elapsed_secs t t = 0"
  by (simp add: elapsed_secs_def)

lemma budget_bounds: "past now a \<Longrightarrow> 0 \<le> budget now ip a \<and> budget now ip a \<le> 2 * CONNECTION_RATE"
  by (auto simp: budget_def past_def CONNECTION_RATE_def elapsed_secs_def split: option.splits)

lemma budget_put:
  fixes k
  assumes "as_last s = now" and "tokens s \<le> 2 * CONNECTION_RATE"
  shows "budget now k (a\<lparr>active := n, addresses := bt_put ip s (addresses a)\<rparr>) = (if k = ip then tokens s else budget now k a)"
  using assms by (simp add: budget_def)

lemma past_put:
  assumes "past now a" and "as_last s = now" and "0 \<le> tokens s"
  shows "past now (a\<lparr>active := n, addresses := bt_put ip s (addresses a)\<rparr>)"
  using assms by (auto simp: past_def)

text \<open>One operation: the budget plus what was admitted does not grow.\<close>

lemma run_step_budget:
  assumes "past now (adm s)" and "case op_time op of None \<Rightarrow> True | Some t \<Rightarrow> t = now"
  shows "past now (adm (run_step s op)) \<and>
    budget now ip (adm (run_step s op)) + of_nat (admitted (run_step s op) ip) \<le>
    budget now ip (adm s) + of_nat (admitted s ip)"
proof (cases op)
  case (Arrive t k)
  with assms(2) have t: "t = now" by simp
  let ?s0 = "refill now (case map_of (addresses (adm s)) k of Some s \<Rightarrow> s | None \<Rightarrow> new_address now)"
  have s0: "tokens ?s0 = budget now k (adm s)" "as_last ?s0 = now"
    using tokens_refill [OF assms(1)] refill_last by auto
  note bounds = budget_bounds [OF assms(1), of k]
  show ?thesis
  proof (cases rule: admit_cases [of now k "adm s"])
    case (refused s' r)
    have "tokens s' = budget now k (adm s)" "as_last s' = now" using refused(4) s0 by simp_all
    with bounds past_put [OF assms(1), where s = s' and n = "active (adm s)" and ip = k]
      budget_put [where s = s' and now = now and k = ip and a = "adm s" and n = "active (adm s)" and ip = k] refused(1)
    show ?thesis by (simp add: Arrive t run_step_def)
  next
    case (accepted s' s0)
    have s': "tokens s' = budget now k (adm s) - 1" "as_last s' = now" "0 \<le> tokens s'"
      using accepted(6-8) s0 by simp_all
    with bounds past_put [OF assms(1), where s = s' and n = "active (adm s) + 1" and ip = k]
      budget_put [where s = s' and now = now and k = ip and a = "adm s" and n = "active (adm s) + 1" and ip = k] accepted(1)
    show ?thesis by (simp add: Arrive t run_step_def)
  qed
next
  case (Leave k)
  have "past now (release k (adm s)) \<and> budget now ip (release k (adm s)) = budget now ip (adm s)"
    using assms(1) by (auto simp: past_def budget_def release_def split: option.splits if_splits)
  then show ?thesis using assms(1) by (simp add: Leave run_step_def)
next
  case (Report t)
  with assms(2) have t: "t = now" by simp
  from assms(1) have sorted: "bt_sorted (addresses (adm s))" by (simp add: past_def)
  note facts = take_refused_addresses [OF sorted, of now]
  have full: "2 * CONNECTION_RATE \<le> tokens x + elapsed_secs now (as_last x) * CONNECTION_RATE"
    if "0 \<le> tokens x" "secs 60 \<le> max 0 (now - as_last x)" for x
  proof -
    have "(of_int (secs 60) :: rat) \<le> of_int (max 0 (now - as_last x))"
      using that(2) by (simp only: of_int_le_iff)
    then have "60 \<le> elapsed_secs now (as_last x)"
      by (simp add: elapsed_secs_def)
    then show ?thesis using that(1) by (simp add: CONNECTION_RATE_def)
  qed
  have "past now (snd (take_refused now (adm s)))"
    using assms(1) facts by (auto simp: past_def split: option.splits if_splits)
  moreover have "budget now ip (snd (take_refused now (adm s))) = budget now ip (adm s)"
  proof (cases "map_of (addresses (adm s)) ip")
    case (Some x)
    with assms(1) have "0 \<le> tokens x" by (simp add: past_def)
    with full [of x] Some show ?thesis by (auto simp: budget_def facts(1) not_less)
  qed (simp add: budget_def facts(1))
  ultimately show ?thesis by (cases "take_refused now (adm s)") (simp add: Report t run_step_def)
qed

lemma run_budget:
  assumes "past t (adm s)" and "in_order t ops stop"
  shows "t \<le> stop \<and> of_nat (admitted (foldl run_step s ops) ip) \<le>
     budget t ip (adm s) + of_nat (admitted s ip) + elapsed_secs stop t * CONNECTION_RATE"
  using assms
proof (induction ops arbitrary: t s)
  case Nil
  then show ?case using budget_bounds [of t "adm s" ip]
    by (simp add: elapsed_secs_def CONNECTION_RATE_def)
next
  case (Cons op ops)
  define now where "now = (case op_time op of None \<Rightarrow> t | Some now \<Rightarrow> now)"
  have now: "t \<le> now" "in_order now ops stop" "case op_time op of None \<Rightarrow> True | Some t \<Rightarrow> t = now"
    using Cons.prems(2) by (auto simp: now_def split: option.splits)
  note past = past_later [OF Cons.prems(1) now(1)]
  note step = run_step_budget [OF past now(3), of ip]
  from Cons.IH [OF conjunct1 [OF step] now(2)] step budget_later [OF Cons.prems(1) now(1), of ip]
    elapsed_add [OF now(1), of stop]
  show ?case using now(1) by (simp add: algebra_simps CONNECTION_RATE_def)
qed

text \<open>From any moment of a run on, an address gets at most ten connections plus five per second
  that passes, however it times its attempts and whether or not it is forgotten in between.\<close>

theorem connection_rate_is_bounded:
  assumes "s = foldl run_step (start_run most each) before" and "past t (adm s)" and "in_order t ops stop"
  shows "of_nat (admitted (foldl run_step s ops) ip) - of_nat (admitted s ip) \<le> 10 + 5 * elapsed_secs stop t"
  using run_budget [OF assms(2,3), of ip] budget_bounds [OF assms(2), of ip]
  by (simp add: CONNECTION_RATE_def)

theorem connection_rate_is_bounded_witness:
  "let s = start_run 50 50 in
   of_nat (admitted (foldl run_step s [Arrive 0 ''a'', Arrive 1 ''a'', Report 2]) ''a'') - of_nat (admitted s ''a'')
     \<le> 10 + 5 * elapsed_secs 2 0"
  using connection_rate_is_bounded [of "start_run 50 50" 50 50 "[]" 0 "[Arrive 0 ''a'', Arrive 1 ''a'', Report 2]" 2 "''a''"]
  by (simp add: past_def start_run_def Let_def)

end
