(* ===== verification/Sessions.thy ===== *)
theory Sessions
  imports Prelude Opcua Endpoints
begin

text \<open>
  The sessions the relay remembers (src/relay/mod.rs, \<open>SessionRegistry\<close>), keyed by authentication
  token, and what a request of a connection carries (src/relay/connection.rs, \<open>Ctx\<close>). A session
  belongs to the connection it was created or last activated on; only that connection's requests
  are recorded under the session's user, and only that connection can end the session.
\<close>

section \<open>The registry\<close>

text \<open>A certificate the library parsed: its bytes, thumbprint and subject.\<close>

record x509 =
  x_der :: string
  x_thumbprint :: string
  x_subject :: string

record session_entry =
  se_client :: client_context
  se_certificate :: "x509 option"
  se_downstream_nonce :: string
  se_upstream_nonce :: string
  se_timeout :: time
  se_last_used :: time
  se_policy :: security_policy
  se_mode :: security_mode
  se_connection :: nat

type_synonym 'n sessions = "'n \<rightharpoonup> session_entry"

text \<open>\<open>insert\<close> forgets what the upstream server has timed out by now: unused for twice the timeout.\<close>

definition reg_expired :: "time \<Rightarrow> session_entry \<Rightarrow> bool" where
  "reg_expired now s \<longleftrightarrow> 2 * se_timeout s \<le> max 0 (now - se_last_used s)"

definition reg_insert :: "time \<Rightarrow> 'n \<Rightarrow> session_entry \<Rightarrow> 'n sessions \<Rightarrow> 'n sessions" where
  "reg_insert now t e m =
     (\<lambda>k. case m k of None \<Rightarrow> None | Some s \<Rightarrow> if reg_expired now s then None else Some s)(t \<mapsto> e)"

definition reg_with :: "time \<Rightarrow> 'n \<Rightarrow> (session_entry \<Rightarrow> 'a \<times> session_entry) \<Rightarrow> 'n sessions \<Rightarrow> 'a option \<times> 'n sessions" where
  "reg_with now t f m = (case m t of
     None \<Rightarrow> (None, m)
   | Some s \<Rightarrow> (case f (s\<lparr>se_last_used := now\<rparr>) of (r, s') \<Rightarrow> (Some r, m(t \<mapsto> s'))))"

definition owned_by :: "'n \<Rightarrow> nat \<Rightarrow> 'n sessions \<Rightarrow> bool" where
  "owned_by t c m = (case m t of None \<Rightarrow> False | Some s \<Rightarrow> se_connection s = c)"

definition client_of :: "time \<Rightarrow> 'n \<Rightarrow> nat \<Rightarrow> 'n sessions \<Rightarrow> client_context option \<times> 'n sessions" where
  "client_of now t c m =
     (case reg_with now t (\<lambda>s. (se_client s, s)) m of
        (r, m') \<Rightarrow> ((if owned_by t c m' then r else None), m'))"

definition remove_owned :: "'n \<Rightarrow> nat \<Rightarrow> 'n sessions \<Rightarrow> session_entry option \<times> 'n sessions" where
  "remove_owned t c m = (case m t of
     None \<Rightarrow> (None, m)
   | Some s \<Rightarrow> if se_connection s \<noteq> c then (None, m) else (Some s, m(t := None)))"

lemma client_of_simps:
  "client_of now t c m = (case m t of
     None \<Rightarrow> (None, m)
   | Some s \<Rightarrow> ((if se_connection s = c then Some (se_client s) else None), m(t \<mapsto> s\<lparr>se_last_used := now\<rparr>)))"
  by (auto simp: client_of_def reg_with_def owned_by_def split: option.splits)

section \<open>The context of a request\<close>

text \<open>\<open>target_config\<close>: what the relay reads of a target's configuration.\<close>

record target_config =
  t_name :: string
  t_endpoint_url :: string
  t_min_security :: min_security

record upstream =
  up_endpoint :: endpoint
  up_certificate :: "x509 option"

definition upstream_policy :: "sec \<Rightarrow> upstream \<Rightarrow> security_policy" where
  "upstream_policy S u = ep_policy S (up_endpoint u)"

record ctx =
  cx_target :: target_config
  cx_gateway :: gateway_identity
  cx_upstream :: upstream
  cx_connection :: nat
  cx_policy :: security_policy
  cx_mode :: security_mode
  cx_certificate :: "x509 option"
  cx_client :: client_context
  cx_endpoints :: "endpoint list"
  cx_hello_url :: string

text \<open>A record of this connection: stamped, with the target and a client.\<close>

definition client_entry :: "string \<Rightarrow> client_context \<Rightarrow> time \<Rightarrow> audit_event \<Rightarrow> audit_entry" where
  "client_entry target c now ev = with_client c (with_target target (new_entry now ev))"

text \<open>The session's client under the address of the connection that asks; else the connection's own.\<close>

definition attributed :: "ctx \<Rightarrow> client_context option \<Rightarrow> client_context" where
  "attributed x c = (case c of
     Some c \<Rightarrow> c\<lparr>remote_addr := remote_addr (cx_client x)\<rparr>
   | None \<Rightarrow> cx_client x)"

section \<open>Waiting for the server\<close>

text \<open>Sending fails with a status and whether the request may have reached the server
  (src/relay/upstream.rs, \<open>SendError\<close>).\<close>

type_synonym send_error = "status \<times> bool"

definition BadServerNotConnected :: status where "BadServerNotConnected = 0x800D0000"
definition BadNotConnected :: status where "BadNotConnected = 0x808A0000"
definition BadInternalError :: status where "BadInternalError = 0x80020000"

text \<open>\<open>Upstream::send\<close>: nothing leaves once the channel is closed; otherwise only the library's
  ``not connected'' proves that the request never left.\<close>

definition upstream_send :: "bool \<Rightarrow> status + 'r \<Rightarrow> send_error + 'r" where
  "upstream_send closed answer =
     (if closed then Inl (BadServerNotConnected, False)
      else (case answer of
          Inl e \<Rightarrow> Inl (e, e \<noteq> BadNotConnected)
        | Inr r \<Rightarrow> Inr r))"

text \<open>The wait in milliseconds for a client's timeout hint.\<close>

definition upstream_timeout :: "u32 \<Rightarrow> nat" where
  "upstream_timeout hint =
     (if hint = 0 then 600000 else min (max (unat hint) 1000) 3600000 + 5000)"

definition fault :: "u32 \<Rightarrow> status \<Rightarrow> response" where
  "fault h s = \<lparr>rs_handle = h, rs_service_result = s, rs_body = ServiceFault\<rparr>"

text \<open>The client times out first, unless it waits for more than an hour.\<close>

lemma client_times_out_first:
  "hint \<noteq> 0 \<Longrightarrow> unat hint \<le> 3600000 \<Longrightarrow> unat hint < upstream_timeout hint"
  by (simp add: upstream_timeout_def)

lemma upstream_timeout_bounds: "6000 \<le> upstream_timeout hint \<and> upstream_timeout hint \<le> 3605000"
  by (simp add: upstream_timeout_def)

end
