(* ===== verification/Relay_Forward.thy ===== *)
theory Relay_Forward
  imports Prelude Ordered_Map Audit_Event Summarise Opcua Audit_Map Sessions
begin

text \<open>
  How a request is forwarded and audited (src/relay/connection.rs, \<open>forward\<close>, \<open>close_session\<close>): the
  plan without the summarised writes, the intent committed first in fail-closed mode, the read queued
  before the change, the change itself, then its outcome. What the request does to the outside is a
  list of effects in their order; what the outside answers is an argument.
\<close>

section \<open>Effects and answers\<close>

datatype 'n effect =
    Committed audit_entry bool            \<comment> \<open>\<open>record_committed\<close>, and whether it was confirmed\<close>
  | Recorded audit_entry                  \<comment> \<open>\<open>record\<close>, result not looked at\<close>
  | SentRead "'n read_value_id list"
  | Sent "'n request" nat                 \<comment> \<open>the client's request, and the wait in ms\<close>

record relay_settings =
  rs_record_old_value :: bool
  rs_fail_closed :: bool

text \<open>
  \<open>an_clock\<close> gives the times the code reads, in order; \<open>an_read\<close> the results of the read sent along,
  if they came; \<open>an_response\<close> the response or the send error; \<open>an_outcome_ok\<close> whether the record of
  the \<open>i\<close>-th outcome is confirmed.
\<close>

record answers =
  an_clock :: "nat \<Rightarrow> time"
  an_intent_ok :: bool
  an_read :: "data_value list option"
  an_response :: "send_error + response"
  an_outcome_ok :: "nat \<Rightarrow> bool"

record 'n relay =
  rl_sessions :: "'n sessions"
  rl_names :: "'n name_cache"
  rl_ignored :: ignored_writes

section \<open>The stages\<close>

text \<open>The client the request is recorded under.\<close>

definition request_client :: "time \<Rightarrow> ctx \<Rightarrow> 'n request \<Rightarrow> 'n relay \<Rightarrow> client_context \<times> 'n relay" where
  "request_client now x r st =
     (case client_of now (rq_token (fst r)) (cx_connection x) (rl_sessions st) of
        (c, m) \<Rightarrow> (attributed x c, st\<lparr>rl_sessions := m\<rparr>))"

text \<open>The plan, split into summarised writes and the rest; an empty rest is no plan. \<open>None\<close>: rendering
  a value panicked.\<close>

definition audit_plan :: "'n ua \<Rightarrow> 'n lookup \<Rightarrow> client_context \<Rightarrow> 'n request
    \<Rightarrow> ('n write_item list option \<times> 'n plan option) option" where
  "audit_plan L l c r = map_option (\<lambda>p0.
     (let (ignored, p1) = (case p0 of
            None \<Rightarrow> (None, None)
          | Some p \<Rightarrow> if lookup_empty l then (None, Some p)
              else (case take_summarised (\<lambda>n. summarise_matches l n c) p of (taken, p') \<Rightarrow> (taken, Some p')))
      in (ignored, (case p1 of None \<Rightarrow> None | Some p \<Rightarrow> if plan_empty p then None else Some p))))
     (make_plan L r)"

text \<open>The outcome of the summarised writes: counted, or recorded if too many nodes are pending.\<close>

definition overflow_event :: "u32 \<Rightarrow> summarised_write \<Rightarrow> audit_event" where
  "overflow_event h w = EvWrite h (sw_node_id w) (sw_display_name w) ''Value'' None None (sw_value w)
     None None None (sw_status w)"

fun count_summarised :: "string \<Rightarrow> client_context \<Rightarrow> u32 \<Rightarrow> (nat \<Rightarrow> time) \<Rightarrow> summarised_write list
    \<Rightarrow> ignored_writes \<Rightarrow> 'n effect list \<times> ignored_writes" where
  "count_summarised target c h clock [] m = ([], m)"
| "count_summarised target c h clock (w # ws) m =
     (case add_ignored (clock 0) (sw_node_id w) (sw_display_name w) (sw_value w) (sw_status w) c m of
        (added, m1) \<Rightarrow>
          (case count_summarised target c h (\<lambda>i. clock (Suc i)) ws m1 of
             (effs, m2) \<Rightarrow>
               ((if added then effs else Recorded (client_entry target c (clock 0) (overflow_event h w)) # effs), m2)))"

definition record_outcomes :: "string \<Rightarrow> client_context \<Rightarrow> bool \<Rightarrow> (nat \<Rightarrow> bool) \<Rightarrow> (nat \<Rightarrow> time) \<Rightarrow> audit_event list
    \<Rightarrow> 'n effect list" where
  "record_outcomes target c fail_closed ok clock events =
     map (\<lambda>(i, ev). let e = client_entry target c (clock i) ev
                    in if fail_closed then Committed e (ok i) else Recorded e) (enumerate 0 events)"

section \<open>Forwarding\<close>

text \<open>
  \<open>forward\<close>. The reply is \<open>None\<close> when the task panicked (its values could not be rendered); the
  effects so far have happened.
\<close>

definition settled :: "u32 \<Rightarrow> send_error + response \<Rightarrow> response \<times> status option" where
  "settled h answer = (case answer of
     Inr r \<Rightarrow> (r, None)
   | Inl (e, maybe_sent) \<Rightarrow> (fault h e, if maybe_sent then Some e else None))"

definition taken_items :: "'n write_item list option \<Rightarrow> 'n write_item list" where
  "taken_items ignored = (case ignored of None \<Rightarrow> [] | Some items \<Rightarrow> items)"

definition outcome_events :: "'n ua \<Rightarrow> response \<Rightarrow> status option \<Rightarrow> 'n plan option \<Rightarrow> audit_event list" where
  "outcome_events L response unknown plan = (case plan of
     None \<Rightarrow> []
   | Some p \<Rightarrow> (case unknown of
       Some e \<Rightarrow> plan_events_unknown L response e p
     | None \<Rightarrow> plan_events L response p))"

definition after_response :: "'n ua \<Rightarrow> relay_settings \<Rightarrow> answers \<Rightarrow> ctx \<Rightarrow> client_context \<Rightarrow> u32
    \<Rightarrow> 'n write_item list option \<Rightarrow> 'n plan option \<Rightarrow> 'n relay \<Rightarrow> response \<times> 'n effect list \<times> 'n relay" where
  "after_response L s a x c h ignored plan st =
     (case settled h (an_response a) of (response, unknown) \<Rightarrow>
     (case count_summarised (t_name (cx_target x)) c h (\<lambda>i. an_clock a (2 + i))
             (summarised_outcomes L response unknown (rl_names st) (taken_items ignored)) (rl_ignored st) of
        (effs, m) \<Rightarrow>
          (response,
           effs @ record_outcomes (t_name (cx_target x)) c (rs_fail_closed s) (an_outcome_ok a) (an_clock a)
                    (outcome_events L response unknown plan),
           st\<lparr>rl_ignored := m\<rparr>)))"

definition send_effects :: "'n pre_read option \<Rightarrow> 'n request \<Rightarrow> 'n effect list" where
  "send_effects pre r = (case pre of None \<Rightarrow> [] | Some p \<Rightarrow> [SentRead (nodes_to_read p)]) @
     [Sent r (upstream_timeout (rq_timeout_hint (fst r)))]"

definition apply_read :: "'n ua \<Rightarrow> answers \<Rightarrow> 'n pre_read option \<Rightarrow> 'n plan option \<times> 'n name_cache
    \<Rightarrow> ('n plan option \<times> 'n name_cache) option" where
  "apply_read L a pre pn = (case pn of (plan, nms) \<Rightarrow> (case (pre, plan, an_read a) of
     (Some pre, Some p, Some results) \<Rightarrow>
       map_option (\<lambda>(p', nms'). (Some p', nms')) (apply_pre_read L pre results (p, nms))
   | _ \<Rightarrow> Some (plan, nms)))"

definition forward :: "'n ua \<Rightarrow> 'n lookup \<Rightarrow> relay_settings \<Rightarrow> answers \<Rightarrow> ctx \<Rightarrow> 'n request \<Rightarrow> 'n relay
    \<Rightarrow> response option \<times> 'n effect list \<times> 'n relay" where
  "forward L l s a x r st0 =
     (case request_client (an_clock a 0) x r st0 of (c, st) \<Rightarrow>
     (case audit_plan L l c r of
        None \<Rightarrow> (None, [], st)
      | Some (ignored, plan0) \<Rightarrow>
        (let h = rq_handle (fst r);
             (plan, pre) = (case plan0 of
                 None \<Rightarrow> (None, None)
               | Some p \<Rightarrow> (case plan_pre_read (rs_record_old_value s) (rl_names st) p of
                              (p', pre) \<Rightarrow> (Some p', pre)));
             intents = (case plan of
                 Some p \<Rightarrow> if rs_fail_closed s
                   then [Committed (client_entry (t_name (cx_target x)) c (an_clock a 1) (plan_intent p)) (an_intent_ok a)]
                   else []
               | None \<Rightarrow> [])
         in if intents \<noteq> [] \<and> \<not> an_intent_ok a
            then (Some (fault h BadInternalError), intents, st)
            else (case apply_read L a pre (plan, rl_names st) of
                None \<Rightarrow> (None, intents @ send_effects pre r, st)
              | Some (plan', nms) \<Rightarrow>
                  (case after_response L s a x c h ignored plan' (st\<lparr>rl_names := nms\<rparr>) of
                     (response, effs, st') \<Rightarrow> (Some response, intents @ send_effects pre r @ effs, st'))))))"

text \<open>Only the connection the session belongs to ends it (\<open>close_session\<close>).\<close>

definition close_session :: "'n ua \<Rightarrow> 'n lookup \<Rightarrow> relay_settings \<Rightarrow> answers \<Rightarrow> ctx \<Rightarrow> 'n request \<Rightarrow> 'n relay
    \<Rightarrow> response option \<times> 'n effect list \<times> 'n relay" where
  "close_session L l s a x r st =
     (case forward L l s a x r st of
        (None, effs, st') \<Rightarrow> (None, effs, st')
      | (Some response, effs, st') \<Rightarrow>
          (case remove_owned (rq_token (fst r)) (cx_connection x) (rl_sessions st') of
             (None, m) \<Rightarrow> (Some response, effs, st')
           | (Some e, m) \<Rightarrow> (Some response,
               effs @ [Recorded (client_entry (t_name (cx_target x)) (attributed x (Some (se_client e)))
                         (an_clock a 1) SessionClosed)],
               st'\<lparr>rl_sessions := m\<rparr>)))"


section \<open>What is sent\<close>

fun is_sent :: "'n effect \<Rightarrow> bool" where
  "is_sent (Sent _ _) = True" | "is_sent _ = False"

fun effect_entry :: "'n effect \<Rightarrow> audit_entry option" where
  "effect_entry (Committed e _) = Some e" | "effect_entry (Recorded e) = Some e" | "effect_entry _ = None"

lemma count_summarised_not_sent:
  "count_summarised t c h clock ws m = (effs, m') \<Longrightarrow> filter is_sent effs = []"
  by (induction t c h clock ws m arbitrary: effs m' rule: count_summarised.induct)
    (auto split: prod.splits if_splits)

lemma record_outcomes_not_sent: "filter is_sent (record_outcomes t c b ok clock evs) = []"
  by (auto simp: record_outcomes_def filter_empty_conv Let_def split: if_splits)

lemma after_response_not_sent: "after_response L s a x c h ignored plan st = (q, effs, st') \<Longrightarrow> filter is_sent effs = []"
  by (auto simp: after_response_def count_summarised_not_sent record_outcomes_not_sent split: prod.splits)

lemma after_response_reply:
  "after_response L s a x c h ignored plan st = (q, effs, st') \<Longrightarrow>
     q = (case an_response a of Inr p \<Rightarrow> p | Inl (e, _) \<Rightarrow> fault h e)"
  by (auto simp: after_response_def settled_def split: prod.splits sum.splits)

lemma send_effects_sent:
  "filter is_sent (send_effects pre r) = [Sent r (upstream_timeout (rq_timeout_hint (fst r)))]"
  by (simp add: send_effects_def split: option.splits)

lemma not_audited_plan: "\<not> is_audited (snd r) \<Longrightarrow> audit_plan L l c r = Some (None, None)"
  by (cases r; cases "snd r") (auto simp: is_audited_def audit_plan_def make_plan_def)

text \<open>A request reaches the server at most once and exactly as the client sent it; it is held
  back only when its intent could not be recorded. The client gets the server's response unchanged,
  or a fault with its own request handle. A request that changes nothing leaves no record.\<close>

theorem requests_pass_unchanged:
  "let (reply, effs, st') = forward L l s a x r st;
       sent = [Sent r (upstream_timeout (rq_timeout_hint (fst r)))];
       answer = (case an_response a of Inr p \<Rightarrow> p | Inl (e, _) \<Rightarrow> fault (rq_handle (fst r)) e)
   in ((filter is_sent effs = sent \<and> reply \<in> {Some answer, None}) \<or>
       (filter is_sent effs = [] \<and> reply \<in> {Some (fault (rq_handle (fst r)) BadInternalError), None})) \<and>
      (is_audited (snd r) \<or> (effs = sent \<and> reply = Some answer))"
proof (cases "is_audited (snd r)")
  case True
  then show ?thesis
    by (auto simp: forward_def Let_def send_effects_sent after_response_not_sent
        dest: after_response_not_sent after_response_reply split: prod.splits option.splits if_splits)
next
  case False
  then show ?thesis
    by (auto simp: forward_def Let_def not_audited_plan apply_read_def after_response_def settled_def
        taken_items_def outcome_events_def summarised_outcomes_def record_outcomes_def send_effects_def
        split: prod.splits option.splits if_splits sum.splits)
qed

section \<open>The intent comes first\<close>

lemma plan_intent_pre_read: "plan_intent (fst (plan_pre_read o_v nms p)) = plan_intent p"
  by (cases p) (auto simp: plan_pre_read_def plan_intent_def service_name_def comp_def)

lemma intent_before_send:
  assumes "forward L l s a x r st = (reply, effs, st')" and "rs_fail_closed s"
    and "request_client (an_clock a 0) x r st = (c, st1)"
    and "audit_plan L l c r = Some (ignored, Some p)"
    and "i < length effs" and "is_sent (effs ! i)"
  shows "\<exists>e. Committed e True \<in> set (take i effs) \<and> e_event e = plan_intent p \<and>
    e_client e = Some c \<and> e_target e = Some (t_name (cx_target x))"
proof -
  obtain p' pre where pp: "plan_pre_read (rs_record_old_value s) (rl_names st1) p = (p', pre)" by fastforce
  let ?e = "client_entry (t_name (cx_target x)) c (an_clock a 1) (plan_intent p')"
  have ok: "an_intent_ok a"
    using assms by (cases "an_intent_ok a") (auto simp: forward_def pp Let_def)
  then have "\<exists>rest. effs = Committed ?e True # rest"
    using assms(1-4) by (auto simp: forward_def pp Let_def split: option.splits prod.splits)
  then obtain rest where effs: "effs = Committed ?e True # rest" by blast
  with assms(6) have "0 < i" by (cases i) auto
  then have "Committed ?e True \<in> set (take i effs)"
    by (cases i) (auto simp: effs)
  moreover have "plan_intent p' = plan_intent p"
    using plan_intent_pre_read [of "rs_record_old_value s" "rl_names st1" p] pp by simp
  ultimately show ?thesis by (intro exI [of _ ?e]) (simp add: client_entry_def)
qed

section \<open>Every write is accounted for\<close>

definition is_write_event :: "audit_event \<Rightarrow> bool" where
  "is_write_event ev = (case ev of EvWrite _ _ _ _ _ _ _ _ _ _ _ \<Rightarrow> True | _ \<Rightarrow> False)"

definition is_write_record :: "'n effect \<Rightarrow> bool" where
  "is_write_record eff = (case effect_entry eff of None \<Rightarrow> False | Some e \<Rightarrow> is_write_event (e_event e))"

definition write_records :: "'n effect list \<Rightarrow> nat" where
  "write_records effs = length (filter is_write_record effs)"

text \<open>The writes counted in the pending summaries.\<close>

definition counted :: "ignored_writes \<Rightarrow> nat" where
  "counted m = bt_sum count m"

lemma write_records_simps [simp]:
  "write_records [] = 0" "write_records (xs @ ys) = write_records xs + write_records ys"
  "write_records (e # xs) = (if is_write_record e then Suc (write_records xs) else write_records xs)"
  by (simp_all add: write_records_def)

lemma is_write_record_simps [simp]:
  "is_write_record (Committed e b) = is_write_event (e_event e)"
  "is_write_record (Recorded e) = is_write_event (e_event e)"
  "\<not> is_write_record (Sent r t)" "\<not> is_write_record (SentRead ns)"
  by (simp_all add: is_write_record_def)

lemma send_effects_records [simp]: "write_records (send_effects pre r) = 0"
  by (simp add: send_effects_def split: option.splits)

lemma client_entry_event [simp]: "e_event (client_entry t c now ev) = ev"
  by (simp add: client_entry_def)

lemma add_ignored_counts:
  assumes "bt_sorted m" and "add_ignored now n v val st c m = (added, m')"
  shows "bt_sorted m'" and "counted m' = counted m + (if added then 1 else 0)"
proof -
  show "bt_sorted m'" using assms by (auto simp: add_ignored_def Let_def split: if_splits)
  show "counted m' = counted m + (if added then 1 else 0)"
  proof (cases "map_of m n = None \<and> MAX_NODES \<le> length m")
    case True
    with assms(2) show ?thesis by (simp add: add_ignored_def)
  next
    case False
    let ?s = "case map_of m n of Some s \<Rightarrow> s | None \<Rightarrow> new_summary now val"
    have "counted m' + (case map_of m n of None \<Rightarrow> 0 | Some w \<Rightarrow> count w) = counted m + (count ?s + 1)"
      using assms False bt_sum_put [OF assms(1), of count n "count_write now v val st c ?s"]
      by (auto simp: add_ignored_def counted_def count_write_def Let_def)
    with assms(2) False show ?thesis
      by (auto simp: add_ignored_def new_summary_def Let_def split: option.splits)
  qed
qed

lemma count_summarised_total:
  fixes effs :: "'n effect list"
  shows "bt_sorted m \<Longrightarrow> count_summarised t c h clock ws m = (effs, m') \<Longrightarrow>
     write_records effs + counted m' = counted m + length ws"
proof (induction t c h clock ws m arbitrary: effs m' rule: count_summarised.induct)
  case (2 t c h clock w ws m)
  obtain added m1 where add: "add_ignored (clock 0) (sw_node_id w) (sw_display_name w) (sw_value w) (sw_status w) c m = (added, m1)"
    by fastforce
  obtain effs1 :: "'n effect list" and m2 where rest: "count_summarised t c h (\<lambda>i. clock (Suc i)) ws m1 = (effs1, m2)" by fastforce
  note facts = add_ignored_counts [OF "2.prems"(1) add]
  have "write_records effs1 + counted m2 = counted m1 + length ws"
    using "2.IH" [OF add [symmetric] facts(1) rest] .
  with "2.prems"(2) add rest facts(2) show ?case
    by (auto simp: overflow_event_def is_write_event_def split: if_splits)
qed simp

text \<open>The writes of a plan, and how many of them there are.\<close>

definition write_plan :: "nat \<Rightarrow> 'n plan \<Rightarrow> bool" where
  "write_plan n p = (case p of PWrite _ items \<Rightarrow> length items = n | _ \<Rightarrow> False)"

lemma write_plan_pre_read: "write_plan n p \<Longrightarrow> write_plan n (fst (plan_pre_read b nms p))"
  by (auto simp: write_plan_def plan_pre_read_def split: plan.splits)

lemma write_plan_apply: "apply_results L trs (p, nms) = Some (p', nms') \<Longrightarrow> write_plan n p \<Longrightarrow> write_plan n p'"
proof (induction trs arbitrary: p nms)
  case (Cons tr trs)
  obtain p1 n1 where step: "apply_result L tr (p, nms) = Some (p1, n1)" "apply_results L trs (p1, n1) = Some (p', nms')"
    using Cons.prems(1) by (cases "apply_result L tr (p, nms)") auto
  obtain h items where p: "p = PWrite h items" "length items = n"
    using Cons.prems(2) by (cases p) (auto simp: write_plan_def)
  have "write_plan n p1"
    using step(1) by (auto simp: p apply_result_def write_plan_def Let_def
        split: prod.splits option.splits read_kind.splits variant.splits)
  with Cons.IH step(2) show ?case by blast
qed simp

lemma write_plan_events:
  assumes "write_plan n p"
  shows "length (events_all L q u p) = n" and "\<forall>ev \<in> set (events_all L q u p). is_write_event ev"
  using assms by (auto simp: write_plan_def events_all_def is_write_event_def Let_def split: plan.splits)

lemma record_outcomes_records:
  "\<forall>ev \<in> set evs. is_write_event ev \<Longrightarrow> write_records (record_outcomes t c b ok clock evs) = length evs"
proof -
  assume evs: "\<forall>ev \<in> set evs. is_write_event ev"
  have "filter is_write_record (record_outcomes t c b ok clock evs) = (record_outcomes t c b ok clock evs :: 'a effect list)"
    using evs by (auto simp: record_outcomes_def filter_id_conv Let_def in_set_enumerate_eq split: if_splits)
  then show ?thesis by (simp add: write_records_def record_outcomes_def)
qed

lemma write_plan_recorded:
  assumes "write_plan n p" and "n \<le> MAX_FAILED_ITEMS \<or> \<not> is_bad L (rs_service_result q) \<or> u \<noteq> None"
  shows "write_records (record_outcomes t c b ok clock (events_with L q u p)) = n"
proof -
  have "events_with L q u p = events_all L q u p"
    using assms write_plan_events(1) [OF assms(1), of L q u] by (auto simp: events_with_def Let_def)
  with write_plan_events [OF assms(1), of L q u] show ?thesis
    by (simp add: record_outcomes_records)
qed

lemma take_summarised_write:
  assumes "take_summarised f (PWrite h items) = (taken, p')"
  shows "\<exists>k. p' = PWrite h k \<and> length k + length (taken_items taken) = length items"
proof -
  let ?P = "\<lambda>w. wi_attribute_id w = attr_value \<and> f (wi_node w)"
  have "p' = PWrite h (filter (\<lambda>w. \<not> ?P w) items)" "taken_items taken = filter ?P items"
    using assms by (auto simp: take_summarised_def taken_items_def comp_def simp del: de_Morgan_conj split: if_splits)
  with sum_length_filter_compl [of ?P items] show ?thesis by simp
qed

lemma audit_plan_writes:
  assumes "audit_plan L l c (q, Write ws) = Some (ignored, plan)"
  shows "length (taken_items ignored) +
     (case plan of None \<Rightarrow> 0 | Some p \<Rightarrow> length ws - length (taken_items ignored)) = length ws"
    and "case plan of None \<Rightarrow> True | Some p \<Rightarrow> write_plan (length ws - length (taken_items ignored)) p"
proof -
  from assms obtain items where those: "those (map (plan_write_item L) (enumerate 0 ws)) = Some items"
    by (cases "those (map (plan_write_item L) (enumerate 0 ws))") (auto simp: audit_plan_def make_plan_def)
  then have items: "make_plan L (q, Write ws) = Some (Some (PWrite (rq_handle q) items))" "length items = length ws"
    using those_length [OF those] by (simp_all add: make_plan_def)
  obtain taken p' where split: "(if lookup_empty l then (None, PWrite (rq_handle q) items)
      else take_summarised (\<lambda>n. summarise_matches l n c) (PWrite (rq_handle q) items)) = (taken, p')" by fastforce
  then obtain k where k: "p' = PWrite (rq_handle q) k"
    "length k + length (taken_items taken) = length items"
    using take_summarised_write [of "\<lambda>n. summarise_matches l n c" "rq_handle q" items taken p']
    by (auto simp: taken_items_def split: if_splits)
  have res: "ignored = taken" "plan = (if k = [] then None else Some p')"
    using assms items(1) split k(1) by (auto simp: audit_plan_def plan_empty_def split: if_splits prod.splits)
  show "length (taken_items ignored) +
     (case plan of None \<Rightarrow> 0 | Some p \<Rightarrow> length ws - length (taken_items ignored)) = length ws"
    using res k(2) items(2) by auto
  show "case plan of None \<Rightarrow> True | Some p \<Rightarrow> write_plan (length ws - length (taken_items ignored)) p"
    using res k items(2) by (auto simp: write_plan_def)
qed

lemma outcome_events_records:
  assumes "case plan of None \<Rightarrow> n = 0 | Some p \<Rightarrow> write_plan n p"
    and "n \<le> MAX_FAILED_ITEMS \<or> \<not> is_bad L (rs_service_result q) \<or> u \<noteq> None"
  shows "write_records (record_outcomes t c b ok clock (outcome_events L q u plan)) = n"
proof (cases plan)
  case None
  with assms(1) show ?thesis by (simp add: outcome_events_def record_outcomes_def)
next
  case (Some p)
  with assms show ?thesis
    by (cases u) (simp_all add: outcome_events_def plan_events_def plan_events_unknown_def write_plan_recorded)
qed

lemma after_response_accounts:
  fixes effs :: "'n effect list"
  assumes resp: "after_response L s a x c h ignored plan st = (q, effs, st')" and "bt_sorted (rl_ignored st)"
    and plan: "case plan of None \<Rightarrow> n = 0 | Some p \<Rightarrow> write_plan n p"
    and few: "n \<le> MAX_FAILED_ITEMS \<or> \<not> is_bad L (rs_service_result q) \<or> (\<exists>e. an_response a = Inl (e, True))"
  shows "write_records effs + counted (rl_ignored st') = counted (rl_ignored st) + length (taken_items ignored) + n"
proof -
  obtain u where q: "settled h (an_response a) = (q, u)"
    using resp by (auto simp: after_response_def split: prod.splits)
  obtain effs1 :: "'n effect list" and m where m: "count_summarised (t_name (cx_target x)) c h (\<lambda>i. an_clock a (2 + i))
      (summarised_outcomes L q u (rl_names st) (taken_items ignored)) (rl_ignored st) = (effs1, m)" by fastforce
  have "n \<le> MAX_FAILED_ITEMS \<or> \<not> is_bad L (rs_service_result q) \<or> u \<noteq> None"
    using few q by (auto simp: settled_def)
  then have events: "write_records (record_outcomes (t_name (cx_target x)) c (rs_fail_closed s) (an_outcome_ok a)
      (an_clock a) (outcome_events L q u plan) :: 'n effect list) = n"
    by (rule outcome_events_records [OF plan])
  have eq: "effs = effs1 @ record_outcomes (t_name (cx_target x)) c (rs_fail_closed s) (an_outcome_ok a)
      (an_clock a) (outcome_events L q u plan)" "rl_ignored st' = m"
    using resp unfolding after_response_def q prod.case m by auto
  have "length (summarised_outcomes L q u (rl_names st) (taken_items ignored)) = length (taken_items ignored)"
    by (simp add: summarised_outcomes_def Let_def)
  with count_summarised_total [OF assms(2) m] events show ?thesis by (simp add: eq)
qed

lemma apply_read_writes:
  assumes "apply_read L a pre (plan, nms) = Some (plan', nms')"
    and "case plan of None \<Rightarrow> n = 0 | Some p \<Rightarrow> write_plan n p"
  shows "case plan' of None \<Rightarrow> n = 0 | Some p \<Rightarrow> write_plan n p"
  using assms by (auto simp: apply_read_def apply_pre_read_def split: option.splits dest: write_plan_apply)

lemma plan_intent_no_write: "\<not> is_write_event (plan_intent p)"
  by (cases p) (auto simp: plan_intent_def is_write_event_def)


section \<open>A concrete request\<close>

definition toy_ctx :: ctx where
  "toy_ctx =
     (let d = \<lparr>ad_application_uri = ''u'', ad_product_uri = [], ad_application_name = ''n'', ad_is_server = True,
              ad_discovery_urls = None\<rparr>
      in \<lparr>cx_target = \<lparr>t_name = ''plc'', t_endpoint_url = ''opc'', t_min_security = MinNone\<rparr>,
        cx_gateway = \<lparr>gw_certificate = [], gw_application_uri = [], gw_application_name = ''g'', gw_server_name = ''g''\<rparr>,
        cx_upstream = \<lparr>up_endpoint = \<lparr>ep_url = [], ep_server = d, ep_certificate = [], ep_mode = ModeNone,
            ep_policy_uri = [], ep_tokens = [], ep_transport = [], ep_level = 0\<rparr>, up_certificate = None\<rparr>,
        cx_connection = 1, cx_policy = PolicyNone, cx_mode = ModeNone, cx_certificate = None,
        cx_client = default_client, cx_endpoints = [], cx_hello_url = []\<rparr>)"

definition toy_answers :: answers where
  "toy_answers = \<lparr>an_clock = (\<lambda>_. 0), an_intent_ok = True, an_read = None,
     an_response = Inr \<lparr>rs_handle = 42, rs_service_result = 0, rs_body = WriteResults (Some [0, 5])\<rparr>,
     an_outcome_ok = (\<lambda>_. True)\<rparr>"

definition toy_relay :: "nat relay" where
  "toy_relay = \<lparr>rl_sessions = Map.empty, rl_names = [(3, ''X''), (4, ''Y'')], rl_ignored = []\<rparr>"

definition toy_lookup :: "nat lookup" where
  "toy_lookup = empty_lookup\<lparr>all := {4}\<rparr>"

definition toy_request :: "nat request" where
  "toy_request = (toy_header, Write [toy_write 3, toy_write 4])"

definition toy_settings :: relay_settings where
  "toy_settings = \<lparr>rs_record_old_value = False, rs_fail_closed = True\<rparr>"

lemma toy_request_client: "request_client t toy_ctx toy_request toy_relay = (default_client, toy_relay)"
  by (simp add: request_client_def client_of_simps toy_relay_def attributed_def toy_ctx_def Let_def)

lemma toy_audit_plan: "audit_plan toy_ua toy_lookup default_client toy_request =
    Some (Some [toy_item 1 4], Some (PWrite 42 [toy_item 0 3]))"
  by (simp add: audit_plan_def toy_request_def toy_plan toy_lookup_def lookup_empty_def empty_lookup_def
      take_summarised_def summarise_matches_def default_client_def attr_value_def plan_empty_def)
    (simp add: toy_item_def)

lemma toy_pre_read: "plan_pre_read False (rl_names toy_relay) (PWrite 42 [toy_item 0 3]) =
    (PWrite 42 [(toy_item 0 3)\<lparr>wi_display_name := Some ''X''\<rparr>], None)"
  by (simp add: plan_pre_read_def toy_relay_def cached_name_def item_reads_def want_name_def pre_of_def toy_item_def)

definition toy_result :: "response option \<times> nat effect list \<times> nat relay" where
  "toy_result = forward toy_ua toy_lookup toy_settings toy_answers toy_ctx toy_request toy_relay"

definition toy_intent :: audit_entry where
  "toy_intent = client_entry ''plc'' default_client 0 (plan_intent (PWrite 42 [toy_item 0 3]))"

lemma toy_result_effects:
  "\<exists>outcome st'. toy_result = (Some \<lparr>rs_handle = 42, rs_service_result = 0, rs_body = WriteResults (Some [0, 5])\<rparr>,
     Committed toy_intent True # Sent toy_request 600000 # outcome, st')"
proof -
  note [simp] = toy_request_client toy_audit_plan toy_pre_read
  have fields: "an_clock toy_answers = (\<lambda>_. 0)" "an_intent_ok toy_answers" "rs_fail_closed toy_settings"
    "\<not> rs_record_old_value toy_settings" "t_name (cx_target toy_ctx) = ''plc''" "rq_handle (fst toy_request) = 42"
    "rq_timeout_hint (fst toy_request) = 0"
    "an_response toy_answers = Inr \<lparr>rs_handle = 42, rs_service_result = 0, rs_body = WriteResults (Some [0, 5])\<rparr>"
    by (simp_all add: toy_answers_def toy_settings_def toy_ctx_def Let_def toy_request_def toy_header_def)
  have intent: "plan_intent (PWrite 42 [(toy_item 0 3)\<lparr>wi_display_name := Some ''X''\<rparr>]) = plan_intent (PWrite 42 [toy_item 0 3])"
    by (simp add: plan_intent_def service_name_def)
  show ?thesis
    by (auto simp: toy_result_def forward_def fields intent apply_read_def after_response_def settled_def
        send_effects_def upstream_timeout_def toy_intent_def Let_def split: prod.splits)
qed


end
