(* ===== verification/Fail_Closed.thy ===== *)
theory Fail_Closed
  imports Relay_Forward Audit_Pipeline
begin

text \<open>
  The relay on top of the audit store: what a forwarded request's effects mean for the trail. The
  relay needs two laws of the place it records to, stated as a locale: a confirmed record is there,
  and nothing that is recorded disappears while the request runs. The store of src/audit/store.rs
  keeps them.
\<close>

section \<open>What the relay needs of the trail\<close>

text \<open>
  \<open>commits s e ok s'\<close>: recording \<open>e\<close> in \<open>s\<close>, answered with \<open>ok\<close>, leads to \<open>s'\<close>; \<open>others s s'\<close>: what
  everybody else records meanwhile; \<open>holds s e\<close>: \<open>e\<close> is in the trail.
\<close>

locale audit_log =
  fixes commits :: "'s \<Rightarrow> audit_entry \<Rightarrow> bool \<Rightarrow> 's \<Rightarrow> bool"
    and others :: "'s \<Rightarrow> 's \<Rightarrow> bool"
    and holds :: "'s \<Rightarrow> audit_entry \<Rightarrow> bool"
  assumes commit_holds: "commits s e True s' \<Longrightarrow> holds s' e"
    and commit_keeps: "commits s e ok s' \<Longrightarrow> holds s x \<Longrightarrow> holds s' x"
    and others_keep: "others s s' \<Longrightarrow> holds s x \<Longrightarrow> holds s' x"

text \<open>The states of the trail while a list of effects happens.\<close>

fun log_run :: "('s \<Rightarrow> audit_entry \<Rightarrow> bool \<Rightarrow> 's \<Rightarrow> bool) \<Rightarrow> ('s \<Rightarrow> 's \<Rightarrow> bool) \<Rightarrow> 'n effect list \<Rightarrow> 's list \<Rightarrow> bool" where
  "log_run commits others [] ss \<longleftrightarrow> length ss = 1"
| "log_run commits others (eff # effs) (s # s' # ss) \<longleftrightarrow>
     (case eff of
        Committed e ok \<Rightarrow> commits s e ok s'
      | _ \<Rightarrow> others s s') \<and> log_run commits others effs (s' # ss)"
| "log_run commits others (eff # effs) _ \<longleftrightarrow> False"

context audit_log begin

lemma run_keeps:
  "log_run commits others effs ss \<Longrightarrow> holds (ss ! 0) x \<Longrightarrow> i \<le> length effs \<Longrightarrow> holds (ss ! i) x"
proof (induction effs arbitrary: ss i)
  case (Cons eff effs)
  then obtain s s' rest where ss: "ss = s # s' # rest" by (cases ss rule: remdups_adj.cases) auto
  with Cons.prems have "holds s' x"
    by (auto intro: commit_keeps others_keep split: effect.splits)
  with Cons ss show ?case by (cases i) auto
qed simp

lemma committed_holds:
  "log_run commits others effs ss \<Longrightarrow> Committed e True \<in> set (take i effs) \<Longrightarrow> i \<le> length effs \<Longrightarrow> holds (ss ! i) e"
proof (induction effs arbitrary: ss i)
  case (Cons eff effs)
  then obtain s s' rest where ss: "ss = s # s' # rest" by (cases ss rule: remdups_adj.cases) auto
  obtain j where i: "i = Suc j" using Cons.prems(2) by (cases i) auto
  show ?case
  proof (cases "eff = Committed e True")
    case True
    with Cons.prems(1) ss have "holds s' e" by (auto intro: commit_holds)
    with run_keeps [of effs "s' # rest" e j] Cons.prems ss i show ?thesis by simp
  next
    case False
    with Cons.prems ss i Cons.IH [of "s' # rest" j] show ?thesis by auto
  qed
qed simp

end

section \<open>The store keeps these laws\<close>

definition store_commits :: "codec \<Rightarrow> store \<Rightarrow> audit_entry \<Rightarrow> bool \<Rightarrow> store \<Rightarrow> bool" where
  "store_commits C s e ok s' \<longleftrightarrow> (\<exists>fails r. append C fails [e] s = (r, s') \<and> (ok \<longrightarrow> is_ok r))"

definition store_others :: "codec \<Rightarrow> store \<Rightarrow> store \<Rightarrow> bool" where
  "store_others C s s' \<longleftrightarrow> (\<exists>fails es r. append C fails es s = (r, s'))"

definition in_trail :: "codec \<Rightarrow> store \<Rightarrow> audit_entry \<Rightarrow> bool" where
  "in_trail C s e \<longleftrightarrow> (\<exists>r \<in> set (audit (conn s)). body r = to_json C e)"

lemma store_others_idle: "store_others C s s"
  unfolding store_others_def by (intro exI [of _ True]) simp

lemma insert_rows_keeps:
  "insert_rows C rows es n h = Inr (rows', ns, m, g) \<Longrightarrow>
     set rows \<subseteq> set rows' \<and> (\<forall>e \<in> set es. \<exists>r \<in> set rows'. body r = to_json C e)"
proof (induction C rows es n h arbitrary: ns m g rule: insert_rows.induct)
  case (2 C rows e es n h)
  let ?row = "make_row (n + 1) (columns C e) (to_json C e) h (record_hash C h (n + 1) (to_json C e))"
  obtain ns' where rest: "insert_rows C (insort_key seq ?row rows) es (n + 1) (record_hash C h (n + 1) (to_json C e)) =
      Inr (rows', ns', m, g)" "n + 1 \<notin> seq ` set rows"
    using "2.prems" by (auto simp: Let_def split: if_splits sum.splits)
  have "body ?row = to_json C e" by (simp add: make_row_def split: prod.splits)
  moreover note "2.IH" [OF refl refl refl rest(2) rest(1)]
  ultimately have "set rows \<subseteq> set rows'" "?row \<in> set rows'" "\<forall>e \<in> set es. \<exists>r \<in> set rows'. body r = to_json C e"
    by (simp_all add: set_insort_key)
  with \<open>body ?row = to_json C e\<close> show ?case by (metis set_ConsD)
qed simp

lemma append_keeps: "append C fails es s = (r, s') \<Longrightarrow> in_trail C s x \<Longrightarrow> in_trail C s' x"
  by (auto simp: append_def insert_entries_def in_trail_def dest!: insert_rows_keeps
      split: if_splits sum.splits prod.splits) blast

lemma append_holds: "append C fails es s = (Inr ns, s') \<Longrightarrow> e \<in> set es \<Longrightarrow> in_trail C s' e"
  by (auto simp: append_def insert_entries_def in_trail_def dest!: insert_rows_keeps
      split: if_splits sum.splits prod.splits)

interpretation trail: audit_log "store_commits C" "store_others C" "in_trail C" for C
proof
  show "store_commits C s e True s' \<Longrightarrow> in_trail C s' e" for s e s'
    by (auto simp: store_commits_def dest: append_holds)
  show "store_commits C s e ok s' \<Longrightarrow> in_trail C s x \<Longrightarrow> in_trail C s' x" for s e ok s' x
    by (auto simp: store_commits_def dest: append_keeps)
  show "store_others C s s' \<Longrightarrow> in_trail C s x \<Longrightarrow> in_trail C s' x" for s s' x
    by (auto simp: store_others_def dest: append_keeps)
qed

section \<open>Fail-closed\<close>

text \<open>C3. In fail-closed mode, at the moment a change goes to the server, the trail already holds the
  record of its intent, with every item that is not summarised, the client and the target, whatever
  others record meanwhile and however the store fails.\<close>

theorem no_change_without_trail:
  assumes "forward L l s a x r st = (reply, effs, st')" and "rs_fail_closed s"
    and "request_client (an_clock a 0) x r st = (c, st1)"
    and "audit_plan L l c r = Some (ignored, Some p)"
    and "i < length effs" and "is_sent (effs ! i)"
    and "log_run (store_commits C) (store_others C) effs ss"
  shows "\<exists>e. in_trail C (ss ! i) e \<and> e_event e = plan_intent p \<and>
    e_client e = Some c \<and> e_target e = Some (t_name (cx_target x))"
  using intent_before_send [OF assms(1-6)] trail.committed_holds [OF assms(7), of _ i] assms(5) by fastforce

text \<open>A write to node 3: the intent is appended to an empty trail, then nothing else is recorded.\<close>

lemma log_run_exists:
  "table_wf s \<Longrightarrow> \<exists>ss. log_run (store_commits C) (store_others C) effs (s # ss)"
proof (induction effs arbitrary: s)
  case (Cons eff effs)
  show ?case
  proof (cases eff)
    case (Committed e ok)
    from append_ok [OF Cons.prems, of C "[e]"] obtain ns s' where s': "append C False [e] s = (Inr ns, s')" "table_wf s'"
      by blast
    from Cons.IH [OF s'(2)] obtain ss where "log_run (store_commits C) (store_others C) effs (s' # ss)" by blast
    moreover have "store_commits C s e ok s'" using s'(1) unfolding store_commits_def by blast
    ultimately show ?thesis using Committed by (intro exI [of _ "s' # ss"]) simp
  next
    case other: (Recorded e)
    from Cons.IH [OF Cons.prems] obtain ss where "log_run (store_commits C) (store_others C) effs (s # ss)" by blast
    with other show ?thesis by (intro exI [of _ "s # ss"]) (auto simp: store_others_idle)
  next
    case other: (SentRead ns)
    from Cons.IH [OF Cons.prems] obtain ss where "log_run (store_commits C) (store_others C) effs (s # ss)" by blast
    with other show ?thesis by (intro exI [of _ "s # ss"]) (auto simp: store_others_idle)
  next
    case other: (Sent r t)
    from Cons.IH [OF Cons.prems] obtain ss where "log_run (store_commits C) (store_others C) effs (s # ss)" by blast
    with other show ?thesis by (intro exI [of _ "s # ss"]) (auto simp: store_others_idle)
  qed
qed simp

theorem no_change_without_trail_witness:
  "\<exists>ss e. log_run (store_commits reference_codec) (store_others reference_codec) (fst (snd toy_result)) (fresh_store # ss) \<and>
     in_trail reference_codec ((fresh_store # ss) ! 1) e \<and> e_event e = plan_intent (PWrite 42 [toy_item 0 3])"
proof -
  have "table_wf fresh_store" by (simp add: table_wf_def fresh_store_def)
  from log_run_exists [OF this] obtain ss where
    ss: "log_run (store_commits reference_codec) (store_others reference_codec) (fst (snd toy_result)) (fresh_store # ss)"
    by blast
  obtain reply effs st' where eq: "forward toy_ua toy_lookup toy_settings toy_answers toy_ctx toy_request toy_relay = (reply, effs, st')"
    by (cases "forward toy_ua toy_lookup toy_settings toy_answers toy_ctx toy_request toy_relay") auto
  have effs: "fst (snd toy_result) = effs" by (simp add: toy_result_def eq)
  from toy_result_effects obtain q outcome st1 where
    "toy_result = (q, Committed toy_intent True # Sent toy_request 600000 # outcome, st1)" by blast
  then have "effs = Committed toy_intent True # Sent toy_request 600000 # outcome"
    unfolding effs [symmetric] by (metis fst_conv snd_conv)
  then have "1 < length effs" "is_sent (effs ! 1)" by simp_all
  with no_change_without_trail [OF eq _ _ _ _ _ ss [unfolded effs], of default_client toy_relay] ss toy_request_client toy_audit_plan
  show ?thesis unfolding effs by (fastforce simp: toy_settings_def)
qed

end
