(* ===== verification/Session_Services.thy ===== *)
theory Session_Services
  imports Sessions Discovery
begin

text \<open>
  The session services of src/relay/connection.rs: \<open>create_session\<close>, \<open>activate_session\<close> with
  \<open>translate_identity\<close>, which the relay answers itself towards the client and repeats towards the
  server. Certificates, signatures and encryption are the opcua library's: the record \<open>crypt\<close>.
  Random nonces, the clock and the server's answers are arguments.
\<close>

section \<open>Requests, answers, effects\<close>

record user_token =
  ut_policy_id :: string
  ut_name :: string
  ut_password :: string
  ut_algorithm :: string

datatype identity_token =
    NullToken | AnonymousToken | UserNameToken user_token | X509Token string | IssuedIdentityToken | OtherToken

datatype upstream_token = UpAnonymous string | UpUserName string string string string
  \<comment> \<open>policy id, name, secret, algorithm\<close>

record crypt =
  parse_cert :: "string \<Rightarrow> x509 option"
  uri_valid :: "x509 \<Rightarrow> string \<Rightarrow> bool"
  verify_sig :: "string \<Rightarrow> security_policy \<Rightarrow> x509 \<Rightarrow> string \<Rightarrow> bool"
    \<comment> \<open>signature, policy, signer, nonce; over the gateway's certificate\<close>
  sign :: "security_policy \<Rightarrow> string \<Rightarrow> string \<Rightarrow> status + string"
    \<comment> \<open>policy, the other side's certificate and nonce; with the gateway's key\<close>
  decrypt :: "user_token \<Rightarrow> string \<Rightarrow> (status + string) option"
    \<comment> \<open>\<open>None\<close>: the library panicked\<close>
  encrypt :: "security_policy \<Rightarrow> security_mode \<Rightarrow> token_policy \<Rightarrow> string \<Rightarrow> x509 option \<Rightarrow> string
    \<Rightarrow> status + string \<times> string"

record create_request =
  cr_handle :: u32
  cr_timeout_hint :: u32
  cr_session_name :: string
  cr_app_uri :: string
  cr_app_name :: string
  cr_certificate :: string
  cr_nonce :: string
  cr_endpoint_url :: string
  cr_session_timeout :: string

record upstream_create =
  uc_client :: application_description
  uc_endpoint_url :: string
  uc_session_name :: string
  uc_nonce :: string
  uc_certificate :: string
  uc_session_timeout :: string

text \<open>A CreateSession response of the server; \<open>sc_revised_ms\<close> is its timeout as whole milliseconds.\<close>

record 'n server_create =
  sc_session_id :: string
  sc_token :: 'n
  sc_revised_ms :: nat
  sc_nonce :: string
  sc_certificate :: string
  sc_endpoints :: "endpoint list"
  sc_signature :: string

record 'n activate_request =
  ar_handle :: u32
  ar_timeout_hint :: u32
  ar_token :: 'n
  ar_signature :: string
  ar_identity :: identity_token
  ar_locales :: "string list"

record 'n upstream_activate =
  ua_token :: 'n
  ua_signature :: string
  ua_identity :: upstream_token
  ua_locales :: "string list"

record 'n create_reply =
  cp_session_id :: string
  cp_token :: 'n
  cp_nonce :: string
  cp_certificate :: string
  cp_endpoints :: "endpoint list"
  cp_signature :: string

datatype 'n session_reply =
    Answer response
  | SessionMade "'n create_reply"
  | SessionActive string response    \<comment> \<open>the gateway's nonce, the rest as the server sent it\<close>

datatype 'n session_effect =
    Noted audit_entry
  | SentCreate upstream_create nat
  | SentActivate "'n upstream_activate" nat

text \<open>What the services share: the registry and the dashboard's list of clients.\<close>

record client_info =
  in_remote_addr :: string
  in_connected_at :: time
  in_policy :: string
  in_mode :: string
  in_application_uri :: "string option"
  in_application_name :: "string option"
  in_user :: "string option"

record 'n shared =
  sh_sessions :: "'n sessions"
  sh_clients :: "nat \<rightharpoonup> client_info"

definition update_info :: "nat \<Rightarrow> (client_info \<Rightarrow> client_info) \<Rightarrow> 'n shared \<Rightarrow> 'n shared" where
  "update_info c f st = (case sh_clients st c of
     None \<Rightarrow> st
   | Some i \<Rightarrow> st\<lparr>sh_clients := (sh_clients st)(c \<mapsto> f i)\<rparr>)"

lemma update_info_sessions [simp]: "sh_sessions (update_info c f st) = sh_sessions st"
  by (simp add: update_info_def split: option.splits)

definition NONCE_LENGTH :: nat where "NONCE_LENGTH = 32"

definition BadIdentityTokenInvalid :: status where "BadIdentityTokenInvalid = 0x80200000"
definition BadIdentityTokenRejected :: status where "BadIdentityTokenRejected = 0x80210000"
definition BadNonceInvalid :: status where "BadNonceInvalid = 0x80240000"
definition BadSessionIdInvalid :: status where "BadSessionIdInvalid = 0x80250000"
definition BadApplicationSignatureInvalid :: status where "BadApplicationSignatureInvalid = 0x80580000"
definition BadSecurityModeInsufficient :: status where "BadSecurityModeInsufficient = 0x80E60000"

fun security_rank :: "security_policy \<Rightarrow> security_mode \<Rightarrow> nat" where
  "security_rank PolicyNone _ = 0"
| "security_rank _ ModeSign = 1"
| "security_rank _ ModeSignAndEncrypt = 2"
| "security_rank _ _ = 0"

definition same_cert :: "x509 option \<Rightarrow> x509 option \<Rightarrow> bool" where
  "same_cert a b = (case (a, b) of
     (Some a, Some b) \<Rightarrow> x_thumbprint a = x_thumbprint b
   | _ \<Rightarrow> False)"

section \<open>CreateSession\<close>

text \<open>The client must present the certificate it opened the channel with.\<close>

definition check_create :: "crypt \<Rightarrow> ctx \<Rightarrow> create_request \<Rightarrow> status option" where
  "check_create K x r =
     (if cx_policy x = PolicyNone then None
      else (case cx_certificate x of
          None \<Rightarrow> Some BadCertificateInvalid
        | Some cert \<Rightarrow>
            if \<not> same_cert (parse_cert K (cr_certificate r)) (Some cert) then Some BadCertificateInvalid
            else if length (cr_nonce r) < NONCE_LENGTH then Some BadNonceInvalid
            else if \<not> uri_valid K cert (cr_app_uri r) then Some BadCertificateUriInvalid
            else None))"

definition session_name :: "create_request \<Rightarrow> string" where
  "session_name r = clip (if cr_session_name r = [] then cr_app_name r else cr_session_name r) MAX_NAME"

definition upstream_create_request :: "ctx \<Rightarrow> create_request \<Rightarrow> string \<Rightarrow> upstream_create" where
  "upstream_create_request x r nonce =
     \<lparr>uc_client = client_description (cx_gateway x), uc_endpoint_url = t_endpoint_url (cx_target x),
      uc_session_name = session_name r @ '' via '' @ gw_application_name (cx_gateway x),
      uc_nonce = nonce, uc_certificate = gw_certificate (cx_gateway x), uc_session_timeout = cr_session_timeout r\<rparr>"

text \<open>The session must come from the trusted server: its certificate and its signature over our nonce.\<close>

definition server_verified :: "sec \<Rightarrow> crypt \<Rightarrow> ctx \<Rightarrow> string \<Rightarrow> 'n server_create \<Rightarrow> bool" where
  "server_verified S K x nonce q =
     (let cert = parse_cert K (sc_certificate q)
      in same_cert (up_certificate (cx_upstream x)) cert \<and>
         (case cert of None \<Rightarrow> False
          | Some c \<Rightarrow> verify_sig K (sc_signature q) (upstream_policy S (cx_upstream x)) c nonce))"

definition check_server :: "sec \<Rightarrow> crypt \<Rightarrow> ctx \<Rightarrow> string \<Rightarrow> 'n server_create \<Rightarrow> (status \<times> string option) option" where
  "check_server S K x nonce q =
     (if upstream_policy S (cx_upstream x) = PolicyNone then None
      else if \<not> server_verified S K x nonce q then Some (BadApplicationSignatureInvalid, None)
      else (case missing_from_discovery S (sc_endpoints q) (cx_endpoints x) (t_min_security (cx_target x)) of
          None \<Rightarrow> None
        | Some missing \<Rightarrow> Some (BadSecurityChecksFailed, Some missing)))"

definition missing_text :: "string \<Rightarrow> string" where
  "missing_text missing = ''BadSecurityChecksFailed: the upstream server offers '' @ missing @
     '', which discovery did not return''"

definition session_client :: "ctx \<Rightarrow> create_request \<Rightarrow> string \<Rightarrow> client_context" where
  "session_client x r sid = (cx_client x)
     \<lparr>application_uri := Some (clip (cr_app_uri r) MAX_TEXT),
      application_name := Some (clip (cr_app_name r) MAX_NAME), session_id := Some sid\<rparr>"

definition new_session :: "time \<Rightarrow> ctx \<Rightarrow> client_context \<Rightarrow> string \<Rightarrow> 'n server_create \<Rightarrow> session_entry" where
  "new_session now x c nonce q =
     \<lparr>se_client = c, se_certificate = cx_certificate x, se_downstream_nonce = nonce,
      se_upstream_nonce = sc_nonce q, se_timeout = int (sc_revised_ms q) * 1000000, se_last_used = now,
      se_policy = cx_policy x, se_mode = cx_mode x, se_connection = cx_connection x\<rparr>"

definition create_url :: "ctx \<Rightarrow> create_request \<Rightarrow> string" where
  "create_url x r = (if cr_endpoint_url r = [] then cx_hello_url x else cr_endpoint_url r)"

definition noted :: "ctx \<Rightarrow> client_context \<Rightarrow> time \<Rightarrow> audit_event \<Rightarrow> 'n session_effect" where
  "noted x c now ev = Noted (client_entry (t_name (cx_target x)) c now ev)"

text \<open>\<open>answer\<close>: the send error, another response, or the server's CreateSession response.\<close>

definition create_session :: "sec \<Rightarrow> crypt \<Rightarrow> ctx \<Rightarrow> create_request \<Rightarrow> string \<Rightarrow> string \<Rightarrow> time
    \<Rightarrow> send_error + (response + 'n server_create) \<Rightarrow> 'n shared
    \<Rightarrow> 'n session_reply \<times> 'n session_effect list \<times> 'n shared" where
  "create_session S K x r client_nonce server_nonce now answer st =
     (let h = cr_handle r;
          sent = [SentCreate (upstream_create_request x r client_nonce) (upstream_timeout (cr_timeout_hint r))];
          signature = (if cx_policy x = PolicyNone then Inr [] else sign K (cx_policy x) (cr_certificate r) (cr_nonce r))
      in case check_create K x r of
           Some s \<Rightarrow> (Answer (fault h s), [], st)
         | None \<Rightarrow> (case answer of
             Inl (e, _) \<Rightarrow> (Answer (fault h e), sent, st)
           | Inr (Inl other) \<Rightarrow> (Answer other, sent, st)
           | Inr (Inr q) \<Rightarrow> (case check_server S K x client_nonce q of
               Some (s, None) \<Rightarrow> (Answer (fault h s), sent, st)
             | Some (s, Some missing) \<Rightarrow>
                 (Answer (fault h s), sent @ [noted x (cx_client x) now (AuthenticationFailed (missing_text missing))], st)
             | None \<Rightarrow> (case signature of
                 Inl e \<Rightarrow> (Answer (fault h e), sent, st)
               | Inr sig \<Rightarrow>
                   (let c = session_client x r (sc_session_id q);
                        st1 = st\<lparr>sh_sessions := reg_insert now (sc_token q) (new_session now x c server_nonce q) (sh_sessions st)\<rparr>;
                        st2 = update_info (cx_connection x) (\<lambda>i. i\<lparr>in_application_uri := application_uri c,
                                in_application_name := application_name c\<rparr>) st1
                    in (SessionMade \<lparr>cp_session_id = sc_session_id q, cp_token = sc_token q, cp_nonce = server_nonce,
                          cp_certificate = gw_certificate (cx_gateway x),
                          cp_endpoints = gateway_endpoints S (cx_endpoints x) (cx_gateway x) (create_url x r),
                          cp_signature = sig\<rparr>,
                        sent @ [noted x c now (SessionCreated (session_name r))], st2))))))"

section \<open>User tokens\<close>

definition decrypt_password :: "crypt \<Rightarrow> user_token \<Rightarrow> string \<Rightarrow> status + string" where
  "decrypt_password K t nonce =
     (if ut_algorithm t = [] then Inr (ut_password t)
      else (case decrypt K t nonce of None \<Rightarrow> Inl BadIdentityTokenInvalid | Some r \<Rightarrow> r))"

definition user_name_policy :: "endpoint \<Rightarrow> user_token \<Rightarrow> token_policy option" where
  "user_name_policy e t = (case find_token_policy e (ut_policy_id t) of
     Some p \<Rightarrow> Some p | None \<Rightarrow> token_policy_of_type e TUserName)"

definition certificate_user :: "crypt \<Rightarrow> string \<Rightarrow> user_identity" where
  "certificate_user K data = (case parse_cert K data of
     Some c \<Rightarrow> Certificate (clip (x_subject c) MAX_TEXT) (x_thumbprint c)
   | None \<Rightarrow> Certificate ''invalid certificate'' [])"

definition translate_user_name :: "sec \<Rightarrow> crypt \<Rightarrow> ctx \<Rightarrow> user_token \<Rightarrow> string \<Rightarrow> string
    \<Rightarrow> (status \<times> user_identity) + (user_identity \<times> upstream_token)" where
  "translate_user_name S K x t downstream_nonce upstream_nonce =
     (let e = up_endpoint (cx_upstream x); who = UserName (clip (ut_name t) MAX_NAME)
      in case decrypt_password K t downstream_nonce of
           Inl s \<Rightarrow> Inl (s, who)
         | Inr password \<Rightarrow> (case user_name_policy e t of
             None \<Rightarrow> Inl (BadIdentityTokenRejected, who)
           | Some p \<Rightarrow> (case encrypt K (ep_policy S e) (ep_mode e) p upstream_nonce (parse_cert K (ep_certificate e)) password of
               Inl s \<Rightarrow> Inl (s, who)
             | Inr (secret, algorithm) \<Rightarrow>
                 Inr (who, UpUserName (tp_policy_id p) (ut_name t) secret algorithm))))"

definition translate_identity :: "sec \<Rightarrow> crypt \<Rightarrow> ctx \<Rightarrow> identity_token \<Rightarrow> string \<Rightarrow> string
    \<Rightarrow> (status \<times> user_identity) + (user_identity \<times> upstream_token)" where
  "translate_identity S K x tok downstream_nonce upstream_nonce =
     (let anonymous = (case token_policy_of_type (up_endpoint (cx_upstream x)) TAnonymous of
            None \<Rightarrow> Inl (BadIdentityTokenRejected, Anonymous)
          | Some p \<Rightarrow> Inr (Anonymous, UpAnonymous (tp_policy_id p)))
      in case tok of
           NullToken \<Rightarrow> anonymous
         | AnonymousToken \<Rightarrow> anonymous
         | UserNameToken t \<Rightarrow> translate_user_name S K x t downstream_nonce upstream_nonce
         | X509Token data \<Rightarrow> Inl (BadIdentityTokenRejected, certificate_user K data)
         | IssuedIdentityToken \<Rightarrow> Inl (BadIdentityTokenRejected, IssuedToken)
         | OtherToken \<Rightarrow> Inl (BadIdentityTokenInvalid, Anonymous))"

section \<open>ActivateSession\<close>

text \<open>What an activation remembers while it waits for the server.\<close>

record 'n pending_activation =
  pa_ctx :: ctx
  pa_handle :: u32
  pa_token :: 'n
  pa_client :: client_context
  pa_user :: user_identity

definition signature_ok :: "crypt \<Rightarrow> ctx \<Rightarrow> session_entry \<Rightarrow> string \<Rightarrow> bool" where
  "signature_ok K x e signature = (case se_certificate e of
     None \<Rightarrow> False
   | Some cert \<Rightarrow> same_cert (Some cert) (cx_certificate x) \<and>
       verify_sig K signature (cx_policy x) cert (se_downstream_nonce e))"

definition insufficient_text :: "(status \<Rightarrow> string) \<Rightarrow> string" where
  "insufficient_text T = T BadSecurityModeInsufficient @ '': session re-activation over a less secure channel''"

text \<open>Everything before the request goes out; \<open>Inl\<close> is the end, with the reply and its record.\<close>

definition activate_checked :: "sec \<Rightarrow> crypt \<Rightarrow> (status \<Rightarrow> string) \<Rightarrow> ctx \<Rightarrow> 'n activate_request \<Rightarrow> time \<Rightarrow> session_entry
    \<Rightarrow> ('n session_reply \<times> 'n session_effect list) + ('n pending_activation \<times> 'n session_effect list)" where
  "activate_checked S K T x r now e =
     (let c = (se_client e)\<lparr>remote_addr := remote_addr (cx_client x)\<rparr>;
          h = ar_handle r;
          fail = (\<lambda>c text s. Inl (Answer (fault h s), [noted x c now (AuthenticationFailed text)]))
      in if security_rank (cx_policy x) (cx_mode x) < security_rank (se_policy e) (se_mode e)
         then fail c (insufficient_text T) BadSecurityModeInsufficient
         else if cx_policy x \<noteq> PolicyNone \<and> \<not> signature_ok K x e (ar_signature r)
         then fail c (T BadApplicationSignatureInvalid) BadApplicationSignatureInvalid
         else (case translate_identity S K x (ar_identity r) (se_downstream_nonce e) (se_upstream_nonce e) of
             Inl (s, who) \<Rightarrow> fail (c\<lparr>user := Some who\<rparr>) (T s) s
           | Inr (who, tok) \<Rightarrow>
               (case (if upstream_policy S (cx_upstream x) = PolicyNone then Inr []
                      else sign K (upstream_policy S (cx_upstream x)) (ep_certificate (up_endpoint (cx_upstream x)))
                             (se_upstream_nonce e)) of
                  Inl s \<Rightarrow> Inl (Answer (fault h s), [])
                | Inr sig \<Rightarrow>
                    Inr (\<lparr>pa_ctx = x, pa_handle = h, pa_token = ar_token r, pa_client = c\<lparr>user := Some who\<rparr>, pa_user = who\<rparr>,
                      [SentActivate \<lparr>ua_token = ar_token r, ua_signature = sig, ua_identity = tok, ua_locales = ar_locales r\<rparr>
                         (upstream_timeout (ar_timeout_hint r))]))))"

definition activate_begin :: "sec \<Rightarrow> crypt \<Rightarrow> (status \<Rightarrow> string) \<Rightarrow> ctx \<Rightarrow> 'n activate_request \<Rightarrow> time \<Rightarrow> 'n shared
    \<Rightarrow> (('n session_reply \<times> 'n session_effect list) + ('n pending_activation \<times> 'n session_effect list)) \<times> 'n shared" where
  "activate_begin S K T x r now st =
     (case reg_with now (ar_token r) (\<lambda>s. (s, s)) (sh_sessions st) of
        (None, m) \<Rightarrow> (Inl (Answer (fault (ar_handle r) BadSessionIdInvalid), []), st)
      | (Some e, m) \<Rightarrow> (activate_checked S K T x r now e, st\<lparr>sh_sessions := m\<rparr>))"

text \<open>
  After the answer. \<open>activated\<close> is a response of the ActivateSession type with the server's new nonce;
  it counts when its service result is good.
\<close>

datatype activate_answer = NoAnswer send_error | Activated response string | OtherActivate response

definition activate_end :: "(status \<Rightarrow> bool) \<Rightarrow> (status \<Rightarrow> string) \<Rightarrow> 'n pending_activation \<Rightarrow> string \<Rightarrow> time
    \<Rightarrow> activate_answer \<Rightarrow> 'n shared \<Rightarrow> 'n session_reply \<times> 'n session_effect list \<times> 'n shared" where
  "activate_end good T p server_nonce now answer st =
     (let x = pa_ctx p; c = pa_client p;
          refuse = (\<lambda>q. (Answer q, [noted x c now (AuthenticationFailed (T (rs_service_result q)))], st))
      in case answer of
           NoAnswer (e, _) \<Rightarrow> (Answer (fault (pa_handle p) e), [], st)
         | OtherActivate q \<Rightarrow> refuse q
         | Activated q nonce \<Rightarrow>
             if \<not> good (rs_service_result q) then refuse q
             else (let f = (\<lambda>s. s\<lparr>se_downstream_nonce := server_nonce, se_upstream_nonce := nonce, se_client := c,
                              se_connection := cx_connection x\<rparr>);
                       st1 = st\<lparr>sh_sessions := snd (reg_with now (pa_token p) (\<lambda>s. ((), f s)) (sh_sessions st))\<rparr>;
                       st2 = update_info (cx_connection x) (\<lambda>i. i\<lparr>in_user := Some (label (pa_user p)),
                               in_application_uri := application_uri c, in_application_name := application_name c\<rparr>) st1
                   in (SessionActive server_nonce q, [noted x c now SessionActivated], st2)))"

text \<open>The service as a whole, when nothing else of the connection happens while it waits.\<close>

definition activate_session :: "sec \<Rightarrow> crypt \<Rightarrow> (status \<Rightarrow> bool) \<Rightarrow> (status \<Rightarrow> string) \<Rightarrow> ctx \<Rightarrow> 'n activate_request
    \<Rightarrow> string \<Rightarrow> time \<Rightarrow> time \<Rightarrow> activate_answer \<Rightarrow> 'n shared \<Rightarrow> 'n session_reply \<times> 'n session_effect list \<times> 'n shared" where
  "activate_session S K good T x r server_nonce now later answer st =
     (case activate_begin S K T x r now st of
        (Inl (reply, effs), st1) \<Rightarrow> (reply, effs, st1)
      | (Inr (p, effs), st1) \<Rightarrow> (case activate_end good T p server_nonce later answer st1 of
           (reply, effs', st2) \<Rightarrow> (reply, effs @ effs', st2)))"

end
