(* ===== verification/Attribution.thy ===== *)
theory Attribution
  imports Relay_Forward Session_Services
begin

text \<open>
  Whose name a record carries. The session services of all connections of a target, interleaved in
  any order with each other and with forwarded requests, keep the registry in step with what really
  happened: who logged in last on a session, over which connection.
\<close>

section \<open>What an activation proves\<close>

lemma activate_checked_sent:
  assumes "activate_checked S K T x r now e = Inr (p, effs)"
  shows "security_rank (se_policy e) (se_mode e) \<le> security_rank (cx_policy x) (cx_mode x) \<and>
    (cx_policy x = PolicyNone \<or> signature_ok K x e (ar_signature r)) \<and>
    (\<exists>tok. translate_identity S K x (ar_identity r) (se_downstream_nonce e) (se_upstream_nonce e) = Inr (pa_user p, tok)) \<and>
    pa_ctx p = x \<and> pa_token p = ar_token r \<and> user (pa_client p) = Some (pa_user p)"
  using assms by (auto simp: activate_checked_def Let_def not_less split: if_splits sum.splits prod.splits)

lemma signature_ok_touched [simp]: "signature_ok K x (e\<lparr>se_last_used := now\<rparr>) s = signature_ok K x e s"
  by (simp add: signature_ok_def split: option.splits)

lemma translate_identity_kinds:
  "translate_identity S K x tok dn un = Inr (who, up) \<Longrightarrow>
     (tok \<in> {NullToken, AnonymousToken} \<and> who = Anonymous) \<or>
     (\<exists>t. tok = UserNameToken t \<and> who = UserName (clip (ut_name t) MAX_NAME))"
  by (auto simp: translate_identity_def translate_user_name_def Let_def
      split: identity_token.splits option.splits sum.splits prod.splits)

lemma rank_none: "security_rank PolicyNone m = 0"
  by simp

text \<open>C13. The server is asked to log a user into a session only when the session is known, the
  channel is at least as secure as the one it was created on, and, if either is secured, the client
  proved with the certificate of the session, over the nonce it was given last, that it holds the
  key. The user asked for is anonymous or the one named in the token: identities that cannot be
  relayed never reach the server.\<close>

theorem activation_needs_proof:
  assumes "activate_begin S K T x r now st = (Inr (p, effs), st')"
  shows "\<exists>e. sh_sessions st (ar_token r) = Some e \<and>
    security_rank (se_policy e) (se_mode e) \<le> security_rank (cx_policy x) (cx_mode x) \<and>
    (cx_policy x = PolicyNone \<and> security_rank (se_policy e) (se_mode e) = 0 \<or>
     (\<exists>cert. se_certificate e = Some cert \<and> same_cert (Some cert) (cx_certificate x) \<and>
        verify_sig K (ar_signature r) (cx_policy x) cert (se_downstream_nonce e))) \<and>
    (ar_identity r \<in> {NullToken, AnonymousToken} \<and> pa_user p = Anonymous \<or>
     (\<exists>t. ar_identity r = UserNameToken t \<and> pa_user p = UserName (clip (ut_name t) MAX_NAME)))"
proof -
  obtain e where e: "sh_sessions st (ar_token r) = Some e"
    "activate_checked S K T x r now (e\<lparr>se_last_used := now\<rparr>) = Inr (p, effs)"
    using assms by (auto simp: activate_begin_def reg_with_def split: option.splits)
  note sent = activate_checked_sent [OF e(2)]
  then obtain tok where "translate_identity S K x (ar_identity r) (se_downstream_nonce e) (se_upstream_nonce e) =
      Inr (pa_user p, tok)" by auto
  note kinds = translate_identity_kinds [OF this]
  have "cx_policy x = PolicyNone \<and> security_rank (se_policy e) (se_mode e) = 0 \<or>
      signature_ok K x e (ar_signature r)"
    using sent by auto
  then show ?thesis
    using e(1) sent kinds by (intro exI [of _ e]) (auto simp: signature_ok_def split: option.splits)
qed

section \<open>Runs of the session services\<close>

datatype 'n session_op =
    OpCreate ctx create_request string string time "send_error + (response + 'n server_create)"
  | OpActivate ctx "'n activate_request" time
  | OpAnswer nat string time activate_answer   \<comment> \<open>to the \<open>i\<close>-th activation that waits\<close>
  | OpForward ctx "'n request" time
  | OpClose ctx "'n request"

text \<open>Beside the registry: the activations that wait, and, latest first, the sessions the server made
  and the logins it confirmed, with the connection and the user.\<close>

record 'n session_run =
  sr_shared :: "'n shared"
  sr_waiting :: "'n pending_activation list"
  sr_history :: "('n \<times> nat \<times> user_identity option) list"

definition start_sessions :: "'n session_run" where
  "start_sessions = \<lparr>sr_shared = \<lparr>sh_sessions = Map.empty, sh_clients = Map.empty\<rparr>, sr_waiting = [], sr_history = []\<rparr>"

definition made_session :: "ctx \<Rightarrow> send_error + (response + 'n server_create) \<Rightarrow> 'n session_reply
    \<Rightarrow> ('n \<times> nat \<times> user_identity option) list" where
  "made_session x answer reply = (case (reply, answer) of
     (SessionMade _, Inr (Inr q)) \<Rightarrow> [(sc_token q, cx_connection x, user (cx_client x))]
   | _ \<Rightarrow> [])"

definition drop_nth :: "nat \<Rightarrow> 'a list \<Rightarrow> 'a list" where
  "drop_nth i xs = take i xs @ drop (Suc i) xs"

definition session_step :: "sec \<Rightarrow> crypt \<Rightarrow> (status \<Rightarrow> bool) \<Rightarrow> (status \<Rightarrow> string) \<Rightarrow> 'n session_run \<Rightarrow> 'n session_op
    \<Rightarrow> 'n session_run" where
  "session_step S K good T s op = (case op of
     OpCreate x r cn sn now answer \<Rightarrow>
       (case create_session S K x r cn sn now answer (sr_shared s) of
          (reply, effs, st) \<Rightarrow> s\<lparr>sr_shared := st, sr_history := made_session x answer reply @ sr_history s\<rparr>)
   | OpActivate x r now \<Rightarrow>
       (case activate_begin S K T x r now (sr_shared s) of
          (Inl _, st) \<Rightarrow> s\<lparr>sr_shared := st\<rparr>
        | (Inr (p, effs), st) \<Rightarrow> s\<lparr>sr_shared := st, sr_waiting := sr_waiting s @ [p]\<rparr>)
   | OpAnswer i nonce now answer \<Rightarrow>
       (if i < length (sr_waiting s)
        then (case activate_end good T (sr_waiting s ! i) nonce now answer (sr_shared s) of
            (reply, effs, st) \<Rightarrow> s\<lparr>sr_shared := st, sr_waiting := drop_nth i (sr_waiting s),
               sr_history := (case reply of
                   SessionActive _ _ \<Rightarrow> [(pa_token (sr_waiting s ! i), cx_connection (pa_ctx (sr_waiting s ! i)),
                                        Some (pa_user (sr_waiting s ! i)))]
                 | _ \<Rightarrow> []) @ sr_history s\<rparr>)
        else s)
   | OpForward x r now \<Rightarrow> s\<lparr>sr_shared := (sr_shared s)\<lparr>sh_sessions :=
       snd (client_of now (rq_token (fst r)) (cx_connection x) (sh_sessions (sr_shared s)))\<rparr>\<rparr>
   | OpClose x r \<Rightarrow> s\<lparr>sr_shared := (sr_shared s)\<lparr>sh_sessions :=
       snd (remove_owned (rq_token (fst r)) (cx_connection x) (sh_sessions (sr_shared s)))\<rparr>\<rparr>)"

definition last_login :: "'n \<Rightarrow> ('n \<times> nat \<times> user_identity option) list \<Rightarrow> (nat \<times> user_identity option) option" where
  "last_login t h = map_of h t"

definition session_inv :: "'n session_run \<Rightarrow> bool" where
  "session_inv s \<longleftrightarrow>
     (\<forall>t e. sh_sessions (sr_shared s) t = Some e \<longrightarrow>
        last_login t (sr_history s) = Some (se_connection e, user (se_client e))) \<and>
     (\<forall>p \<in> set (sr_waiting s). user (pa_client p) = Some (pa_user p))"

lemma set_drop_nth: "set (drop_nth i xs) \<subseteq> set xs"
  unfolding drop_nth_def using set_take_subset [of i xs] set_drop_subset [of "Suc i" xs] by auto

lemma registry_create:
  assumes "create_session S K x r cn sn now answer st = (reply, effs, st')"
  shows "(sh_sessions st' = sh_sessions st \<and> made_session x answer reply = []) \<or>
    (\<exists>q. sh_sessions st' = reg_insert now (sc_token q)
         (new_session now x (session_client x r (sc_session_id q)) sn q) (sh_sessions st) \<and>
       made_session x answer reply = [(sc_token q, cx_connection x, user (cx_client x))])"
  using assms by (auto simp: create_session_def made_session_def Let_def
      split: option.splits sum.splits prod.splits if_splits intro!: exI)

lemma registry_end:
  assumes "activate_end good T p nonce now answer st = (reply, effs, st')"
  shows "(sh_sessions st' = sh_sessions st \<and> (\<forall>n q. reply \<noteq> SessionActive n q)) \<or>
    ((\<exists>n q. reply = SessionActive n q) \<and> (\<forall>t e'. sh_sessions st' t = Some e' \<longrightarrow>
       (if t = pa_token p then se_connection e' = cx_connection (pa_ctx p) \<and> se_client e' = pa_client p
        else sh_sessions st t = Some e')))"
  using assms by (auto simp: activate_end_def reg_with_def Let_def split: activate_answer.splits if_splits option.splits)

lemma session_step_inv: "session_inv s \<Longrightarrow> session_inv (session_step S K good T s op)"
proof -
  assume inv: "session_inv s"
  show ?thesis
  proof (cases op)
    case (OpCreate x r cn sn now answer)
    obtain reply effs st where res: "create_session S K x r cn sn now answer (sr_shared s) = (reply, effs, st)"
      by (cases "create_session S K x r cn sn now answer (sr_shared s)") auto
    from registry_create [OF res] show ?thesis
    proof (elim disjE exE conjE)
      fix q
      assume new: "sh_sessions st = reg_insert now (sc_token q)
          (new_session now x (session_client x r (sc_session_id q)) sn q) (sh_sessions (sr_shared s))"
        "made_session x answer reply = [(sc_token q, cx_connection x, user (cx_client x))]"
      with inv show ?thesis
        by (auto simp: OpCreate session_step_def res session_inv_def last_login_def new reg_insert_def
            new_session_def session_client_def
            split: option.splits if_splits)
    qed (use inv in \<open>simp add: OpCreate session_step_def res session_inv_def\<close>)
  next
    case (OpActivate x r now)
    show ?thesis
      using inv by (auto simp: OpActivate session_step_def session_inv_def activate_begin_def reg_with_def
          split: option.splits sum.splits dest: activate_checked_sent)
  next
    case (OpAnswer i nonce now answer)
    show ?thesis
    proof (cases "i < length (sr_waiting s)")
      case True
      let ?p = "sr_waiting s ! i"
      obtain reply effs st where res: "activate_end good T ?p nonce now answer (sr_shared s) = (reply, effs, st)"
        by (cases "activate_end good T ?p nonce now answer (sr_shared s)") auto
      have p: "user (pa_client ?p) = Some (pa_user ?p)" using inv True by (simp add: session_inv_def)
      have waiting: "\<forall>p \<in> set (drop_nth i (sr_waiting s)). user (pa_client p) = Some (pa_user p)"
        using inv set_drop_nth [of i "sr_waiting s"] by (auto simp: session_inv_def)
      from registry_end [OF res] inv p waiting True show ?thesis
        by (auto simp: OpAnswer session_step_def res session_inv_def last_login_def
            split: session_reply.splits if_splits) blast
    qed (use inv in \<open>simp add: OpAnswer session_step_def\<close>)
  next
    case (OpForward x r now)
    with inv show ?thesis
      by (auto simp: session_step_def session_inv_def client_of_simps split: option.splits if_splits)
  next
    case (OpClose x r)
    with inv show ?thesis
      by (auto simp: session_step_def session_inv_def remove_owned_def split: option.splits if_splits)
  qed
qed

interpretation sessions: stepper "session_step S K good T" session_inv for S K good T
  by unfold_locales (rule session_step_inv)

lemma start_sessions_inv: "session_inv start_sessions"
  by (simp add: session_inv_def start_sessions_def)

text \<open>C9. However the services of all connections interleave, a request is recorded under a user only
  if the last login the server confirmed for its session was of this user and over the connection
  the request came in on. A borrowed token, or a session moved to another connection, gives no name.\<close>

theorem records_name_the_last_login:
  assumes "s = foldl (session_step S K good T) start_sessions ops" and "user (cx_client x) = None"
    and "rl_sessions st = sh_sessions (sr_shared s)"
    and "user (fst (request_client now x r st)) = Some u"
  shows "last_login (rq_token (fst r)) (sr_history s) = Some (cx_connection x, Some u)"
proof -
  have inv: "session_inv s"
    using sessions.run_inv [OF start_sessions_inv] assms(1) by simp
  from assms(2,3,4) obtain e where "sh_sessions (sr_shared s) (rq_token (fst r)) = Some e"
    "se_connection e = cx_connection x" "user (se_client e) = Some u"
    by (auto simp: request_client_def client_of_simps attributed_def split: option.splits if_splits)
  with inv show ?thesis by (auto simp: session_inv_def)
qed

section \<open>Concrete sessions\<close>

definition toy_crypt :: crypt where
  "toy_crypt = \<lparr>parse_cert = (\<lambda>d. Some \<lparr>x_der = d, x_thumbprint = d, x_subject = d\<rparr>), uri_valid = (\<lambda>c u. True),
     verify_sig = (\<lambda>s p c n. s = n), sign = (\<lambda>p c n. Inr n), decrypt = (\<lambda>t n. Some (Inr (ut_password t))),
     encrypt = (\<lambda>p m tp n c pw. Inr (pw, []))\<rparr>"

definition open_sec :: sec where
  "open_sec = \<lparr>from_uri = (\<lambda>u. PolicyNone), supported = (\<lambda>p. True), policy_str = (\<lambda>p. ''None''), thumbprint = (\<lambda>c. None)\<rparr>"

definition login_ctx :: ctx where
  "login_ctx = toy_ctx\<lparr>cx_upstream := (cx_upstream toy_ctx)\<lparr>up_endpoint := (up_endpoint (cx_upstream toy_ctx))
     \<lparr>ep_tokens := [\<lparr>tp_policy_id = ''a'', tp_token_type = TAnonymous, tp_policy_uri = []\<rparr>]\<rparr>\<rparr>,
     cx_policy := Policy ''p'', cx_mode := ModeSign, cx_certificate := Some \<lparr>x_der = ''c'', x_thumbprint = ''c'', x_subject = ''c''\<rparr>\<rparr>"

definition toy_activate :: "nat activate_request" where
  "toy_activate = \<lparr>ar_handle = 8, ar_timeout_hint = 0, ar_token = 0, ar_signature = ''n1'', ar_identity = NullToken, ar_locales = []\<rparr>"

definition toy_entry :: session_entry where
  "toy_entry = \<lparr>se_client = default_client, se_certificate = cx_certificate login_ctx, se_downstream_nonce = ''n1'',
     se_upstream_nonce = ''u1'', se_timeout = 100, se_last_used = 0, se_policy = Policy ''p'', se_mode = ModeSign, se_connection = 1\<rparr>"

definition toy_shared :: "nat shared" where
  "toy_shared = \<lparr>sh_sessions = [0 \<mapsto> toy_entry], sh_clients = Map.empty\<rparr>"

lemma toy_activation:
  "\<exists>p effs st'. activate_begin open_sec toy_crypt (\<lambda>s. ''Bad'') login_ctx toy_activate 5 toy_shared = (Inr (p, effs), st')"
  by (simp add: activate_begin_def reg_with_def toy_shared_def toy_entry_def toy_activate_def login_ctx_def toy_ctx_def
      activate_checked_def signature_ok_def same_cert_def toy_crypt_def translate_identity_def token_policy_of_type_def
      upstream_policy_def ep_policy_def open_sec_def Let_def)

theorem activation_needs_proof_witness:
  "\<exists>p e. sh_sessions toy_shared 0 = Some e \<and>
    security_rank (se_policy e) (se_mode e) \<le> security_rank (cx_policy login_ctx) (cx_mode login_ctx) \<and>
    (ar_identity toy_activate \<in> {NullToken, AnonymousToken} \<and> pa_user (p :: nat pending_activation) = Anonymous \<or>
     (\<exists>t. ar_identity toy_activate = UserNameToken t \<and> pa_user p = UserName (clip (ut_name t) MAX_NAME)))"
proof -
  obtain p effs st' where
    "activate_begin open_sec toy_crypt (\<lambda>s. ''Bad'') login_ctx toy_activate 5 toy_shared = (Inr (p, effs), st')"
    using toy_activation by blast
  from activation_needs_proof [OF this] show ?thesis by (auto simp: toy_activate_def)
qed

text \<open>A session is created, activated and confirmed on connection 1; then a write comes in there.\<close>

definition toy_create :: create_request where
  "toy_create = \<lparr>cr_handle = 7, cr_timeout_hint = 0, cr_session_name = ''s'', cr_app_uri = ''a'', cr_app_name = ''n'',
     cr_certificate = ''c'', cr_nonce = replicate 32 CHR ''n'', cr_endpoint_url = [], cr_session_timeout = []\<rparr>"

definition toy_made :: "nat server_create" where
  "toy_made = \<lparr>sc_session_id = ''i'', sc_token = 0, sc_revised_ms = 1000, sc_nonce = ''u1'', sc_certificate = ''c'',
     sc_endpoints = [], sc_signature = ''n''\<rparr>"

definition toy_ops :: "nat session_op list" where
  "toy_ops = [OpCreate login_ctx toy_create ''n'' ''n1'' 1 (Inr (Inr toy_made)), OpActivate login_ctx toy_activate 2,
     OpAnswer 0 ''n2'' 3 (Activated \<lparr>rs_handle = 8, rs_service_result = 0, rs_body = OtherResponse []\<rparr> ''u2'')]"

definition toy_run :: "nat session_run" where
  "toy_run = foldl (session_step open_sec toy_crypt (\<lambda>s. s = 0) (\<lambda>s. ''Bad'')) start_sessions toy_ops"

lemma login_ctx_simps [simp]:
  "cx_policy login_ctx = Policy ''p''" "cx_mode login_ctx = ModeSign" "cx_connection login_ctx = 1"
  "cx_certificate login_ctx = Some \<lparr>x_der = ''c'', x_thumbprint = ''c'', x_subject = ''c''\<rparr>"
  "cx_client login_ctx = default_client" "user default_client = None" "remote_addr default_client = []"
  "upstream_policy open_sec (cx_upstream login_ctx) = PolicyNone"
  "token_policy_of_type (up_endpoint (cx_upstream login_ctx)) TAnonymous =
     Some \<lparr>tp_policy_id = ''a'', tp_token_type = TAnonymous, tp_policy_uri = []\<rparr>"
  by (simp_all add: login_ctx_def toy_ctx_def default_client_def upstream_policy_def ep_policy_def open_sec_def
      token_policy_of_type_def Let_def)

lemma toy_run_entry:
  "\<exists>e. sh_sessions (sr_shared toy_run) 0 = Some e \<and> se_connection e = 1 \<and> user (se_client e) = Some Anonymous"
  by (simp add: toy_run_def toy_ops_def session_step_def create_session_def check_create_def check_server_def
      toy_create_def toy_made_def toy_activate_def start_sessions_def Let_def same_cert_def toy_crypt_def
      NONCE_LENGTH_def reg_insert_def new_session_def session_client_def activate_begin_def reg_with_def
      activate_checked_def signature_ok_def translate_identity_def activate_end_def)

theorem records_name_the_last_login_witness:
  "last_login 0 (sr_history toy_run) = Some (1, Some Anonymous)"
proof -
  obtain e where e: "sh_sessions (sr_shared toy_run) 0 = Some e" "se_connection e = 1" "user (se_client e) = Some Anonymous"
    using toy_run_entry by blast
  let ?st = "toy_relay\<lparr>rl_sessions := sh_sessions (sr_shared toy_run)\<rparr>"
  have "user (fst (request_client 9 login_ctx toy_request ?st)) = Some Anonymous"
    using e by (simp add: request_client_def client_of_simps attributed_def toy_request_def toy_header_def)
  from records_name_the_last_login [of toy_run open_sec toy_crypt "\<lambda>s. s = 0" "\<lambda>s. ''Bad''" toy_ops login_ctx ?st 9 toy_request,
      OF toy_run_def _ _ this]
  show ?thesis by (simp add: toy_request_def toy_header_def)
qed

end
