(* ===== verification/Transport.thy ===== *)
theory Transport
  imports Prelude Opcua Sessions
begin

text \<open>
  The transport towards a client (src/relay/transport.rs): the limits of the Hello, frames refused by
  their header, chunks collected into requests within the limits, and renewals of the channel bound
  to the policy and certificate it was issued with. Bytes are decoded and secured by the opcua
  library: the record \<open>chunking\<close>, over its channel state \<open>'c\<close> and requests \<open>'m\<close>.
\<close>

section \<open>Limits and the Hello\<close>

record limits =
  send_buffer_size :: nat
  receive_buffer_size :: nat
  max_message_size :: nat
  max_chunk_count :: nat
  max_request_size :: nat
  max_request_chunks :: nat
  hello_timeout :: time

definition default_limits :: limits where
  "default_limits = \<lparr>send_buffer_size = 65535, receive_buffer_size = 65535, max_message_size = 64 * 1024 * 1024,
     max_chunk_count = 4096, max_request_size = 8 * 1024 * 1024, max_request_chunks = 1024, hello_timeout = secs 10\<rparr>"

definition MAX_HELLO_SIZE :: nat where "MAX_HELLO_SIZE = 8192"
definition MAX_OPEN_SIZE :: nat where "MAX_OPEN_SIZE = 64 * 1024"

definition BadUnexpectedMessage :: status where "BadUnexpectedMessage = 0x80010000"
definition BadTimeout :: status where "BadTimeout = 0x800A0000"
definition BadCommunicationError :: status where "BadCommunicationError = 0x80050000"
definition BadDecodingError :: status where "BadDecodingError = 0x80070000"
definition BadConnectionClosed :: status where "BadConnectionClosed = 0x80AE0000"
definition BadSecureChannelIdInvalid :: status where "BadSecureChannelIdInvalid = 0x80220000"
definition BadSecurityFailed :: status where "BadSecurityFailed = 0x80130000"
definition BadProtocolVersionUnsupported :: status where "BadProtocolVersionUnsupported = 0x80BE0000"

text \<open>\<open>LimitedCodec::decode\<close> over the library's codec: a frame is refused once its header has come.\<close>

definition frame_size :: "string \<Rightarrow> nat" where
  "frame_size buf = of_char (buf ! 4) + 256 * of_char (buf ! 5) + 65536 * of_char (buf ! 6) + 16777216 * of_char (buf ! 7)"

definition decode_frame :: "(string \<Rightarrow> 'e + 'f option) \<Rightarrow> 'e \<Rightarrow> nat \<Rightarrow> string \<Rightarrow> 'e + 'f option" where
  "decode_frame inner refused max_frame buf =
     (if 8 \<le> length buf \<and> max_frame < frame_size buf then Inl refused else inner buf)"

definition min_zero_infinite :: "u32 \<Rightarrow> u32 \<Rightarrow> u32" where
  "min_zero_infinite ours theirs = (if ours = 0 then theirs else if theirs = 0 then ours else min ours theirs)"

record hello =
  he_version :: u32
  he_receive_buffer :: u32
  he_send_buffer :: u32
  he_max_message :: u32
  he_max_chunks :: u32
  he_url :: string

record acknowledge =
  ak_receive_buffer :: u32
  ak_send_buffer :: u32
  ak_max_message :: u32
  ak_max_chunks :: u32

text \<open>What arrives first: a Hello with its buffer sizes valid or not, something else, nothing usable,
  or nothing in time.\<close>

datatype first_frame = FirstHello bool hello | FirstOther | FirstBroken | FirstTimeout

text \<open>What waits to be sent: a fatal error, or a response to a request.\<close>

datatype 'r outgoing = OutError status string | OutFault u32 u32 status | OutResponse u32 'r

record 'r downstream =
  pending_chunks :: "string list"
  pending_bytes :: nat
  ds_max_chunks :: nat
  ds_max_size :: nat
  max_frame :: nat
  send_max_message :: u32
  send_max_chunks :: u32
  sequence :: "u32 option"
  closing :: bool
  ds_binding :: "(string \<times> string) option"    \<comment> \<open>policy uri, certificate\<close>
  ds_url :: string
  protocol_version :: u32
  outbox :: "'r outgoing list"

definition acknowledge :: "limits \<Rightarrow> hello \<Rightarrow> acknowledge" where
  "acknowledge l h = \<lparr>ak_receive_buffer = min (of_nat (receive_buffer_size l)) (he_send_buffer h),
     ak_send_buffer = min (of_nat (send_buffer_size l)) (he_receive_buffer h),
     ak_max_message = of_nat (max_request_size l), ak_max_chunks = of_nat (max_request_chunks l)\<rparr>"

definition accept_hello :: "limits \<Rightarrow> first_frame \<Rightarrow> (status \<times> string option) + (acknowledge \<times> 'r downstream)" where
  "accept_hello l first = (case first of
     FirstOther \<Rightarrow> Inl (BadCommunicationError, Some ''expected Hello'')
   | FirstBroken \<Rightarrow> Inl (BadCommunicationError, None)
   | FirstTimeout \<Rightarrow> Inl (BadTimeout, Some ''timeout waiting for Hello'')
   | FirstHello valid h \<Rightarrow>
       (if \<not> valid then Inl (BadCommunicationError, Some ''invalid Hello buffer sizes'')
        else if 0 < he_version h then Inl (BadProtocolVersionUnsupported, Some ''protocol version unsupported'')
        else (let ack = acknowledge l h in
          Inr (ack, \<lparr>pending_chunks = [], pending_bytes = 0, ds_max_chunks = max_request_chunks l,
                ds_max_size = max_request_size l, max_frame = unat (ak_receive_buffer ack),
                send_max_message = min_zero_infinite (of_nat (max_message_size l)) (he_max_message h),
                send_max_chunks = min_zero_infinite (of_nat (max_chunk_count l)) (he_max_chunks h),
                sequence = None, closing = False, ds_binding = None, ds_url = he_url h,
                protocol_version = he_version h, outbox = []\<rparr>))))"

section \<open>Chunks into requests\<close>

text \<open>An error of the library: a status, and the request it belongs to when that is known.\<close>

type_synonym terr = "status \<times> (u32 \<times> u32) option"

datatype final = Intermediate | Final | FinalError

type_synonym asymmetric = "string \<times> string"   \<comment> \<open>policy uri, sender certificate\<close>

record ('c, 'm) chunking =
  tk_header :: "string \<Rightarrow> terr + (bool \<times> final)"            \<comment> \<open>OpenSecureChannel?\<close>
  tk_security_header :: "string \<Rightarrow> terr + asymmetric option"
  tk_verify :: "'c \<Rightarrow> string \<Rightarrow> (terr + string) \<times> 'c"
  tk_info :: "'c \<Rightarrow> string \<Rightarrow> terr + (u32 \<times> u32 \<times> asymmetric option)"  \<comment> \<open>sequence number, request id\<close>
  tk_next :: "u32 option \<Rightarrow> u32 \<Rightarrow> terr + u32 option"
  tk_validate :: "'c \<Rightarrow> string list \<Rightarrow> terr option"
  tk_decode :: "'c \<Rightarrow> string list \<Rightarrow> status \<times> u32 option + 'm"  \<comment> \<open>on failure, the request handle if known\<close>

datatype frame = Chunk string | OtherFrame

text \<open>A renewal must keep the issued channel's policy and certificate.\<close>

definition check_renewal :: "('c, 'm) chunking \<Rightarrow> string \<Rightarrow> asymmetric \<Rightarrow> terr option" where
  "check_renewal K chunk b = (case tk_security_header K chunk of
     Inl e \<Rightarrow> Some e
   | Inr None \<Rightarrow> Some (BadSecurityFailed, None)
   | Inr (Some h) \<Rightarrow> if fst h \<noteq> fst b \<or> snd h \<noteq> snd b then Some (BadSecurityFailed, None) else None)"

text \<open>What \<open>process\<close> refuses before the chunk's security is looked at.\<close>

definition refused_early :: "('c, 'm) chunking \<Rightarrow> bool \<Rightarrow> string \<Rightarrow> 'r downstream \<Rightarrow> terr option" where
  "refused_early K opens chunk d =
     (case ds_binding d of
        None \<Rightarrow> if opens then None else Some (BadSecureChannelIdInvalid, None)
      | Some b \<Rightarrow> if opens then check_renewal K chunk b else None)"

definition clear_pending :: "'r downstream \<Rightarrow> 'r downstream" where
  "clear_pending d = d\<lparr>pending_chunks := [], pending_bytes := 0\<rparr>"

definition size_limit :: "'r downstream \<Rightarrow> nat" where
  "size_limit d = (if ds_binding d = None then MAX_OPEN_SIZE else ds_max_size d)"

definition decode_request :: "('c, 'm) chunking \<Rightarrow> 'c \<Rightarrow> 'r downstream \<Rightarrow> terr + ('m \<times> u32 \<times> asymmetric option)" where
  "decode_request K c d = (case tk_info K c (hd (pending_chunks d)) of
     Inl e \<Rightarrow> Inl e
   | Inr (_, request_id, header) \<Rightarrow> (case tk_validate K c (pending_chunks d) of
       Some e \<Rightarrow> Inl e
     | None \<Rightarrow> (case tk_decode K c (pending_chunks d) of
         Inl (s, handle) \<Rightarrow> Inl (s, map_option (\<lambda>h. (request_id, h)) handle)
       | Inr m \<Rightarrow> Inr (m, request_id, header))))"

text \<open>A chunk whose security held: counted, then kept, then decoded if it is the last of its request.\<close>

definition take_chunk :: "('c, 'm) chunking \<Rightarrow> final \<Rightarrow> string \<Rightarrow> 'c \<Rightarrow> 'r downstream
    \<Rightarrow> (terr + ('m \<times> u32 \<times> asymmetric option) option) \<times> 'r downstream" where
  "take_chunk K fin data c d =
     (if ds_max_chunks d \<le> length (pending_chunks d) then (Inl (BadDecodingError, None), d)
      else (let d1 = d\<lparr>pending_bytes := pending_bytes d + length data\<rparr> in
        if size_limit d1 < pending_bytes d1 then (Inl (BadDecodingError, None), d1)
        else (case tk_info K c data of
            Inl e \<Rightarrow> (Inl e, d1)
          | Inr (number, _) \<Rightarrow> (case tk_next K (sequence d1) number of
              Inl e \<Rightarrow> (Inl e, d1)
            | Inr n \<Rightarrow> (let d2 = d1\<lparr>sequence := n, pending_chunks := pending_chunks d1 @ [data]\<rparr> in
                if fin = Intermediate then (Inr None, d2)
                else (map_sum id Some (decode_request K c d2), d2))))))"

definition process :: "('c, 'm) chunking \<Rightarrow> frame \<Rightarrow> 'c \<Rightarrow> 'r downstream
    \<Rightarrow> (terr + ('m \<times> u32 \<times> asymmetric option) option) \<times> 'c \<times> 'r downstream" where
  "process K f c d = (case f of
     OtherFrame \<Rightarrow> (Inl (BadUnexpectedMessage, None), c, d)
   | Chunk chunk \<Rightarrow> (case tk_header K chunk of
       Inl e \<Rightarrow> (Inl e, c, d)
     | Inr (opens, fin) \<Rightarrow> (case refused_early K opens chunk d of
         Some e \<Rightarrow> (Inl e, c, d)
       | None \<Rightarrow>
           (if fin = FinalError then (Inr None, c, clear_pending d)
            else (case tk_verify K c chunk of
                (Inl e, c1) \<Rightarrow> (Inl e, c1, d)
              | (Inr data, c1) \<Rightarrow> (case take_chunk K fin data c1 d of (r, d1) \<Rightarrow> (r, c1, d1)))))))"

datatype 'm poll_result =
    PSent
  | PChunk
  | PRequest 'm u32 "asymmetric option"
  | PRecoverable status u32 u32
  | PError status
  | PClosed

datatype incoming = EndOfStream | ReadError | Arrived frame

definition handle_incoming :: "('c, 'm) chunking \<Rightarrow> incoming \<Rightarrow> 'c \<Rightarrow> 'r downstream \<Rightarrow> 'm poll_result \<times> 'c \<times> 'r downstream" where
  "handle_incoming K i c d = (case i of
     EndOfStream \<Rightarrow> (PClosed, c, d)
   | ReadError \<Rightarrow> (PError BadConnectionClosed, c, d)
   | Arrived f \<Rightarrow> (case process K f c d of
       (Inr None, c1, d1) \<Rightarrow> (PChunk, c1, d1)
     | (Inr (Some (m, i, h)), c1, d1) \<Rightarrow> (PRequest m i h, c1, clear_pending d1)
     | (Inl (s, Some (i, h)), c1, d1) \<Rightarrow> (PRecoverable s i h, c1, clear_pending d1)
     | (Inl (s, None), c1, d1) \<Rightarrow> (PError s, c1, clear_pending d1)))"

section \<open>Sending\<close>

definition enqueue_error :: "status \<Rightarrow> string \<Rightarrow> 'r downstream \<Rightarrow> 'r downstream" where
  "enqueue_error s reason d =
     (if closing d then d else d\<lparr>outbox := outbox d @ [OutError s reason], closing := True\<rparr>)"

text \<open>\<open>fits\<close>: the library's encoding of a response or a fault into chunks, with the error and, if it
  is known, the request.\<close>

definition enqueue :: "('r outgoing \<Rightarrow> terr option) \<Rightarrow> u32 \<Rightarrow> 'r \<Rightarrow> 'r downstream \<Rightarrow> status option \<times> 'r downstream" where
  "enqueue fits i r d = (case fits (OutResponse i r) of
     None \<Rightarrow> (None, d\<lparr>outbox := outbox d @ [OutResponse i r]\<rparr>)
   | Some (s, None) \<Rightarrow> (Some s, d)
   | Some (s, Some (i', h)) \<Rightarrow> (case fits (OutFault i' h s) of
       None \<Rightarrow> (None, d\<lparr>outbox := outbox d @ [OutFault i' h s]\<rparr>)
     | Some (s', _) \<Rightarrow> (Some s', d)))"

section \<open>What a client can make the gateway hold\<close>

datatype transport_op = Receive incoming | Issue asymmetric

definition transport_step :: "('c, 'm) chunking \<Rightarrow> 'c \<times> 'r downstream \<Rightarrow> transport_op \<Rightarrow> 'c \<times> 'r downstream" where
  "transport_step K s op = (case s of (c, d) \<Rightarrow> (case op of
     Receive i \<Rightarrow> snd (handle_incoming K i c d)
   | Issue b \<Rightarrow> (c, d\<lparr>ds_binding := Some b\<rparr>)))"

definition buffer_inv :: "nat \<Rightarrow> nat \<Rightarrow> 'c \<times> 'r downstream \<Rightarrow> bool" where
  "buffer_inv most chunks s \<longleftrightarrow> (case s of (c, d) \<Rightarrow>
     ds_max_size d = most \<and> ds_max_chunks d = chunks \<and>
     pending_bytes d = sum_list (map length (pending_chunks d)) \<and>
     pending_bytes d \<le> (if ds_binding d = None then MAX_OPEN_SIZE else max MAX_OPEN_SIZE most) \<and>
     length (pending_chunks d) \<le> chunks)"

lemma clear_pending_inv: "buffer_inv m n (c, clear_pending d) \<longleftrightarrow> ds_max_size d = m \<and> ds_max_chunks d = n"
  by (auto simp: buffer_inv_def clear_pending_def)

lemma take_chunk_limits:
  "take_chunk K fin data c d = (r, d') \<Longrightarrow> ds_max_size d' = ds_max_size d \<and> ds_max_chunks d' = ds_max_chunks d \<and> ds_binding d' = ds_binding d"
  by (auto simp: take_chunk_def Let_def split: if_splits sum.splits prod.splits)

lemma take_chunk_inv:
  "take_chunk K fin data c d = (Inr r, d') \<Longrightarrow> buffer_inv m n (c0, d) \<Longrightarrow> buffer_inv m n (c1, d')"
  by (auto simp: take_chunk_def buffer_inv_def size_limit_def Let_def split: if_splits sum.splits prod.splits)

lemma process_limits:
  "process K f c d = (r, c', d') \<Longrightarrow> ds_max_size d' = ds_max_size d \<and> ds_max_chunks d' = ds_max_chunks d \<and> ds_binding d' = ds_binding d"
  by (auto simp: process_def clear_pending_def split: frame.splits sum.splits prod.splits option.splits if_splits
      dest: take_chunk_limits)

lemma process_inv:
  assumes "process K f c d = (Inr r, c', d')" and "buffer_inv m n (c, d)"
  shows "buffer_inv m n (c', d')"
proof -
  have "buffer_inv m n (c', clear_pending d)"
    using assms(2) by (simp add: clear_pending_inv) (simp add: buffer_inv_def)
  with assms show ?thesis
    by (auto simp: process_def split: frame.splits sum.splits prod.splits option.splits if_splits intro: take_chunk_inv)
qed

lemma transport_step_inv: "buffer_inv m n s \<Longrightarrow> buffer_inv m n (transport_step K s op)"
proof -
  assume inv: "buffer_inv m n s"
  obtain c d where s: "s = (c, d)" by (cases s)
  have "buffer_inv m n (snd (handle_incoming K i c d))" for i
  proof (cases i)
    case (Arrived f)
    obtain r c' d' where p: "process K f c d = (r, c', d')" by (cases "process K f c d")
    have "ds_max_size d' = m" "ds_max_chunks d' = n"
      using process_limits [OF p] inv s by (simp_all add: buffer_inv_def)
    with process_inv [of K f c d _ c' d' m n] p inv s show ?thesis
      by (cases r) (auto simp: Arrived handle_incoming_def clear_pending_inv split: option.splits prod.splits)
  qed (use inv s in \<open>simp_all add: handle_incoming_def\<close>)
  with inv show ?thesis by (cases op) (auto simp: s transport_step_def buffer_inv_def split: if_splits)
qed

interpretation buffering: stepper "transport_step K" "buffer_inv m n" for K m n
  by unfold_locales (rule transport_step_inv)

text \<open>C34. Whatever a client sends, the bytes held for its unfinished request are exactly those of the
  chunks kept, at most 64 KiB before a channel exists and at most the larger of that and the request
  limit after, in no more chunks than the Acknowledge allowed.\<close>

theorem buffered_bytes_are_bounded:
  assumes "accept_hello l first = Inr (ack, d)"
  shows "let d' = snd (foldl (transport_step K) (c, d) ops) in
    pending_bytes d' = sum_list (map length (pending_chunks d')) \<and>
    pending_bytes d' \<le> (if ds_binding d' = None then MAX_OPEN_SIZE else max MAX_OPEN_SIZE (max_request_size l)) \<and>
    length (pending_chunks d') \<le> max_request_chunks l"
proof -
  have "buffer_inv (max_request_size l) (max_request_chunks l) (c, d)"
    using assms by (auto simp: accept_hello_def buffer_inv_def Let_def split: first_frame.splits if_splits)
  from buffering.run_inv [OF this, of K ops] show ?thesis
    by (auto simp: buffer_inv_def Let_def split: prod.splits)
qed

definition toy_hello :: hello where
  "toy_hello = \<lparr>he_version = 0, he_receive_buffer = 8192, he_send_buffer = 8192, he_max_message = 0, he_max_chunks = 0, he_url = []\<rparr>"

definition toy_chunking :: "(unit, string) chunking" where
  "toy_chunking = \<lparr>tk_header = (\<lambda>s. Inr (True, Intermediate)), tk_security_header = (\<lambda>s. Inr None),
     tk_verify = (\<lambda>c s. (Inr s, c)), tk_info = (\<lambda>c s. Inr (0, 0, None)), tk_next = (\<lambda>n k. Inr n),
     tk_validate = (\<lambda>c s. None), tk_decode = (\<lambda>c s. Inr [])\<rparr>"

theorem buffered_bytes_are_bounded_witness:
  "\<exists>ack d. accept_hello default_limits (FirstHello True toy_hello) = Inr (ack, d :: unit downstream) \<and>
     (let d' = snd (foldl (transport_step toy_chunking) ((), d)
         [Receive (Arrived (Chunk ''abc'')), Receive (Arrived (Chunk ''de''))])
      in pending_bytes d' = sum_list (map length (pending_chunks d')) \<and>
         pending_bytes d' \<le> (if ds_binding d' = None then MAX_OPEN_SIZE else max MAX_OPEN_SIZE (max_request_size default_limits)) \<and>
         length (pending_chunks d') \<le> max_request_chunks default_limits)"
proof -
  obtain ack and d :: "unit downstream" where d: "accept_hello default_limits (FirstHello True toy_hello) = Inr (ack, d)"
    by (auto simp: accept_hello_def toy_hello_def Let_def)
  from buffered_bytes_are_bounded [OF d] d show ?thesis by (intro exI [of _ ack] exI [of _ d] conjI)
qed

section \<open>Aborted requests\<close>

text \<open>An abort is obeyed whether or not its security holds: it drops what a client had sent so far, and
  the rest of the request then starts a request of its own.\<close>

lemma unverified_abort_drops_request:
  assumes "tk_header K chunk = Inr (False, FinalError)" and "ds_binding d = Some b"
  shows "handle_incoming K (Arrived (Chunk chunk)) c d = (PChunk, c, clear_pending d)"
  using assms by (simp add: handle_incoming_def process_def refused_early_def)

end
