(* ===== verification/Channel.thy ===== *)
theory Channel
  imports Transport Session_Services Audit_Map
begin

text \<open>
  The connection of a client (src/relay/connection.rs, \<open>Connection\<close>): opening and renewing its secure
  channel, the discovery services, the upstream channel opened for it on demand, what it refuses and
  how it closes. The library's secure channel is its policy, mode, certificate and nonces; its
  decisions and everything else from outside are the fields of \<open>conn_env\<close>, one per step.
\<close>

section \<open>State\<close>

definition MAX_TOKEN_LIFETIME_MS :: nat where "MAX_TOKEN_LIFETIME_MS = 3600000"
definition MIN_TOKEN_LIFETIME_MS :: nat where "MIN_TOKEN_LIFETIME_MS = 10000"
definition CLOSE_TIMEOUT :: time where "CLOSE_TIMEOUT = secs 5"

definition BadSecurityModeRejected :: status where "BadSecurityModeRejected = 0x80540000"
definition BadSecurityPolicyRejected :: status where "BadSecurityPolicyRejected = 0x80550000"
definition BadServiceUnsupported :: status where "BadServiceUnsupported = 0x800B0000"
definition BadServerHalted :: status where "BadServerHalted = 0x800E0000"

record channel =
  ch_policy :: security_policy
  ch_mode :: security_mode
  ch_cert :: "x509 option"
  ch_remote_nonce :: string
  ch_id :: u32

record open_request =
  oq_handle :: u32
  oq_version :: u32
  oq_renew :: bool
  oq_mode :: security_mode
  oq_nonce :: string
  oq_lifetime :: u32

datatype 'n message =
    MOpen open_request
  | MClose u32
  | MGetEndpoints u32 string
  | MFindServers u32 string
  | MUnsupported u32                     \<comment> \<open>FindServersOnNetwork, RegisterServer, RegisterServer2\<close>
  | MCreate create_request
  | MActivate "'n activate_request"
  | MCloseSession "'n request"
  | MForward "'n request"

datatype 'a channel_reply =
    ReFault u32 status
  | ReEndpoints u32 "endpoint list"
  | ReServers u32 application_description
  | ReOpened u32 u32 u32 nat             \<comment> \<open>handle, channel id, token id, lifetime\<close>
  | ReResult 'a                          \<comment> \<open>of a request that ran\<close>

text \<open>What a step does besides: a record, a trust problem noted, a request started (and whether it is
  seen through when the client leaves), the dashboard's entry.\<close>

datatype 'n conn_effect =
    CRecord audit_entry
  | CTrust gateway_trust
  | CStart ctx "'n message" bool
  | CInfo nat client_info
  | CGone nat

record 'a connection =
  cn_id :: nat
  cn_client :: client_context
  cn_transport :: "'a channel_reply downstream"
  cn_channel :: channel
  cn_issued :: bool
  cn_last_token :: u32
  cn_endpoints :: "endpoint list"
  cn_upstream :: "upstream option"
  cn_pending :: "(u32 \<times> bool) list"    \<comment> \<open>requests in progress; audited?\<close>
  cn_deadline :: time
  cn_close_reason :: "string option"
  cn_ended :: bool

text \<open>
  \<open>ev_trust\<close>: why the certificate store refuses a certificate; \<open>ev_set_cert\<close>, \<open>ev_nonce\<close>: the
  library's setup of the channel; \<open>ev_connect\<close>: why the upstream connection failed.
\<close>

record 'a conn_env =
  ev_now :: time
  ev_time :: time
  ev_cached :: "endpoint list"
  ev_discovered :: "endpoint list option"
  ev_bad_cert :: status
  ev_safe_name :: "x509 \<Rightarrow> bool"
  ev_trust :: "x509 \<Rightarrow> security_policy \<Rightarrow> (status \<times> string) option"
  ev_connect :: "endpoint \<Rightarrow> string option"
  ev_invalid_text :: "string \<Rightarrow> string"
  ev_channel_id :: u32
  ev_set_cert :: "string \<Rightarrow> status + x509 option"
  ev_nonce :: "security_policy \<Rightarrow> string \<Rightarrow> status option"
  ev_fits :: "'a channel_reply outgoing \<Rightarrow> terr option"
  ev_status_text :: "status \<Rightarrow> string"

section \<open>Answering and closing\<close>

definition close_conn :: "time \<Rightarrow> status \<Rightarrow> string \<Rightarrow> 'a connection \<Rightarrow> 'a connection" where
  "close_conn now s reason cn =
     (let cn1 = (if cn_close_reason cn = None
                 then cn\<lparr>cn_close_reason := Some reason, cn_deadline := now + CLOSE_TIMEOUT\<rparr> else cn)
      in cn1\<lparr>cn_transport := enqueue_error s reason (cn_transport cn1)\<rparr>)"

definition respond :: "'a conn_env \<Rightarrow> u32 \<Rightarrow> 'a channel_reply \<Rightarrow> 'a connection \<Rightarrow> 'a connection" where
  "respond env i r cn = (case enqueue (ev_fits env) i r (cn_transport cn) of
     (None, d) \<Rightarrow> cn\<lparr>cn_transport := d\<rparr>
   | (Some s, d) \<Rightarrow> close_conn (ev_now env) s ''failed to encode response'' (cn\<lparr>cn_transport := d\<rparr>))"

definition reject :: "'a conn_env \<Rightarrow> u32 \<Rightarrow> u32 \<Rightarrow> status \<times> string \<Rightarrow> 'a connection \<Rightarrow> 'a connection" where
  "reject env i h sr cn = close_conn (ev_now env) (fst sr) (snd sr) (respond env i (ReFault h (fst sr)) cn)"

section \<open>Endpoints and the upstream channel\<close>

text \<open>\<open>RelayTarget::upstream_endpoints\<close>: from the monitor's cache or discovered now, never below the
  target's minimum.\<close>

definition upstream_endpoints :: "sec \<Rightarrow> min_security \<Rightarrow> endpoint list \<Rightarrow> endpoint list option \<Rightarrow> status + endpoint list" where
  "upstream_endpoints S m cached found =
     (if cached \<noteq> [] then Inr (at_least S cached m)
      else (case found of
          None \<Rightarrow> Inl BadServerNotConnected
        | Some es \<Rightarrow> Inr (at_least S es m)))"

definition refresh_endpoints :: "sec \<Rightarrow> target_config \<Rightarrow> 'a conn_env \<Rightarrow> 'a connection \<Rightarrow> status option \<times> 'a connection" where
  "refresh_endpoints S tg env cn =
     (case upstream_endpoints S (t_min_security tg) (ev_cached env) (ev_discovered env) of
        Inr es \<Rightarrow> (None, cn\<lparr>cn_endpoints := es\<rparr>)
      | Inl s \<Rightarrow> ((if cn_endpoints cn = [] then Some s else None), cn))"

datatype upstream_error = Untrusted string string status | OtherError string

text \<open>\<open>Upstream::connect\<close>: the server's certificate must be usable and trusted before anything is sent.\<close>

definition upstream_connect :: "sec \<Rightarrow> crypt \<Rightarrow> 'a conn_env \<Rightarrow> endpoint \<Rightarrow> upstream_error + upstream" where
  "upstream_connect S K env e =
     (let p = ep_policy S e; cert = parse_cert K (ep_certificate e);
          connect = (case ev_connect env e of
            Some text \<Rightarrow> Inl (OtherError text)
          | None \<Rightarrow> Inr \<lparr>up_endpoint = e, up_certificate = cert\<rparr>)
      in if p = PolicyNone then connect
         else (case cert of
             None \<Rightarrow> Inl (OtherError (ev_invalid_text env ''upstream endpoint has no valid certificate''))
           | Some c \<Rightarrow>
               if \<not> ev_safe_name env c
               then Inl (OtherError (ev_invalid_text env ''the server certificate's common name is not usable as a file name''))
               else (case ev_trust env c p of
                   Some (s, _) \<Rightarrow> Inl (Untrusted (x_subject c) (x_thumbprint c) s)
                 | None \<Rightarrow> connect)))"

definition upstream_refusal :: "target_config \<Rightarrow> 'a conn_env \<Rightarrow> client_context \<Rightarrow> upstream_error \<Rightarrow> 'n conn_effect list" where
  "upstream_refusal tg env c err = (case err of
     Untrusted subject thumb s \<Rightarrow>
       [CRecord (client_entry (t_name tg) c (ev_time env) (CertificateRejected subject thumb
          (''upstream server certificate not trusted ('' @ ev_status_text env s @ '')'')))]
   | OtherError text \<Rightarrow>
       (if contains text ''BadSecurityChecksFailed'' \<or> contains text ''BadCertificateUntrusted''
        then [CTrust (Refused text)] else []))"

text \<open>The one upstream channel of the connection, with the client's own policy and mode.\<close>

definition ensure_upstream :: "sec \<Rightarrow> crypt \<Rightarrow> target_config \<Rightarrow> 'a conn_env \<Rightarrow> 'a connection
    \<Rightarrow> (status + upstream) \<times> 'a connection \<times> 'n conn_effect list" where
  "ensure_upstream S K tg env cn = (case cn_upstream cn of
     Some u \<Rightarrow> (Inr u, cn, [])
   | None \<Rightarrow>
       (case (if cn_endpoints cn = [] then refresh_endpoints S tg env cn else (None, cn)) of
          (Some s, cn1) \<Rightarrow> (Inl s, cn1, [])
        | (None, cn1) \<Rightarrow>
            (case matching_upstream S (cn_endpoints cn1) (ch_policy (cn_channel cn1)) (ch_mode (cn_channel cn1)) of
               None \<Rightarrow> (Inl BadSecurityPolicyRejected, cn1, [])
             | Some e \<Rightarrow> (case upstream_connect S K env e of
                 Inr u \<Rightarrow> (Inr u, cn1\<lparr>cn_upstream := Some u\<rparr>, [])
               | Inl err \<Rightarrow> (Inl BadServerNotConnected, cn1, upstream_refusal tg env (cn_client cn1) err)))))"

definition request_ctx :: "target_config \<Rightarrow> gateway_identity \<Rightarrow> upstream \<Rightarrow> 'a connection \<Rightarrow> ctx" where
  "request_ctx tg g u cn =
     \<lparr>cx_target = tg, cx_gateway = g, cx_upstream = u, cx_connection = cn_id cn,
      cx_policy = ch_policy (cn_channel cn), cx_mode = ch_mode (cn_channel cn),
      cx_certificate = (if ch_policy (cn_channel cn) = PolicyNone then None else ch_cert (cn_channel cn)),
      cx_client = cn_client cn, cx_endpoints = cn_endpoints cn, cx_hello_url = ds_url (cn_transport cn)\<rparr>"

section \<open>Opening the channel\<close>

definition cn_record :: "target_config \<Rightarrow> 'a conn_env \<Rightarrow> 'a connection \<Rightarrow> audit_event \<Rightarrow> 'n conn_effect" where
  "cn_record tg env cn ev = CRecord (client_entry (t_name tg) (cn_client cn) (ev_time env) ev)"

definition check_client_certificate :: "crypt \<Rightarrow> target_config \<Rightarrow> 'a conn_env \<Rightarrow> string \<Rightarrow> 'a connection
    \<Rightarrow> status option \<times> 'a connection \<times> 'n conn_effect list" where
  "check_client_certificate K tg env der cn = (case parse_cert K der of
     None \<Rightarrow> (Some (ev_bad_cert env), cn, [])
   | Some cert \<Rightarrow>
       (let cn1 = cn\<lparr>cn_client := (cn_client cn)\<lparr>certificate_thumbprint := Some (x_thumbprint cert)\<rparr>\<rparr>
        in if \<not> ev_safe_name env cert
           then (Some BadCertificateInvalid, cn1,
                 [cn_record tg env cn1 (CertificateRejected (clip (x_subject cert) MAX_TEXT) (x_thumbprint cert)
                    ''common name not usable as a file name'')])
           else (case ev_trust env cert (ch_policy (cn_channel cn)) of
               Some (s, text) \<Rightarrow> (Some s, cn1,
                 [cn_record tg env cn1 (CertificateRejected (x_subject cert) (x_thumbprint cert) text)])
             | None \<Rightarrow> (None, cn1, []))))"

definition check_trust :: "crypt \<Rightarrow> target_config \<Rightarrow> 'a conn_env \<Rightarrow> string \<Rightarrow> string \<Rightarrow> u32 \<Rightarrow> 'a connection
    \<Rightarrow> (status \<times> string + u32) \<times> 'a connection \<times> 'n conn_effect list" where
  "check_trust K tg env der reason channel_id cn =
     (if ch_policy (cn_channel cn) = PolicyNone then (Inr channel_id, cn, [])
      else (case check_client_certificate K tg env der cn of
          (Some s, cn1, effs) \<Rightarrow> (Inl (s, reason), cn1, effs)
        | (None, cn1, effs) \<Rightarrow> (Inr channel_id, cn1, effs)))"

definition renew_allowed :: "crypt \<Rightarrow> target_config \<Rightarrow> 'a conn_env \<Rightarrow> string \<Rightarrow> open_request \<Rightarrow> 'a connection
    \<Rightarrow> (status \<times> string + u32) \<times> 'a connection \<times> 'n conn_effect list" where
  "renew_allowed K tg env der r cn =
     (if \<not> cn_issued cn then (Inl (BadSecureChannelIdInvalid, ''renew before issue''), cn, [])
      else if oq_mode r \<noteq> ch_mode (cn_channel cn)
      then (Inl (BadSecurityModeRejected, ''renewal with a different security mode''), cn, [])
      else if ch_policy (cn_channel cn) \<noteq> PolicyNone \<and> oq_nonce r = ch_remote_nonce (cn_channel cn)
      then (Inl (BadNonceInvalid, ''nonce reused on renew''), cn, [])
      else check_trust K tg env der ''client certificate no longer trusted'' (ch_id (cn_channel cn)) cn)"

definition consistent_mode :: "security_mode \<Rightarrow> security_policy \<Rightarrow> bool" where
  "consistent_mode m p = (case m of
     ModeNone \<Rightarrow> p = PolicyNone
   | ModeSign \<Rightarrow> p \<noteq> PolicyNone
   | ModeSignAndEncrypt \<Rightarrow> p \<noteq> PolicyNone
   | ModeInvalid \<Rightarrow> False)"

definition is_offered :: "sec \<Rightarrow> gateway_identity \<Rightarrow> endpoint list \<Rightarrow> security_policy \<Rightarrow> security_mode \<Rightarrow> bool" where
  "is_offered S g es p m = (\<exists>e \<in> set (gateway_endpoints S es g []). ep_mode e = m \<and> ep_policy S e = p)"

definition issue_allowed :: "sec \<Rightarrow> crypt \<Rightarrow> target_config \<Rightarrow> gateway_identity \<Rightarrow> 'a conn_env \<Rightarrow> string \<Rightarrow> open_request \<Rightarrow> 'a connection
    \<Rightarrow> (status \<times> string + u32) \<times> 'a connection \<times> 'n conn_effect list" where
  "issue_allowed S K tg g env der r cn =
     (if cn_issued cn then (Inl (BadSecureChannelIdInvalid, ''second issue''), cn, [])
      else if \<not> consistent_mode (oq_mode r) (ch_policy (cn_channel cn))
      then (Inl (BadSecurityModeRejected, ''invalid security mode''), cn, [])
      else (let cn1 = snd (refresh_endpoints S tg env cn) in
        if \<not> is_offered S g (cn_endpoints cn1) (ch_policy (cn_channel cn1)) (oq_mode r) \<and> ch_policy (cn_channel cn1) \<noteq> PolicyNone
        then (Inl (BadSecurityPolicyRejected, ''security policy not offered by the target''), cn1, [])
        else check_trust K tg env der ''client certificate rejected'' (ev_channel_id env) cn1))"

definition open_setup :: "'a conn_env \<Rightarrow> string \<Rightarrow> open_request \<Rightarrow> u32 \<Rightarrow> channel \<Rightarrow> status option \<times> channel" where
  "open_setup env der r channel_id ch =
     (let ch1 = ch\<lparr>ch_mode := oq_mode r, ch_id := channel_id\<rparr> in case ev_set_cert env der of
        Inl s \<Rightarrow> (Some s, ch1)
      | Inr cert \<Rightarrow> (let ch2 = ch1\<lparr>ch_cert := cert\<rparr> in case ev_nonce env (ch_policy ch) (oq_nonce r) of
          Some s \<Rightarrow> (Some s, ch2)
        | None \<Rightarrow> (None, ch2\<lparr>ch_remote_nonce := oq_nonce r\<rparr>)))"

definition token_lifetime :: "u32 \<Rightarrow> nat" where
  "token_lifetime requested = min (max (unat requested) MIN_TOKEN_LIFETIME_MS) MAX_TOKEN_LIFETIME_MS"

definition token_deadline :: "time \<Rightarrow> nat \<Rightarrow> time" where
  "token_deadline now lifetime = now + int (lifetime * 4 div 3) * 1000000"

definition opened_info :: "sec \<Rightarrow> time \<Rightarrow> 'a connection \<Rightarrow> client_info" where
  "opened_info S now cn = \<lparr>in_remote_addr = remote_addr (cn_client cn), in_connected_at = now,
     in_policy = policy_str S (ch_policy (cn_channel cn)), in_mode = mode_debug (ch_mode (cn_channel cn)),
     in_application_uri = None, in_application_name = None, in_user = None\<rparr>"

definition finish_open :: "sec \<Rightarrow> target_config \<Rightarrow> 'a conn_env \<Rightarrow> u32 \<Rightarrow> asymmetric \<Rightarrow> open_request \<Rightarrow> u32 \<Rightarrow> 'a connection
    \<Rightarrow> 'a connection \<times> 'n conn_effect list" where
  "finish_open S tg env i header r channel_id cn =
     (let lifetime = token_lifetime (oq_lifetime r);
          cn1 = cn\<lparr>cn_last_token := cn_last_token cn + 1\<rparr>
      in case open_setup env (snd header) r channel_id (cn_channel cn1) of
           (Some s, ch) \<Rightarrow> (reject env i (oq_handle r) (s, ''invalid OpenSecureChannel request'') (cn1\<lparr>cn_channel := ch\<rparr>), [])
         | (None, ch) \<Rightarrow>
             (let cn2 = (respond env i (ReOpened (oq_handle r) channel_id (cn_last_token cn1) lifetime) (cn1\<lparr>cn_channel := ch\<rparr>))
                          \<lparr>cn_deadline := token_deadline (ev_now env) lifetime\<rparr>
              in if oq_renew r then (cn2, [])
                 else (let cn3 = cn2\<lparr>cn_issued := True, cn_transport := (cn_transport cn2)\<lparr>ds_binding := Some header\<rparr>\<rparr>
                       in (cn3, [CInfo (cn_id cn3) (opened_info S (ev_time env) cn3),
                            cn_record tg env cn3 (SecureChannelOpened (policy_str S (ch_policy ch)) (mode_debug (ch_mode ch)))]))))"

definition open_secure_channel :: "sec \<Rightarrow> crypt \<Rightarrow> target_config \<Rightarrow> gateway_identity \<Rightarrow> 'a conn_env \<Rightarrow> u32 \<Rightarrow> asymmetric option \<Rightarrow> open_request
    \<Rightarrow> 'a connection \<Rightarrow> 'a connection \<times> 'n conn_effect list" where
  "open_secure_channel S K tg g env i header r cn = (case header of
     None \<Rightarrow> (close_conn (ev_now env) BadSecurityFailed ''OpenSecureChannel without asymmetric header'' cn, [])
   | Some hdr \<Rightarrow>
       (if oq_version r \<noteq> protocol_version (cn_transport cn)
        then (reject env i (oq_handle r) (BadProtocolVersionUnsupported, ''protocol version mismatch'') cn, [])
        else (case (if oq_renew r then renew_allowed K tg env (snd hdr) r cn
                    else issue_allowed S K tg g env (snd hdr) r cn) of
            (Inl sr, cn1, effs) \<Rightarrow> (reject env i (oq_handle r) sr cn1, effs)
          | (Inr channel_id, cn1, effs) \<Rightarrow>
              (case finish_open S tg env i hdr r channel_id cn1 of (cn2, effs2) \<Rightarrow> (cn2, effs @ effs2)))))"

section \<open>Requests\<close>

fun handle_of :: "'n message \<Rightarrow> u32" where
  "handle_of (MOpen r) = oq_handle r"
| "handle_of (MClose h) = h"
| "handle_of (MGetEndpoints h _) = h"
| "handle_of (MFindServers h _) = h"
| "handle_of (MUnsupported h) = h"
| "handle_of (MCreate r) = cr_handle r"
| "handle_of (MActivate r) = ar_handle r"
| "handle_of (MCloseSession rq) = rq_handle (fst rq)"
| "handle_of (MForward rq) = rq_handle (fst rq)"

fun seen_through :: "'n message \<Rightarrow> bool" where
  "seen_through (MCreate _) = True"
| "seen_through (MActivate _) = True"
| "seen_through (MCloseSession _) = True"
| "seen_through (MForward rq) = is_audited (snd rq)"
| "seen_through _ = False"

definition conn_url :: "'a connection \<Rightarrow> string \<Rightarrow> string" where
  "conn_url cn requested = (if requested = [] then ds_url (cn_transport cn) else requested)"

definition start_request :: "sec \<Rightarrow> crypt \<Rightarrow> target_config \<Rightarrow> gateway_identity \<Rightarrow> 'a conn_env \<Rightarrow> u32 \<Rightarrow> 'n message
    \<Rightarrow> 'a connection \<Rightarrow> 'a connection \<times> 'n conn_effect list" where
  "start_request S K tg g env i msg cn = (case ensure_upstream S K tg env cn of
     (Inl s, cn1, effs) \<Rightarrow> (respond env i (ReFault (handle_of msg) s) cn1, effs)
   | (Inr u, cn1, effs) \<Rightarrow>
       (cn1\<lparr>cn_pending := cn_pending cn1 @ [(i, seen_through msg)]\<rparr>,
        effs @ [CStart (request_ctx tg g u cn1) msg (seen_through msg)]))"

definition handle_message :: "sec \<Rightarrow> crypt \<Rightarrow> target_config \<Rightarrow> gateway_identity \<Rightarrow> 'a conn_env \<Rightarrow> u32 \<Rightarrow> asymmetric option
    \<Rightarrow> 'n message \<Rightarrow> 'a connection \<Rightarrow> 'a connection \<times> 'n conn_effect list" where
  "handle_message S K tg g env i header msg cn = (case msg of
     MOpen r \<Rightarrow> open_secure_channel S K tg g env i header r cn
   | MClose _ \<Rightarrow> (cn\<lparr>cn_close_reason := Some ''client closed the secure channel'', cn_deadline := ev_now env + CLOSE_TIMEOUT,
        cn_transport := (cn_transport cn)\<lparr>closing := True\<rparr>\<rparr>, [])
   | MGetEndpoints h url \<Rightarrow> (case refresh_endpoints S tg env cn of
        (None, cn1) \<Rightarrow> (respond env i (ReEndpoints h (gateway_endpoints S (cn_endpoints cn1) g (conn_url cn url))) cn1, [])
      | (Some s, cn1) \<Rightarrow> (respond env i (ReFault h s) cn1, []))
   | MFindServers h url \<Rightarrow> (respond env i (ReServers h (server_description g (conn_url cn url))) cn, [])
   | MUnsupported h \<Rightarrow> (respond env i (ReFault h BadServiceUnsupported) cn, [])
   | _ \<Rightarrow> start_request S K tg g env i msg cn)"

definition handle :: "sec \<Rightarrow> crypt \<Rightarrow> target_config \<Rightarrow> gateway_identity \<Rightarrow> 'a conn_env \<Rightarrow> u32 \<Rightarrow> asymmetric option
    \<Rightarrow> 'n message \<Rightarrow> 'a connection \<Rightarrow> 'a connection \<times> 'n conn_effect list" where
  "handle S K tg g env i header msg cn =
     (if cn_close_reason cn \<noteq> None then (cn, [])
      else if \<not> cn_issued cn \<and> (case msg of MOpen _ \<Rightarrow> False | _ \<Rightarrow> True)
      then (close_conn (ev_now env) BadSecureChannelIdInvalid ''request before OpenSecureChannel'' cn, [])
      else handle_message S K tg g env i header msg cn)"

section \<open>The loop\<close>

definition revoked :: "'a conn_env \<Rightarrow> security_policy \<Rightarrow> x509 option \<Rightarrow> bool" where
  "revoked env p cert = (p \<noteq> PolicyNone \<and> (case cert of None \<Rightarrow> False | Some c \<Rightarrow> ev_trust env c p \<noteq> None))"

text \<open>Why the connection is no longer trusted, if it is not.\<close>

definition still_trusted :: "sec \<Rightarrow> 'a conn_env \<Rightarrow> 'a connection \<Rightarrow> string option" where
  "still_trusted S env cn =
     (if revoked env (ch_policy (cn_channel cn)) (ch_cert (cn_channel cn))
      then Some ''client certificate is no longer trusted''
      else (case cn_upstream cn of
          None \<Rightarrow> None
        | Some u \<Rightarrow> if revoked env (upstream_policy S u) (up_certificate u)
            then Some ''upstream server certificate is no longer trusted'' else None))"

text \<open>What \<open>select!\<close> waits for. \<open>SendFailed\<close>: a queued message could not be encoded; \<open>Disconnected\<close>:
  everything is sent and the connection is closing, or it broke while sending.\<close>

datatype 'a conn_op =
    Shutdown
  | TrustChanged
  | DeadlinePassed
  | Finished nat 'a
  | UpstreamLost
  | Incoming incoming
  | SendFailed status
  | Disconnected

definition receive :: "sec \<Rightarrow> crypt \<Rightarrow> (channel, 'n message) chunking \<Rightarrow> target_config \<Rightarrow> gateway_identity \<Rightarrow> 'a conn_env
    \<Rightarrow> incoming \<Rightarrow> 'a connection \<Rightarrow> 'a connection \<times> 'n conn_effect list" where
  "receive S K L tg g env inc cn =
     (case handle_incoming L inc (cn_channel cn) (cn_transport cn) of (res, ch, d) \<Rightarrow>
       (let cn1 = cn\<lparr>cn_channel := ch, cn_transport := d\<rparr> in case res of
          PRequest msg i header \<Rightarrow> handle S K tg g env i header msg cn1
        | PRecoverable s i h \<Rightarrow> (respond env i (ReFault h s) cn1, [])
        | PError s \<Rightarrow> (close_conn (ev_now env) s (''transport error: '' @ ev_status_text env s) cn1, [])
        | PClosed \<Rightarrow> (cn1\<lparr>cn_ended := True\<rparr>, [])
        | _ \<Rightarrow> (cn1, [])))"

definition conn_step :: "sec \<Rightarrow> crypt \<Rightarrow> (channel, 'n message) chunking \<Rightarrow> target_config \<Rightarrow> gateway_identity
    \<Rightarrow> 'a connection \<Rightarrow> 'a conn_env \<times> 'a conn_op \<Rightarrow> 'a connection \<times> 'n conn_effect list" where
  "conn_step S K L tg g cn eo = (case eo of (env, op) \<Rightarrow>
     (if cn_ended cn then (cn, []) else case op of
        Shutdown \<Rightarrow> ((if cn_close_reason cn = None
            then close_conn (ev_now env) BadServerHalted ''target stopped or reconfigured'' cn else cn), [])
      | TrustChanged \<Rightarrow> ((if cn_close_reason cn = None
            then (case still_trusted S env cn of
                Some reason \<Rightarrow> close_conn (ev_now env) BadCertificateUntrusted reason cn | None \<Rightarrow> cn) else cn), [])
      | DeadlinePassed \<Rightarrow> ((if ev_now env < cn_deadline cn then cn
            else if cn_close_reason cn \<noteq> None then cn\<lparr>cn_ended := True\<rparr>
            else close_conn (ev_now env) BadTimeout ''secure channel expired'' cn), [])
      | Finished k reply \<Rightarrow> (if k < length (cn_pending cn)
            then (respond env (fst (cn_pending cn ! k)) (ReResult reply)
                    (cn\<lparr>cn_pending := take k (cn_pending cn) @ drop (Suc k) (cn_pending cn)\<rparr>), []) else (cn, []))
      | UpstreamLost \<Rightarrow> (if cn_upstream cn = None then (cn, [])
            else (close_conn (ev_now env) BadServerNotConnected ''upstream connection lost'' (cn\<lparr>cn_upstream := None\<rparr>), []))
      | Incoming inc \<Rightarrow> if closing (cn_transport cn) then (cn, []) else receive S K L tg g env inc cn
      | SendFailed s \<Rightarrow> (close_conn (ev_now env) s (''transport error: '' @ ev_status_text env s) cn, [])
      | Disconnected \<Rightarrow> (cn\<lparr>cn_ended := True\<rparr>, [])))"

section \<open>Beginning and end\<close>

definition new_connection :: "limits \<Rightarrow> time \<Rightarrow> nat \<Rightarrow> string \<Rightarrow> channel \<Rightarrow> 'a channel_reply downstream \<Rightarrow> 'a connection" where
  "new_connection l now i peer ch d =
     \<lparr>cn_id = i, cn_client = default_client\<lparr>remote_addr := peer\<rparr>, cn_transport = d, cn_channel = ch,
      cn_issued = False, cn_last_token = 0, cn_endpoints = [], cn_upstream = None, cn_pending = [],
      cn_deadline = now + hello_timeout l, cn_close_reason = None, cn_ended = False\<rparr>"

text \<open>The requests seen through after the client left; if they take too long (\<open>late\<close>), the upstream
  channel is closed under them, so that they fail and are recorded as such.\<close>

definition finish_audited :: "bool \<Rightarrow> 'a connection \<Rightarrow> (u32 \<times> bool) list \<times> 'a connection" where
  "finish_audited late cn =
     (let audited = filter snd (cn_pending cn); cn1 = cn\<lparr>cn_pending := []\<rparr>
      in (audited, if audited \<noteq> [] \<and> late then cn1\<lparr>cn_upstream := None\<rparr> else cn1))"

definition disconnect :: "target_config \<Rightarrow> 'a conn_env \<Rightarrow> 'a connection \<Rightarrow> 'n conn_effect list" where
  "disconnect tg env cn = [CGone (cn_id cn),
     cn_record tg env cn (ClientDisconnected (case cn_close_reason cn of Some r \<Rightarrow> r | None \<Rightarrow> ''connection closed''))]"

text \<open>A whole connection: the Hello, the record of its beginning, the loop, and its end.\<close>

fun conn_run :: "sec \<Rightarrow> crypt \<Rightarrow> (channel, 'n message) chunking \<Rightarrow> target_config \<Rightarrow> gateway_identity
    \<Rightarrow> 'a connection \<Rightarrow> ('a conn_env \<times> 'a conn_op) list \<Rightarrow> 'a connection \<times> 'n conn_effect list" where
  "conn_run S K L tg g cn [] = (cn, [])"
| "conn_run S K L tg g cn (eo # eos) = (case conn_step S K L tg g cn eo of
     (cn1, effs1) \<Rightarrow> (case conn_run S K L tg g cn1 eos of (cn2, effs2) \<Rightarrow> (cn2, effs1 @ effs2)))"

definition serve_client :: "sec \<Rightarrow> crypt \<Rightarrow> (channel, 'n message) chunking \<Rightarrow> target_config \<Rightarrow> gateway_identity \<Rightarrow> limits
    \<Rightarrow> time \<Rightarrow> nat \<Rightarrow> string \<Rightarrow> channel \<Rightarrow> first_frame \<Rightarrow> 'a conn_env \<Rightarrow> ('a conn_env \<times> 'a conn_op) list \<Rightarrow> 'n conn_effect list" where
  "serve_client S K L tg g l now i peer ch hello env eos = (case accept_hello l hello of
     Inl _ \<Rightarrow> []
   | Inr (_, d) \<Rightarrow>
       (let cn = new_connection l now i peer ch d in case conn_run S K L tg g cn eos of
          (cn1, effs) \<Rightarrow> cn_record tg env cn ClientConnected # effs @ disconnect tg env cn1))"

end
