(* ===== verification/Channel_Safety.thy ===== *)
theory Channel_Safety
  imports Channel
begin

text \<open>
  What the connection of src/relay/connection.rs promises: a channel keeps the security it was issued
  with, requests run only over an upstream channel of the same security that meets the target's
  minimum, and a connection that is closing starts nothing and ends.
\<close>

section \<open>Laws of the library\<close>

text \<open>
  What the code relies on when the library verifies a chunk: the channel is left alone, except that an
  OpenSecureChannel chunk switches it to the policy of its header (the comment in
  src/relay/transport.rs, \<open>process\<close>), which is the header the verified chunk still carries; and such a
  message is one chunk (OPC UA Part 6, 6.7.2).
\<close>

definition opens_channel :: "('c, 'm) chunking \<Rightarrow> string \<Rightarrow> bool" where
  "opens_channel L s = (case tk_header L s of Inl _ \<Rightarrow> False | Inr (opn, _) \<Rightarrow> opn)"

definition channel_laws :: "sec \<Rightarrow> (channel, 'm) chunking \<Rightarrow> bool" where
  "channel_laws S L \<longleftrightarrow>
     (\<forall>s. tk_header L s \<noteq> Inr (True, Intermediate)) \<and>
     (\<forall>c s. \<exists>p. snd (tk_verify L c s) = c\<lparr>ch_policy := p\<rparr>) \<and>
     (\<forall>c s. \<not> opens_channel L s \<longrightarrow> snd (tk_verify L c s) = c) \<and>
     (\<forall>c s. opens_channel L s \<longrightarrow> ch_policy (snd (tk_verify L c s)) = ch_policy c \<or>
        (\<exists>h. tk_security_header L s = Inr (Some h) \<and> ch_policy (snd (tk_verify L c s)) = from_uri S (fst h))) \<and>
     (\<forall>c s data. opens_channel L s \<longrightarrow> fst (tk_verify L c s) = Inr data \<longrightarrow>
        (\<exists>h. tk_security_header L s = Inr (Some h) \<and> ch_policy (snd (tk_verify L c s)) = from_uri S (fst h) \<and>
           (\<forall>n i hdr. tk_info L (snd (tk_verify L c s)) data = Inr (n, i, hdr) \<longrightarrow> hdr = Some h)))"

section \<open>What answering leaves alone\<close>

named_theorems conn_frame \<open>what closing and answering do not touch\<close>

lemma enqueue_error_frame [conn_frame]:
  "ds_binding (enqueue_error s r d) = ds_binding d" "pending_chunks (enqueue_error s r d) = pending_chunks d"
  "closing (enqueue_error s r d)"
  by (simp_all add: enqueue_error_def)

lemma enqueue_frame:
  "ds_binding (snd (enqueue F i r d)) = ds_binding d \<and> pending_chunks (snd (enqueue F i r d)) = pending_chunks d \<and>
   closing (snd (enqueue F i r d)) = closing d"
  by (auto simp: enqueue_def split: option.splits prod.splits)

lemma close_conn_frame [conn_frame]:
  "cn_issued (close_conn n s r cn) = cn_issued cn" "cn_channel (close_conn n s r cn) = cn_channel cn"
  "cn_endpoints (close_conn n s r cn) = cn_endpoints cn" "cn_upstream (close_conn n s r cn) = cn_upstream cn"
  "cn_client (close_conn n s r cn) = cn_client cn" "cn_ended (close_conn n s r cn) = cn_ended cn"
  "ds_binding (cn_transport (close_conn n s r cn)) = ds_binding (cn_transport cn)"
  "pending_chunks (cn_transport (close_conn n s r cn)) = pending_chunks (cn_transport cn)"
  "cn_close_reason (close_conn n s r cn) \<noteq> None" "closing (cn_transport (close_conn n s r cn))"
  by (simp_all add: close_conn_def Let_def conn_frame)

lemma respond_cases:
  obtains d where "respond env i r cn = cn\<lparr>cn_transport := d\<rparr>" and "ds_binding d = ds_binding (cn_transport cn)"
    "pending_chunks d = pending_chunks (cn_transport cn)" "closing d = closing (cn_transport cn)"
  | d s t where "respond env i r cn = close_conn (ev_now env) s t (cn\<lparr>cn_transport := d\<rparr>)"
    "ds_binding d = ds_binding (cn_transport cn)" "pending_chunks d = pending_chunks (cn_transport cn)"
    "closing d = closing (cn_transport cn)"
proof -
  obtain a d where e: "enqueue (ev_fits env) i r (cn_transport cn) = (a, d)" by (cases "enqueue (ev_fits env) i r (cn_transport cn)")
  with enqueue_frame [of "ev_fits env" i r "cn_transport cn"] have
    "ds_binding d = ds_binding (cn_transport cn)" "pending_chunks d = pending_chunks (cn_transport cn)"
    "closing d = closing (cn_transport cn)" by simp_all
  with e that show thesis by (cases a) (simp_all add: respond_def)
qed

lemma respond_frame [conn_frame]:
  "cn_issued (respond env i r cn) = cn_issued cn" "cn_channel (respond env i r cn) = cn_channel cn"
  "cn_endpoints (respond env i r cn) = cn_endpoints cn" "cn_upstream (respond env i r cn) = cn_upstream cn"
  "cn_client (respond env i r cn) = cn_client cn" "cn_ended (respond env i r cn) = cn_ended cn"
  "ds_binding (cn_transport (respond env i r cn)) = ds_binding (cn_transport cn)"
  "pending_chunks (cn_transport (respond env i r cn)) = pending_chunks (cn_transport cn)"
  by (rule respond_cases [of env i r cn]; simp add: conn_frame)+

lemma reject_frame [conn_frame]:
  "cn_issued (reject env i h sr cn) = cn_issued cn" "cn_channel (reject env i h sr cn) = cn_channel cn"
  "cn_endpoints (reject env i h sr cn) = cn_endpoints cn" "cn_upstream (reject env i h sr cn) = cn_upstream cn"
  "cn_client (reject env i h sr cn) = cn_client cn"
  "ds_binding (cn_transport (reject env i h sr cn)) = ds_binding (cn_transport cn)"
  "pending_chunks (cn_transport (reject env i h sr cn)) = pending_chunks (cn_transport cn)"
  by (simp_all add: reject_def conn_frame)

section \<open>The invariant of a connection\<close>

definition meets :: "sec \<Rightarrow> target_config \<Rightarrow> channel \<Rightarrow> upstream \<Rightarrow> bool" where
  "meets S tg ch u \<longleftrightarrow> ep_policy S (up_endpoint u) = ch_policy ch \<and> ep_mode (up_endpoint u) = ch_mode ch \<and>
     t_min_security tg \<le> security_of S (up_endpoint u)"

definition conn_inv :: "sec \<Rightarrow> target_config \<Rightarrow> 'a connection \<Rightarrow> bool" where
  "conn_inv S tg cn \<longleftrightarrow>
     (ds_binding (cn_transport cn) = None \<longleftrightarrow> \<not> cn_issued cn) \<and>
     (\<not> cn_issued cn \<longrightarrow> cn_upstream cn = None \<and> pending_chunks (cn_transport cn) = []) \<and>
     (\<forall>b. ds_binding (cn_transport cn) = Some b \<longrightarrow> from_uri S (fst b) = ch_policy (cn_channel cn)) \<and>
     (cn_issued cn \<longrightarrow> consistent_mode (ch_mode (cn_channel cn)) (ch_policy (cn_channel cn))) \<and>
     (\<forall>u. cn_upstream cn = Some u \<longrightarrow> meets S tg (cn_channel cn) u) \<and>
     (\<forall>e \<in> set (cn_endpoints cn). t_min_security tg \<le> security_of S e) \<and>
     user (cn_client cn) = None \<and> session_id (cn_client cn) = None"

lemma conn_inv_answers [simp]:
  "conn_inv S tg (respond env i r cn) = conn_inv S tg cn"
  "conn_inv S tg (close_conn n s t cn) = conn_inv S tg cn"
  "conn_inv S tg (reject env i h sr cn) = conn_inv S tg cn"
  by (simp_all add: conn_inv_def conn_frame)

text \<open>What is fixed once the channel is issued.\<close>

definition fixed_security :: "'a connection \<Rightarrow> security_policy \<times> security_mode \<times> (string \<times> string) option" where
  "fixed_security cn = (ch_policy (cn_channel cn), ch_mode (cn_channel cn), ds_binding (cn_transport cn))"

lemma fixed_security_answers [simp]:
  "fixed_security (respond env i r cn) = fixed_security cn"
  "fixed_security (close_conn n s t cn) = fixed_security cn"
  "fixed_security (reject env i h sr cn) = fixed_security cn"
  by (simp_all add: fixed_security_def conn_frame)

definition keeps_security :: "'a connection \<Rightarrow> 'a connection \<Rightarrow> bool" where
  "keeps_security cn cn' \<longleftrightarrow> (cn_issued cn \<longrightarrow> cn_issued cn' \<and> fixed_security cn' = fixed_security cn)"

lemma keeps_security_refl [simp]: "keeps_security cn cn"
  by (simp add: keeps_security_def)

lemma ended_inv [simp]:
  "conn_inv S tg (cn\<lparr>cn_ended := e\<rparr>) = conn_inv S tg cn" "keeps_security a (cn\<lparr>cn_ended := e\<rparr>) = keeps_security a cn"
  by (simp_all add: conn_inv_def keeps_security_def fixed_security_def)

lemma keeps_security_trans: "keeps_security a b \<Longrightarrow> keeps_security b c \<Longrightarrow> keeps_security a c"
  by (auto simp: keeps_security_def)

lemma keeps_answers [simp]:
  "keeps_security a (respond env i r cn) = keeps_security a cn"
  "keeps_security a (close_conn n s t cn) = keeps_security a cn"
  "keeps_security a (reject env i h sr cn) = keeps_security a cn"
  by (simp_all add: keeps_security_def conn_frame)

section \<open>The upstream channel\<close>

lemma at_least_min: "e \<in> set (at_least S es m) \<Longrightarrow> m \<le> security_of S e"
  by (simp add: at_least_def)

lemma refresh_inv:
  assumes "refresh_endpoints S tg env cn = (r, cn1)" and "conn_inv S tg cn"
  shows "conn_inv S tg cn1 \<and> keeps_security cn cn1 \<and> cn_channel cn1 = cn_channel cn \<and> cn_issued cn1 = cn_issued cn \<and>
    cn_transport cn1 = cn_transport cn \<and> cn_upstream cn1 = cn_upstream cn \<and> cn_client cn1 = cn_client cn \<and>
    cn_close_reason cn1 = cn_close_reason cn"
  using assms
  by (auto simp: refresh_endpoints_def upstream_endpoints_def conn_inv_def keeps_security_def fixed_security_def
      dest: at_least_min split: sum.splits if_splits option.splits)

definition starts_in :: "'n conn_effect list \<Rightarrow> ctx list" where
  "starts_in effs = List.map_filter (\<lambda>e. case e of CStart x _ _ \<Rightarrow> Some x | _ \<Rightarrow> None) effs"

lemma starts_in_simps [simp]:
  "starts_in [] = []" "starts_in (a @ b) = starts_in a @ starts_in b"
  "starts_in (CStart x m q # effs) = x # starts_in effs" "starts_in (CRecord e # effs) = starts_in effs"
  "starts_in (CTrust t # effs) = starts_in effs" "starts_in (CInfo n i # effs) = starts_in effs"
  "starts_in (CGone n # effs) = starts_in effs"
  by (simp_all add: starts_in_def map_filter_def)

lemma upstream_connect_endpoint: "upstream_connect S K env e = Inr u \<Longrightarrow> up_endpoint u = e"
  by (auto simp: upstream_connect_def Let_def split: if_splits option.splits)

lemma upstream_refusal_starts [simp]: "starts_in (upstream_refusal tg env c err) = []"
  by (simp add: upstream_refusal_def split: upstream_error.split)

lemma matching_upstream_Some:
  "matching_upstream S es p m = Some e \<Longrightarrow> e \<in> set es \<and> ep_mode e = m \<and> ep_policy S e = p"
  unfolding matching_upstream_def by (auto dest: find_Some_in)

lemma ensure_upstream_inv:
  fixes effs :: "'n conn_effect list"
  assumes "ensure_upstream S K tg env cn = (r, cn1, effs)" and "conn_inv S tg cn" and "cn_issued cn"
  shows "conn_inv S tg cn1 \<and> keeps_security cn cn1 \<and> cn_issued cn1 \<and> starts_in effs = [] \<and> (\<forall>u. r = Inr u \<longrightarrow> cn_upstream cn1 = Some u)"
proof (cases "cn_upstream cn")
  case (Some u)
  with assms show ?thesis by (auto simp: ensure_upstream_def)
next
  case None
  obtain s cn2 where s: "(if cn_endpoints cn = [] then refresh_endpoints S tg env cn else (None, cn)) = (s, cn2)"
    by fastforce
  with assms have 2: "conn_inv S tg cn2 \<and> keeps_security cn cn2 \<and> cn_issued cn2"
    by (auto split: if_splits dest: refresh_inv)
  show ?thesis
  proof (cases "s = None \<and> (\<exists>e u. matching_upstream S (cn_endpoints cn2) (ch_policy (cn_channel cn2)) (ch_mode (cn_channel cn2)) = Some e \<and>
      upstream_connect S K env e = Inr u)")
    case True
    then obtain e u where e: "s = None"
      "matching_upstream S (cn_endpoints cn2) (ch_policy (cn_channel cn2)) (ch_mode (cn_channel cn2)) = Some e"
      "upstream_connect S K env e = Inr u" by blast
    with assms(1) None s have res: "r = Inr u" "cn1 = cn2\<lparr>cn_upstream := Some u\<rparr>" "effs = []"
      by (simp_all add: ensure_upstream_def)
    have "meets S tg (cn_channel cn2) u"
      using matching_upstream_Some [OF e(2)] upstream_connect_endpoint [OF e(3)] 2 by (simp add: meets_def conn_inv_def)
    with 2 show ?thesis by (simp add: res conn_inv_def keeps_security_def fixed_security_def)
  next
    case False
    with assms(1) None s have "cn1 = cn2" "starts_in effs = []" "\<nexists>u. r = Inr u"
      by (auto simp: ensure_upstream_def split: option.splits sum.splits)
    with 2 show ?thesis by simp
  qed
qed

section \<open>Opening keeps the invariant\<close>

lemma check_trust_inv:
  assumes "check_trust K tg env der reason i cn = (r, cn1, effs)" and "conn_inv S tg cn"
  shows "conn_inv S tg cn1 \<and> keeps_security cn cn1 \<and> starts_in effs = [] \<and> cn_issued cn1 = cn_issued cn \<and>
    cn_channel cn1 = cn_channel cn \<and> cn_transport cn1 = cn_transport cn"
  using assms
  by (auto simp: check_trust_def check_client_certificate_def cn_record_def Let_def conn_inv_def keeps_security_def
      fixed_security_def split: option.splits if_splits)

definition may_open :: "open_request \<Rightarrow> 'a connection \<Rightarrow> bool" where
  "may_open r cn \<longleftrightarrow> (if oq_renew r then cn_issued cn \<and> oq_mode r = ch_mode (cn_channel cn)
     else \<not> cn_issued cn \<and> consistent_mode (oq_mode r) (ch_policy (cn_channel cn)))"

lemma renew_allowed_inv:
  fixes effs :: "'n conn_effect list"
  assumes "renew_allowed K tg env der r cn = (res, cn1, effs)" and "conn_inv S tg cn" and "oq_renew r"
  shows "conn_inv S tg cn1 \<and> keeps_security cn cn1 \<and> starts_in effs = [] \<and> cn_channel cn1 = cn_channel cn \<and>
    (\<forall>i. res = Inr i \<longrightarrow> may_open r cn1)"
  using assms
  by (auto simp: renew_allowed_def may_open_def split: if_splits dest: check_trust_inv)

lemma issue_allowed_inv:
  fixes effs :: "'n conn_effect list"
  assumes "issue_allowed S K tg g env der r cn = (res, cn1, effs)" and inv: "conn_inv S tg cn" and "\<not> oq_renew r"
  shows "conn_inv S tg cn1 \<and> keeps_security cn cn1 \<and> starts_in effs = [] \<and> cn_channel cn1 = cn_channel cn \<and>
    (\<forall>i. res = Inr i \<longrightarrow> may_open r cn1)"
proof -
  obtain s cn2 where 2: "refresh_endpoints S tg env cn = (s, cn2)" by fastforce
  note refresh = refresh_inv [OF 2 inv]
  show ?thesis
  proof (cases "cn_issued cn \<or> \<not> consistent_mode (oq_mode r) (ch_policy (cn_channel cn)) \<or>
      (\<not> is_offered S g (cn_endpoints cn2) (ch_policy (cn_channel cn2)) (oq_mode r) \<and> ch_policy (cn_channel cn2) \<noteq> PolicyNone)")
    case True
    with assms(1) 2 inv refresh have "(cn1 = cn \<or> cn1 = cn2) \<and> effs = [] \<and> (\<nexists>i. res = Inr i)"
      by (auto simp: issue_allowed_def Let_def split: if_splits)
    with inv refresh show ?thesis by auto
  next
    case False
    with assms(1) 2 have "check_trust K tg env der ''client certificate rejected'' (ev_channel_id env) cn2 = (res, cn1, effs)"
      by (auto simp: issue_allowed_def Let_def split: if_splits)
    from check_trust_inv [OF this, of S] refresh False assms(3) show ?thesis
      by (auto simp: may_open_def intro: keeps_security_trans)
  qed
qed

lemma open_setup_security:
  "open_setup env der r i ch = (s, ch1) \<Longrightarrow> ch_policy ch1 = ch_policy ch \<and> ch_mode ch1 = oq_mode r"
  by (auto simp: open_setup_def Let_def split: sum.splits option.splits)

lemma finish_open_inv:
  fixes effs :: "'n conn_effect list"
  assumes "finish_open S tg env i hdr r cid cn = (cn1, effs)" and inv: "conn_inv S tg cn" and may: "may_open r cn"
    and uri: "\<not> cn_issued cn \<Longrightarrow> from_uri S (fst hdr) = ch_policy (cn_channel cn)"
  shows "conn_inv S tg cn1 \<and> keeps_security cn cn1 \<and> starts_in effs = []"
proof -
  obtain s ch where ch: "open_setup env (snd hdr) r cid (cn_channel cn) = (s, ch)" by fastforce
  note sec = open_setup_security [OF ch]
  show ?thesis
  proof (cases "s = None \<and> \<not> oq_renew r")
    case True
    with may have ni: "\<not> cn_issued cn" "consistent_mode (oq_mode r) (ch_policy (cn_channel cn))" by (simp_all add: may_open_def)
    from True assms(1) ch ni uri sec inv show ?thesis
      by (auto simp: finish_open_def Let_def cn_record_def conn_inv_def conn_frame keeps_security_def)
  next
    case False
    with assms(1) ch inv may sec show ?thesis
      by (auto simp: finish_open_def Let_def conn_inv_def conn_frame keeps_security_def fixed_security_def may_open_def meets_def
          split: option.splits if_splits)
  qed
qed

lemma open_secure_channel_inv:
  fixes effs :: "'n conn_effect list"
  assumes "open_secure_channel S K tg g env i header r cn = (cn1, effs)" and inv: "conn_inv S tg cn"
    and uri: "\<And>h. \<not> cn_issued cn \<Longrightarrow> header = Some h \<Longrightarrow> from_uri S (fst h) = ch_policy (cn_channel cn)"
  shows "conn_inv S tg cn1 \<and> keeps_security cn cn1 \<and> starts_in effs = []"
proof (cases "\<exists>h. header = Some h \<and> oq_version r = protocol_version (cn_transport cn)")
  case False
  with assms(1) inv show ?thesis by (auto simp: open_secure_channel_def split: option.splits)
next
  case True
  then obtain h where h: "header = Some h" "oq_version r = protocol_version (cn_transport cn)" by blast
  obtain res cn2 and effs2 :: "'n conn_effect list" where a: "(if oq_renew r then renew_allowed K tg env (snd h) r cn
      else issue_allowed S K tg g env (snd h) r cn) = (res, cn2, effs2)" by (metis prod_cases3)
  then have 2: "conn_inv S tg cn2 \<and> keeps_security cn cn2 \<and> starts_in effs2 = [] \<and> cn_channel cn2 = cn_channel cn \<and>
      (\<forall>i. res = Inr i \<longrightarrow> may_open r cn2)"
    by (cases "oq_renew r")
      (use inv renew_allowed_inv [of K tg env "snd h" r cn res cn2 effs2 S]
         issue_allowed_inv [of S K tg g env "snd h" r cn res cn2 effs2] in simp_all)
  show ?thesis
  proof (cases res)
    case (Inl sr)
    with assms(1) h a 2 show ?thesis by (cases "oq_renew r") (auto simp: open_secure_channel_def)
  next
    case (Inr cid)
    obtain cn3 and effs3 :: "'n conn_effect list" where f: "finish_open S tg env i h r cid cn2 = (cn3, effs3)" by fastforce
    have "\<not> cn_issued cn2 \<Longrightarrow> from_uri S (fst h) = ch_policy (cn_channel cn2)"
      using uri h 2 by (auto simp: keeps_security_def)
    from finish_open_inv [OF f _ _ this] 2 Inr
    have "conn_inv S tg cn3 \<and> keeps_security cn2 cn3 \<and> starts_in effs3 = []" by auto
    with assms(1) h a Inr f 2 show ?thesis
      by (cases "oq_renew r") (auto simp: open_secure_channel_def intro: keeps_security_trans)
  qed
qed

section \<open>Handling keeps the invariant\<close>

text \<open>A started request carries the channel's security, an upstream channel that meets it, and nobody's
  name: the user comes from the session.\<close>

definition context_ok :: "sec \<Rightarrow> target_config \<Rightarrow> ctx \<Rightarrow> bool" where
  "context_ok S tg x \<longleftrightarrow> cx_target x = tg \<and> upstream_policy S (cx_upstream x) = cx_policy x \<and>
     ep_mode (up_endpoint (cx_upstream x)) = cx_mode x \<and> consistent_mode (cx_mode x) (cx_policy x) \<and>
     t_min_security tg \<le> security_of S (up_endpoint (cx_upstream x)) \<and>
     user (cx_client x) = None \<and> session_id (cx_client x) = None"

lemma start_request_inv:
  fixes effs :: "'n conn_effect list"
  assumes "start_request S K tg g env i msg cn = (cn1, effs)" and inv: "conn_inv S tg cn" and iss: "cn_issued cn"
  shows "conn_inv S tg cn1 \<and> keeps_security cn cn1 \<and> list_all (context_ok S tg) (starts_in effs)"
proof -
  obtain r cn2 and effs2 :: "'n conn_effect list" where e: "ensure_upstream S K tg env cn = (r, cn2, effs2)" by (metis prod_cases3)
  note up = ensure_upstream_inv [OF e inv iss]
  show ?thesis
  proof (cases r)
    case (Inl s)
    with assms(1) e up show ?thesis by (auto simp: start_request_def)
  next
    case (Inr u)
    with up have u: "cn_upstream cn2 = Some u" "conn_inv S tg cn2" "cn_issued cn2" by auto
    then have "context_ok S tg (request_ctx tg g u cn2)"
      by (simp add: context_ok_def request_ctx_def upstream_policy_def conn_inv_def meets_def)
    with assms(1) e up Inr show ?thesis
      by (auto simp: start_request_def conn_inv_def keeps_security_def fixed_security_def)
  qed
qed

lemma handle_inv:
  fixes effs :: "'n conn_effect list"
  assumes "handle S K tg g env i header msg cn = (cn1, effs)" and inv: "conn_inv S tg cn"
    and uri: "\<And>h. \<not> cn_issued cn \<Longrightarrow> header = Some h \<Longrightarrow> from_uri S (fst h) = ch_policy (cn_channel cn)"
  shows "conn_inv S tg cn1 \<and> keeps_security cn cn1 \<and> list_all (context_ok S tg) (starts_in effs)"
proof (cases "cn_close_reason cn = None \<and> (cn_issued cn \<or> (\<exists>r. msg = MOpen r))")
  case False
  with assms(1) inv show ?thesis by (auto simp: handle_def split: if_splits message.splits)
next
  case True
  then have h: "handle_message S K tg g env i header msg cn = (cn1, effs)"
    using assms(1) by (auto simp: handle_def split: message.splits)
  have start: "handle_message S K tg g env i header msg cn = start_request S K tg g env i msg cn \<Longrightarrow> cn_issued cn \<Longrightarrow> ?thesis"
    using h start_request_inv [of S K tg g env i msg cn cn1 effs] inv by simp
  show ?thesis
  proof (cases msg)
    case (MOpen r)
    with h have "open_secure_channel S K tg g env i header r cn = (cn1, effs)" by (simp add: handle_message_def)
    from open_secure_channel_inv [OF this inv uri] show ?thesis by simp
  next
    case (MClose q)
    with h inv show ?thesis by (auto simp: handle_message_def conn_inv_def keeps_security_def fixed_security_def)
  next
    case (MGetEndpoints q url)
    with h inv show ?thesis by (auto simp: handle_message_def split: prod.splits option.splits dest: refresh_inv)
  next
    case (MFindServers q url)
    with h inv show ?thesis by (auto simp: handle_message_def)
  next
    case (MUnsupported q)
    with h inv show ?thesis by (auto simp: handle_message_def)
  qed (use True start in \<open>auto simp: handle_message_def\<close>)
qed

section \<open>What arrives keeps the invariant\<close>

lemma verify_policy_only:
  assumes "channel_laws S L" and "tk_verify L c s = (r, c1)"
  shows "c1 = c\<lparr>ch_policy := ch_policy c1\<rparr>"
proof -
  from assms obtain q where "c1 = c\<lparr>ch_policy := q\<rparr>" unfolding channel_laws_def by (metis snd_conv)
  then show ?thesis by simp
qed

text \<open>A bound channel stays as it is: a renewal was compared with the binding before the library saw it.\<close>

lemma process_keeps_channel:
  assumes L: "channel_laws S L" and p: "process L f c d = (r, c1, d1)"
    and b: "ds_binding d = Some b" "from_uri S (fst b) = ch_policy c"
  shows "c1 = c"
proof (cases "\<exists>s opn fin. f = Chunk s \<and> tk_header L s = Inr (opn, fin) \<and> refused_early L opn s d = None \<and> fin \<noteq> FinalError")
  case False
  with p show ?thesis
    by (cases f) (auto simp: process_def split: sum.splits option.splits if_splits prod.splits)
next
  case True
  then obtain s opn fin where s: "f = Chunk s" "tk_header L s = Inr (opn, fin)" "refused_early L opn s d = None" "fin \<noteq> FinalError"
    by blast
  obtain v c2 where v: "tk_verify L c s = (v, c2)" by (cases "tk_verify L c s")
  with p s have c1: "c1 = c2" by (auto simp: process_def split: sum.splits prod.splits)
  have opn: "opens_channel L s = opn" by (simp add: opens_channel_def s)
  have "ch_policy c2 = ch_policy c"
  proof (cases opn)
    case False
    with L v opn show ?thesis unfolding channel_laws_def by (metis snd_conv)
  next
    case True
    with s(3) b(1) have "\<forall>h. tk_security_header L s = Inr (Some h) \<longrightarrow> fst h = fst b"
      by (auto simp: refused_early_def check_renewal_def split: sum.splits option.splits if_splits)
    moreover have "ch_policy c2 = ch_policy c \<or> (\<exists>h. tk_security_header L s = Inr (Some h) \<and> ch_policy c2 = from_uri S (fst h))"
      using L v opn True unfolding channel_laws_def by (metis snd_conv)
    ultimately show ?thesis using b(2) by auto
  qed
  with verify_policy_only [OF L v] c1 show ?thesis by simp
qed

text \<open>The first request of a connection carries the header whose policy the channel now has.\<close>

lemma process_first_request:
  assumes L: "channel_laws S L" and p: "process L f c d = (Inr q, c1, d1)"
    and d: "ds_binding d = None" "pending_chunks d = []"
  shows "case q of None \<Rightarrow> pending_chunks d1 = []
    | Some (m, i, h) \<Rightarrow> \<exists>h'. h = Some h' \<and> from_uri S (fst h') = ch_policy c1"
proof -
  from p obtain s opn fin where s: "f = Chunk s" "tk_header L s = Inr (opn, fin)" "refused_early L opn s d = None"
    by (cases f) (auto simp: process_def split: sum.splits option.splits)
  with d have opn: "opn" by (simp add: refused_early_def split: if_splits)
  show ?thesis
  proof (cases "fin = FinalError")
    case True
    with p s show ?thesis by (auto simp: process_def clear_pending_def)
  next
    case False
    obtain v c2 where v: "tk_verify L c s = (v, c2)" by (cases "tk_verify L c s")
    with p s False obtain data where data: "v = Inr data" "c1 = c2" "take_chunk L fin data c2 d = (Inr q, d1)"
      by (cases v) (auto simp: process_def split: prod.splits)
    have "fin \<noteq> Intermediate" using L s opn unfolding channel_laws_def by auto
    with data(3) d have "decode_request L c2 (d\<lparr>pending_bytes := pending_bytes d1, sequence := sequence d1, pending_chunks := [data]\<rparr>) = map_sum id the (Inr q) \<and> q \<noteq> None"
      by (auto simp: take_chunk_def Let_def map_sum_def split: if_splits sum.splits)
    then obtain m i n h where q: "q = Some (m, i, h)" "tk_info L c2 data = Inr (n, i, h)"
      by (cases q) (auto simp: decode_request_def split: sum.splits option.splits)
    have "opens_channel L s" by (simp add: opens_channel_def s opn)
    with L v data q obtain h' where "h = Some h'" "from_uri S (fst h') = ch_policy c2"
      unfolding channel_laws_def by (metis fst_conv snd_conv)
    with q data(2) show ?thesis by (cases h') auto
  qed
qed

lemma receive_transport:
  assumes L: "channel_laws S L" and inv: "conn_inv S tg cn"
    and h: "handle_incoming L inc (cn_channel cn) (cn_transport cn) = (res, ch, d)"
  shows "conn_inv S tg (cn\<lparr>cn_channel := ch, cn_transport := d\<rparr>) \<and> keeps_security cn (cn\<lparr>cn_channel := ch, cn_transport := d\<rparr>) \<and>
    (\<forall>m i hd. res = PRequest m i (Some hd) \<longrightarrow> \<not> cn_issued cn \<longrightarrow> from_uri S (fst hd) = ch_policy ch)"
proof (cases inc)
  case (Arrived f)
  obtain r c1 d1 where p: "process L f (cn_channel cn) (cn_transport cn) = (r, c1, d1)" by (metis prod_cases3)
  note lim = process_limits [OF p]
  have ch: "ch = c1" and d: "d = d1 \<or> d = clear_pending d1" and dr: "r \<noteq> Inr None \<Longrightarrow> d = clear_pending d1"
    and res: "\<And>m i hd. res = PRequest m i hd \<longleftrightarrow> r = Inr (Some (m, i, hd))"
    using h p Arrived by (auto simp: handle_incoming_def split: sum.splits option.splits)
  have binding: "ds_binding d = ds_binding (cn_transport cn)" using d lim by (auto simp: clear_pending_def)
  show ?thesis
  proof (cases "ds_binding (cn_transport cn)")
    case (Some b)
    with inv have "from_uri S (fst b) = ch_policy (cn_channel cn)" and iss: "cn_issued cn" by (auto simp: conn_inv_def)
    with process_keeps_channel [OF L p Some] have "ch = cn_channel cn" by (simp add: ch)
    with inv binding iss show ?thesis by (simp add: conn_inv_def keeps_security_def fixed_security_def)
  next
    case None
    with inv have iss: "\<not> cn_issued cn" and pend: "pending_chunks (cn_transport cn) = []" by (auto simp: conn_inv_def)
    note first = process_first_request [OF L _ None pend]
    have "pending_chunks d = []"
    proof (cases "r = Inr None")
      case True
      with first [of f "cn_channel cn" None c1 d1] p d show ?thesis by (auto simp: clear_pending_def)
    qed (simp add: dr clear_pending_def)
    moreover have "\<And>m i hd. res = PRequest m i (Some hd) \<Longrightarrow> from_uri S (fst hd) = ch_policy ch"
      using first p by (fastforce simp: res ch)
    ultimately show ?thesis using inv binding iss by (simp add: conn_inv_def keeps_security_def None)
  qed
qed (use h inv in \<open>auto simp: handle_incoming_def\<close>)

definition step_ok :: "sec \<Rightarrow> target_config \<Rightarrow> 'a connection \<Rightarrow> 'a connection \<times> 'n conn_effect list \<Rightarrow> bool" where
  "step_ok S tg cn ce \<longleftrightarrow> conn_inv S tg (fst ce) \<and> keeps_security cn (fst ce) \<and> list_all (context_ok S tg) (starts_in (snd ce))"

lemma receive_inv:
  fixes L :: "(channel, 'n message) chunking"
  assumes L: "channel_laws S L" and inv: "conn_inv S tg cn"
  shows "step_ok S tg cn (receive S K L tg g env inc cn)"
proof -
  obtain res ch d where h: "handle_incoming L inc (cn_channel cn) (cn_transport cn) = (res, ch, d)" by (metis prod_cases3)
  note t = receive_transport [OF L inv h]
  show ?thesis
  proof (cases res)
    case (PRequest m i hdr)
    obtain cn1 and effs :: "'n conn_effect list" where
      e: "handle S K tg g env i hdr m (cn\<lparr>cn_channel := ch, cn_transport := d\<rparr>) = (cn1, effs)" by fastforce
    from handle_inv [OF e] t PRequest
    have "conn_inv S tg cn1 \<and> keeps_security (cn\<lparr>cn_channel := ch, cn_transport := d\<rparr>) cn1 \<and> list_all (context_ok S tg) (starts_in effs)"
      by auto
    with t h PRequest e show ?thesis by (auto simp: step_ok_def receive_def Let_def intro: keeps_security_trans)
  qed (simp_all add: step_ok_def receive_def Let_def h t)
qed

lemma conn_step_inv:
  fixes L :: "(channel, 'n message) chunking"
  assumes L: "channel_laws S L" and inv: "conn_inv S tg cn"
  shows "step_ok S tg cn (conn_step S K L tg g cn eo)"
proof -
  obtain env op where eo: "eo = (env, op)" by (cases eo)
  show ?thesis
  proof (cases op)
    case (Incoming inc)
    with receive_inv [OF L inv] inv show ?thesis by (auto simp: eo conn_step_def step_ok_def)
  next
    case TrustChanged
    with inv show ?thesis by (auto simp: eo conn_step_def step_ok_def split: option.splits)
  qed (use inv in \<open>auto simp: eo conn_step_def step_ok_def conn_inv_def keeps_security_def fixed_security_def conn_frame\<close>)
qed

text \<open>A run of the connection with its effects is a run of logged steps.\<close>

lemma conn_run_logged: "foldl (logged (conn_step S K L tg g)) (cn, effs) eos = apsnd ((@) effs) (conn_run S K L tg g cn eos)"
proof (induction eos arbitrary: cn effs)
  case (Cons eo eos)
  obtain cn1 e1 where 1: "conn_step S K L tg g cn eo = (cn1, e1)" by fastforce
  then have "logged (conn_step S K L tg g) (cn, effs) eo = (cn1, effs @ e1)" by (simp add: logged_def)
  then show ?case by (simp add: 1 Cons.IH split: prod.split)
qed simp

lemma logged_step_ok:
  fixes L :: "(channel, 'n message) chunking"
  assumes "channel_laws S L" and "conn_inv S tg (fst a)" and "a' = logged (conn_step S K L tg g) a eo"
  shows "conn_inv S tg (fst a')" and "keeps_security (fst a) (fst a')"
    and "list_all (context_ok S tg) (starts_in (snd a)) \<Longrightarrow> list_all (context_ok S tg) (starts_in (snd a'))"
  using conn_step_inv [OF assms(1,2), of K g eo] by (simp_all add: assms(3) step_ok_def)

interpretation connection: progress "logged (conn_step S K L tg g)" "\<lambda>eo. True"
  "\<lambda>a. channel_laws S L \<and> conn_inv S tg (fst a) \<and> list_all (context_ok S tg) (starts_in (snd a))"
  "\<lambda>a b. keeps_security (fst a) (fst b)" for S K L tg g
  by unfold_locales (blast intro: logged_step_ok keeps_security_refl keeps_security_trans)+

lemma conn_run_inv:
  fixes L :: "(channel, 'n message) chunking"
  assumes "channel_laws S L" and "conn_inv S tg cn"
  shows "step_ok S tg cn (conn_run S K L tg g cn eos)"
  using connection.fit_run_inv [of S L tg "(cn, [])" eos K g] connection.fit_run_rel [of S L tg "(cn, [])" eos K g] assms
  by (simp add: conn_run_logged step_ok_def list_all_iff)

lemma new_connection_inv:
  "accept_hello l f = Inr (ack, d) \<Longrightarrow> conn_inv S tg (new_connection l now i peer ch d)"
  by (auto simp: accept_hello_def new_connection_def conn_inv_def default_client_def Let_def split: first_frame.splits if_splits)

section \<open>Requests run on matching channels\<close>



section \<open>A closing connection ends\<close>

definition closes_at :: "time \<Rightarrow> 'a connection \<Rightarrow> bool" where
  "closes_at t cn \<longleftrightarrow> cn_ended cn \<or> (cn_close_reason cn \<noteq> None \<and> closing (cn_transport cn) \<and> cn_deadline cn = t)"

lemma close_conn_closes: "cn_close_reason cn = None \<Longrightarrow> closes_at (n + CLOSE_TIMEOUT) (close_conn n s r cn)"
  by (simp add: closes_at_def close_conn_def conn_frame)

lemma close_conn_again: "closes_at t cn \<Longrightarrow> closes_at t (close_conn n s r cn)"
  by (auto simp: closes_at_def close_conn_def Let_def conn_frame)

lemma closes_at_other [simp]:
  "closes_at t (cn\<lparr>cn_pending := p\<rparr>) = closes_at t cn" "closes_at t (cn\<lparr>cn_upstream := u\<rparr>) = closes_at t cn"
  "closes_at t (cn\<lparr>cn_ended := True\<rparr>)"
  by (simp_all add: closes_at_def)

lemma respond_closes: "closes_at t cn \<Longrightarrow> closes_at t (respond env i r cn)"
proof (rule respond_cases [of env i r cn])
  show "closes_at t (respond env i r cn)" if "closes_at t cn" "respond env i r cn = cn\<lparr>cn_transport := d\<rparr>"
    "closing d = closing (cn_transport cn)" for d
    using that by (simp add: closes_at_def)
  show "closes_at t (respond env i r cn)" if "closes_at t cn"
    "respond env i r cn = close_conn (ev_now env) s u (cn\<lparr>cn_transport := d\<rparr>)" "closing d = closing (cn_transport cn)" for d s u
    using that close_conn_again [of t "cn\<lparr>cn_transport := d\<rparr>"] by (simp add: closes_at_def)
qed

lemma conn_step_closes:
  assumes "closes_at t cn"
  shows "closes_at t (fst (conn_step S K L tg g cn eo)) \<and> snd (conn_step S K L tg g cn eo) = []"
proof (cases "cn_ended cn")
  case True
  with assms show ?thesis by (simp add: conn_step_def split: prod.splits)
next
  case False
  obtain env op where eo: "eo = (env, op)" by (cases eo)
  from assms False have "cn_close_reason cn \<noteq> None" "closing (cn_transport cn)" by (auto simp: closes_at_def)
  with assms False show ?thesis
    by (cases op) (auto simp: eo conn_step_def intro!: respond_closes close_conn_again)
qed

interpretation closing: stepper "logged (conn_step S K L tg g)" "\<lambda>a. closes_at t (fst a) \<and> snd a = []" for S K L tg g t
  by unfold_locales (auto simp: conn_step_closes)

lemma conn_run_closes:
  assumes "closes_at t cn"
  shows "closes_at t (fst (conn_run S K L tg g cn eos)) \<and> snd (conn_run S K L tg g cn eos) = []"
  using closing.run_inv [of t "(cn, [])" S K L tg g eos] assms by (simp add: conn_run_logged)

text \<open>When the target is stopped, or a certificate in use is no longer trusted, the connection starts
  no further request and records nothing more, and whatever the client does it has ended once five
  seconds have passed.\<close>

theorem stopped_connections_end:
  assumes "cn_close_reason cn = None"
    and "op = Shutdown \<or> (op = TrustChanged \<and> still_trusted S env cn \<noteq> None)"
    and "ev_now env + CLOSE_TIMEOUT \<le> ev_now later"
  shows "let (cn1, effs) = conn_run S K L tg g cn ((env, op) # eos) in
    effs = [] \<and> cn_ended (fst (conn_step S K L tg g cn1 (later, DeadlinePassed)))"
proof -
  have step: "closes_at (ev_now env + CLOSE_TIMEOUT) (fst (conn_step S K L tg g cn (env, op))) \<and>
      snd (conn_step S K L tg g cn (env, op)) = []"
    using assms(1,2) by (auto simp: conn_step_def close_conn_closes closes_at_def [of _ cn])
  note run = conn_run_closes [OF conjunct1 [OF step], of S K L tg g eos]
  have ends: "closes_at (ev_now env + CLOSE_TIMEOUT) cn1 \<Longrightarrow> cn_ended (fst (conn_step S K L tg g cn1 (later, DeadlinePassed)))" for cn1
    using assms(3) by (auto simp: conn_step_def closes_at_def)
  from step run ends show ?thesis by (auto split: prod.splits)
qed

text \<open>
  The five seconds do not hold for an OpenSecureChannel answer that cannot be encoded (the client's
  Hello may allow messages of one byte): the token's deadline replaces the one just set for closing.
\<close>

lemma failed_open_extends_closing:
  assumes "open_setup env (snd hdr) r cid (cn_channel cn) = (None, ch)"
    and "\<forall>q. ev_fits env q = Some (s, None)" and "cn_close_reason cn = None" and "\<not> oq_renew r"
  shows "let cn1 = fst (finish_open S tg env i hdr r cid cn) in
    cn_close_reason cn1 \<noteq> None \<and> cn_deadline cn1 = token_deadline (ev_now env) (token_lifetime (oq_lifetime r))"
  using assms
  by (simp add: finish_open_def respond_def enqueue_def close_conn_def Let_def)

lemma token_deadline_third:
  "token_deadline now (token_lifetime h) = now + int (token_lifetime h * 4 div 3) * 1000000 \<and> 13333 \<le> token_lifetime h * 4 div 3"
proof -
  have "10000 \<le> token_lifetime h"
    by (simp add: token_lifetime_def MIN_TOKEN_LIFETIME_MS_def MAX_TOKEN_LIFETIME_MS_def)
  then show ?thesis by (simp add: token_deadline_def)
qed

section \<open>A concrete connection\<close>

text \<open>A library that takes the chunk ''O'' for an OpenSecureChannel without security, anything else for a
  read; the target offers one endpoint without security.\<close>

definition plain_sec :: sec where
  "plain_sec = \<lparr>from_uri = (\<lambda>u. PolicyNone), supported = (\<lambda>p. True), policy_str = (\<lambda>p. ''None''), thumbprint = (\<lambda>c. None)\<rparr>"

definition plain_open :: open_request where
  "plain_open = \<lparr>oq_handle = 1, oq_version = 0, oq_renew = False, oq_mode = ModeNone, oq_nonce = [], oq_lifetime = 60000\<rparr>"

definition plain_read :: "nat request" where
  "plain_read = (\<lparr>rq_handle = 2, rq_token = 0, rq_timeout_hint = 0\<rparr>, OtherRequest ''Read'')"

definition plain_library :: "(channel, nat message) chunking" where
  "plain_library = \<lparr>tk_header = (\<lambda>s. Inr (s = ''O'', Final)),
     tk_security_header = (\<lambda>s. Inr (if s = ''O'' then Some ([], []) else None)),
     tk_verify = (\<lambda>c s. (Inr s, if s = ''O'' then c\<lparr>ch_policy := PolicyNone\<rparr> else c)),
     tk_info = (\<lambda>c s. Inr (0, 5, if s = ''O'' then Some ([], []) else None)), tk_next = (\<lambda>n k. Inr n),
     tk_validate = (\<lambda>c s. None),
     tk_decode = (\<lambda>c ss. Inr (if ss = [''O''] then MOpen plain_open else MForward plain_read))\<rparr>"

definition plain_crypt :: crypt where
  "plain_crypt = \<lparr>parse_cert = (\<lambda>d. None), uri_valid = (\<lambda>c u. True), verify_sig = (\<lambda>s p c n. s = n),
     sign = (\<lambda>p c n. Inr n), decrypt = (\<lambda>t n. None), encrypt = (\<lambda>p m tp n c pw. Inr (pw, []))\<rparr>"

definition plain_endpoint :: endpoint where
  "plain_endpoint = \<lparr>ep_url = ''u'', ep_server = \<lparr>ad_application_uri = [], ad_product_uri = [], ad_application_name = [],
       ad_is_server = True, ad_discovery_urls = None\<rparr>, ep_certificate = [], ep_mode = ModeNone, ep_policy_uri = [],
     ep_tokens = [], ep_transport = [], ep_level = 0\<rparr>"

definition plain_env :: "time \<Rightarrow> unit conn_env" where
  "plain_env t = \<lparr>ev_now = t, ev_time = t, ev_cached = [plain_endpoint], ev_discovered = None, ev_bad_cert = 0,
     ev_safe_name = (\<lambda>c. True), ev_trust = (\<lambda>c p. None), ev_connect = (\<lambda>e. None), ev_invalid_text = (\<lambda>s. s),
     ev_channel_id = 7, ev_set_cert = (\<lambda>d. Inr None), ev_nonce = (\<lambda>p n. None), ev_fits = (\<lambda>q. None),
     ev_status_text = (\<lambda>s. ''Bad'')\<rparr>"

definition plain_target :: target_config where
  "plain_target = \<lparr>t_name = ''t'', t_endpoint_url = ''u'', t_min_security = MinNone\<rparr>"

definition plain_gateway :: gateway_identity where
  "plain_gateway = \<lparr>gw_certificate = ''g'', gw_application_uri = [], gw_application_name = [], gw_server_name = []\<rparr>"

definition plain_channel :: channel where
  "plain_channel = \<lparr>ch_policy = PolicyNone, ch_mode = ModeNone, ch_cert = None, ch_remote_nonce = [], ch_id = 0\<rparr>"

definition open_ops :: "(unit conn_env \<times> unit conn_op) list" where
  "open_ops = [(plain_env 1, Incoming (Arrived (Chunk ''O'')))]"

definition read_ops :: "(unit conn_env \<times> unit conn_op) list" where
  "read_ops = [(plain_env 2, Incoming (Arrived (Chunk ''R'')))]"

lemma plain_laws: "channel_laws plain_sec plain_library"
  by (auto simp: channel_laws_def plain_sec_def plain_library_def opens_channel_def intro: exI [of _ PolicyNone])
    (metis channel.surjective channel.update_convs(1))

definition plain_start :: "unit connection" where
  "plain_start = new_connection default_limits 0 1 ''p'' plain_channel
     (case accept_hello default_limits (FirstHello True toy_hello) of Inr ad \<Rightarrow> snd ad
      | Inl _ \<Rightarrow> \<lparr>pending_chunks = [], pending_bytes = 0, ds_max_chunks = 0, ds_max_size = 0, max_frame = 0, send_max_message = 0,
          send_max_chunks = 0, sequence = None, closing = True, ds_binding = None, ds_url = [], protocol_version = 0, outbox = []\<rparr>)"

definition plain_run :: "unit connection \<Rightarrow> (unit conn_env \<times> unit conn_op) list \<Rightarrow> unit connection \<times> nat conn_effect list" where
  "plain_run = conn_run plain_sec plain_crypt plain_library plain_target plain_gateway"

definition plain_conn :: "unit connection" where
  "plain_conn = fst (plain_run plain_start open_ops)"

definition plain_served :: "nat conn_effect list" where
  "plain_served = serve_client plain_sec plain_crypt plain_library plain_target plain_gateway default_limits 0 1 ''p''
     plain_channel (FirstHello True toy_hello) (plain_env 3) (open_ops @ read_ops)"

lemma plain_env_simps [simp]:
  "ev_now (plain_env t) = t" "ev_time (plain_env t) = t" "ev_cached (plain_env t) = [plain_endpoint]"
  "ev_channel_id (plain_env t) = 7" "ev_set_cert (plain_env t) x = Inr None" "ev_nonce (plain_env t) p n = None"
  "ev_fits (plain_env t) q = None" "ev_connect (plain_env t) e = None"
  by (simp_all add: plain_env_def)

lemma plain_library_simps [simp]:
  "tk_header plain_library s = Inr (s = ''O'', Final)"
  "tk_security_header plain_library s = Inr (if s = ''O'' then Some ([], []) else None)"
  "tk_verify plain_library c s = (Inr s, if s = ''O'' then c\<lparr>ch_policy := PolicyNone\<rparr> else c)"
  "tk_info plain_library c s = Inr (0, 5, if s = ''O'' then Some ([], []) else None)"
  "tk_next plain_library n k = Inr n" "tk_validate plain_library c ss = None"
  "tk_decode plain_library c ss = Inr (if ss = [''O''] then MOpen plain_open else MForward plain_read)"
  by (simp_all add: plain_library_def)

lemma plain_endpoint_simps [simp]:
  "at_least plain_sec [plain_endpoint] MinNone = [plain_endpoint]" "ep_policy plain_sec e = PolicyNone"
  "ep_mode plain_endpoint = ModeNone" "t_min_security plain_target = MinNone" "supported plain_sec p"
  by (simp_all add: at_least_def less_eq_min_security_def plain_sec_def ep_policy_def plain_endpoint_def plain_target_def)

lemma plain_start_simps [simp]:
  "cn_ended plain_start = False" "cn_close_reason plain_start = None" "cn_issued plain_start = False"
  "ds_binding (cn_transport plain_start) = None" "pending_chunks (cn_transport plain_start) = []"
  "pending_bytes (cn_transport plain_start) = 0" "closing (cn_transport plain_start) = False"
  "protocol_version (cn_transport plain_start) = 0" "cn_channel plain_start = plain_channel"
  "ds_max_chunks (cn_transport plain_start) = 1024" "ds_max_size (cn_transport plain_start) = 8388608"
  "cn_endpoints plain_start = []" "cn_upstream plain_start = None"
  by (simp_all add: plain_start_def new_connection_def accept_hello_def toy_hello_def Let_def default_limits_def)

lemmas step_defs = conn_step_def receive_def handle_incoming_def process_def refused_early_def take_chunk_def
  decode_request_def clear_pending_def size_limit_def MAX_OPEN_SIZE_def handle_def handle_message_def Let_def
  respond_def enqueue_def

lemmas open_defs = open_secure_channel_def issue_allowed_def consistent_mode_def refresh_endpoints_def
  upstream_endpoints_def check_trust_def finish_open_def open_setup_def

lemma plain_conn_issued:
  "cn_issued plain_conn \<and> cn_close_reason plain_conn = None \<and> \<not> closing (cn_transport plain_conn) \<and> \<not> cn_ended plain_conn \<and>
   cn_endpoints plain_conn = [plain_endpoint] \<and> cn_upstream plain_conn = None \<and>
   ds_binding (cn_transport plain_conn) = Some ([], []) \<and> cn_channel plain_conn = plain_channel\<lparr>ch_id := 7\<rparr> \<and>
   pending_chunks (cn_transport plain_conn) = [] \<and> pending_bytes (cn_transport plain_conn) = 0 \<and>
   ds_max_chunks (cn_transport plain_conn) = 1024 \<and> ds_max_size (cn_transport plain_conn) = 8388608"
  by (simp add: plain_conn_def plain_run_def open_ops_def step_defs open_defs plain_open_def plain_channel_def)

lemma plain_read_starts: "length (starts_in (snd (plain_run plain_conn read_ops))) = 1"
  using plain_conn_issued
  by (simp add: plain_run_def read_ops_def step_defs start_request_def ensure_upstream_def refresh_endpoints_def
      upstream_endpoints_def matching_upstream_def upstream_connect_def plain_channel_def)

lemma conn_run_append:
  "conn_run S K L tg g cn (a @ b) =
     (fst (conn_run S K L tg g (fst (conn_run S K L tg g cn a)) b),
      snd (conn_run S K L tg g cn a) @ snd (conn_run S K L tg g (fst (conn_run S K L tg g cn a)) b))"
  by (induction a arbitrary: cn) (auto split: prod.splits)

lemma plain_served_starts: "1 \<le> length (starts_in plain_served)"
proof -
  have "starts_in plain_served = starts_in (snd (plain_run plain_start open_ops)) @ starts_in (snd (plain_run plain_conn read_ops))"
    unfolding plain_served_def serve_client_def plain_conn_def plain_start_def plain_run_def conn_run_append
    by (simp add: accept_hello_def toy_hello_def Let_def cn_record_def disconnect_def)
  then show ?thesis by (simp add: plain_read_starts)
qed



theorem stopped_connections_end_witness:
  "let (cn1, effs) = plain_run plain_conn ((plain_env 4, Shutdown) # read_ops)
   in effs = [] \<and> cn_ended (fst (conn_step plain_sec plain_crypt plain_library plain_target plain_gateway cn1
        (plain_env (4 + CLOSE_TIMEOUT), DeadlinePassed)))"
  using stopped_connections_end [of plain_conn Shutdown plain_sec "plain_env 4" "plain_env (4 + CLOSE_TIMEOUT)" plain_crypt
      plain_library plain_target plain_gateway read_ops] plain_conn_issued
  by (simp add: plain_run_def plain_env_def)

end
