(* ===== verification/Users.thy ===== *)
theory Users
  imports Prelude Text
begin

text \<open>
  The users of the web UI and their API tokens (src/users.rs): the tables \<open>users\<close> and
  \<open>api_tokens\<close> as lists of rows in insertion order, and every operation of \<open>UserStore\<close> on them. Each
  operation runs under the store's lock, so it is one function of the tables. Argon2, SHA-256, random
  bytes and the clock's text are arguments.
\<close>

section \<open>Roles\<close>

datatype role = Auditor | Operator | Admin

fun role_rank :: "role \<Rightarrow> nat" where
  "role_rank Auditor = 0" | "role_rank Operator = 1" | "role_rank Admin = 2"

lemma role_rank_inject: "role_rank a = role_rank b \<Longrightarrow> a = b"
  by (cases a; cases b) simp_all

text \<open>The derived \<open>Ord\<close>: a higher role may do everything a lower one may.\<close>

instantiation role :: linorder
begin

definition less_eq_role :: "role \<Rightarrow> role \<Rightarrow> bool" where
  "a \<le> b \<longleftrightarrow> role_rank a \<le> role_rank b"

definition less_role :: "role \<Rightarrow> role \<Rightarrow> bool" where
  "a < b \<longleftrightarrow> role_rank a < role_rank b"

instance
  by standard (auto simp: less_eq_role_def less_role_def intro: role_rank_inject)

end

lemma less_Admin: "r < Admin \<longleftrightarrow> r \<noteq> Admin"
  by (cases r) (simp_all add: less_role_def)

datatype users_error =
    UnknownRole string
  | BadUserName
  | ShortPassword
  | HashingFailed
  | UserExists string
  | NoUser string
  | WrongCurrent
  | CurrentNeeded
  | SamePassword
  | ChangedMeanwhile
  | NothingToChange
  | LastAdmin string
  | BadTokenName
  | UnknownScope string
  | TokenIdTaken
  | NoSuchToken

fun role_str :: "role \<Rightarrow> string" where
  "role_str Auditor = ''auditor''" | "role_str Operator = ''operator''" | "role_str Admin = ''admin''"

definition role_parse :: "string \<Rightarrow> users_error + role" where
  "role_parse s = (if s = ''auditor'' then Inr Auditor else if s = ''operator'' then Inr Operator
     else if s = ''admin'' then Inr Admin else Inl (UnknownRole s))"

lemma role_parse_str [simp]: "role_parse (role_str r) = Inr r"
  by (cases r) (simp_all add: role_parse_def)

lemma role_str_admin [simp]: "role_str r = ''admin'' \<longleftrightarrow> r = Admin"
  by (cases r) simp_all

definition MCP_SCOPES :: "string list" where
  "MCP_SCOPES = [''targets'', ''certificates'', ''settings'', ''alarms'']"

definition mcp_scope_role :: "string \<Rightarrow> role" where
  "mcp_scope_role s = (if s = ''alarms'' then Operator else Admin)"

section \<open>The tables\<close>

record user_row =
  ur_name :: string
  ur_hash :: string
  ur_role :: string
  ur_created :: string
  ur_must :: bool
  ur_epoch :: int

record token_row =
  ak_id :: string
  ak_user :: string
  ak_name :: string
  ak_hash :: string
  ak_created :: string
  ak_last_used :: "string option"
  ak_scopes :: string

record user_db =
  db_users :: "user_row list"
  db_tokens :: "token_row list"

record user_info =
  us_name :: string
  us_role :: role
  us_created :: string
  us_must :: bool

record session_state =
  ss_role :: role
  ss_epoch :: int
  ss_must :: bool

record api_token =
  at_id :: string
  at_name :: string
  at_scopes :: "string list"
  at_created :: string
  at_last_used :: "string option"

text \<open>Argon2 with a salt, its check of a stored hash (which fails on anything it cannot read), and the
  SHA-256 of a token in hex.\<close>

record hashing =
  hash_password :: "string \<Rightarrow> string \<Rightarrow> string option"
  verify_hash :: "string \<Rightarrow> string \<Rightarrow> bool"
  token_hash :: "string \<Rightarrow> string"

definition user_names :: "user_db \<Rightarrow> string list" where
  "user_names db = map ur_name (db_users db)"

definition find_user :: "string \<Rightarrow> user_db \<Rightarrow> user_row option" where
  "find_user u db = find (\<lambda>r. ur_name r = u) (db_users db)"

section \<open>Creating users\<close>

definition MIN_PASSWORD_LENGTH :: nat where "MIN_PASSWORD_LENGTH = 8"

definition name_char :: "char \<Rightarrow> bool" where
  "name_char c \<longleftrightarrow> (let n = of_char c :: nat in
     48 \<le> n \<and> n \<le> 57 \<or> 65 \<le> n \<and> n \<le> 90 \<or> 97 \<le> n \<and> n \<le> 122) \<or> c \<in> set ''._-@''"

definition valid_name :: "string \<Rightarrow> bool" where
  "valid_name u \<longleftrightarrow> u \<noteq> [] \<and> length u \<le> 64 \<and> list_all name_char u"

definition validate :: "string \<Rightarrow> string \<Rightarrow> users_error option" where
  "validate u p = (if \<not> valid_name u then Some BadUserName
     else if chars_count p < MIN_PASSWORD_LENGTH then Some ShortPassword else None)"

definition user_count :: "user_db \<Rightarrow> nat" where
  "user_count db = length (db_users db)"

definition create_with :: "hashing \<Rightarrow> string \<Rightarrow> string \<Rightarrow> string \<Rightarrow> string \<Rightarrow> role \<Rightarrow> bool \<Rightarrow> user_db
    \<Rightarrow> (users_error + unit) \<times> user_db" where
  "create_with H salt now u p r must db = (case validate u p of
     Some e \<Rightarrow> (Inl e, db)
   | None \<Rightarrow> (case hash_password H salt p of
       None \<Rightarrow> (Inl HashingFailed, db)
     | Some h \<Rightarrow>
         if u \<in> set (user_names db) then (Inl (UserExists u), db)
         else (Inr (), db\<lparr>db_users := db_users db @ [\<lparr>ur_name = u, ur_hash = h, ur_role = role_str r,
                ur_created = now, ur_must = must, ur_epoch = 0\<rparr>]\<rparr>)))"

definition create :: "hashing \<Rightarrow> string \<Rightarrow> string \<Rightarrow> string \<Rightarrow> string \<Rightarrow> role \<Rightarrow> user_db \<Rightarrow> (users_error + unit) \<times> user_db" where
  "create H salt now u p r db = create_with H salt now u p r False db"

definition create_initial_admin :: "hashing \<Rightarrow> string \<Rightarrow> string \<Rightarrow> string \<Rightarrow> user_db \<Rightarrow> (users_error + unit) \<times> user_db" where
  "create_initial_admin H salt now p db = create_with H salt now ''admin'' p Admin True db"

section \<open>Logging in\<close>

text \<open>\<open>verify\<close>: some hash is always checked, the dummy's for an unknown user.\<close>

definition verify_user :: "hashing \<Rightarrow> string \<Rightarrow> string \<Rightarrow> string \<Rightarrow> user_db \<Rightarrow> users_error + user_info option" where
  "verify_user H dummy u p db =
     (let row = find_user u db;
          ok = verify_hash H (case row of None \<Rightarrow> dummy | Some r \<Rightarrow> ur_hash r) p
      in case row of
           None \<Rightarrow> Inr None
         | Some r \<Rightarrow>
             if \<not> ok then Inr None
             else map_sum id (\<lambda>q. Some \<lparr>us_name = u, us_role = q, us_created = ur_created r, us_must = ur_must r\<rparr>)
                    (role_parse (ur_role r)))"

definition state_of :: "string \<Rightarrow> user_db \<Rightarrow> users_error + session_state option" where
  "state_of u db = (case find_user u db of
     None \<Rightarrow> Inr None
   | Some r \<Rightarrow> map_sum id (\<lambda>q. Some \<lparr>ss_role = q, ss_epoch = ur_epoch r, ss_must = ur_must r\<rparr>) (role_parse (ur_role r)))"

fun parse_rows :: "user_row list \<Rightarrow> users_error + user_info list" where
  "parse_rows [] = Inr []"
| "parse_rows (r # rs) = (case role_parse (ur_role r) of
     Inl e \<Rightarrow> Inl e
   | Inr q \<Rightarrow> map_sum id (Cons \<lparr>us_name = ur_name r, us_role = q, us_created = ur_created r, us_must = ur_must r\<rparr>) (parse_rows rs))"

definition list_users :: "user_db \<Rightarrow> users_error + user_info list" where
  "list_users db = parse_rows (sort_key ur_name (db_users db))"

section \<open>Changing users\<close>

definition update_users :: "(user_row \<Rightarrow> bool) \<Rightarrow> (user_row \<Rightarrow> user_row) \<Rightarrow> user_db \<Rightarrow> user_db" where
  "update_users P f db = db\<lparr>db_users := map (\<lambda>r. if P r then f r else r) (db_users db)\<rparr>"

definition change_own_password :: "hashing \<Rightarrow> string \<Rightarrow> string \<Rightarrow> string option \<Rightarrow> string \<Rightarrow> user_db
    \<Rightarrow> (users_error + unit) \<times> user_db" where
  "change_own_password H salt u current new db = (case validate u new of
     Some e \<Rightarrow> (Inl e, db)
   | None \<Rightarrow> (case find_user u db of
       None \<Rightarrow> (Inl (NoUser u), db)
     | Some r \<Rightarrow>
         (let refused = (case current of
                Some c \<Rightarrow> if \<not> verify_hash H (ur_hash r) c then Some WrongCurrent else None
              | None \<Rightarrow> if \<not> ur_must r then Some CurrentNeeded else None)
          in case refused of
               Some e \<Rightarrow> (Inl e, db)
             | None \<Rightarrow>
                 if verify_hash H (ur_hash r) new then (Inl SamePassword, db)
                 else (case hash_password H salt new of
                     None \<Rightarrow> (Inl HashingFailed, db)
                   | Some h \<Rightarrow>
                       (let P = (\<lambda>q. ur_name q = u \<and> ur_epoch q = ur_epoch r)
                        in if filter P (db_users db) = [] then (Inl ChangedMeanwhile, db)
                           else (Inr (), update_users P (\<lambda>q. q\<lparr>ur_hash := h, ur_must := False, ur_epoch := ur_epoch q + 1\<rparr>) db))))))"

definition ensure_admin_remains :: "string \<Rightarrow> role option \<Rightarrow> user_db \<Rightarrow> users_error option" where
  "ensure_admin_remains u new db =
     (if new = Some Admin then None
      else (let others = length (filter (\<lambda>r. ur_role r = ''admin'' \<and> ur_name r \<noteq> u) (db_users db));
                is_admin = (case find_user u db of Some r \<Rightarrow> ur_role r = ''admin'' | None \<Rightarrow> False)
            in if is_admin \<and> others = 0 then Some (LastAdmin u) else None))"

text \<open>The part of \<open>update\<close> on the role, and the part on the password, inside the transaction.\<close>

definition update_role :: "string \<Rightarrow> role \<Rightarrow> user_db \<Rightarrow> user_db \<times> string list" where
  "update_role u r db =
     (let db1 = update_users (\<lambda>q. ur_name q = u) (\<lambda>q. q\<lparr>ur_role := role_str r\<rparr>) db;
          P = (\<lambda>t. ak_user t = u \<and> ak_scopes t \<noteq> []);
          n = length (filter P (db_tokens db1))
      in if r < Admin
         then (db1\<lparr>db_tokens := map (\<lambda>t. if P t then t\<lparr>ak_scopes := []\<rparr> else t) (db_tokens db1)\<rparr>,
               (''role '' @ role_str r) # (if 0 < n then [nat_str n @ '' API token(s) now read only''] else []))
         else (db1, [''role '' @ role_str r]))"

definition update_password :: "string \<Rightarrow> string \<Rightarrow> bool \<Rightarrow> user_db \<Rightarrow> user_db \<times> string list" where
  "update_password u h must db =
     (let db1 = update_users (\<lambda>q. ur_name q = u) (\<lambda>q. q\<lparr>ur_hash := h, ur_must := must\<rparr>) db;
          n = length (filter (\<lambda>t. ak_user t = u) (db_tokens db1))
      in if must
         then (db1\<lparr>db_tokens := filter (\<lambda>t. ak_user t \<noteq> u) (db_tokens db1)\<rparr>,
               ''password'' # (if 0 < n then [nat_str n @ '' API token(s) deleted''] else []))
         else (db1, [''password'']))"

text \<open>The transaction: the role's part, the password's part, then the epoch.\<close>

definition update_tx :: "string \<Rightarrow> role option \<Rightarrow> string option \<Rightarrow> bool \<Rightarrow> user_db \<Rightarrow> user_db \<times> string list" where
  "update_tx u r h must db =
     (let (db1, c1) = (case r of Some q \<Rightarrow> update_role u q db | None \<Rightarrow> (db, []));
          (db2, c2) = (case h of Some x \<Rightarrow> update_password u x must db1 | None \<Rightarrow> (db1, []))
      in (update_users (\<lambda>q. ur_name q = u) (\<lambda>q. q\<lparr>ur_epoch := ur_epoch q + 1\<rparr>) db2, c1 @ c2))"

definition check_new_password :: "hashing \<Rightarrow> string \<Rightarrow> string \<Rightarrow> string option \<Rightarrow> users_error + string option" where
  "check_new_password H salt u p = (case p of
     None \<Rightarrow> Inr None
   | Some p \<Rightarrow> (case validate u p of
       Some e \<Rightarrow> Inl e
     | None \<Rightarrow> (case hash_password H salt p of None \<Rightarrow> Inl HashingFailed | Some h \<Rightarrow> Inr (Some h))))"

definition update_user :: "hashing \<Rightarrow> string \<Rightarrow> string \<Rightarrow> role option \<Rightarrow> string option \<Rightarrow> bool \<Rightarrow> user_db
    \<Rightarrow> (users_error + string list) \<times> user_db" where
  "update_user H salt u r p must db =
     (if r = None \<and> p = None then (Inl NothingToChange, db)
      else (case check_new_password H salt u p of
          Inl e \<Rightarrow> (Inl e, db)
        | Inr h \<Rightarrow>
            if u \<notin> set (user_names db) then (Inl (NoUser u), db)
            else (case (if r = None then None else ensure_admin_remains u r db) of
                Some e \<Rightarrow> (Inl e, db)
              | None \<Rightarrow> (case update_tx u r h must db of (db1, changes) \<Rightarrow> (Inr changes, db1)))))"

definition set_password :: "hashing \<Rightarrow> string \<Rightarrow> string \<Rightarrow> string \<Rightarrow> user_db \<Rightarrow> (users_error + unit) \<times> user_db" where
  "set_password H salt u p db = apfst (map_sum id (\<lambda>_. ())) (update_user H salt u None (Some p) False db)"

definition set_role :: "hashing \<Rightarrow> string \<Rightarrow> string \<Rightarrow> role \<Rightarrow> user_db \<Rightarrow> (users_error + unit) \<times> user_db" where
  "set_role H salt u r db = apfst (map_sum id (\<lambda>_. ())) (update_user H salt u (Some r) None False db)"

definition delete_user :: "string \<Rightarrow> user_db \<Rightarrow> (users_error + unit) \<times> user_db" where
  "delete_user u db = (case ensure_admin_remains u None db of
     Some e \<Rightarrow> (Inl e, db)
   | None \<Rightarrow>
       if u \<notin> set (user_names db) then (Inl (NoUser u), db)
       else (Inr (), db\<lparr>db_users := filter (\<lambda>r. ur_name r \<noteq> u) (db_users db),
                db_tokens := filter (\<lambda>t. ak_user t \<noteq> u) (db_tokens db)\<rparr>))"

section \<open>API tokens\<close>

definition split_scopes :: "string \<Rightarrow> string list" where
  "split_scopes s = filter (\<lambda>x. x \<in> set MCP_SCOPES) (split_on CHR '','' s)"

definition listed :: "token_row \<Rightarrow> api_token" where
  "listed t = \<lparr>at_id = ak_id t, at_name = ak_name t, at_scopes = split_scopes (ak_scopes t),
     at_created = ak_created t, at_last_used = ak_last_used t\<rparr>"

definition make_secret :: "string \<Rightarrow> string \<Rightarrow> string" where
  "make_secret i random = ''gwt_'' @ i @ ''_'' @ random"

text \<open>\<open>i\<close> and \<open>random\<close> are the hex texts of 6 and 32 random bytes.\<close>

definition create_token :: "hashing \<Rightarrow> string \<Rightarrow> string \<Rightarrow> string \<Rightarrow> string \<Rightarrow> string \<Rightarrow> string list \<Rightarrow> user_db
    \<Rightarrow> (users_error + api_token \<times> string) \<times> user_db" where
  "create_token H now i random u label0 scopes db =
     (let name = trim label0 in
      if name = [] \<or> 64 < chars_count name then (Inl BadTokenName, db)
      else (case find (\<lambda>s. s \<notin> set MCP_SCOPES) scopes of
          Some bad \<Rightarrow> (Inl (UnknownScope bad), db)
        | None \<Rightarrow>
            (let kept = remdups_adj (sort scopes); secret = make_secret i random;
                 row = \<lparr>ak_id = i, ak_user = u, ak_name = name, ak_hash = token_hash H secret, ak_created = now,
                        ak_last_used = None, ak_scopes = join_with CHR '','' kept\<rparr>
             in if u \<notin> set (user_names db) then (Inl (NoUser u), db)
                else if i \<in> set (map ak_id (db_tokens db)) then (Inl TokenIdTaken, db)
                else (Inr (\<lparr>at_id = i, at_name = name, at_scopes = kept, at_created = now, at_last_used = None\<rparr>, secret),
                      db\<lparr>db_tokens := db_tokens db @ [row]\<rparr>))))"

definition tokens_of :: "string \<Rightarrow> user_db \<Rightarrow> api_token list" where
  "tokens_of u db = map listed (sort_key ak_created (filter (\<lambda>t. ak_user t = u) (db_tokens db)))"

definition all_tokens :: "user_db \<Rightarrow> users_error + (string \<times> api_token) list" where
  "all_tokens db = map_sum id (\<lambda>us. concat (map (\<lambda>i. map (Pair (us_name i)) (tokens_of (us_name i) db)) us)) (list_users db)"

definition delete_token :: "string \<Rightarrow> string \<Rightarrow> user_db \<Rightarrow> (users_error + string) \<times> user_db" where
  "delete_token u i db = (case find (\<lambda>t. ak_id t = i \<and> ak_user t = u) (db_tokens db) of
     None \<Rightarrow> (Inl NoSuchToken, db)
   | Some t \<Rightarrow> (Inr (ak_name t), db\<lparr>db_tokens := filter (\<lambda>t. ak_id t \<noteq> i) (db_tokens db)\<rparr>))"

text \<open>Compares all bytes whatever they are; they are or-ed together.\<close>

definition constant_time_eq :: "string \<Rightarrow> string \<Rightarrow> bool" where
  "constant_time_eq a b \<longleftrightarrow> length a = length b \<and>
     foldl (\<lambda>acc (x, y). or acc (xor (of_char x) (of_char y))) (0 :: u8) (zip a b) = 0"

definition token_id :: "string \<Rightarrow> string option" where
  "token_id secret = (if starts_with secret ''gwt_'' then map_option fst (split_once CHR ''_'' (drop 4 secret)) else None)"

definition verify_token :: "hashing \<Rightarrow> string \<Rightarrow> string \<Rightarrow> user_db \<Rightarrow> (string \<times> string list) option \<times> user_db" where
  "verify_token H now secret db = (case token_id secret of
     None \<Rightarrow> (None, db)
   | Some i \<Rightarrow> (case find (\<lambda>t. ak_id t = i) (db_tokens db) of
       None \<Rightarrow> (None, db)
     | Some t \<Rightarrow>
         if \<not> constant_time_eq (ak_hash t) (token_hash H secret) then (None, db)
         else (Some (ak_user t, split_scopes (ak_scopes t)),
               db\<lparr>db_tokens := map (\<lambda>t. if ak_id t = i then t\<lparr>ak_last_used := Some now\<rparr> else t) (db_tokens db)\<rparr>)))"

definition ALPHABET :: string where
  "ALPHABET = ''abcdefghijkmnpqrstuvwxyzABCDEFGHJKLMNPQRSTUVWXYZ23456789''"

definition random_password :: "u8 list \<Rightarrow> string" where
  "random_password bs = map (\<lambda>b. ALPHABET ! (unat b mod length ALPHABET)) bs"

end
