(* ===== verification/Users_Safety.thy ===== *)
theory Users_Safety
  imports Users
begin

text \<open>
  What src/users.rs promises about accounts and tokens: whatever is done the tables stay well-formed and
  keep an administrator, a demotion or reset takes the account's rights away at once, and a token opens
  what it was created for.
\<close>

section \<open>Runs\<close>

datatype users_op =
    DoCreate string string string string role bool
  | DoInitial string string string
  | DoChangeOwn string string "string option" string
  | DoUpdate string string "role option" "string option" bool
  | DoDelete string
  | DoCreateToken string string string string string "string list"
  | DoDeleteToken string string
  | DoVerifyToken string string

definition users_step :: "hashing \<Rightarrow> user_db \<Rightarrow> users_op \<Rightarrow> user_db" where
  "users_step H db op = (case op of
     DoCreate salt now u p r must \<Rightarrow> snd (create_with H salt now u p r must db)
   | DoInitial salt now p \<Rightarrow> snd (create_initial_admin H salt now p db)
   | DoChangeOwn salt u c p \<Rightarrow> snd (change_own_password H salt u c p db)
   | DoUpdate salt u r p must \<Rightarrow> snd (update_user H salt u r p must db)
   | DoDelete u \<Rightarrow> snd (delete_user u db)
   | DoCreateToken now i random u name scopes \<Rightarrow> snd (create_token H now i random u name scopes db)
   | DoDeleteToken u i \<Rightarrow> snd (delete_token u i db)
   | DoVerifyToken now secret \<Rightarrow> snd (verify_token H now secret db))"

definition empty_db :: user_db where
  "empty_db = \<lparr>db_users = [], db_tokens = []\<rparr>"

section \<open>The tables stay well-formed\<close>

definition user_wf :: "user_row \<Rightarrow> bool" where
  "user_wf r \<longleftrightarrow> valid_name (ur_name r) \<and> (\<exists>q. ur_role r = role_str q)"

definition token_wf :: "user_db \<Rightarrow> token_row \<Rightarrow> bool" where
  "token_wf db t \<longleftrightarrow> ak_user t \<in> set (user_names db) \<and>
     (\<exists>ss. sorted ss \<and> distinct ss \<and> set ss \<subseteq> set MCP_SCOPES \<and> ak_scopes t = join_with CHR '','' ss)"

definition users_wf :: "user_db \<Rightarrow> bool" where
  "users_wf db \<longleftrightarrow> distinct (user_names db) \<and> (\<forall>r \<in> set (db_users db). user_wf r) \<and>
     distinct (map ak_id (db_tokens db)) \<and> (\<forall>t \<in> set (db_tokens db). token_wf db t)"

lemma update_users_names [simp]:
  "(\<And>r. ur_name (f r) = ur_name r) \<Longrightarrow> user_names (update_users P f db) = user_names db"
  by (induction "db_users db") (auto simp: user_names_def update_users_def)

lemma update_users_tokens [simp]: "db_tokens (update_users P f db) = db_tokens db"
  by (simp add: update_users_def)

lemma users_wf_update:
  assumes "users_wf db" and "\<And>r. ur_name (f r) = ur_name r" and "\<And>r. user_wf r \<Longrightarrow> user_wf (f r)"
  shows "users_wf (update_users P f db)"
proof -
  have names: "user_names (update_users P f db) = user_names db" by (simp add: assms(2))
  show ?thesis using assms(1,3) unfolding users_wf_def token_wf_def names
    by (auto simp: update_users_def)
qed

text \<open>Operations on the tokens alone.\<close>

lemma users_wf_tokens:
  assumes "users_wf db" and "distinct (map ak_id ts)"
    and "\<And>t. t \<in> set ts \<Longrightarrow> token_wf db t"
  shows "users_wf (db\<lparr>db_tokens := ts\<rparr>)"
  using assms by (simp add: users_wf_def token_wf_def user_names_def)

lemma users_wf_map_tokens:
  assumes "users_wf db" and "\<And>t. ak_id (g t) = ak_id t" and "\<And>t. token_wf db t \<Longrightarrow> token_wf db (g t)"
  shows "users_wf (db\<lparr>db_tokens := map g (db_tokens db)\<rparr>)"
proof (rule users_wf_tokens [OF assms(1)])
  have "map ak_id (map g (db_tokens db)) = map ak_id (db_tokens db)" by (simp add: assms(2))
  with assms(1) show "distinct (map ak_id (map g (db_tokens db)))" by (simp only: users_wf_def)
qed (use assms(1,3) in \<open>auto simp: users_wf_def\<close>)

lemma users_wf_drop_tokens: "users_wf db \<Longrightarrow> users_wf (db\<lparr>db_tokens := filter P (db_tokens db)\<rparr>)"
  by (rule users_wf_tokens) (auto simp: users_wf_def intro: distinct_map_filter)

lemma no_scopes_wf: "token_wf db t \<Longrightarrow> token_wf db (t\<lparr>ak_scopes := []\<rparr>)"
  by (auto simp: token_wf_def intro!: exI [of _ "[]"])

lemma update_role_wf: "users_wf db \<Longrightarrow> users_wf (fst (update_role u r db))"
proof -
  assume wf: "users_wf db"
  have "users_wf (update_users (\<lambda>q. ur_name q = u) (\<lambda>q. q\<lparr>ur_role := role_str r\<rparr>) db)"
    using wf by (rule users_wf_update) (auto simp: user_wf_def)
  then show ?thesis
    unfolding update_role_def Let_def by (auto intro!: users_wf_map_tokens no_scopes_wf simp del: update_users_tokens)
qed

lemma update_password_wf: "users_wf db \<Longrightarrow> users_wf (fst (update_password u h must db))"
proof -
  assume wf: "users_wf db"
  have "users_wf (update_users (\<lambda>q. ur_name q = u) (\<lambda>q. q\<lparr>ur_hash := h, ur_must := must\<rparr>) db)"
    using wf by (rule users_wf_update) (auto simp: user_wf_def)
  then show ?thesis
    unfolding update_password_def Let_def by (auto intro!: users_wf_drop_tokens simp del: update_users_tokens)
qed

lemma update_tx_wf: "users_wf db \<Longrightarrow> users_wf (fst (update_tx u r h must db))"
proof -
  assume wf: "users_wf db"
  have "users_wf (fst (case r of Some q \<Rightarrow> update_role u q db | None \<Rightarrow> (db, [])))" (is "users_wf (fst ?a)")
    using wf update_role_wf by (cases r) auto
  then have "users_wf (fst (case h of Some x \<Rightarrow> update_password u x must (fst ?a) | None \<Rightarrow> (fst ?a, [])))"
    using update_password_wf by (cases h) auto
  then have "users_wf (update_users (\<lambda>q. ur_name q = u) (\<lambda>q. q\<lparr>ur_epoch := ur_epoch q + 1\<rparr>)
      (fst (case h of Some x \<Rightarrow> update_password u x must (fst ?a) | None \<Rightarrow> (fst ?a, []))))"
    by (rule users_wf_update) (auto simp: user_wf_def)
  then show ?thesis by (simp add: update_tx_def Let_def case_prod_beta)
qed

lemma remdups_adj_sorted: "sorted (xs :: string list) \<Longrightarrow> distinct (remdups_adj xs)"
  by (induction xs rule: remdups_adj.induct) (auto dest: order_antisym)

lemma create_with_wf: "users_wf db \<Longrightarrow> users_wf (snd (create_with H salt now u p r must db))"
  by (auto simp: create_with_def users_wf_def user_wf_def token_wf_def user_names_def validate_def
      split: option.splits if_splits)

lemma change_own_wf: "users_wf db \<Longrightarrow> users_wf (snd (change_own_password H salt u c p db))"
  by (auto simp: change_own_password_def Let_def user_wf_def intro!: users_wf_update split: option.splits)

lemma delete_user_wf: "users_wf db \<Longrightarrow> users_wf (snd (delete_user u db))"
  by (auto simp: delete_user_def users_wf_def token_wf_def user_names_def intro: distinct_map_filter split: option.splits)

lemma create_token_wf: "users_wf db \<Longrightarrow> users_wf (snd (create_token H now i random u label0 scopes db))"
proof -
  assume wf: "users_wf db"
  let ?kept = "remdups_adj (sort scopes)"
  have kept: "sorted ?kept" "distinct ?kept" "set ?kept = set scopes"
    by (simp_all add: sorted_remdups_adj remdups_adj_sorted)
  show ?thesis
    using wf kept
    by (auto simp: create_token_def Let_def find_None_iff' token_wf_def users_wf_def user_names_def
        intro!: exI [of _ ?kept] split: option.splits)
qed

lemma users_step_wf: "users_wf db \<Longrightarrow> users_wf (users_step H db op)"
proof (induction op)
  case (DoVerifyToken now secret)
  then show ?case
    by (auto simp: users_step_def verify_token_def token_wf_def intro!: users_wf_map_tokens split: option.splits)
next
  case (DoDeleteToken u i)
  then show ?case
    by (auto simp: users_step_def delete_token_def intro!: users_wf_drop_tokens split: option.splits)
next
  case (DoUpdate salt u r p must)
  then show ?case using update_tx_wf [of db u r]
    by (auto simp: users_step_def update_user_def split: sum.splits option.splits prod.splits) (metis fst_conv)+
qed (auto simp: users_step_def create_initial_admin_def create_with_wf change_own_wf delete_user_wf create_token_wf)

interpretation accounts: stepper "users_step H" users_wf for H
  by unfold_locales (rule users_step_wf)

lemma empty_db_wf: "users_wf empty_db"
  by (simp add: users_wf_def empty_db_def user_names_def)

lemma parse_rows_wf:
  "\<forall>r \<in> set rs. user_wf r \<Longrightarrow> \<exists>us. parse_rows rs = Inr us \<and> map us_name us = map ur_name rs"
  by (induction rs) (auto simp: user_wf_def)

lemma find_user_in: "u \<in> set (user_names db) \<Longrightarrow> \<exists>r. find_user u db = Some r"
  by (cases "find_user u db") (auto simp: find_user_def user_names_def find_None_iff')

lemma state_of_wf:
  assumes "users_wf db" and "u \<in> set (user_names db)"
  shows "\<exists>s. state_of u db = Inr (Some s)"
proof -
  from assms(2) obtain r where "find_user u db = Some r" using find_user_in by blast
  moreover from this have "r \<in> set (db_users db)" unfolding find_user_def by (auto dest: find_Some_in)
  ultimately show ?thesis using assms(1) by (auto simp: state_of_def users_wf_def user_wf_def)
qed

lemma map_sort_key: "map f (sort_key f xs) = sort (map f xs)"
proof -
  have "map f (insort_key f x ys) = insort (f x) (map f ys)" for x ys by (induction ys) auto
  then show ?thesis by (induction xs) (simp_all add: sort_key_def)
qed

lemma split_on_plain: "c \<notin> set x \<Longrightarrow> split_on c x = [x]"
  by (induction x) auto

lemma split_on_append: "c \<notin> set x \<Longrightarrow> split_on c (x @ c # y) = x # split_on c y"
  by (induction x) auto

lemma split_join: "ss \<noteq> [] \<Longrightarrow> \<forall>x \<in> set ss. c \<notin> set x \<Longrightarrow> split_on c (join_with c ss) = ss"
  by (induction c ss rule: join_with.induct) (simp_all add: split_on_plain split_on_append)

lemma split_scopes_join:
  assumes "set ss \<subseteq> set MCP_SCOPES"
  shows "split_scopes (join_with CHR '','' ss) = ss"
proof (cases "ss = []")
  case True
  then show ?thesis by (simp add: split_scopes_def MCP_SCOPES_def)
next
  case False
  have "\<forall>x \<in> set MCP_SCOPES. CHR '','' \<notin> set x" by (simp add: MCP_SCOPES_def)
  with assms False have "split_on CHR '','' (join_with CHR '','' ss) = ss" by (intro split_join) auto
  with assms show ?thesis by (auto simp: split_scopes_def filter_id_conv)
qed

lemma token_scopes_wf: "token_wf db t \<Longrightarrow> join_with CHR '','' (split_scopes (ak_scopes t)) = ak_scopes t"
  by (auto simp: token_wf_def split_scopes_join)

text \<open>C39. Whatever is done to an empty user database, names stay valid and unique, every stored role can be
  read back, so the list of users and every user's state can always be produced, and every token
  belongs to a user and lists known scopes, each once.\<close>

theorem accounts_stay_well_formed:
  "let db = foldl (users_step H) empty_db ops in
     distinct (user_names db) \<and> list_all valid_name (user_names db) \<and>
     (\<exists>us. list_users db = Inr us \<and> map us_name us = sort (user_names db)) \<and>
     list_all (\<lambda>u. \<exists>s. state_of u db = Inr (Some s)) (user_names db) \<and>
     list_all (\<lambda>t. ak_user t \<in> set (user_names db) \<and>
       join_with CHR '','' (split_scopes (ak_scopes t)) = ak_scopes t) (db_tokens db)"
proof -
  let ?db = "foldl (users_step H) empty_db ops"
  have wf: "users_wf ?db" by (rule accounts.run_inv [OF empty_db_wf])
  have "\<forall>r \<in> set (sort_key ur_name (db_users ?db)). user_wf r" using wf by (auto simp: users_wf_def)
  from parse_rows_wf [OF this] have "\<exists>us. list_users ?db = Inr us \<and> map us_name us = sort (user_names ?db)"
    by (simp add: list_users_def user_names_def map_sort_key)
  moreover have "list_all valid_name (user_names ?db)" using wf by (auto simp: users_wf_def user_wf_def user_names_def list_all_iff)
  moreover have "list_all (\<lambda>u. \<exists>s. state_of u ?db = Inr (Some s)) (user_names ?db)"
    using state_of_wf [OF wf] by (simp add: list_all_iff)
  moreover have "list_all (\<lambda>t. ak_user t \<in> set (user_names ?db) \<and>
      join_with CHR '','' (split_scopes (ak_scopes t)) = ak_scopes t) (db_tokens ?db)"
    using wf token_scopes_wf [of ?db] by (simp add: users_wf_def list_all_iff) (simp add: token_wf_def)
  ultimately show ?thesis using wf by (simp add: users_wf_def Let_def)
qed

section \<open>An administrator remains\<close>

definition has_admin :: "user_db \<Rightarrow> bool" where
  "has_admin db \<longleftrightarrow> (\<exists>r \<in> set (db_users db). ur_role r = ''admin'')"

lemma find_distinct:
  "distinct (map f xs) \<Longrightarrow> x \<in> set xs \<Longrightarrow> find (\<lambda>y. f y = f x) xs = Some x"
  by (induction xs) auto

lemma find_user_wf: "users_wf db \<Longrightarrow> r \<in> set (db_users db) \<Longrightarrow> find_user (ur_name r) db = Some r"
  by (simp add: find_user_def users_wf_def user_names_def find_distinct)

lemma find_user_Some: "find_user u db = Some r \<Longrightarrow> r \<in> set (db_users db) \<and> ur_name r = u"
  unfolding find_user_def by (auto dest: find_Some_in)

lemma another_admin:
  assumes "users_wf db" and "ensure_admin_remains u new db = None" and "new \<noteq> Some Admin" and "has_admin db"
  shows "\<exists>r \<in> set (db_users db). ur_role r = ''admin'' \<and> ur_name r \<noteq> u"
proof (rule ccontr)
  assume none: "\<not> ?thesis"
  with assms(4) obtain r where r: "r \<in> set (db_users db)" "ur_role r = ''admin''" "ur_name r = u"
    unfolding has_admin_def by blast
  with find_user_wf [OF assms(1) r(1)] none assms(2,3) show False
    by (auto simp: ensure_admin_remains_def Let_def filter_eq_Nil_iff split: if_splits)
qed

lemma has_admin_roles: "has_admin db \<longleftrightarrow> ''admin'' \<in> set (map ur_role (db_users db))"
  by (simp only: has_admin_def set_map image_iff) metis

lemma has_admin_update:
  assumes "\<And>r. ur_role (f r) = ur_role r"
  shows "has_admin (update_users P f db) = has_admin db"
proof -
  have "map ur_role (db_users (update_users P f db)) = map ur_role (db_users db)"
    by (auto simp: update_users_def assms)
  then show ?thesis by (simp only: has_admin_roles)
qed

lemma has_admin_tokens [simp]: "has_admin (db\<lparr>db_tokens := ts\<rparr>) = has_admin db"
  by (simp add: has_admin_def)

lemma has_admin_role:
  assumes "has_admin db" and "r \<noteq> Admin \<Longrightarrow> \<exists>q \<in> set (db_users db). ur_role q = ''admin'' \<and> ur_name q \<noteq> u"
  shows "has_admin (fst (update_role u r db))"
proof -
  have "has_admin (update_users (\<lambda>q. ur_name q = u) (\<lambda>q. q\<lparr>ur_role := role_str r\<rparr>) db)"
    using assms by (cases "r = Admin") (force simp: has_admin_def update_users_def)+
  then show ?thesis by (simp add: update_role_def Let_def has_admin_def)
qed

lemma has_admin_password: "has_admin (fst (update_password u h must db)) = has_admin db"
  using has_admin_update [of "\<lambda>q. q\<lparr>ur_hash := h, ur_must := must\<rparr>" "\<lambda>q. ur_name q = u" db]
  by (cases must) (simp_all add: update_password_def Let_def)

lemma update_tx_has_admin:
  assumes "has_admin (fst (case r of Some q \<Rightarrow> update_role u q db | None \<Rightarrow> (db, [])))"
  shows "has_admin (fst (update_tx u r h must db))"
  using assms
  by (cases h) (auto simp: update_tx_def Let_def case_prod_beta has_admin_update has_admin_password)

lemma users_step_admin:
  assumes wf: "users_wf db" and ad: "has_admin db"
  shows "has_admin (users_step H db op)"
proof (cases op)
  case (DoUpdate salt u r p must)
  have "has_admin (fst (case r of Some q \<Rightarrow> update_role u q db | None \<Rightarrow> (db, [])))"
    if "r \<noteq> None \<longrightarrow> ensure_admin_remains u r db = None"
    using that ad has_admin_role [OF ad] another_admin [OF wf, of u r] by (cases r) auto
  from update_tx_has_admin [OF this] ad DoUpdate show ?thesis
    by (auto simp: users_step_def update_user_def split: sum.splits option.splits prod.splits) (metis fst_conv)+
next
  case (DoDelete u)
  with ad another_admin [OF wf, of u None] show ?thesis
    by (auto simp: users_step_def delete_user_def has_admin_def split: option.splits)
next
  case (DoCreate salt now u p r must)
  with ad show ?thesis by (auto simp: users_step_def create_with_def has_admin_def split: option.splits)
next
  case (DoInitial salt now p)
  with ad show ?thesis by (auto simp: users_step_def create_initial_admin_def create_with_def has_admin_def split: option.splits)
qed (use ad in \<open>auto simp: users_step_def change_own_password_def Let_def
       has_admin_update create_token_def delete_token_def verify_token_def split: option.splits\<close>)

interpretation administered: stepper "users_step H" "\<lambda>db. users_wf db \<and> has_admin db" for H
  by unfold_locales (simp add: users_step_wf users_step_admin)

text \<open>C25. Once there is an administrator there is one for ever, whatever accounts are created, changed or
  deleted, by anyone and in any order.\<close>

theorem an_admin_remains:
  assumes "has_admin (foldl (users_step H) empty_db before)"
  shows "has_admin (foldl (users_step H) empty_db (before @ after))"
  using administered.run_inv [of _ H after] accounts.run_inv [OF empty_db_wf, of H before] assms
  by simp

section \<open>Comparing in constant time\<close>

lemma unat_of_char: "unat (of_char c :: u8) = of_char c"
proof -
  have "unat (of_nat (of_char c) :: u8) = of_char c"
    using nat_of_char_less_256 [of c] by (simp add: unat_of_nat take_bit_nat_eq_self)
  then show ?thesis by (simp only: of_nat_of_char)
qed

lemma of_char_u8_inject: "(of_char a :: u8) = of_char b \<longleftrightarrow> a = b"
  by (metis unat_of_char of_char_eq_iff)

lemma fold_or_zero:
  "foldl (\<lambda>acc (x, y). or acc (xor (of_char x) (of_char y))) (w :: u8) zs = 0 \<longleftrightarrow> w = 0 \<and> (\<forall>(x, y) \<in> set zs. x = y)"
proof (induction zs arbitrary: w)
  case (Cons z zs)
  have "xor a b = 0 \<longleftrightarrow> a = b" for a b :: u8
    by (metis xor.assoc xor.left_neutral xor.right_neutral xor_self_eq)
  with Cons show ?case by (cases z) (auto simp: of_char_u8_inject or_eq_0_iff)
qed simp

text \<open>It accepts equal texts only.\<close>

lemma constant_time_eq_iff: "constant_time_eq a b \<longleftrightarrow> a = b"
proof -
  have "length a = length b \<Longrightarrow> (\<forall>(x, y) \<in> set (zip a b). x = y) \<longleftrightarrow> a = b"
    by (induction a b rule: list_induct2) auto
  then show ?thesis by (auto simp: constant_time_eq_def fold_or_zero)
qed

section \<open>Resets and demotions\<close>

lemma verify_token_Some:
  "fst (verify_token H now secret db) = Some (u, ss) \<Longrightarrow>
     \<exists>t \<in> set (db_tokens db). ak_user t = u \<and> ss = split_scopes (ak_scopes t) \<and> token_id secret = Some (ak_id t) \<and>
       ak_hash t = token_hash H secret"
  by (auto simp: verify_token_def constant_time_eq_iff split: option.splits if_splits dest: find_Some_in)

lemma update_role_tokens:
  "r < Admin \<Longrightarrow> t \<in> set (db_tokens (fst (update_role u r db))) \<Longrightarrow> ak_user t = u \<Longrightarrow> ak_scopes t = []"
proof -
  assume r: "r < Admin" and t: "t \<in> set (db_tokens (fst (update_role u r db)))" and u: "ak_user t = u"
  let ?g = "\<lambda>t. if ak_user t = u \<and> ak_scopes t \<noteq> [] then t\<lparr>ak_scopes := []\<rparr> else t"
  from r t have "t \<in> ?g ` set (db_tokens db)" by (simp add: update_role_def Let_def)
  then obtain t0 where "t = ?g t0" by blast
  with u show ?thesis by (cases "ak_user t0 = u \<and> ak_scopes t0 \<noteq> []") auto
qed

lemma update_password_tokens:
  "set (db_tokens (fst (update_password u h must db))) \<subseteq> set (db_tokens db) \<and>
   (must \<longrightarrow> (\<forall>t \<in> set (db_tokens (fst (update_password u h must db))). ak_user t \<noteq> u))"
  by (auto simp: update_password_def Let_def)

lemma find_user_update:
  assumes "\<And>r. ur_name (f r) = ur_name r"
  shows "find_user u (update_users (\<lambda>q. ur_name q = u) f db) = map_option f (find_user u db)"
proof -
  have "find (\<lambda>r. ur_name r = u) (map (\<lambda>r. if ur_name r = u then f r else r) rs) = map_option f (find (\<lambda>r. ur_name r = u) rs)" for rs
    using assms by (induction rs) auto
  then show ?thesis by (simp add: find_user_def update_users_def)
qed

lemma find_user_tokens [simp]: "find_user u (db\<lparr>db_tokens := ts\<rparr>) = find_user u db"
  by (simp add: find_user_def)

lemma update_tx_epoch:
  "map_option ur_epoch (find_user u (fst (update_tx u r h must db))) = map_option (\<lambda>q. ur_epoch q + 1) (find_user u db)"
proof -
  have "map_option ur_epoch (find_user u (fst (update_role u q db))) = map_option ur_epoch (find_user u db)" for q db
    by (simp add: update_role_def Let_def find_user_update option.map_comp o_def)
  moreover have "map_option ur_epoch (find_user u (fst (update_password u x must db))) = map_option ur_epoch (find_user u db)" for x db
    by (simp add: update_password_def Let_def find_user_update option.map_comp o_def)
  ultimately have "map_option ur_epoch (find_user u (fst (case h of Some x \<Rightarrow> update_password u x must
      (fst (case r of Some q \<Rightarrow> update_role u q db | None \<Rightarrow> (db, []))) | None \<Rightarrow>
      (fst (case r of Some q \<Rightarrow> update_role u q db | None \<Rightarrow> (db, [])), [])))) = map_option ur_epoch (find_user u db)"
    by (cases r; cases h) auto
  moreover have "find_user u (fst (update_tx u r h must db)) = map_option (\<lambda>q. q\<lparr>ur_epoch := ur_epoch q + 1\<rparr>)
      (find_user u (fst (case h of Some x \<Rightarrow> update_password u x must
      (fst (case r of Some q \<Rightarrow> update_role u q db | None \<Rightarrow> (db, []))) | None \<Rightarrow>
      (fst (case r of Some q \<Rightarrow> update_role u q db | None \<Rightarrow> (db, [])), []))))" (is "_ = map_option _ ?m")
    by (simp add: update_tx_def Let_def case_prod_beta find_user_update)
  ultimately show ?thesis by (cases ?m; cases "find_user u db") simp_all
qed

lemma update_user_Inr:
  assumes "update_user H salt u r p must db = (Inr changes, db1)"
  obtains h where "db1 = fst (update_tx u r h must db)" and "u \<in> set (user_names db)" and "p = None \<longleftrightarrow> h = None"
  using assms by (auto simp: update_user_def check_new_password_def split: if_splits option.splits sum.splits prod.splits)
     (metis fst_conv)+

text \<open>A change of role or password by an administrator takes effect at once: the user's session epoch
  moves on, so no session opened before is valid; with a role below administrator no token of the
  user may change anything any more; and after a reset that forces a new password no token of the
  user opens anything.\<close>

theorem reset_takes_rights_away:
  assumes "update_user H salt u r p must db = (Inr changes, db1)"
  shows "(\<exists>e. map_option ur_epoch (find_user u db) = Some e \<and> map_option ur_epoch (find_user u db1) = Some (e + 1)) \<and>
    (\<forall>now secret ss. fst (verify_token H now secret db1) = Some (u, ss) \<longrightarrow>
       \<not> (must \<and> p \<noteq> None) \<and> (\<forall>q. r = Some q \<longrightarrow> q < Admin \<longrightarrow> ss = []))"
proof -
  obtain h where h: "db1 = fst (update_tx u r h must db)" "u \<in> set (user_names db)" "p = None \<longleftrightarrow> h = None"
    using assms by (rule update_user_Inr)
  from h(2) obtain row where row: "find_user u db = Some row" using find_user_in by blast
  let ?db0 = "fst (case r of Some q \<Rightarrow> update_role u q db | None \<Rightarrow> (db, []))"
  have tokens: "db_tokens db1 = db_tokens (fst (case h of Some x \<Rightarrow> update_password u x must ?db0 | None \<Rightarrow> (?db0, [])))"
    by (simp add: h(1) update_tx_def Let_def case_prod_beta)
  have gone: "ak_user t \<noteq> u" if "must" "h \<noteq> None" "t \<in> set (db_tokens db1)" for t
    using that tokens update_password_tokens [of u _ must ?db0] by (cases h) auto
  have read_only: "ak_scopes t = []" if "r = Some q" "q < Admin" "t \<in> set (db_tokens db1)" "ak_user t = u" for q t
    using that tokens update_password_tokens [of u _ must ?db0] update_role_tokens [of q t u db] by (cases h) auto
  have "split_scopes [] = []" by (simp add: split_scopes_def MCP_SCOPES_def)
  then have "\<not> (must \<and> p \<noteq> None) \<and> (\<forall>q. r = Some q \<longrightarrow> q < Admin \<longrightarrow> ss = [])"
    if "fst (verify_token H now secret db1) = Some (u, ss)" for now secret ss
    using verify_token_Some [OF that] gone read_only h(3) by fastforce
  moreover have "map_option ur_epoch (find_user u db1) = Some (ur_epoch row + 1)"
    using update_tx_epoch [of u r h must db] row by (simp add: h(1))
  ultimately show ?thesis using row by auto
qed

section \<open>Tokens open what they were made for\<close>

lemma find_append_fresh:
  "i \<notin> set (map f xs) \<Longrightarrow> f x = i \<Longrightarrow> find (\<lambda>y. f y = i) (xs @ [x]) = Some x"
  by (induction xs) auto

lemma token_id_make: "CHR ''_'' \<notin> set i \<Longrightarrow> token_id (make_secret i random) = Some i"
proof -
  assume i: "CHR ''_'' \<notin> set i"
  then have "split_once CHR ''_'' (i @ CHR ''_'' # random) = Some (i, random)" by (induction i) auto
  then show ?thesis by (simp add: token_id_def make_secret_def)
qed

text \<open>A token just created opens exactly what it was asked for: its secret is accepted for its user
  with the scopes requested, each once and in order, it is listed among the user's tokens, and any
  other secret accepted for its id has the same SHA-256.\<close>

theorem token_opens_what_it_was_made_for:
  assumes "create_token H now i random u name scopes db = (Inr (t, secret), db1)" and "CHR ''_'' \<notin> set i"
  shows "fst (verify_token H later secret db1) = Some (u, at_scopes t) \<and>
    sorted (at_scopes t) \<and> distinct (at_scopes t) \<and> set (at_scopes t) = set scopes \<and> t \<in> set (tokens_of u db1) \<and>
    (\<forall>other ss. token_id other = Some i \<longrightarrow> fst (verify_token H later other db1) = Some ss \<longrightarrow>
       token_hash H other = token_hash H secret)"
proof -
  let ?kept = "remdups_adj (sort scopes)"
  let ?row = "\<lparr>ak_id = i, ak_user = u, ak_name = trim name, ak_hash = token_hash H (make_secret i random), ak_created = now,
      ak_last_used = None, ak_scopes = join_with CHR '','' ?kept\<rparr>"
  from assms(1) have known: "find (\<lambda>s. s \<notin> set MCP_SCOPES) scopes = None" and fresh: "i \<notin> set (map ak_id (db_tokens db))"
    and t: "t = \<lparr>at_id = i, at_name = trim name, at_scopes = ?kept, at_created = now, at_last_used = None\<rparr>"
    and secret: "secret = make_secret i random" and db1: "db1 = db\<lparr>db_tokens := db_tokens db @ [?row]\<rparr>"
    by (auto simp: create_token_def Let_def split: if_splits option.splits)
  have kept: "sorted ?kept" "distinct ?kept" "set ?kept = set scopes"
    by (simp_all add: sorted_remdups_adj remdups_adj_sorted)
  have split: "split_scopes (join_with CHR '','' ?kept) = ?kept"
    using known kept by (intro split_scopes_join) (auto simp: find_None_iff')
  have row: "find (\<lambda>t. ak_id t = i) (db_tokens db1) = Some ?row"
    using find_append_fresh [OF fresh, of ?row] by (simp add: db1)
  have "fst (verify_token H later secret db1) = Some (u, ?kept)"
    using row by (simp add: verify_token_def secret token_id_make [OF assms(2)] constant_time_eq_iff split)
  moreover have "t \<in> set (tokens_of u db1)"
    by (simp add: tokens_of_def db1 t listed_def split)
  moreover have "token_hash H other = token_hash H secret"
    if "token_id other = Some i" "fst (verify_token H later other db1) = Some ss" for other ss
    using that row by (simp add: verify_token_def constant_time_eq_iff secret split: if_splits)
  ultimately show ?thesis using kept by (auto simp: t)
qed

section \<open>Concrete accounts\<close>

definition toy_hashing :: hashing where
  "toy_hashing = \<lparr>hash_password = (\<lambda>salt p. Some (salt @ p)), verify_hash = (\<lambda>h p. h = ''s'' @ p), token_hash = (\<lambda>s. s)\<rparr>"

definition admin_db :: user_db where
  "admin_db = foldl (users_step toy_hashing) empty_db
     [DoCreate ''s'' ''now'' ''anna'' ''password1'' Admin False, DoCreate ''s'' ''now'' ''otto'' ''password2'' Admin False]"

lemma admin_db_unfold:
  "admin_db = \<lparr>db_users =
     [\<lparr>ur_name = ''anna'', ur_hash = ''spassword1'', ur_role = ''admin'', ur_created = ''now'', ur_must = False, ur_epoch = 0\<rparr>,
      \<lparr>ur_name = ''otto'', ur_hash = ''spassword2'', ur_role = ''admin'', ur_created = ''now'', ur_must = False, ur_epoch = 0\<rparr>],
     db_tokens = []\<rparr>"
  by code_simp

definition first_accounts :: "users_op list" where
  "first_accounts = [DoCreate ''s'' ''now'' ''anna'' ''password1'' Admin False, DoCreate ''s'' ''now'' ''otto'' ''password2'' Admin False]"

theorem an_admin_remains_witness:
  "has_admin (foldl (users_step toy_hashing) empty_db
     (first_accounts @ [DoDelete ''anna'', DoUpdate ''s'' ''otto'' (Some Auditor) None False]))"
  by (rule an_admin_remains) (simp add: first_accounts_def admin_db_def [symmetric] del: foldl_Cons foldl_Nil,
      simp add: has_admin_def admin_db_unfold)

theorem token_opens_what_it_was_made_for_witness:
  "\<exists>t secret db1. create_token toy_hashing ''now'' ''ab12'' ''ff'' ''anna'' ''ai'' [''targets'', ''alarms'', ''targets''] admin_db =
       (Inr (t, secret), db1) \<and> fst (verify_token toy_hashing ''later'' secret db1) = Some (''anna'', at_scopes t) \<and>
     set (at_scopes t) = {''targets'', ''alarms''}"
proof -
  have "\<exists>t secret db1. create_token toy_hashing ''now'' ''ab12'' ''ff'' ''anna'' ''ai'' [''targets'', ''alarms'', ''targets''] admin_db =
      (Inr (t, secret), db1)"
    by (simp add: create_token_def admin_db_unfold user_names_def MCP_SCOPES_def trim_visible visible_def Let_def)
  then obtain t secret db1 where
    c: "create_token toy_hashing ''now'' ''ab12'' ''ff'' ''anna'' ''ai'' [''targets'', ''alarms'', ''targets''] admin_db =
      (Inr (t, secret), db1)" by blast
  from token_opens_what_it_was_made_for [OF c, of "''later''"] c show ?thesis by auto
qed

theorem reset_takes_rights_away_witness:
  "\<exists>changes db1. update_user toy_hashing ''s'' ''otto'' (Some Operator) (Some ''password3'') True admin_db = (Inr changes, db1) \<and>
     map_option ur_epoch (find_user ''otto'' db1) = Some 1 \<and>
     (\<forall>now secret ss. fst (verify_token toy_hashing now secret db1) \<noteq> Some (''otto'', ss))"
proof -
  have "\<exists>changes db1. update_user toy_hashing ''s'' ''otto'' (Some Operator) (Some ''password3'') True admin_db = (Inr changes, db1)"
    by (simp add: update_user_def check_new_password_def validate_def valid_name_def name_char_def MIN_PASSWORD_LENGTH_def
        toy_hashing_def admin_db_unfold user_names_def ensure_admin_remains_def find_user_def char_start_def split: prod.splits)
  then obtain changes db1 where
    c: "update_user toy_hashing ''s'' ''otto'' (Some Operator) (Some ''password3'') True admin_db = (Inr changes, db1)" by blast
  from reset_takes_rights_away [OF c] c show ?thesis by (auto simp: admin_db_unfold find_user_def)
qed

end
