(* ===== verification/Web_Auth.thy ===== *)
theory Web_Auth
  imports Users Ordered_Map Audit_Event
begin

text \<open>
  Logging in to the web UI (src/web/auth.rs): sessions by cookie token, the failures counted per
  address and per user, the login, the check every request makes (\<open>AuthUser\<close>), the CSRF check and
  changing one's own password. Each reading of the clock is an argument. Addresses are their text.
\<close>

section \<open>Sessions and failures\<close>

definition hours :: "int \<Rightarrow> time" where "hours n = secs (n * 3600)"
definition IDLE_TIMEOUT :: time where "IDLE_TIMEOUT = hours 8"
definition MAX_LIFETIME :: time where "MAX_LIFETIME = hours 24"
definition MAX_FAILURES_PER_ADDRESS :: nat where "MAX_FAILURES_PER_ADDRESS = 5"
definition MAX_FAILURES_PER_USER :: nat where "MAX_FAILURES_PER_USER = 20"
definition BLOCK_TIME :: time where "BLOCK_TIME = secs (15 * 60)"
definition COOKIE :: string where "COOKIE = ''gw_session''"
definition SECURE_COOKIE :: string where "SECURE_COOKIE = ''__Host-gw_session''"
definition CSRF_VALUE :: string where "CSRF_VALUE = ''opcua-audit-gateway''"

record web_session =
  ws_user :: string
  ws_epoch :: int
  ws_created :: time
  ws_seen :: time

record failures =
  fl_count :: nat
  fl_last :: "time option"

definition no_failures :: failures where
  "no_failures = \<lparr>fl_count = 0, fl_last = None\<rparr>"

text \<open>\<open>Instant::elapsed\<close> never is negative.\<close>

definition elapsed :: "time \<Rightarrow> time \<Rightarrow> time" where
  "elapsed now t = max 0 (now - t)"

text \<open>\<open>Failures::blocked\<close> reads the clock twice: \<open>Inl ()\<close> is the panic of subtracting a longer duration
  from a shorter one.\<close>

definition blocked :: "time \<Rightarrow> time \<Rightarrow> nat \<Rightarrow> failures \<Rightarrow> unit + time option" where
  "blocked now1 now2 most f = (case fl_last f of
     None \<Rightarrow> Inr None
   | Some t \<Rightarrow>
       if most \<le> fl_count f \<and> elapsed now1 t < BLOCK_TIME
       then (if BLOCK_TIME < elapsed now2 t then Inl () else Inr (Some (BLOCK_TIME - elapsed now2 t)))
       else Inr None)"

definition add_failure :: "time \<Rightarrow> failures \<Rightarrow> failures" where
  "add_failure now f =
     (let old = (case fl_last f of Some t \<Rightarrow> BLOCK_TIME \<le> elapsed now t | None \<Rightarrow> False)
      in \<lparr>fl_count = (if old then 0 else fl_count f) + 1, fl_last = Some now\<rparr>)"

record web_auth =
  wa_sessions :: "(string \<times> web_session) list"
  wa_by_address :: "(string \<times> failures) list"
  wa_by_user :: "(string \<times> failures) list"

definition expired :: "time \<Rightarrow> web_session \<Rightarrow> bool" where
  "expired now s \<longleftrightarrow> IDLE_TIMEOUT \<le> elapsed now (ws_seen s) \<or> MAX_LIFETIME \<le> elapsed now (ws_created s)"

text \<open>\<open>Sessions::create\<close>; \<open>None\<close> when the random generator fails.\<close>

definition create_web_session :: "time \<Rightarrow> string option \<Rightarrow> string \<Rightarrow> int \<Rightarrow> web_auth \<Rightarrow> string option \<times> web_auth" where
  "create_web_session now token u epoch w = (case token of
     None \<Rightarrow> (None, w)
   | Some t \<Rightarrow> (Some t, w\<lparr>wa_sessions := bt_put t \<lparr>ws_user = u, ws_epoch = epoch, ws_created = now, ws_seen = now\<rparr>
       (bt_retain (\<lambda>_ s. \<not> expired now s) (wa_sessions w))\<rparr>))"

definition get_session :: "time \<Rightarrow> string \<Rightarrow> web_auth \<Rightarrow> (string \<times> int) option \<times> web_auth" where
  "get_session now t w = (case map_of (wa_sessions w) t of
     None \<Rightarrow> (None, w)
   | Some s \<Rightarrow>
       if expired now s then (None, w\<lparr>wa_sessions := bt_remove t (wa_sessions w)\<rparr>)
       else (Some (ws_user s, ws_epoch s), w\<lparr>wa_sessions := bt_put t (s\<lparr>ws_seen := now\<rparr>) (wa_sessions w)\<rparr>))"

definition remove_session :: "string \<Rightarrow> web_auth \<Rightarrow> web_auth" where
  "remove_session t w = w\<lparr>wa_sessions := bt_remove t (wa_sessions w)\<rparr>"

definition remove_user_sessions :: "string \<Rightarrow> web_auth \<Rightarrow> web_auth" where
  "remove_user_sessions u w = w\<lparr>wa_sessions := bt_retain (\<lambda>_ s. ws_user s \<noteq> u) (wa_sessions w)\<rparr>"

definition blocked_address :: "time \<Rightarrow> time \<Rightarrow> string option \<Rightarrow> web_auth \<Rightarrow> unit + time option" where
  "blocked_address now1 now2 a w = (case a of
     None \<Rightarrow> Inr None
   | Some a \<Rightarrow> (case map_of (wa_by_address w) a of
       None \<Rightarrow> Inr None
     | Some f \<Rightarrow> blocked now1 now2 MAX_FAILURES_PER_ADDRESS f))"

definition blocked_user :: "time \<Rightarrow> time \<Rightarrow> string \<Rightarrow> web_auth \<Rightarrow> unit + time option" where
  "blocked_user now1 now2 u w = (case map_of (wa_by_user w) u of
     None \<Rightarrow> Inr None
   | Some f \<Rightarrow> blocked now1 now2 MAX_FAILURES_PER_USER f)"

text \<open>Counting in one of the two maps, which is pruned when it is large.\<close>

definition count_failure :: "time \<Rightarrow> nat \<Rightarrow> string \<Rightarrow> (string \<times> failures) list \<Rightarrow> bool \<times> (string \<times> failures) list" where
  "count_failure now most k m =
     (let m1 = (if 10000 < length m
                then bt_retain (\<lambda>_ f. case fl_last f of Some t \<Rightarrow> elapsed now t < BLOCK_TIME | None \<Rightarrow> False) m else m);
          f = add_failure now (case map_of m1 k of Some f \<Rightarrow> f | None \<Rightarrow> no_failures)
      in (fl_count f = most, bt_put k f m1))"

definition failed :: "time \<Rightarrow> string option \<Rightarrow> string \<Rightarrow> web_auth \<Rightarrow> bool \<times> web_auth" where
  "failed now a u w =
     (let (b1, w1) = (case a of
            None \<Rightarrow> (False, w)
          | Some a \<Rightarrow> (case count_failure now MAX_FAILURES_PER_ADDRESS a (wa_by_address w) of
              (b, m) \<Rightarrow> (b, w\<lparr>wa_by_address := m\<rparr>)));
          (b2, w2) = (if 64 < length u then (False, w1)
             else (case count_failure now MAX_FAILURES_PER_USER u (wa_by_user w1) of
              (b, m) \<Rightarrow> (b, w1\<lparr>wa_by_user := m\<rparr>)))
      in (b1 \<or> b2, w2))"

definition succeeded :: "string option \<Rightarrow> string \<Rightarrow> web_auth \<Rightarrow> web_auth" where
  "succeeded a u w =
     (let w1 = (case a of None \<Rightarrow> w | Some a \<Rightarrow> w\<lparr>wa_by_address := bt_remove a (wa_by_address w)\<rparr>)
      in w1\<lparr>wa_by_user := bt_remove u (wa_by_user w1)\<rparr>)"

section \<open>Who a request comes from\<close>

text \<open>\<open>parse\<close>: the address in one entry of the header, if it is one.\<close>

definition client_address :: "(string \<Rightarrow> string option) \<Rightarrow> string option \<Rightarrow> string option \<Rightarrow> string list \<Rightarrow> string option" where
  "client_address parse peer forwarded trusted = (case peer of
     None \<Rightarrow> None
   | Some p \<Rightarrow>
       if p \<notin> set trusted then Some p
       else (let hops = List.map_filter (\<lambda>a. parse (trim a)) (split_on CHR '','' (case forwarded of Some f \<Rightarrow> f | None \<Rightarrow> []))
             in Some (case find (\<lambda>a. a \<notin> set trusted) (rev hops) of Some a \<Rightarrow> a | None \<Rightarrow> p)))"

record auth_user =
  au_name :: string
  au_role :: role
  au_must :: bool
  au_token :: "string option"

definition actor :: "auth_user \<Rightarrow> string" where
  "actor u = (case au_token u of
     Some t \<Rightarrow> au_name u @ '' (via MCP, token '' @ t @ '')''
   | None \<Rightarrow> au_name u)"

definition require :: "role \<Rightarrow> auth_user \<Rightarrow> bool" where
  "require r u \<longleftrightarrow> r \<le> au_role u"

definition cookie_name :: "bool \<Rightarrow> string" where
  "cookie_name tls = (if tls then SECURE_COOKIE else COOKIE)"

datatype auth_error = Unauthorized | ChoosePassword | UsersError users_error

definition own_paths :: "string list" where
  "own_paths = [''/api/me'', ''/api/me/password'', ''/api/logout'']"

text \<open>\<open>AuthUser\<close>: the session's user as the user database has it now. \<open>cookie\<close> is the value of the
  session cookie, \<open>path\<close> the original path.\<close>

definition authenticate :: "time \<Rightarrow> string option \<Rightarrow> string \<Rightarrow> user_db \<Rightarrow> web_auth \<Rightarrow> (auth_error + auth_user) \<times> web_auth" where
  "authenticate now cookie path db w = (case cookie of
     None \<Rightarrow> (Inl Unauthorized, w)
   | Some t \<Rightarrow> (case get_session now t w of
       (None, w1) \<Rightarrow> (Inl Unauthorized, w1)
     | (Some (u, epoch), w1) \<Rightarrow> (case state_of u db of
         Inl e \<Rightarrow> (Inl (UsersError e), w1)
       | Inr s \<Rightarrow>
           (case (case s of Some s \<Rightarrow> if ss_epoch s = epoch then Some s else None | None \<Rightarrow> None) of
              None \<Rightarrow> (Inl Unauthorized, remove_session t w1)
            | Some s \<Rightarrow>
                if ss_must s \<and> path \<notin> set own_paths then (Inl ChoosePassword, w1)
                else (Inr \<lparr>au_name = u, au_role = ss_role s, au_must = ss_must s, au_token = None\<rparr>, w1)))))"

definition csrf_ok :: "string \<Rightarrow> string option \<Rightarrow> string \<Rightarrow> bool" where
  "csrf_ok verb header path \<longleftrightarrow>
     verb \<in> set [''GET'', ''HEAD'', ''OPTIONS''] \<or> header = Some CSRF_VALUE \<or> path = ''/mcp''"

section \<open>The login\<close>

datatype login_answer =
    TooMany time
  | TooManyAtOnce
  | WrongLogin
  | UserGone
  | LoginFailure users_error
  | NoRandom
  | PanickedLogin
  | LoggedIn string auth_user

definition web_client :: "string option \<Rightarrow> client_context" where
  "web_client a = default_client\<lparr>remote_addr := (case a of Some a \<Rightarrow> a | None \<Rightarrow> []), application_name := Some ''web UI''\<rparr>"

definition failure_entries :: "time \<Rightarrow> bool \<Rightarrow> string option \<Rightarrow> string \<Rightarrow> audit_entry list" where
  "failure_entries now starts a u =
     with_client (web_client a) (new_entry now (UiLoginFailed (clip u 64))) #
     (if starts then [new_entry now (ConnectionsRefused (case a of Some a \<Rightarrow> a | None \<Rightarrow> []) MAX_FAILURES_PER_ADDRESS
        (''web UI logins blocked for 15 minutes after repeated failures (user '' @ clip u 64 @ '')''))] else [])"

text \<open>Before the password is checked: the address must not be blocked, and a check must be free within
  five seconds (\<open>permit\<close>).\<close>

definition login_admitted :: "time \<Rightarrow> time \<Rightarrow> bool \<Rightarrow> string option \<Rightarrow> web_auth \<Rightarrow> login_answer option" where
  "login_admitted now1 now2 permit a w = (case blocked_address now1 now2 a w of
     Inl _ \<Rightarrow> Some PanickedLogin
   | Inr (Some wait) \<Rightarrow> Some (TooMany wait)
   | Inr None \<Rightarrow> if permit then None else Some TooManyAtOnce)"

text \<open>After it, with the verdict of \<open>UserStore::verify\<close>. The user's state is read again from the
  database as it then is (\<open>db\<close>).\<close>

definition login_checked :: "time \<Rightarrow> time \<Rightarrow> string option \<Rightarrow> string \<Rightarrow> users_error + user_info option \<Rightarrow> string option \<Rightarrow> user_db
    \<Rightarrow> web_auth \<Rightarrow> login_answer \<times> audit_entry list \<times> web_auth" where
  "login_checked now1 now2 a u verdict token db w = (case verdict of
     Inl e \<Rightarrow> (LoginFailure e, [], w)
   | Inr found \<Rightarrow> (case blocked_user now1 now2 u w of
       Inl _ \<Rightarrow> (PanickedLogin, [], w)
     | Inr block \<Rightarrow> (case found of
         None \<Rightarrow> (case failed now2 a u w of
           (starts, w1) \<Rightarrow> ((case block of Some wait \<Rightarrow> TooMany wait | None \<Rightarrow> WrongLogin), failure_entries now2 starts a u, w1))
       | Some i \<Rightarrow>
           (let w1 = succeeded a (us_name i) w in case state_of (us_name i) db of
              Inl e \<Rightarrow> (LoginFailure e, [], w1)
            | Inr None \<Rightarrow> (UserGone, [], w1)
            | Inr (Some s) \<Rightarrow> (case create_web_session now2 token (us_name i) (ss_epoch s) w1 of
                (None, w2) \<Rightarrow> (NoRandom, [], w2)
              | (Some t, w2) \<Rightarrow>
                  (LoggedIn t \<lparr>au_name = us_name i, au_role = ss_role s, au_must = ss_must s, au_token = None\<rparr>,
                   [with_client (web_client a) (new_entry now2 (UiLogin (us_name i)))], w2))))))"

definition login :: "hashing \<Rightarrow> string \<Rightarrow> time \<times> time \<Rightarrow> bool \<Rightarrow> time \<times> time \<Rightarrow> string option \<Rightarrow> string \<Rightarrow> string \<Rightarrow> string option
    \<Rightarrow> user_db \<Rightarrow> web_auth \<Rightarrow> login_answer \<times> audit_entry list \<times> web_auth" where
  "login H dummy t0 permit t1 a u p token db w = (case login_admitted (fst t0) (snd t0) permit a w of
     Some answer \<Rightarrow> (answer, [], w)
   | None \<Rightarrow> login_checked (fst t1) (snd t1) a u (verify_user H dummy u p db) token db w)"

definition logout :: "string option \<Rightarrow> web_auth \<Rightarrow> web_auth" where
  "logout cookie w = (case cookie of Some t \<Rightarrow> remove_session t w | None \<Rightarrow> w)"

text \<open>\<open>change_password\<close>: all sessions of the user end, and a new one continues this one. \<open>u\<close> is the
  authenticated user; the session's cookie value is the answer.\<close>

datatype change_answer = ChangeRefused users_error | ChangeFailed users_error | ChangeUserGone | ChangeNoRandom | PasswordChanged string

definition change_password :: "hashing \<Rightarrow> string \<Rightarrow> time \<Rightarrow> auth_user \<Rightarrow> string option \<Rightarrow> string \<Rightarrow> string option \<Rightarrow> user_db \<Rightarrow> web_auth
    \<Rightarrow> change_answer \<times> audit_entry list \<times> user_db \<times> web_auth" where
  "change_password H salt now u current new token db w =
     (let given = (if au_must u then None else Some (case current of Some c \<Rightarrow> c | None \<Rightarrow> []))
      in case change_own_password H salt (au_name u) given new db of
           (Inl e, db1) \<Rightarrow> (ChangeRefused e, [], db1, w)
         | (Inr _, db1) \<Rightarrow>
             (let w1 = remove_user_sessions (au_name u) w in case state_of (au_name u) db1 of
                Inl e \<Rightarrow> (ChangeFailed e, [], db1, w1)
              | Inr None \<Rightarrow> (ChangeUserGone, [], db1, w1)
              | Inr (Some s) \<Rightarrow> (case create_web_session now token (au_name u) (ss_epoch s) w1 of
                  (None, w2) \<Rightarrow> (ChangeNoRandom, [], db1, w2)
                | (Some t, w2) \<Rightarrow> (PasswordChanged t,
                    [new_entry now (ConfigChanged (actor u) (''changed own password ('' @ au_name u @ '')''))], db1, w2))))"

end
