(* ===== verification/Web_Auth_Safety.thy ===== *)
theory Web_Auth_Safety
  imports Web_Auth Users_Safety
begin

text \<open>
  What src/web/auth.rs promises: a change of password or role ends the sessions opened before it, and
  passwords can be tried from one address only so often. Below, what it promises and does not keep:
  sessions of a deleted user who is created again, logins at the same time, and a login racing with a
  reset.
\<close>

section \<open>Epochs only grow\<close>

definition epoch_of :: "string \<Rightarrow> user_db \<Rightarrow> int option" where
  "epoch_of u db = map_option ur_epoch (find_user u db)"

definition names_user :: "users_op \<Rightarrow> string option" where
  "names_user op = (case op of
     DoCreate salt now u p r must \<Rightarrow> Some u
   | DoInitial salt now p \<Rightarrow> Some ''admin''
   | DoChangeOwn salt u c p \<Rightarrow> Some u
   | DoUpdate salt u r p must \<Rightarrow> Some u
   | DoDelete u \<Rightarrow> Some u
   | _ \<Rightarrow> None)"

text \<open>The operation changes the password or the role of \<open>u\<close>, successfully.\<close>

definition changes_account :: "hashing \<Rightarrow> string \<Rightarrow> user_db \<Rightarrow> users_op \<Rightarrow> bool" where
  "changes_account H u db op = (case op of
     DoChangeOwn salt v c p \<Rightarrow> v = u \<and> (case fst (change_own_password H salt v c p db) of Inr _ \<Rightarrow> True | Inl _ \<Rightarrow> False)
   | DoUpdate salt v r p must \<Rightarrow> v = u \<and> (case fst (update_user H salt v r p must db) of Inr _ \<Rightarrow> True | Inl _ \<Rightarrow> False)
   | _ \<Rightarrow> False)"

lemma find_append: "find P (xs @ ys) = (case find P xs of Some x \<Rightarrow> Some x | None \<Rightarrow> find P ys)"
  by (induction xs) auto

lemma find_user_other:
  assumes "\<And>r. ur_name (f r) = ur_name r" and "\<And>r. P r \<Longrightarrow> ur_name r \<noteq> u"
  shows "find_user u (update_users P f db) = find_user u db"
proof -
  have "find (\<lambda>r. ur_name r = u) (map (\<lambda>r. if P r then f r else r) rs) = find (\<lambda>r. ur_name r = u) rs" for rs
    using assms by (induction rs) auto
  then show ?thesis by (simp add: find_user_def update_users_def)
qed

lemma update_tx_other: "v \<noteq> u \<Longrightarrow> find_user u (fst (update_tx v r h must db)) = find_user u db"
proof -
  assume v: "v \<noteq> u"
  have role: "find_user u (fst (update_role v q db)) = find_user u db" for q db
    using v by (simp add: update_role_def Let_def find_user_other)
  have pass: "find_user u (fst (update_password v x must db)) = find_user u db" for x db
    using v by (simp add: update_password_def Let_def find_user_other)
  show ?thesis
    using v role pass by (cases r; cases h) (simp_all add: update_tx_def Let_def case_prod_beta find_user_other)
qed

lemma create_with_epoch:
  "epoch_of u db = Some e \<Longrightarrow> epoch_of u (snd (create_with H salt now v p r must db)) = Some e"
  by (auto simp: create_with_def epoch_of_def find_user_def find_append split: option.splits)

lemma change_own_epoch:
  assumes "users_wf db" and "epoch_of u db = Some e"
  shows "epoch_of u (snd (change_own_password H salt v c p db)) =
    Some (if v = u \<and> (\<exists>x. fst (change_own_password H salt v c p db) = Inr x) then e + 1 else e)"
proof (cases "fst (change_own_password H salt v c p db)")
  case (Inl x)
  then have "snd (change_own_password H salt v c p db) = db"
    by (auto simp: change_own_password_def Let_def split: option.splits if_splits)
  with Inl assms(2) show ?thesis by simp
next
  case (Inr x)
  then obtain q h where q: "find_user v db = Some q" and
    snd: "snd (change_own_password H salt v c p db) =
      update_users (\<lambda>r. ur_name r = v \<and> ur_epoch r = ur_epoch q) (\<lambda>r. r\<lparr>ur_hash := h, ur_must := False, ur_epoch := ur_epoch r + 1\<rparr>) db"
    by (auto simp: change_own_password_def Let_def split: option.splits if_splits)
  have only: "ur_epoch r = ur_epoch q" if "r \<in> set (db_users db)" "ur_name r = v" for r
    using find_user_wf [OF assms(1) that(1)] that(2) q by simp
  have "snd (change_own_password H salt v c p db) =
      update_users (\<lambda>r. ur_name r = v) (\<lambda>r. r\<lparr>ur_hash := h, ur_must := False, ur_epoch := ur_epoch r + 1\<rparr>) db"
    unfolding snd update_users_def using only by auto
  with assms(2) Inr show ?thesis
    by (cases "v = u") (auto simp: epoch_of_def find_user_update find_user_other)
qed

lemma update_user_epoch:
  assumes "epoch_of u db = Some e"
  shows "epoch_of u (snd (update_user H salt v r p must db)) =
    Some (if v = u \<and> (\<exists>x. fst (update_user H salt v r p must db) = Inr x) then e + 1 else e)"
proof (cases "update_user H salt v r p must db")
  case (Pair res db1)
  show ?thesis
  proof (cases res)
    case (Inl x)
    with Pair have "db1 = db" by (auto simp: update_user_def split: if_splits sum.splits option.splits prod.splits)
    with Pair Inl assms show ?thesis by simp
  next
    case (Inr changes)
    from Pair Inr obtain h where h: "db1 = fst (update_tx v r h must db)" by (auto elim: update_user_Inr)
    with Pair Inr assms show ?thesis
      using update_tx_epoch [of v r h must db] update_tx_other [of v u r h must db]
      by (cases "v = u") (auto simp: epoch_of_def)
  qed
qed

lemma token_ops_epoch:
  "epoch_of u (snd (create_token H now i random v name scopes db)) = epoch_of u db"
  "epoch_of u (snd (delete_token v i db)) = epoch_of u db"
  "epoch_of u (snd (verify_token H now secret db)) = epoch_of u db"
  by (auto simp: create_token_def delete_token_def verify_token_def epoch_of_def Let_def split: option.splits)

lemma delete_user_epoch: "v \<noteq> u \<Longrightarrow> epoch_of u (snd (delete_user v db)) = epoch_of u db"
proof -
  assume "v \<noteq> u"
  then have "find (\<lambda>r. ur_name r = u) (filter (\<lambda>r. ur_name r \<noteq> v) rs) = find (\<lambda>r. ur_name r = u) rs" for rs :: "user_row list"
    by (induction rs) auto
  then show ?thesis by (auto simp: delete_user_def epoch_of_def find_user_def split: option.splits)
qed

lemma users_step_epoch:
  assumes "users_wf db" and "epoch_of u db = Some e" and "op \<noteq> DoDelete u"
  shows "epoch_of u (users_step H db op) = Some (if changes_account H u db op then e + 1 else e)"
  using assms
proof (cases op)
  case (DoChangeOwn salt v c p)
  with change_own_epoch [OF assms(1,2), of H salt v c p] show ?thesis
    by (auto simp: users_step_def changes_account_def split: sum.splits)
next
  case (DoUpdate salt v r p must)
  with update_user_epoch [OF assms(2), of H salt v r p must] show ?thesis
    by (auto simp: users_step_def changes_account_def split: sum.splits)
qed (auto simp: users_step_def changes_account_def create_initial_admin_def create_with_epoch token_ops_epoch delete_user_epoch)

text \<open>A run in which \<open>u\<close> is not deleted: the epoch does not fall, and rises if the account was changed.\<close>

fun account_changed :: "hashing \<Rightarrow> string \<Rightarrow> user_db \<Rightarrow> users_op list \<Rightarrow> bool" where
  "account_changed H u db [] = False"
| "account_changed H u db (op # ops) = (changes_account H u db op \<or> account_changed H u (users_step H db op) ops)"

lemma users_run_epoch:
  assumes "users_wf db" and "epoch_of u db = Some e" and "DoDelete u \<notin> set ops"
  shows "\<exists>e'. epoch_of u (foldl (users_step H) db ops) = Some e' \<and> e \<le> e' \<and> (account_changed H u db ops \<longrightarrow> e < e')"
  using assms
proof (induction ops arbitrary: db e)
  case (Cons op ops)
  let ?db = "users_step H db op" and ?e = "if changes_account H u db op then e + 1 else e"
  from Cons.prems(3) have "op \<noteq> DoDelete u" by auto
  with Cons.prems have "users_wf ?db" "epoch_of u ?db = Some ?e"
    by (simp_all add: users_step_wf users_step_epoch)
  from Cons.IH [OF this] Cons.prems obtain e' where
    "epoch_of u (foldl (users_step H) ?db ops) = Some e'" "?e \<le> e'" "account_changed H u ?db ops \<longrightarrow> ?e < e'" by auto
  then show ?case by (auto split: if_splits)
qed simp

section \<open>Sessions end with the password or role they were opened with\<close>

lemma authenticate_Inr:
  assumes "fst (authenticate now cookie path db w) = Inr a"
  obtains t s q where "cookie = Some t" "map_of (wa_sessions w) t = Some s" "\<not> expired now s"
    "state_of (ws_user s) db = Inr (Some q)" "ss_epoch q = ws_epoch s" "au_name a = ws_user s" "au_role a = ss_role q"
    "ss_must q \<longrightarrow> path \<in> set own_paths"
  using assms
  by (auto simp: authenticate_def get_session_def split: option.splits sum.splits if_splits)

lemma state_of_epoch: "state_of u db = Inr (Some q) \<Longrightarrow> epoch_of u db = Some (ss_epoch q)"
  by (auto simp: state_of_def epoch_of_def map_sum_def split: option.splits sum.splits)


section \<open>How often a password can be tried\<close>

text \<open>An attempt, one after the other: when its clock was read, whether a check was free, from where, the
  credentials, the new session's token and the database at that moment.\<close>

record attempt =
  lt_blocked :: "time \<times> time"
  lt_permit :: bool
  lt_checked :: "time \<times> time"
  lt_from :: "string option"
  lt_user :: string
  lt_password :: string
  lt_token :: "string option"
  lt_db :: user_db

definition attempt_step :: "hashing \<Rightarrow> string \<Rightarrow> web_auth \<Rightarrow> attempt \<Rightarrow> web_auth" where
  "attempt_step H dummy w x = snd (snd (login H dummy (lt_blocked x) (lt_permit x) (lt_checked x) (lt_from x) (lt_user x)
     (lt_password x) (lt_token x) (lt_db x) w))"

definition checked_as :: "hashing \<Rightarrow> string \<Rightarrow> web_auth \<Rightarrow> attempt \<Rightarrow> user_info option option" where
  "checked_as H dummy w x =
     (if login_admitted (fst (lt_blocked x)) (snd (lt_blocked x)) (lt_permit x) (lt_from x) w \<noteq> None then None
      else (case (verify_user H dummy (lt_user x) (lt_password x) (lt_db x),
                  blocked_user (fst (lt_checked x)) (snd (lt_checked x)) (lt_user x) w) of
          (Inr v, Inr _) \<Rightarrow> Some v
        | _ \<Rightarrow> None))"

text \<open>The times of the wrong passwords from an address since the last right one from there, newest first.\<close>

fun wrong_times :: "hashing \<Rightarrow> string \<Rightarrow> string \<Rightarrow> web_auth \<Rightarrow> attempt list \<Rightarrow> time list \<Rightarrow> time list" where
  "wrong_times H dummy a w [] fs = fs"
| "wrong_times H dummy a w (x # xs) fs =
     wrong_times H dummy a (attempt_step H dummy w x) xs
       (if lt_from x \<noteq> Some a then fs
        else (case checked_as H dummy w x of
            None \<Rightarrow> fs
          | Some None \<Rightarrow> snd (lt_checked x) # fs
          | Some (Some _) \<Rightarrow> []))"

fun clock_ok :: "time \<Rightarrow> attempt list \<Rightarrow> bool" where
  "clock_ok t [] = True"
| "clock_ok t (x # xs) \<longleftrightarrow> t \<le> fst (lt_blocked x) \<and> fst (lt_blocked x) \<le> snd (lt_blocked x) \<and>
     snd (lt_blocked x) \<le> fst (lt_checked x) \<and> fst (lt_checked x) \<le> snd (lt_checked x) \<and> clock_ok (snd (lt_checked x)) xs"

definition spaced :: "time list \<Rightarrow> bool" where
  "spaced fs \<longleftrightarrow> (\<forall>i. 5 + i < length fs \<longrightarrow> fs ! (5 + i) + BLOCK_TIME \<le> fs ! i)"

text \<open>What the counter of an address says about the past: it counted the newest failures, up to the last
  pause of the block time.\<close>

definition counter_ok :: "time \<Rightarrow> failures option \<Rightarrow> time list \<Rightarrow> bool" where
  "counter_ok t f fs \<longleftrightarrow> sorted_wrt (\<ge>) fs \<and> (\<forall>x \<in> set fs. x \<le> t) \<and>
     (case f of
        None \<Rightarrow> fs = [] \<or> fs ! 0 + BLOCK_TIME \<le> t
      | Some f \<Rightarrow> (\<exists>n. fl_count f = Suc n \<and> n < length fs \<and> fl_last f = Some (fs ! 0) \<and>
          (Suc n = length fs \<or> fs ! Suc n + BLOCK_TIME \<le> fs ! n)))"

lemma BLOCK_TIME_pos: "0 < BLOCK_TIME"
  by (simp add: BLOCK_TIME_def)

lemma counter_later: "counter_ok t f fs \<Longrightarrow> t \<le> t' \<Longrightarrow> counter_ok t' f fs"
  by (fastforce simp: counter_ok_def split: option.splits)

lemma nth_desc: "sorted_wrt (\<ge>) fs \<Longrightarrow> i \<le> j \<Longrightarrow> j < length fs \<Longrightarrow> fs ! j \<le> (fs ! i :: time)"
  using sorted_wrt_nth_less [of "\<lambda>x y. y \<le> x" fs i j] by (cases "i = j") auto

text \<open>A failure that was not blocked keeps the failures spaced.\<close>

lemma spaced_add:
  assumes ok: "counter_ok t f fs" and sp: "spaced fs" and t: "t \<le> t1" "t1 \<le> t2" "t2 \<le> now"
    and free: "case f of Some f \<Rightarrow> blocked t1 t2 5 f = Inr None | None \<Rightarrow> True"
  shows "spaced (now # fs)"
proof -
  have "fs ! 4 + BLOCK_TIME \<le> now" if long: "4 < length fs"
  proof (cases f)
    case None
    with ok long have "fs ! 0 + BLOCK_TIME \<le> t" by (auto simp: counter_ok_def)
    with nth_desc [of fs 0 4] ok long t show ?thesis by (simp add: counter_ok_def)
  next
    case (Some g)
    with ok obtain n where n: "fl_count g = Suc n" "n < length fs" "fl_last g = Some (fs ! 0)"
      "Suc n = length fs \<or> fs ! Suc n + BLOCK_TIME \<le> fs ! n" by (auto simp: counter_ok_def)
    have desc: "sorted_wrt (\<ge>) fs" "\<forall>x \<in> set fs. x \<le> t" using ok by (simp_all add: counter_ok_def)
    show ?thesis
    proof (cases "4 \<le> n")
      case True
      with free Some n have "BLOCK_TIME \<le> t1 - fs ! 0"
        using BLOCK_TIME_pos by (auto simp: blocked_def elapsed_def split: if_splits)
      with nth_desc [OF desc(1), of 0 4] long t show ?thesis by simp
    next
      case False
      with n long have "fs ! Suc n + BLOCK_TIME \<le> fs ! n" by auto
      moreover have "fs ! 4 \<le> fs ! Suc n" using nth_desc [OF desc(1), of "Suc n" 4] False long by simp
      moreover have "fs ! n \<le> t" using desc(2) n(2) by simp
      ultimately show ?thesis using t by simp
    qed
  qed
  then have "(now # fs) ! (5 + i) + BLOCK_TIME \<le> (now # fs) ! i" if "5 + i < length (now # fs)" for i
    using that sp by (cases i) (auto simp: spaced_def)
  then show ?thesis by (simp add: spaced_def)
qed

lemma counter_add:
  assumes ok: "counter_ok t f fs" and t: "t \<le> now"
  shows "counter_ok now (Some (add_failure now (case f of Some f \<Rightarrow> f | None \<Rightarrow> no_failures))) (now # fs)"
proof -
  have desc: "sorted_wrt (\<ge>) (now # fs)" "\<forall>x \<in> set (now # fs). x \<le> now" using ok t by (fastforce simp: counter_ok_def)+
  show ?thesis
  proof (cases f)
    case None
    with ok desc t show ?thesis
      by (auto simp: counter_ok_def add_failure_def no_failures_def)
  next
    case (Some g)
    with ok obtain n where n: "fl_count g = Suc n" "n < length fs" "fl_last g = Some (fs ! 0)"
      "Suc n = length fs \<or> fs ! Suc n + BLOCK_TIME \<le> fs ! n" by (auto simp: counter_ok_def)
    have "fs ! 0 \<le> now" using desc(2) n(2) by (cases fs) auto
    show ?thesis
    proof (cases "BLOCK_TIME \<le> now - fs ! 0")
      case True
      with desc n Some \<open>fs ! 0 \<le> now\<close> show ?thesis
        by (auto simp: counter_ok_def add_failure_def elapsed_def Let_def intro!: exI [of _ 0])
    next
      case False
      with desc n Some \<open>fs ! 0 \<le> now\<close> BLOCK_TIME_pos show ?thesis
        by (auto simp: counter_ok_def add_failure_def elapsed_def Let_def intro!: exI [of _ "Suc n"])
    qed
  qed
qed

text \<open>What one attempt does to the counter of an address.\<close>

definition address_counter :: "string \<Rightarrow> web_auth \<Rightarrow> failures option" where
  "address_counter a w = map_of (wa_by_address w) a"

lemma retained_counter:
  assumes "bt_sorted m" and ok: "counter_ok now (map_of m k) fs"
  shows "counter_ok now (map_of (bt_retain (\<lambda>_ f. case fl_last f of Some t \<Rightarrow> elapsed now t < BLOCK_TIME | None \<Rightarrow> False) m) k) fs"
proof (cases "map_of m k")
  case None
  with ok show ?thesis by (simp add: map_of_bt_retain [OF bt_sorted_distinct [OF assms(1)]])
next
  case (Some f)
  with ok obtain n where "fl_last f = Some (fs ! 0)" "n < length fs" by (auto simp: counter_ok_def)
  with ok Some BLOCK_TIME_pos show ?thesis
    by (auto simp: map_of_bt_retain [OF bt_sorted_distinct [OF assms(1)]] counter_ok_def elapsed_def)
qed

lemma count_failure_counters:
  assumes sorted: "bt_sorted m" and ok: "counter_ok now (map_of m k) fs"
  shows "bt_sorted (snd (count_failure now most j m))"
    and "counter_ok now (map_of (snd (count_failure now most j m)) k) (if j = k then now # fs else fs)"
proof -
  let ?m1 = "if 10000 < length m
    then bt_retain (\<lambda>_ f. case fl_last f of Some t \<Rightarrow> elapsed now t < BLOCK_TIME | None \<Rightarrow> False) m else m"
  have m1: "bt_sorted ?m1" "counter_ok now (map_of ?m1 k) fs"
    using sorted ok retained_counter [OF sorted ok] by auto
  then show "bt_sorted (snd (count_failure now most j m))" by (simp add: count_failure_def Let_def)
  show "counter_ok now (map_of (snd (count_failure now most j m)) k) (if j = k then now # fs else fs)"
    using m1(2) counter_add [OF m1(2)] by (auto simp: count_failure_def Let_def)
qed

definition auth_ok :: "string \<Rightarrow> time \<Rightarrow> web_auth \<Rightarrow> time list \<Rightarrow> bool" where
  "auth_ok a t w fs \<longleftrightarrow> bt_sorted (wa_by_address w) \<and> counter_ok t (map_of (wa_by_address w) a) fs \<and> spaced fs"

lemma create_web_session_addresses [simp]:
  "wa_by_address (snd (create_web_session now token u epoch w)) = wa_by_address w"
  by (simp add: create_web_session_def split: option.split)

lemma succeeded_addresses [simp]:
  "wa_by_address (succeeded from u w) = (case from of None \<Rightarrow> wa_by_address w | Some a \<Rightarrow> bt_remove a (wa_by_address w))"
  by (simp add: succeeded_def Let_def split: option.split)

lemma failed_addresses:
  "wa_by_address (snd (failed now from u w)) =
     (case from of None \<Rightarrow> wa_by_address w | Some a \<Rightarrow> snd (count_failure now MAX_FAILURES_PER_ADDRESS a (wa_by_address w)))"
  by (auto simp: failed_def Let_def split: option.splits prod.splits)

text \<open>An attempt leaves the addresses alone, counts a failure, or forgets its address.\<close>

lemma attempt_addresses:
  "wa_by_address (attempt_step H dummy w x) = (case checked_as H dummy w x of
     None \<Rightarrow> wa_by_address w
   | Some None \<Rightarrow> wa_by_address (snd (failed (snd (lt_checked x)) (lt_from x) (lt_user x) w))
   | Some (Some i) \<Rightarrow> wa_by_address (succeeded (lt_from x) (us_name i) w))"
proof -
  have made: "wa_by_address w2 = wa_by_address w1" if "create_web_session now token u epoch w1 = (r, w2)" for now token u epoch w1 r w2
    using create_web_session_addresses [of now token u epoch w1] that by simp
  show ?thesis
    by (auto simp: attempt_step_def login_def checked_as_def login_checked_def Let_def made
        split: option.splits sum.splits prod.splits)
qed

lemma checked_as_free:
  "checked_as H dummy w x = Some v \<Longrightarrow> lt_from x = Some a \<Longrightarrow>
     (case map_of (wa_by_address w) a of Some f \<Rightarrow> blocked (fst (lt_blocked x)) (snd (lt_blocked x)) 5 f = Inr None | None \<Rightarrow> True)"
  by (auto simp: checked_as_def login_admitted_def blocked_address_def MAX_FAILURES_PER_ADDRESS_def
      split: if_splits option.splits sum.splits)

lemma attempt_ok:
  assumes ok: "auth_ok a t w fs" and clock: "clock_ok t (x # xs)"
  shows "auth_ok a (snd (lt_checked x)) (attempt_step H dummy w x)
    (if lt_from x \<noteq> Some a then fs else (case checked_as H dummy w x of
       None \<Rightarrow> fs | Some None \<Rightarrow> snd (lt_checked x) # fs | Some (Some _) \<Rightarrow> []))"
proof -
  let ?now = "snd (lt_checked x)"
  have later: "t \<le> ?now" using clock by simp
  have sorted: "bt_sorted (wa_by_address w)" and sp: "spaced fs"
    and cnt: "counter_ok ?now (map_of (wa_by_address w) a) fs" and cnt0: "counter_ok t (map_of (wa_by_address w) a) fs"
    using ok counter_later [OF _ later] by (auto simp: auth_ok_def)
  show ?thesis
  proof (cases "checked_as H dummy w x")
    case None
    with sorted sp cnt show ?thesis by (simp add: auth_ok_def attempt_addresses)
  next
    case (Some v)
    show ?thesis
    proof (cases v)
      case None
      show ?thesis
      proof (cases "lt_from x")
        case no_address: None
        with Some None sorted sp cnt show ?thesis by (simp add: auth_ok_def attempt_addresses failed_addresses)
      next
        case (Some b)
        note counters = count_failure_counters [OF sorted cnt, of MAX_FAILURES_PER_ADDRESS b]
        have "spaced (?now # fs)" if "b = a"
          using spaced_add [OF cnt0 sp, of "fst (lt_blocked x)" "snd (lt_blocked x)" ?now] clock
            checked_as_free [OF \<open>checked_as H dummy w x = Some v\<close>, of a] Some that by simp
        with counters sp Some None \<open>checked_as H dummy w x = Some v\<close> show ?thesis
          by (auto simp: auth_ok_def attempt_addresses failed_addresses)
      qed
    next
      case right: (Some i)
      have "counter_ok ?now None []" "spaced []" by (simp_all add: counter_ok_def spaced_def)
      with Some right sorted sp cnt show ?thesis
        by (auto simp: auth_ok_def attempt_addresses split: option.split)
    qed
  qed
qed

lemma attempts_ok:
  "auth_ok a t w fs \<Longrightarrow> clock_ok t xs \<Longrightarrow> spaced (wrong_times H dummy a w xs fs)"
proof (induction xs arbitrary: t w fs)
  case (Cons x xs)
  from Cons.IH [OF attempt_ok [OF Cons.prems]] Cons.prems(2) show ?case by simp
qed (simp add: auth_ok_def)

definition fresh_auth :: web_auth where
  "fresh_auth = \<lparr>wa_sessions = [], wa_by_address = [], wa_by_user = []\<rparr>"


section \<open>Where the limits and the sessions give way\<close>

text \<open>Logins at the same time: none is counted before the others have passed the check of the address, so
  any number of passwords is tried before the block starts.\<close>

lemma parallel_logins_pass_the_block:
  "map (\<lambda>u. login_admitted now now True (Some a) fresh_auth) users = replicate (length users) None \<and>
   (users \<noteq> [] \<longrightarrow> map_option fl_count (map_of (wa_by_address
      (foldl (\<lambda>w u. snd (failed now (Some a) u w)) fresh_auth users)) a) = Some (length users))"
proof -
  let ?step = "\<lambda>w u. snd (failed now (Some a) u w)"
  have run: "\<exists>f. wa_by_address (foldl ?step w us) = [(a, f)] \<and> fl_count f = n + length us"
    if "wa_by_address w = [(a, g)]" "fl_count g = n" "fl_last g = Some now" for w g n us
    using that
  proof (induction us arbitrary: w g n)
    case (Cons u users)
    let ?g = "add_failure now g"
    have 1: "wa_by_address (?step w u) = [(a, ?g)]"
      using Cons.prems(1) by (simp add: failed_addresses count_failure_def Let_def)
    have 2: "fl_count ?g = Suc n" "fl_last ?g = Some now"
      using Cons.prems BLOCK_TIME_pos by (simp_all add: add_failure_def elapsed_def Let_def)
    from Cons.IH [OF 1 2] show ?case by auto
  qed simp
  show ?thesis
  proof (cases users)
    case (Cons u us)
    let ?g = "add_failure now no_failures"
    have "wa_by_address (?step fresh_auth u) = [(a, ?g)]"
      by (simp add: failed_addresses count_failure_def fresh_auth_def Let_def)
    moreover have "fl_count ?g = 1" "fl_last ?g = Some now"
      by (simp_all add: add_failure_def no_failures_def Let_def)
    ultimately show ?thesis
      using run [of "?step fresh_auth u" ?g 1 us] Cons
      by (auto simp: login_admitted_def blocked_address_def fresh_auth_def map_replicate_const)
  qed simp
qed

text \<open>The clock is read twice: at the end of the block the difference is negative, and the login panics.\<close>

lemma block_end_panics:
  "most \<le> fl_count f \<Longrightarrow> fl_last f = Some t \<Longrightarrow> t \<le> now1 \<Longrightarrow> now1 < t + BLOCK_TIME \<Longrightarrow> t + BLOCK_TIME < now2 \<Longrightarrow>
     blocked now1 now2 most f = Inl ()"
  by (auto simp: blocked_def elapsed_def)

text \<open>A wrong password for a blocked user is counted like any other.\<close>

lemma blocked_user_still_counts:
  "blocked_user now1 now2 u w = Inr (Some wait) \<Longrightarrow>
     snd (snd (login_checked now1 now2 a u (Inr None) token db w)) = snd (failed now2 a u w)"
  by (simp add: login_checked_def split: prod.split)

text \<open>A login whose password was right just before an administrator reset it gets a session that is valid
  after the reset.\<close>

definition one_user :: user_db where
  "one_user = \<lparr>db_users = [\<lparr>ur_name = ''anna'', ur_hash = ''sold'', ur_role = ''admin'', ur_created = [],
     ur_must = False, ur_epoch = 0\<rparr>], db_tokens = []\<rparr>"

lemma login_survives_reset:
  "case update_user toy_hashing ''s'' ''anna'' None (Some ''newpassword'') True one_user of (res, db1) \<Rightarrow>
     (case login_checked 1 1 None ''anna'' (verify_user toy_hashing [] ''anna'' ''old'' one_user) (Some ''t'') db1 fresh_auth of
        (answer, _, w) \<Rightarrow> res = Inr [''password''] \<and> (case answer of LoggedIn t _ \<Rightarrow> t = ''t'' | _ \<Rightarrow> False) \<and>
          (case fst (authenticate 2 (Some ''t'') ''/api/me/password'' db1 w) of Inr a \<Rightarrow> au_must a | Inl _ \<Rightarrow> False) \<and>
          fst (change_own_password toy_hashing ''s'' ''anna'' None ''attackers1'' db1) = Inr ())"
  by code_simp

text \<open>A user deleted and created again under the same name starts at epoch 0 again: a session opened at
  that epoch, which saw no request in between, is then the new user's.\<close>

lemma recreated_user_revives_session:
  "let w = \<lparr>wa_sessions = [(''t'', \<lparr>ws_user = ''otto'', ws_epoch = 0, ws_created = 0, ws_seen = 0\<rparr>)],
            wa_by_address = [], wa_by_user = []\<rparr>;
       db = foldl (users_step toy_hashing) admin_db
              [DoDelete ''otto'', DoCreate ''s'' ''now'' ''otto'' ''password9'' Admin False]
   in (case fst (authenticate 1 (Some ''t'') ''/api/users'' db w) of
        Inr a \<Rightarrow> au_name a = ''otto'' \<and> au_role a = Admin
      | Inl _ \<Rightarrow> False)"
  by code_simp

section \<open>Concrete logins\<close>

definition ottos_session :: web_auth where
  "ottos_session = fresh_auth\<lparr>wa_sessions := [(''t'', \<lparr>ws_user = ''otto'', ws_epoch = 0, ws_created = 0, ws_seen = 0\<rparr>)]\<rparr>"

lemma otto_authenticated:
  "fst (authenticate 1 (Some ''t'') ''/api/users'' (foldl (users_step toy_hashing) empty_db
     (first_accounts @ [DoDelete ''anna''])) ottos_session) =
     Inr \<lparr>au_name = ''otto'', au_role = Admin, au_must = False, au_token = None\<rparr>"
  by code_simp

lemma first_accounts_epoch: "epoch_of ''otto'' (foldl (users_step toy_hashing) empty_db first_accounts) = Some 0"
  by code_simp


definition guess :: "time \<Rightarrow> attempt" where
  "guess t = \<lparr>lt_blocked = (t, t), lt_permit = True, lt_checked = (t, t), lt_from = Some ''10.0.0.1'', lt_user = ''admin'',
     lt_password = ''guess'', lt_token = None, lt_db = empty_db\<rparr>"

text \<open>A state in which only this address and user have failed.\<close>

definition guessed :: "nat \<Rightarrow> nat \<Rightarrow> time \<Rightarrow> web_auth" where
  "guessed n m t = \<lparr>wa_sessions = [], wa_by_address = [(''10.0.0.1'', \<lparr>fl_count = n, fl_last = Some t\<rparr>)],
     wa_by_user = [(''admin'', \<lparr>fl_count = m, fl_last = Some t\<rparr>)]\<rparr>"

lemma guess_first: "checked_as toy_hashing [] fresh_auth (guess t) = Some None \<and>
    attempt_step toy_hashing [] fresh_auth (guess t) = guessed 1 1 t"
  by (simp add: checked_as_def attempt_step_def login_def guess_def login_admitted_def blocked_address_def fresh_auth_def
      verify_user_def empty_db_def find_user_def toy_hashing_def blocked_user_def login_checked_def failed_def
      count_failure_def add_failure_def no_failures_def guessed_def)

lemma guess_next:
  assumes "t \<le> t'" and "n < 5 \<or> t + BLOCK_TIME \<le> t'" and "m < 20"
  shows "checked_as toy_hashing [] (guessed n m t) (guess t') = Some None \<and>
    attempt_step toy_hashing [] (guessed n m t) (guess t') =
      (if t + BLOCK_TIME \<le> t' then guessed 1 1 t' else guessed (n + 1) (m + 1) t')"
  using assms
  by (auto simp: checked_as_def attempt_step_def login_def guess_def login_admitted_def blocked_address_def blocked_def
      verify_user_def empty_db_def find_user_def toy_hashing_def blocked_user_def login_checked_def failed_def elapsed_def
      count_failure_def add_failure_def no_failures_def guessed_def MAX_FAILURES_PER_ADDRESS_def MAX_FAILURES_PER_USER_def Let_def)

lemma guess_blocked:
  assumes "t \<le> t'" and "5 \<le> n" and "t' < t + BLOCK_TIME"
  shows "checked_as toy_hashing [] (guessed n m t) (guess t') = None \<and>
    attempt_step toy_hashing [] (guessed n m t) (guess t') = guessed n m t"
  using assms
  by (auto simp: checked_as_def attempt_step_def login_def guess_def login_admitted_def blocked_address_def blocked_def
      elapsed_def guessed_def MAX_FAILURES_PER_ADDRESS_def)

lemma six_guesses: "wrong_times toy_hashing [] ''10.0.0.1'' fresh_auth (map guess [1, 2, 3, 4, 5, 6, BLOCK_TIME + 5]) [] =
    [BLOCK_TIME + 5, 5, 4, 3, 2, 1]"
proof -
  have "lt_from (guess t) = Some ''10.0.0.1''" "snd (lt_checked (guess t)) = t" for t by (simp_all add: guess_def)
  then show ?thesis
    by (simp add: guess_first guess_next guess_blocked) (simp add: BLOCK_TIME_def guess_first guess_next guess_blocked)
qed


end
