(* ===== verification/Export.thy ===== *)
theory Export
  imports Audit_Store Ordered_Map
begin

text \<open>
  Shipping the trail to another system (src/export/mod.rs): the positions kept per destination, the gap
  check, and one round of the exporter's loop. The destination, the file system and what each read of
  the trail sees are arguments: the trail may grow, be pruned or be replaced between any two reads.
\<close>

section \<open>Positions\<close>

record position =
  po_seq :: int
  po_hash :: string

definition start_position :: position where
  "start_position = \<lparr>po_seq = 0, po_hash = []\<rparr>"

text \<open>State files from before hashes were kept hold a bare sequence number.\<close>

datatype stored_position = OldSeq int | Stored position

datatype state_file = FileMissing | FileBroken | FileUnreadable | StateFile "(string \<times> stored_position) list"

definition of_stored :: "stored_position \<Rightarrow> position" where
  "of_stored p = (case p of OldSeq n \<Rightarrow> \<lparr>po_seq = n, po_hash = []\<rparr> | Stored q \<Rightarrow> q)"

text \<open>\<open>ExportState::open\<close>; \<open>None\<close> when the file cannot be read at all, a broken one is set aside.\<close>

definition open_state :: "state_file \<Rightarrow> (string \<times> position) list option" where
  "open_state f = (case f of
     FileMissing \<Rightarrow> Some []
   | FileBroken \<Rightarrow> Some []
   | FileUnreadable \<Rightarrow> None
   | StateFile ps \<Rightarrow> Some (map (\<lambda>(k, p). (k, of_stored p)) ps))"

text \<open>A position kept under the kind alone, from an older version, moves to the destination's key.\<close>

definition position_for :: "string \<Rightarrow> string \<Rightarrow> (string \<times> position) list \<Rightarrow> position \<times> (string \<times> position) list" where
  "position_for sink key ps = (case map_of ps key of
     Some p \<Rightarrow> (p, ps)
   | None \<Rightarrow> (case map_of ps sink of
       Some p \<Rightarrow> (p, bt_put key p (bt_remove sink ps))
     | None \<Rightarrow> (start_position, ps)))"

definition anchors_of :: "(string \<times> position) list \<Rightarrow> anchor list" where
  "anchors_of ps = map (\<lambda>(k, p). \<lparr>a_seq = po_seq p, a_hash = po_hash p\<rparr>)
     (filter (\<lambda>(k, p). 0 < po_seq p \<and> po_hash p \<noteq> []) ps)"

definition anchors_from :: "state_file \<Rightarrow> anchor list" where
  "anchors_from f = (case f of
     StateFile ps \<Rightarrow> anchors_of (List.map_filter (\<lambda>(k, p). case p of Stored q \<Rightarrow> Some (k, q) | OldSeq _ \<Rightarrow> None) ps)
   | _ \<Rightarrow> [])"

section \<open>Gaps\<close>

definition gap_text :: "position \<Rightarrow> int \<Rightarrow> string" where
  "gap_text p head = ''the audit trail ends at record '' @ int_str head @ '', before the last exported record '' @
     int_str (po_seq p) @ '': it was cut off or replaced''"

definition find_gap :: "position \<Rightarrow> stored_record list \<Rightarrow> int \<Rightarrow> (int \<times> string) option" where
  "find_gap p rs head =
     (if head < po_seq p then Some (head, gap_text p head)
      else (case rs of
          [] \<Rightarrow> None
        | r # _ \<Rightarrow>
            if po_seq p = 0 then None
            else if sr_seq r \<noteq> po_seq p + 1
            then Some (sr_seq r, ''records '' @ int_str (po_seq p + 1) @ '' to '' @ int_str (sr_seq r - 1) @
                   '' were removed before they were exported'')
            else if po_hash p \<noteq> [] \<and> sr_prev_hash r \<noteq> po_hash p
            then Some (sr_seq r, ''record '' @ int_str (sr_seq r) @ '' does not follow the exported record '' @
                   int_str (po_seq p) @ '': the trail was rewritten or replaced'')
            else None))"

section \<open>The exporter\<close>

definition BATCH_SIZE :: nat where "BATCH_SIZE = 1000"

record export_status =
  xs_exported :: int
  xs_pending :: int
  xs_success :: "time option"
  xs_error :: "string option"
  xs_gap :: "string option"

record exporter =
  ex_kind :: string
  ex_key :: string
  ex_position :: position
  ex_positions :: "(string \<times> position) list"
  ex_file :: state_file
  ex_failures :: nat
  ex_status :: export_status

definition initial_status :: "position \<Rightarrow> export_status" where
  "initial_status p = \<lparr>xs_exported = po_seq p, xs_pending = 0, xs_success = None, xs_error = None, xs_gap = None\<rparr>"

text \<open>What one round meets: the head (\<open>Inl\<close>: the reason it cannot be read) and the trail as each read
  finds it, the fate of the records sent, of the state file, and the clock.\<close>

record round =
  ro_head :: "string + int"
  ro_after :: "int \<Rightarrow> string + stored_record list"
  ro_again :: "string + stored_record list"
  ro_send :: "stored_record list \<Rightarrow> string option"
  ro_write :: "string option"
  ro_head_later :: "string + int"
  ro_clock :: time

datatype export_effect = GapRecorded audit_entry | Delivered "stored_record list" | NotDelivered "stored_record list"

definition export_key :: "string \<Rightarrow> string \<Rightarrow> string" where
  "export_key sink destination = sink @ '' '' @ destination"

text \<open>\<open>ExportState::set\<close>: kept in memory in any case, in the file if it can be written.\<close>

definition set_position :: "string option \<Rightarrow> position \<Rightarrow> exporter \<Rightarrow> exporter" where
  "set_position failure p ex =
     (let ps = bt_put (ex_key ex) p (ex_positions ex);
          ex1 = ex\<lparr>ex_positions := ps\<rparr>
      in case failure of
           None \<Rightarrow> ex1\<lparr>ex_file := StateFile (map (\<lambda>(k, q). (k, Stored q)) ps)\<rparr>
         | Some _ \<Rightarrow> ex1)"

definition gap_entry :: "time \<Rightarrow> string \<Rightarrow> position \<Rightarrow> int \<times> string \<Rightarrow> audit_entry" where
  "gap_entry now sink p g = new_entry now (ExportGap sink (po_seq p) (fst g) (snd g))"

text \<open>Sending what was read: the position moves once the file has it.\<close>

definition send_batch :: "round \<Rightarrow> stored_record list \<Rightarrow> exporter \<Rightarrow> (string + nat) \<times> export_effect list \<times> exporter" where
  "send_batch ro rs ex =
     (if rs = [] then (Inr 0, [], ex)
      else (case ro_send ro rs of
          Some e \<Rightarrow> (Inl e, [NotDelivered rs], ex)
        | None \<Rightarrow>
            (let next = \<lparr>po_seq = sr_seq (last rs), po_hash = sr_hash (last rs)\<rparr>;
                 ex1 = set_position (ro_write ro) next ex
             in case ro_write ro of
                  Some e \<Rightarrow> (Inl e, [Delivered rs], ex1)
                | None \<Rightarrow> (Inr (length rs), [Delivered rs], ex1\<lparr>ex_position := next\<rparr>))))"

definition export_batch :: "round \<Rightarrow> exporter \<Rightarrow> (string + nat) \<times> export_effect list \<times> exporter" where
  "export_batch ro ex = (case ro_head ro of
     Inl e \<Rightarrow> (Inl e, [], ex)
   | Inr head \<Rightarrow> (case ro_after ro (po_seq (ex_position ex)) of
       Inl e \<Rightarrow> (Inl e, [], ex)
     | Inr rs \<Rightarrow> (case find_gap (ex_position ex) rs head of
         None \<Rightarrow> send_batch ro rs ex
       | Some g \<Rightarrow>
           (let effs = [GapRecorded (gap_entry (ro_clock ro) (ex_kind ex) (ex_position ex) g)];
                ex1 = ex\<lparr>ex_status := (ex_status ex)\<lparr>xs_gap := Some (snd g)\<rparr>\<rparr>
            in if head < po_seq (ex_position ex)
               then (let ex2 = ex1\<lparr>ex_position := start_position\<rparr> in case ro_again ro of
                   Inl e \<Rightarrow> (Inl e, effs, ex2)
                 | Inr again \<Rightarrow> (case send_batch ro again ex2 of (r, effs2, ex3) \<Rightarrow> (r, effs @ effs2, ex3)))
               else (case send_batch ro rs ex1 of (r, effs2, ex3) \<Rightarrow> (r, effs @ effs2, ex3))))))"

definition retry_delay :: "nat \<Rightarrow> nat \<Rightarrow> nat" where
  "retry_delay interval n = min (interval * n) 60"

text \<open>A round: the batch, the status, and the seconds until the next.\<close>

definition export_round :: "nat \<Rightarrow> round \<Rightarrow> exporter \<Rightarrow> nat \<times> export_effect list \<times> exporter" where
  "export_round interval ro ex = (case export_batch ro ex of (result, effs, ex1) \<Rightarrow>
     (let st = (ex_status ex1)\<lparr>xs_exported := po_seq (ex_position ex1),
            xs_pending := (case ro_head_later ro of Inr head \<Rightarrow> max (head - po_seq (ex_position ex1)) 0 | Inl _ \<Rightarrow> xs_pending (ex_status ex1))\<rparr>
      in case result of
           Inr n \<Rightarrow> ((if n = BATCH_SIZE then 0 else interval), effs,
             ex1\<lparr>ex_failures := 0, ex_status := st\<lparr>
               xs_success := (if 0 < n then Some (ro_clock ro) else xs_success st),
               xs_error := (case ro_head_later ro of Inl e \<Rightarrow> Some (''reading the audit trail: '' @ e) | Inr _ \<Rightarrow> None)\<rparr>\<rparr>)
         | Inl e \<Rightarrow> (retry_delay interval (ex_failures ex1 + 1), effs,
             ex1\<lparr>ex_failures := ex_failures ex1 + 1, ex_status := st\<lparr>xs_error := Some e\<rparr>\<rparr>)))"

text \<open>The exporter starts, or starts again with the settings applied anew.\<close>

definition start_exporter :: "string \<Rightarrow> string \<Rightarrow> (string \<times> position) list \<Rightarrow> state_file \<Rightarrow> exporter" where
  "start_exporter sink key ps f = (case position_for sink key ps of (p, ps1) \<Rightarrow>
     \<lparr>ex_kind = sink, ex_key = key, ex_position = p, ex_positions = ps1, ex_file = f, ex_failures = 0,
      ex_status = initial_status p\<rparr>)"

text \<open>The gateway starts again: only the file remains.\<close>

definition restart_exporter :: "exporter \<Rightarrow> exporter option" where
  "restart_exporter ex = map_option (\<lambda>ps. start_exporter (ex_kind ex) (ex_key ex) ps (ex_file ex)) (open_state (ex_file ex))"

end
