(* ===== verification/Export_Refinement.thy ===== *)
theory Export_Refinement
  imports Export Audit_Chain Reference_Codec
begin

text \<open>
  What src/export/mod.rs promises: while the trail only grows, the exporter refines a counter that
  moves through the trail in slices, through every failure and restart; and whatever happens to the
  trail, no batch that does not continue the last one is delivered without a record of the gap.
\<close>

section \<open>Reading a trail that grows\<close>

definition stored :: "codec \<Rightarrow> row \<Rightarrow> stored_record" where
  "stored C r = \<lparr>sr_seq = seq r, sr_hash = hash r, sr_prev_hash = prev_hash r, sr_entry = the (from_json C (body r))\<rparr>"

lemma read_rows_stored: "\<forall>r \<in> set rs. row_ok C r \<Longrightarrow> read_rows C rs = Inr (map (stored C) rs)"
  by (induction rs) (auto simp: row_ok_def stored_def split: option.splits)

text \<open>The trail from its first record.\<close>

definition whole_trail :: "codec \<Rightarrow> row list \<Rightarrow> bool" where
  "whole_trail C T \<longleftrightarrow> (\<forall>r \<in> set T. row_ok C r) \<and> linked_from 0 GENESIS_HASH T"

lemma linked_from_prev: "linked_from n h T \<Longrightarrow> Suc i < length T \<Longrightarrow> prev_hash (T ! Suc i) = hash (T ! i)"
proof (induction n h T arbitrary: i rule: linked_from.induct)
  case (2 n h r rs)
  show ?case
  proof (cases i)
    case 0
    with 2 show ?thesis by (cases rs) auto
  next
    case (Suc j)
    with 2 show ?thesis by auto
  qed
qed simp

lemma whole_seq: "whole_trail C T \<Longrightarrow> i < length T \<Longrightarrow> seq (T ! i) = 1 + int i"
  using linked_from_nth [of 0 GENESIS_HASH T i] by (simp add: whole_trail_def)

lemma filter_after:
  assumes "\<And>i. i < length rs \<Longrightarrow> seq (rs ! i) = n + 1 + int i"
  shows "filter (\<lambda>r. n + int p < seq r) rs = drop p rs"
  using assms
proof (induction rs arbitrary: n p)
  case (Cons r rs)
  have r: "seq r = n + 1" using Cons.prems [of 0] by simp
  have rs: "seq (rs ! i) = n + 1 + 1 + int i" if "i < length rs" for i using Cons.prems [of "Suc i"] that by simp
  show ?case
  proof (cases p)
    case 0
    have "n < seq x" if "x \<in> set rs" for x using that rs by (force simp: in_set_conv_nth)
    with 0 r show ?thesis by (simp add: filter_id_conv)
  next
    case (Suc q)
    have "filter (\<lambda>r. n + 1 + int q < seq r) rs = drop q rs" using Cons.IH [of "n + 1" q] rs by (simp add: algebra_simps)
    with Suc r show ?thesis by (simp add: algebra_simps)
  qed
qed simp

lemma query_after_whole:
  assumes "whole_trail C T"
  shows "query_after C \<lparr>audit = take k T, chain_head = None\<rparr> (int p) n = Inr (map (stored C) (take n (drop p (take k T))))"
proof -
  have "filter (\<lambda>r. int p < seq r) (take k T) = drop p (take k T)"
    using filter_after [of "take k T" 0 p] whole_seq [OF assms] by simp
  moreover have "\<forall>r \<in> set (take n (drop p (take k T))). row_ok C r"
    using assms by (meson in_set_dropD in_set_takeD whole_trail_def)
  ultimately show ?thesis by (simp add: query_after_def read_rows_stored)
qed

lemma head_seq_whole:
  assumes "whole_trail C T" and "k \<le> length T"
  shows "head_seq \<lparr>audit = take k T, chain_head = None\<rparr> = int k"
proof (cases "k = 0")
  case False
  then obtain j where "k = Suc j" by (cases k) auto
  with assms have "last (take k T) = T ! j" "take k T \<noteq> []" by (auto simp: take_Suc_conv_app_nth)
  with assms whole_seq [OF assms(1), of j] \<open>k = Suc j\<close> show ?thesis by (cases "take k T") (auto simp: head_seq_def)
qed (simp add: head_seq_def)

section \<open>Runs of the exporter\<close>

text \<open>A round with the lengths of the trail at its reads, which of them fail, and what happens to the
  batch and the state file; the settings applied anew; or a restart of the gateway.\<close>

datatype export_op =
    Round nat nat "string option" "string option" "stored_record list \<Rightarrow> string option" "string option" time
  | Reapply
  | Restart

definition round_at :: "codec \<Rightarrow> row list \<Rightarrow> nat \<Rightarrow> nat \<Rightarrow> string option \<Rightarrow> string option
    \<Rightarrow> (stored_record list \<Rightarrow> string option) \<Rightarrow> string option \<Rightarrow> time \<Rightarrow> round" where
  "round_at C T k1 k2 f1 f2 send wr now =
     (let trail = (\<lambda>k. \<lparr>audit = take k T, chain_head = None\<rparr>);
          rd = (\<lambda>p. case f2 of Some e \<Rightarrow> Inl e
            | None \<Rightarrow> map_sum (\<lambda>_. ''unreadable'') id (query_after C (trail k2) p BATCH_SIZE))
      in \<lparr>ro_head = (case f1 of Some e \<Rightarrow> Inl e | None \<Rightarrow> Inr (head_seq (trail k1))), ro_after = rd, ro_again = rd 0,
          ro_send = send, ro_write = wr, ro_head_later = Inr (head_seq (trail k2)), ro_clock = now\<rparr>)"

definition export_op_step :: "codec \<Rightarrow> row list \<Rightarrow> nat \<Rightarrow> exporter \<Rightarrow> export_op \<Rightarrow> export_effect list \<times> exporter" where
  "export_op_step C T interval ex op = (case op of
     Round k1 k2 f1 f2 send wr now \<Rightarrow> snd (export_round interval (round_at C T k1 k2 f1 f2 send wr now) ex)
   | Reapply \<Rightarrow> ([], start_exporter (ex_kind ex) (ex_key ex) (ex_positions ex) (ex_file ex))
   | Restart \<Rightarrow> ([], (case restart_exporter ex of Some ex1 \<Rightarrow> ex1 | None \<Rightarrow> ex)))"

fun export_run :: "codec \<Rightarrow> row list \<Rightarrow> nat \<Rightarrow> exporter \<Rightarrow> export_op list \<Rightarrow> export_effect list \<times> exporter" where
  "export_run C T interval ex [] = ([], ex)"
| "export_run C T interval ex (op # ops) = (case export_op_step C T interval ex op of
     (effs, ex1) \<Rightarrow> (case export_run C T interval ex1 ops of (effs2, ex2) \<Rightarrow> (effs @ effs2, ex2)))"

fun growing :: "nat \<Rightarrow> nat \<Rightarrow> export_op list \<Rightarrow> bool" where
  "growing k n [] = True"
| "growing k n (Restart # ops) = growing k n ops"
| "growing k n (Reapply # ops) = growing k n ops"
| "growing k n (Round k1 k2 f1 f2 send wr now # ops) \<longleftrightarrow> k \<le> k1 \<and> k1 \<le> k2 \<and> k2 \<le> n \<and> growing k2 n ops"

definition delivered :: "export_effect list \<Rightarrow> stored_record list" where
  "delivered effs = concat (map (\<lambda>e. case e of Delivered rs \<Rightarrow> rs | _ \<Rightarrow> []) effs)"

definition gaps :: "export_effect list \<Rightarrow> audit_entry list" where
  "gaps effs = List.map_filter (\<lambda>e. case e of GapRecorded g \<Rightarrow> Some g | _ \<Rightarrow> None) effs"

lemma delivered_simps [simp]:
  "delivered [] = []" "delivered (a @ b) = delivered a @ delivered b" "delivered (Delivered rs # es) = rs @ delivered es"
  "delivered (NotDelivered rs # es) = delivered es" "delivered (GapRecorded g # es) = delivered es"
  by (simp_all add: delivered_def)

lemma gaps_simps [simp]:
  "gaps [] = []" "gaps (a @ b) = gaps a @ gaps b" "gaps (Delivered rs # es) = gaps es"
  "gaps (NotDelivered rs # es) = gaps es" "gaps (GapRecorded g # es) = g # gaps es"
  by (simp_all add: gaps_def map_filter_def)

section \<open>At least once, in order\<close>

text \<open>A position is the end of a slice of the trail that has been delivered in full.\<close>

definition reached :: "codec \<Rightarrow> row list \<Rightarrow> nat \<Rightarrow> stored_record list \<Rightarrow> position \<Rightarrow> bool" where
  "reached C T k D p \<longleftrightarrow> (\<exists>i \<le> k. po_seq p = int i \<and> po_hash p = (if i = 0 then [] else hash (T ! (i - 1)))
     \<and> set (map (stored C) (take i T)) \<subseteq> set D)"

definition file_reached :: "codec \<Rightarrow> row list \<Rightarrow> nat \<Rightarrow> stored_record list \<Rightarrow> state_file \<Rightarrow> bool" where
  "file_reached C T k D f \<longleftrightarrow> (case f of FileMissing \<Rightarrow> True
     | StateFile ps \<Rightarrow> (\<forall>(key, s) \<in> set ps. \<exists>p. s = Stored p \<and> reached C T k D p) | _ \<Rightarrow> False)"

definition exporter_ok :: "codec \<Rightarrow> row list \<Rightarrow> nat \<Rightarrow> stored_record list \<Rightarrow> exporter \<Rightarrow> bool" where
  "exporter_ok C T k D ex \<longleftrightarrow> set D \<subseteq> set (map (stored C) (take k T)) \<and> reached C T k D (ex_position ex)
     \<and> (\<forall>(key, p) \<in> set (ex_positions ex). reached C T k D p) \<and> file_reached C T k D (ex_file ex)"

lemma reached_start [simp]: "reached C T k D start_position"
  by (auto simp: reached_def start_position_def)

lemma reached_mono: "reached C T k D p \<Longrightarrow> k \<le> k' \<Longrightarrow> set D \<subseteq> set D' \<Longrightarrow> reached C T k' D' p"
  unfolding reached_def by (meson order_trans)

lemma file_reached_mono:
  assumes "file_reached C T k D f" and "k \<le> k'" and "set D \<subseteq> set D'"
  shows "file_reached C T k' D' f"
proof (cases f)
  case (StateFile ps)
  have "\<exists>q. b = Stored q \<and> reached C T k' D' q" if ab: "(a, b) \<in> set ps" for a b
  proof -
    obtain q where "b = Stored q" "reached C T k D q" using assms(1) StateFile ab by (fastforce simp: file_reached_def)
    with reached_mono [OF this(2) assms(2,3)] show ?thesis by blast
  qed
  with StateFile show ?thesis by (auto simp: file_reached_def)
qed (use assms(1) in \<open>simp_all add: file_reached_def\<close>)

lemma exporter_ok_mono:
  assumes "exporter_ok C T k D ex" and "k \<le> k'"
  shows "exporter_ok C T k' D ex"
proof -
  have "set (map (stored C) (take k T)) \<subseteq> set (map (stored C) (take k' T))"
    using set_take_subset_set_take [OF assms(2), of T] by auto
  moreover have "\<And>p. reached C T k D p \<Longrightarrow> reached C T k' D p" using reached_mono [OF _ assms(2)] by blast
  moreover have "file_reached C T k' D (ex_file ex)"
    using file_reached_mono [OF _ assms(2)] assms(1) unfolding exporter_ok_def by blast
  ultimately show ?thesis using assms(1) unfolding exporter_ok_def by auto
qed

lemma bt_put_subset: "set (bt_put k v m) \<subseteq> insert (k, v) (set m)"
  by (induction k v m rule: bt_put.induct) auto

lemma start_exporter_ok:
  assumes "set D \<subseteq> set (map (stored C) (take k T))" and "\<forall>(n, p) \<in> set ps. reached C T k D p" and "file_reached C T k D f"
  shows "exporter_ok C T k D (start_exporter sink key ps f)"
proof -
  have *: "\<And>n p. map_of ps n = Some p \<Longrightarrow> reached C T k D p" using assms(2) by (auto dest!: map_of_SomeD)
  have "\<forall>(m, q) \<in> set (bt_put key p (bt_remove sink ps)). reached C T k D q" if "map_of ps sink = Some p" for p
    using assms(2) * [OF that] bt_put_subset [of key p "bt_remove sink ps"] by (auto simp: bt_remove_def)
  with assms * show ?thesis
    by (auto simp: start_exporter_def position_for_def exporter_ok_def split: option.splits)
qed

section \<open>One round\<close>

lemma round_reads:
  assumes "whole_trail C T" and "reached C T k D p" and "k \<le> k1" "k1 \<le> k2" "k2 \<le> length T"
    and i: "po_seq p = int i" and rs: "rs = map (stored C) (take n (drop i (take k2 T)))"
  shows "find_gap p rs (int k1) = None"
proof (cases rs)
  case (Cons r rs')
  have ne: "i < k2" using Cons rs by (cases "i < k2") auto
  have "0 < n" using Cons rs by (cases n) auto
  with ne assms(5) have "rs ! 0 = stored C (T ! i)" unfolding rs by simp
  then have r: "r = stored C (T ! i)" using Cons by simp
  have "seq (T ! i) = 1 + int i" using whole_seq [OF assms(1), of i] ne assms(5) by simp
  moreover have "prev_hash (T ! i) = po_hash p" if "i \<noteq> 0"
    using linked_from_prev [of 0 GENESIS_HASH T "i - 1"] assms(1,2,5) i ne that
    by (auto simp: reached_def whole_trail_def)
  moreover have "i \<le> k1" using assms(2,3) i by (auto simp: reached_def)
  ultimately show ?thesis using Cons r i by (auto simp: find_gap_def stored_def)
qed (use assms(2,3) in \<open>auto simp: find_gap_def reached_def\<close>)

lemma reached_after:
  assumes "whole_trail C T" and "reached C T k D p" and "k2 \<le> length T" and i: "po_seq p = int i"
    and rs: "rs = map (stored C) (take n (drop i (take k2 T)))" and "rs \<noteq> []"
  shows "reached C T k2 (D @ rs) \<lparr>po_seq = sr_seq (last rs), po_hash = sr_hash (last rs)\<rparr>"
    and "sr_seq (last rs) = int i + int (length rs)"
proof -
  define j where "j = i + length rs"
  have j: "i < j" "j \<le> k2" using assms by (auto simp: j_def min_def)
  have "take n (drop i (take k2 T)) = drop i (take j T)"
    using rs j assms(3) unfolding j_def by (simp add: drop_take min_def)
  then have rs: "rs = map (stored C) (drop i (take j T))" using rs by simp
  have l: "last rs = stored C (T ! (j - 1))"
    using j assms(3) unfolding rs by (simp add: last_map last_drop last_conv_nth)
  show "sr_seq (last rs) = int i + int (length rs)"
  proof -
    have "j - 1 < length T" "1 \<le> j" using j assms(3) by auto
    then have "seq (T ! (j - 1)) = int j" using whole_seq [OF assms(1), of "j - 1"] by (simp add: of_nat_diff)
    with l show ?thesis by (simp add: stored_def j_def)
  qed
  have "set (map (stored C) (take i T)) \<subseteq> set D" using assms(2) i by (auto simp: reached_def)
  moreover have "take j T = take i T @ drop i (take j T)" using j by (metis append_take_drop_id min.absorb1 less_imp_le take_take)
  ultimately have "set (map (stored C) (take j T)) \<subseteq> set (D @ rs)" unfolding rs by (metis map_append set_append Un_mono order_refl)
  with j l whole_seq [OF assms(1), of "j - 1"] assms(3)
  show "reached C T k2 (D @ rs) \<lparr>po_seq = sr_seq (last rs), po_hash = sr_hash (last rs)\<rparr>"
    unfolding reached_def by (intro exI [of _ j]) (auto simp: stored_def)
qed

lemma send_batch_ok:
  assumes T: "whole_trail C T" "k2 \<le> length T" and ok: "exporter_ok C T k2 D ex" and i: "po_seq (ex_position ex) = int i"
    and rs: "rs = map (stored C) (take n (drop i (take k2 T)))" and s: "send_batch ro rs ex = (result, effs, ex1)"
  shows "gaps effs = []" "exporter_ok C T k2 (D @ delivered effs) ex1"
proof -
  let ?next = "\<lparr>po_seq = sr_seq (last rs), po_hash = sr_hash (last rs)\<rparr>"
  show "gaps effs = []" using s by (auto simp: send_batch_def Let_def split: if_splits option.splits)
  show "exporter_ok C T k2 (D @ delivered effs) ex1"
  proof (cases "rs = [] \<or> ro_send ro rs \<noteq> None")
    case True
    with s ok show ?thesis by (auto simp: send_batch_def split: if_splits option.splits)
  next
    case False
    then have ne: "rs \<noteq> []" by simp
    have p: "reached C T k2 D (ex_position ex)" using ok by (simp add: exporter_ok_def)
    have n: "reached C T k2 (D @ rs) ?next" by (rule reached_after [OF T(1) p T(2) i rs ne])
    have up: "\<And>q. reached C T k2 D q \<Longrightarrow> reached C T k2 (D @ rs) q" by (erule reached_mono) auto
    have ps: "\<forall>(m, q) \<in> set (bt_put (ex_key ex) ?next (ex_positions ex)). reached C T k2 (D @ rs) q"
      using bt_put_subset [of "ex_key ex" ?next "ex_positions ex"] n up ok by (fastforce simp: exporter_ok_def)
    have f: "file_reached C T k2 (D @ rs) (ex_file ex)"
      using ok file_reached_mono [of C T k2 D "ex_file ex" k2 "D @ rs"] by (simp add: exporter_ok_def)
    have f': "file_reached C T k2 (D @ rs) (StateFile (map (\<lambda>(k, q). (k, Stored q)) (bt_put (ex_key ex) ?next (ex_positions ex))))"
      using ps by (auto simp: file_reached_def)
    have "set rs \<subseteq> set (map (stored C) (take k2 T))" unfolding rs by (auto dest: in_set_takeD in_set_dropD)
    then have "set (D @ rs) \<subseteq> set (map (stored C) (take k2 T))" using ok by (auto simp: exporter_ok_def)
    with False s n ps f f' up [OF p] show ?thesis
      by (auto simp: send_batch_def set_position_def Let_def exporter_ok_def split: option.splits)
  qed
qed

lemma round_ok:
  assumes T: "whole_trail C T" and ok: "exporter_ok C T k D ex" and k: "k \<le> k1" "k1 \<le> k2" "k2 \<le> length T"
    and s: "export_round interval (round_at C T k1 k2 f1 f2 send wr now) ex = (d, effs, ex1)"
  shows "gaps effs = []" "exporter_ok C T k2 (D @ delivered effs) ex1"
proof -
  let ?ro = "round_at C T k1 k2 f1 f2 send wr now"
  have ok2: "exporter_ok C T k2 D ex" using exporter_ok_mono [OF ok] k by simp
  have p: "reached C T k D (ex_position ex)" using ok by (simp add: exporter_ok_def)
  then obtain i where i: "po_seq (ex_position ex) = int i" by (auto simp: reached_def)
  obtain result effs' ex' where b: "export_batch ?ro ex = (result, effs', ex')" by (metis prod_cases3)
  have "gaps effs' = [] \<and> exporter_ok C T k2 (D @ delivered effs') ex'"
  proof (cases "f1 = None \<and> f2 = None")
    case True
    define rs where "rs = map (stored C) (take BATCH_SIZE (drop i (take k2 T)))"
    have "ro_after ?ro (po_seq (ex_position ex)) = Inr rs" "ro_head ?ro = Inr (int k1)"
      using True query_after_whole [OF T] head_seq_whole [OF T, of k1] k i by (simp_all add: round_at_def rs_def)
    moreover have "find_gap (ex_position ex) rs (int k1) = None"
      by (rule round_reads [OF T p k i rs_def])
    ultimately have "send_batch ?ro rs ex = (result, effs', ex')" using b by (simp add: export_batch_def)
    from send_batch_ok [OF T k(3) ok2 i rs_def this] show ?thesis by simp
  next
    case False
    with b ok2 show ?thesis by (auto simp: export_batch_def round_at_def split: option.splits)
  qed
  with b s show "gaps effs = []" "exporter_ok C T k2 (D @ delivered effs) ex1"
    by (auto simp: export_round_def exporter_ok_def Let_def split: sum.splits)
qed

lemma op_ok:
  assumes T: "whole_trail C T" and ok: "exporter_ok C T k D ex" and g: "growing k (length T) (op # ops)"
    and s: "export_op_step C T interval ex op = (effs, ex1)"
  shows "gaps effs = [] \<and> (\<exists>k'. growing k' (length T) ops \<and> (k \<le> length T \<longrightarrow> k' \<le> length T) \<and> exporter_ok C T k' (D @ delivered effs) ex1)"
proof (cases op)
  case (Round k1 k2 f1 f2 send wr now)
  then obtain d where d: "export_round interval (round_at C T k1 k2 f1 f2 send wr now) ex = (d, effs, ex1)"
    using s by (cases "export_round interval (round_at C T k1 k2 f1 f2 send wr now) ex") (auto simp: export_op_step_def)
  have k: "k \<le> k1" "k1 \<le> k2" "k2 \<le> length T" "growing k2 (length T) ops" using g Round by auto
  from round_ok [OF T ok k(1-3) d] k show ?thesis by blast
next
  case Reapply
  with s g ok start_exporter_ok [of D C k T "ex_positions ex" "ex_file ex" "ex_kind ex" "ex_key ex"] show ?thesis
    by (auto simp: export_op_step_def exporter_ok_def)
next
  case Restart
  have *: "exporter_ok C T k D ex1" if r: "restart_exporter ex = Some ex1"
  proof -
    obtain ps where ps: "open_state (ex_file ex) = Some ps" "ex1 = start_exporter (ex_kind ex) (ex_key ex) ps (ex_file ex)"
      using r by (auto simp: restart_exporter_def)
    have f: "file_reached C T k D (ex_file ex)" using ok by (simp add: exporter_ok_def)
    have "\<forall>(n, p) \<in> set ps. reached C T k D p"
      using ps(1) f by (cases "ex_file ex") (force simp: open_state_def file_reached_def of_stored_def split: prod.splits)+
    with ps(2) ok f show ?thesis using start_exporter_ok by (simp add: exporter_ok_def)
  qed
  with Restart s g ok show ?thesis by (cases "restart_exporter ex") (auto simp: export_op_step_def)
qed

lemma run_ok:
  assumes "whole_trail C T" and "exporter_ok C T k D ex" and "growing k (length T) ops" and "k \<le> length T"
    and "export_run C T interval ex ops = (effs, ex1)"
  shows "gaps effs = [] \<and> exporter_ok C T (length T) (D @ delivered effs) ex1"
  using assms(2-)
proof (induction ops arbitrary: k D ex effs)
  case Nil
  then show ?case using exporter_ok_mono by fastforce
next
  case (Cons op ops)
  obtain effs1 ex2 where s1: "export_op_step C T interval ex op = (effs1, ex2)" by fastforce
  then obtain effs2 where s2: "export_run C T interval ex2 ops = (effs2, ex1)" and effs: "effs = effs1 @ effs2"
    using Cons.prems(4) by (auto split: prod.splits)
  obtain k' where k': "gaps effs1 = []" "growing k' (length T) ops" "k' \<le> length T" "exporter_ok C T k' (D @ delivered effs1) ex2"
    using op_ok [OF assms(1) Cons.prems(1,2) s1] Cons.prems(3) by blast
  from Cons.IH [OF k'(4,2,3) s2] k'(1) effs show ?case by simp
qed


section \<open>Without failures: exactly once\<close>

lemma clean_round:
  assumes T: "whole_trail C T" and k: "k \<le> length T" and ok: "exporter_ok C T k D ex" and i: "po_seq (ex_position ex) = int i"
    and rs: "rs = map (stored C) (take BATCH_SIZE (drop i (take k T)))"
  shows "\<exists>ex1. export_op_step C T interval ex (Round k k None None (\<lambda>_. None) None now)
      = ((if rs = [] then [] else [Delivered rs]), ex1)
    \<and> po_seq (ex_position ex1) = int (i + length rs) \<and> exporter_ok C T k (D @ rs) ex1 \<and> xs_error (ex_status ex1) = None
    \<and> xs_pending (ex_status ex1) = int (k - (i + length rs))"
proof -
  let ?op = "Round k k None None (\<lambda>_. None) None now" and ?ro = "round_at C T k k None None (\<lambda>_. None) None now"
  have p: "reached C T k D (ex_position ex)" using ok by (simp add: exporter_ok_def)
  have "ro_after ?ro (po_seq (ex_position ex)) = Inr rs" "ro_head ?ro = Inr (int k)" "ro_head_later ?ro = Inr (int k)"
    using query_after_whole [OF T] head_seq_whole [OF T k] k i by (simp_all add: round_at_def rs)
  moreover have "find_gap (ex_position ex) rs (int k) = None" by (rule round_reads [OF T p _ _ k i rs]) simp_all
  moreover have "i + length rs \<le> k" using p i by (auto simp: reached_def rs min_def)
  moreover have "rs \<noteq> [] \<Longrightarrow> sr_seq (last rs) = int (i + length rs)" using reached_after(2) [OF T p k i rs] by simp
  ultimately obtain ex1 where s: "export_op_step C T interval ex ?op = ((if rs = [] then [] else [Delivered rs]), ex1)"
      "po_seq (ex_position ex1) = int (i + length rs)" "xs_error (ex_status ex1) = None"
      "xs_pending (ex_status ex1) = int (k - (i + length rs))"
    using i by (cases "rs = []") (simp_all add: export_op_step_def export_round_def export_batch_def send_batch_def
      set_position_def Let_def round_at_def of_nat_diff)
  moreover have "exporter_ok C T k (D @ rs) ex1"
  proof -
    obtain d where "export_round interval ?ro ex = (d, (if rs = [] then [] else [Delivered rs]), ex1)"
      using s(1) by (cases "export_round interval ?ro ex") (auto simp: export_op_step_def)
    from round_ok(2) [OF T ok _ _ k this] show ?thesis by (simp split: if_splits)
  qed
  ultimately show ?thesis by blast
qed

lemma clean_rounds:
  assumes T: "whole_trail C T" and "exporter_ok C T (length T) D ex" and "po_seq (ex_position ex) = int i"
    and "xs_error (ex_status ex) = None" and "xs_pending (ex_status ex) = int (length T - i) \<or> nows \<noteq> []"
    and "export_run C T interval ex (map (Round (length T) (length T) None None (\<lambda>_. None) None) nows) = (effs, ex1)"
  shows "delivered effs = map (stored C) (take (length nows * BATCH_SIZE) (drop i T))
    \<and> po_seq (ex_position ex1) = int (i + length (delivered effs)) \<and> xs_error (ex_status ex1) = None
    \<and> xs_pending (ex_status ex1) = int (length T - (i + length (delivered effs)))"
  using assms(2-)
proof (induction nows arbitrary: D ex i effs)
  case (Cons now nows)
  define rs where "rs = map (stored C) (take BATCH_SIZE (drop i (take (length T) T)))"
  define op where "op = Round (length T) (length T) None None (\<lambda>_. None) None"
  from clean_round [OF T _ Cons.prems(1,2) rs_def, where now = now and interval = interval]
  obtain ex2 where s: "export_op_step C T interval ex (op now) = ((if rs = [] then [] else [Delivered rs]), ex2)"
      "po_seq (ex_position ex2) = int (i + length rs)" "exporter_ok C T (length T) (D @ rs) ex2"
      "xs_error (ex_status ex2) = None" "xs_pending (ex_status ex2) = int (length T - (i + length rs))"
    unfolding op_def by auto
  obtain effs2 where r: "export_run C T interval ex2 (map op nows) = (effs2, ex1)"
      and effs: "effs = (if rs = [] then [] else [Delivered rs]) @ effs2"
    using Cons.prems(5) s(1) unfolding op_def [symmetric] by (auto split: prod.splits)
  have IH: "delivered effs2 = map (stored C) (take (length nows * BATCH_SIZE) (drop (i + length rs) T))
    \<and> po_seq (ex_position ex1) = int (i + length rs + length (delivered effs2)) \<and> xs_error (ex_status ex1) = None
    \<and> xs_pending (ex_status ex1) = int (length T - (i + length rs + length (delivered effs2)))"
    by (rule Cons.IH [OF s(3,2,4)]) (use s(5) r in \<open>simp_all add: op_def\<close>)
  have "delivered effs = rs @ delivered effs2" using effs by simp
  moreover have "map (stored C) (take (length (now # nows) * BATCH_SIZE) (drop i T)) = rs @ delivered effs2"
  proof (cases "BATCH_SIZE \<le> length (drop i T)")
    case True
    then have "length rs = BATCH_SIZE" by (simp add: rs_def)
    with IH show ?thesis by (simp add: rs_def take_add add.commute)
  qed (use IH in \<open>auto simp: rs_def\<close>)
  ultimately show ?case using IH by (simp add: add.assoc)
qed auto

text \<open>C32. Without failures the export delivers the trail once, in order and in full, and then reports that
  nothing is pending: after as many rounds as there are batches.\<close>

theorem export_catches_up:
  assumes "whole_trail C T" and "length T \<le> length nows * BATCH_SIZE" and "nows \<noteq> []"
    and "export_run C T interval (start_exporter sink key [] FileMissing)
      (map (Round (length T) (length T) None None (\<lambda>_. None) None) nows) = (effs, ex)"
  shows "delivered effs = map (stored C) T \<and> po_seq (ex_position ex) = int (length T)
    \<and> xs_pending (ex_status ex) = 0 \<and> xs_error (ex_status ex) = None"
proof -
  let ?ex = "start_exporter sink key [] FileMissing"
  have "exporter_ok C T 0 [] ?ex" by (rule start_exporter_ok) (simp_all add: file_reached_def)
  then have "exporter_ok C T (length T) [] ?ex" by (rule exporter_ok_mono) simp
  from clean_rounds [OF assms(1) this _ _ _ assms(4), of 0] assms(2,3)
  show ?thesis by (simp add: start_exporter_def position_for_def start_position_def initial_status_def)
qed

section \<open>Whatever happens to the trail\<close>

definition continues :: "position \<Rightarrow> stored_record list \<Rightarrow> bool" where
  "continues p rs \<longleftrightarrow> po_seq p = 0 \<or> rs = [] \<or>
     (sr_seq (rs ! 0) = po_seq p + 1 \<and> (po_hash p = [] \<or> sr_prev_hash (rs ! 0) = po_hash p))"

lemma find_gap_None: "find_gap p rs head = None \<longleftrightarrow> po_seq p \<le> head \<and> continues p rs"
  by (cases rs) (auto simp: find_gap_def continues_def)

lemma send_batch_effects: "send_batch ro rs ex = (result, effs, ex1) \<Longrightarrow> gaps effs = [] \<and> (Delivered bs \<in> set effs \<longrightarrow> bs = rs)"
  by (auto simp: send_batch_def Let_def split: if_splits option.splits)


text \<open>While a batch that does not continue the position cannot be delivered, every retry records the gap anew.\<close>

lemma gap_recorded_at_each_retry:
  assumes "ro_head ro = Inr head" and "ro_after ro (po_seq (ex_position ex)) = Inr rs" and "po_seq (ex_position ex) \<le> head"
    and "\<not> continues (ex_position ex) rs" and "ro_send ro rs = Some e"
  shows "\<exists>g d ex1. export_round interval ro ex = (d, [GapRecorded g, NotDelivered rs], ex1) \<and> ex_position ex1 = ex_position ex"
proof -
  obtain g where "find_gap (ex_position ex) rs head = Some g"
    using assms(4) find_gap_None [of "ex_position ex" rs head] by auto
  moreover have "rs \<noteq> []" using assms(4) by (auto simp: continues_def)
  ultimately show ?thesis using assms(1-3,5) by (simp add: export_round_def export_batch_def send_batch_def Let_def)
qed

section \<open>Witnesses\<close>

definition two_records :: "row list" where
  "two_records = chain_rows reference_codec [new_entry 0 GatewayStopped, new_entry 5 SessionActivated] 0 GENESIS_HASH"

lemma two_records_whole: "whole_trail reference_codec two_records" "length two_records = 2"
proof -
  have "serde_roundtrip reference_codec" by (simp add: serde_roundtrip_def reference_codec_roundtrip)
  then show "whole_trail reference_codec two_records"
    unfolding whole_trail_def two_records_def using chain_rows_ok chain_rows_linked by blast
qed (simp add: two_records_def)


theorem export_catches_up_witness:
  "case export_run reference_codec two_records 5 (start_exporter ''questdb'' ''questdb db:9009'' [] FileMissing)
      (map (Round (length two_records) (length two_records) None None (\<lambda>_. None) None) [7, 12]) of
     (effs, ex) \<Rightarrow> delivered effs = map (stored reference_codec) two_records \<and> po_seq (ex_position ex) = int (length two_records)
       \<and> xs_pending (ex_status ex) = 0 \<and> xs_error (ex_status ex) = None"
  by (rule case_prodI2, erule export_catches_up [OF two_records_whole(1), rotated 2])
    (simp_all add: two_records_whole(2) BATCH_SIZE_def)

definition fourth_record :: stored_record where
  "fourth_record = \<lparr>sr_seq = 4, sr_hash = ''d'', sr_prev_hash = ''c'', sr_entry = new_entry 0 GatewayStopped\<rparr>"

definition after_third :: exporter where
  "after_third = start_exporter ''q'' ''q db'' [(''q db'', \<lparr>po_seq = 3, po_hash = ''c''\<rparr>)] FileMissing"

definition fourth_round :: round where
  "fourth_round = \<lparr>ro_head = Inr 4, ro_after = (\<lambda>_. Inr [fourth_record]), ro_again = Inl ''gone'', ro_send = (\<lambda>_. None),
     ro_write = None, ro_head_later = Inr 4, ro_clock = 0\<rparr>"

lemma fourth_round_effects: "fst (snd (export_round 5 fourth_round after_third)) = [Delivered [fourth_record]]"
  by (simp add: export_round_def export_batch_def send_batch_def find_gap_def Let_def fourth_round_def after_third_def
      fourth_record_def start_exporter_def position_for_def set_position_def)


end
