(* ===== verification/Export_Fields.thy ===== *)
theory Export_Fields
  imports Audit_Store Text
begin

text \<open>
  The flat view of a record that the CSV download and the exporters share (\<open>fields\<close> of
  src/export/mod.rs). How serde writes an event, and the JSON text of a value, are arguments.
\<close>

record record_fields =
  f_target :: string
  f_kind :: string
  f_user :: string
  f_client_address :: string
  f_client_application :: string
  f_node_id :: string
  f_display_name :: string
  f_data_type :: string
  f_old_value :: string
  f_new_value :: string
  f_status :: string
  f_event_json :: string

record serde =
  event_object :: "audit_event \<Rightarrow> (string \<times> json) list"
  json_text :: "json \<Rightarrow> string"

definition json_field :: "string \<Rightarrow> json \<Rightarrow> json option" where
  "json_field key v = (case v of JObject fs \<Rightarrow> map_of fs key | _ \<Rightarrow> None)"

definition text_of :: "serde \<Rightarrow> json option \<Rightarrow> string" where
  "text_of S v = (case v of None \<Rightarrow> [] | Some JNull \<Rightarrow> [] | Some (JString s) \<Rightarrow> s | Some w \<Rightarrow> json_text S w)"

definition value_of :: "serde \<Rightarrow> json option \<Rightarrow> string" where
  "value_of S v = (case v of None \<Rightarrow> [] | Some (JString s) \<Rightarrow> s | Some w \<Rightarrow> json_text S w)"

definition string_of :: "json option \<Rightarrow> string" where
  "string_of v = (case v of Some (JString s) \<Rightarrow> s | _ \<Rightarrow> [])"

text \<open>A user of the web interface is in the event itself, as \<open>by\<close> or \<open>user\<close>.\<close>

definition ui_user :: "serde \<Rightarrow> json \<Rightarrow> string option" where
  "ui_user S event =
     (let by = text_of S (json_field ''by'' event);
          by = (if by = [] then text_of S (json_field ''user'' event) else by)
      in if by \<noteq> [] \<and> by \<noteq> ''gateway'' then Some (''ui:'' @ by) else None)"

definition fields :: "serde \<Rightarrow> stored_record \<Rightarrow> record_fields" where
  "fields S r =
     (let entry = sr_entry r;
          event = JObject (event_object S (e_event entry));
          text = (\<lambda>key. text_of S (json_field key event));
          val = (\<lambda>key. value_of S (Option.bind (json_field key event) (json_field ''value'')))
      in \<lparr>f_target = (case e_target entry of Some t \<Rightarrow> t | None \<Rightarrow> []),
          f_kind = kind (e_event entry),
          f_user = (case Option.bind (e_client entry) user of
              Some u \<Rightarrow> label u
            | None \<Rightarrow> (case ui_user S event of Some u \<Rightarrow> u | None \<Rightarrow> [])),
          f_client_address = (case e_client entry of Some c \<Rightarrow> remote_addr c | None \<Rightarrow> []),
          f_client_application = (case e_client entry of
              Some c \<Rightarrow> (case application_name c of Some n \<Rightarrow> n
                | None \<Rightarrow> (case application_uri c of Some u \<Rightarrow> u | None \<Rightarrow> []))
            | None \<Rightarrow> []),
          f_node_id = (case node_id (e_event entry) of Some n \<Rightarrow> n | None \<Rightarrow> []),
          f_display_name = text ''display_name'',
          f_data_type = string_of (Option.bind (json_field ''new_value'' event) (json_field ''data_type'')),
          f_old_value = val ''old_value'',
          f_new_value = val ''new_value'',
          f_status = text ''status'',
          f_event_json = json_text S event\<rparr>)"

section \<open>Characters\<close>

text \<open>The characters of a text: an ASCII byte each, otherwise a byte and its continuation bytes.\<close>

function chars :: "string \<Rightarrow> string list" where
  "chars [] = []"
| "chars (c # cs) = (if (of_char c :: nat) < 128 then [c] # chars cs
     else (c # takeWhile (\<lambda>d. \<not> char_start d) cs) # chars (dropWhile (\<lambda>d. \<not> char_start d) cs))"
  by pat_completeness auto
termination by (relation "measure length") (auto simp: length_dropWhile_le less_Suc_eq_le)

text \<open>\<open>char::is_control\<close>: the Unicode category Cc, U+0000 to U+001F and U+007F to U+009F.\<close>

definition is_control :: "string \<Rightarrow> bool" where
  "is_control u \<longleftrightarrow> (case u of
     [c] \<Rightarrow> (of_char c :: nat) < 32 \<or> (of_char c :: nat) = 127
   | [c, d] \<Rightarrow> (of_char c :: nat) = 0xC2 \<and> (of_char d :: nat) < 0xA0
   | _ \<Rightarrow> False)"

lemma not_start_high: "\<not> char_start d \<Longrightarrow> (128 :: nat) \<le> of_char d"
proof (rule ccontr)
  assume "\<not> char_start d" and "\<not> (128 :: nat) \<le> of_char d"
  then have "(of_char d :: nat) div 64 < 2" by (simp add: less_mult_imp_div_less)
  with \<open>\<not> char_start d\<close> show False by (simp add: char_start_def)
qed

text \<open>A character is one ASCII byte, or bytes above ASCII.\<close>

definition unit_char :: "string \<Rightarrow> bool" where
  "unit_char u \<longleftrightarrow> (\<exists>c. u = [c] \<and> (of_char c :: nat) < 128) \<or> (u \<noteq> [] \<and> (\<forall>c \<in> set u. (128 :: nat) \<le> of_char c))"

lemma chars_units: "u \<in> set (chars s) \<Longrightarrow> unit_char u"
proof (induction s rule: chars.induct)
  case (2 c cs)
  show ?case
  proof (cases "(of_char c :: nat) < 128")
    case True
    with 2 show ?thesis by (auto simp: unit_char_def)
  next
    case False
    then have "unit_char (c # takeWhile (\<lambda>d. \<not> char_start d) cs)"
      by (auto simp: unit_char_def dest!: set_takeWhileD not_start_high)
    with 2 False show ?thesis by auto
  qed
qed simp

lemma concat_chars [simp]: "concat (chars s) = s"
  by (induction s rule: chars.induct) auto

end
