(* ===== verification/Quest_Db.thy ===== *)
theory Quest_Db
  imports Export_Fields
begin

text \<open>
  The QuestDB destination (src/export/questdb.rs): the lines of the InfluxDB Line Protocol and the
  sending of a batch. The HTTP exchange is an argument.
\<close>

section \<open>Escaping\<close>

definition backslash :: char where "backslash = CHR 0x5C"
definition quote :: char where "quote = CHR 0x22"

definition escape_name_char :: "string \<Rightarrow> string" where
  "escape_name_char u =
     (if u \<in> {'','', '' '', ''='', [backslash]} then backslash # u
      else if is_control u then backslash # '' ''
      else u)"

definition escape_name :: "string \<Rightarrow> string" where
  "escape_name s = concat (map escape_name_char (chars s))"

definition escape_string_char :: "string \<Rightarrow> string" where
  "escape_string_char u =
     (if u \<in> {[quote], [backslash]} then backslash # u
      else if is_control u then '' ''
      else u)"

definition escape_string :: "string \<Rightarrow> string" where
  "escape_string s = concat (map escape_string_char (chars s))"

section \<open>Lines\<close>

text \<open>\<open>timestamp_nanos_opt\<close>: nothing for instants a 64-bit count of nanoseconds cannot hold.\<close>

definition timestamp :: "stored_record \<Rightarrow> int" where
  "timestamp r = (if - (2 ^ 63) \<le> ts (sr_entry r) \<and> ts (sr_entry r) < 2 ^ 63 then ts (sr_entry r) else 0)"

definition line_tags :: "serde \<Rightarrow> stored_record \<Rightarrow> (string \<times> string) list" where
  "line_tags S r = (let f = fields S r in
     filter (\<lambda>(k, v). v \<noteq> []) [(''target'', f_target f), (''kind'', f_kind f), (''user'', f_user f)])"

definition line_strings :: "serde \<Rightarrow> stored_record \<Rightarrow> (string \<times> string) list" where
  "line_strings S r = (let f = fields S r in
     filter (\<lambda>(k, v). v \<noteq> [])
       [(''hash'', sr_hash r), (''prev_hash'', sr_prev_hash r), (''node_id'', f_node_id f),
        (''display_name'', f_display_name f), (''data_type'', f_data_type f), (''old_value'', f_old_value f),
        (''new_value'', f_new_value f), (''status'', f_status f), (''client_address'', f_client_address f),
        (''client_application'', f_client_application f), (''event'', f_event_json f)])"

definition line :: "serde \<Rightarrow> string \<Rightarrow> stored_record \<Rightarrow> string" where
  "line S table r =
     escape_name table
     @ concat (map (\<lambda>(k, v). '','' @ k @ ''='' @ escape_name v) (line_tags S r))
     @ '' seq='' @ int_str (sr_seq r) @ ''i''
     @ concat (map (\<lambda>(k, v). '','' @ k @ ''='' @ [quote] @ escape_string v @ [quote]) (line_strings S r))
     @ '' '' @ int_str (timestamp r) @ [newline]"

definition minimal_line :: "string \<Rightarrow> stored_record \<Rightarrow> string \<Rightarrow> string" where
  "minimal_line table r reason =
     escape_name table @ '',kind='' @ kind (e_event (sr_entry r)) @ '' seq='' @ int_str (sr_seq r) @ ''i,hash=''
     @ [quote] @ sr_hash r @ [quote] @ '',prev_hash='' @ [quote] @ sr_prev_hash r @ [quote]
     @ '',event='' @ [quote] @ escape_string (''not exportable: '' @ reason) @ [quote]
     @ '' '' @ int_str (timestamp r) @ [newline]"

section \<open>Sending\<close>

datatype answer = Accepted | Answered nat string | Unreachable string

record questdb_config =
  q_url :: string
  q_ca_file :: "string option"
  q_table :: string
  q_token :: "string option"
  q_username :: "string option"
  q_password :: "string option"
  q_interval_secs :: nat

definition write_uri :: "questdb_config \<Rightarrow> string" where
  "write_uri q = rev (dropWhile (\<lambda>c. c = CHR ''/'') (rev (q_url q))) @ ''/write?precision=n''"

definition authorization :: "(string \<Rightarrow> string) \<Rightarrow> questdb_config \<Rightarrow> string option" where
  "authorization base64 q = (case (q_token q, q_username q, q_password q) of
     (Some token, _, _) \<Rightarrow> Some (''Bearer '' @ token)
   | (None, Some name, password) \<Rightarrow>
       Some (''Basic '' @ base64 (name @ '':'' @ (case password of Some p \<Rightarrow> p | None \<Rightarrow> [])))
   | _ \<Rightarrow> None)"

definition destination :: "questdb_config \<Rightarrow> string" where
  "destination q = write_uri q @ '' (table '' @ q_table q @ '')''"

text \<open>One record after a batch was refused as malformed: itself, or its minimal line. The effects are
  the bodies the server accepted.\<close>

definition send_one :: "serde \<Rightarrow> ('s \<Rightarrow> string \<Rightarrow> answer \<times> 's) \<Rightarrow> string \<Rightarrow> stored_record \<Rightarrow> 's
    \<Rightarrow> string option \<times> string list \<times> 's" where
  "send_one S post table r s = (case post s (line S table r) of
     (Accepted, s1) \<Rightarrow> (None, [line S table r], s1)
   | (Unreachable e, s1) \<Rightarrow> (Some e, [], s1)
   | (Answered _ reason, s1) \<Rightarrow>
       (let body = minimal_line table r reason in case post s1 body of
          (Accepted, s2) \<Rightarrow> (None, [body], s2)
        | (Unreachable e, s2) \<Rightarrow> (Some e, [], s2)
        | (Answered st e, s2) \<Rightarrow>
            (Some (''QuestDB rejected record '' @ int_str (sr_seq r) @ '' ('' @ nat_str st @ ''): '' @ e), [], s2)))"

fun send_each :: "serde \<Rightarrow> ('s \<Rightarrow> string \<Rightarrow> answer \<times> 's) \<Rightarrow> string \<Rightarrow> stored_record list \<Rightarrow> 's
    \<Rightarrow> string option \<times> string list \<times> 's" where
  "send_each S post table [] s = (None, [], s)"
| "send_each S post table (r # rs) s = (case send_one S post table r s of
     (None, done, s1) \<Rightarrow> (case send_each S post table rs s1 of (res, others, s2) \<Rightarrow> (res, done @ others, s2))
   | (Some e, done, s1) \<Rightarrow> (Some e, done, s1))"

definition send :: "serde \<Rightarrow> ('s \<Rightarrow> string \<Rightarrow> answer \<times> 's) \<Rightarrow> string \<Rightarrow> stored_record list \<Rightarrow> 's
    \<Rightarrow> string option \<times> string list \<times> 's" where
  "send S post table rs s = (let body = concat (map (line S table) rs) in case post s body of
     (Accepted, s1) \<Rightarrow> (None, [body], s1)
   | (Unreachable e, s1) \<Rightarrow> (Some e, [], s1)
   | (Answered st reason, s1) \<Rightarrow>
       (if st \<noteq> 400 then (Some (''QuestDB answered '' @ nat_str st @ '': '' @ reason), [], s1)
        else send_each S post table rs s1))"

end
