(* ===== verification/Quest_Db_Reader.thy ===== *)
theory Quest_Db_Reader
  imports Quest_Db
begin

text \<open>
  A reader of the InfluxDB Line Protocol, as its specification describes it, and what it makes of the
  lines of src/export/questdb.rs: no text of a record, whoever chose it, can end a tag, a field or a
  line early. And a batch counts as sent only when the server has every record of it.
\<close>

section \<open>Reading lines\<close>

definition name_end :: "char \<Rightarrow> bool" where
  "name_end c \<longleftrightarrow> c = CHR '','' \<or> c = CHR '' '' \<or> c = CHR ''=''"

fun take_name :: "string \<Rightarrow> string \<times> string" where
  "take_name [] = ([], [])"
| "take_name (c # cs) =
     (if c = backslash then (case cs of [] \<Rightarrow> ([], []) | d # ds \<Rightarrow> (case take_name ds of (v, r) \<Rightarrow> (d # v, r)))
      else if name_end c then ([], c # cs)
      else (case take_name cs of (v, r) \<Rightarrow> (c # v, r)))"

fun take_quoted :: "string \<Rightarrow> (string \<times> string) option" where
  "take_quoted [] = None"
| "take_quoted (c # cs) =
     (if c = backslash then (case cs of [] \<Rightarrow> None | d # ds \<Rightarrow> map_option (\<lambda>(v, r). (d # v, r)) (take_quoted ds))
      else if c = quote then Some ([], cs)
      else map_option (\<lambda>(v, r). (c # v, r)) (take_quoted cs))"

datatype field_value = Plain string | Quoted string

definition read_value :: "string \<Rightarrow> (field_value \<times> string) option" where
  "read_value s = (case s of
     [] \<Rightarrow> None
   | c # cs \<Rightarrow> if c = quote then map_option (\<lambda>(v, r). (Quoted v, r)) (take_quoted cs)
       else (case take_name s of (v, r) \<Rightarrow> Some (Plain v, r)))"

fun read_tags :: "nat \<Rightarrow> string \<Rightarrow> ((string \<times> string) list \<times> string) option" where
  "read_tags 0 s = None"
| "read_tags (Suc n) s = (case s of
     [] \<Rightarrow> None
   | c # s1 \<Rightarrow>
       if c = CHR '' '' then Some ([], s1)
       else if c \<noteq> CHR '','' then None
       else (case take_name s1 of
           (k, d # s2) \<Rightarrow> if d \<noteq> CHR ''='' then None
             else (case take_name s2 of (v, s3) \<Rightarrow> map_option (\<lambda>(tags, r). ((k, v) # tags, r)) (read_tags n s3))
         | (k, []) \<Rightarrow> None))"

fun read_fields :: "nat \<Rightarrow> string \<Rightarrow> ((string \<times> field_value) list \<times> string) option" where
  "read_fields 0 s = None"
| "read_fields (Suc n) s = (case take_name s of
     (k, []) \<Rightarrow> None
   | (k, d # s1) \<Rightarrow> if d \<noteq> CHR ''='' then None
       else (case read_value s1 of
           None \<Rightarrow> None
         | Some (v, []) \<Rightarrow> None
         | Some (v, c # s2) \<Rightarrow>
             if c = CHR '' '' then Some ([(k, v)], s2)
             else if c = CHR '','' then map_option (\<lambda>(fs, r). ((k, v) # fs, r)) (read_fields n s2)
             else None))"

text \<open>A line: the table, the tags, the fields, the timestamp.\<close>

definition read_line :: "string \<Rightarrow> (string \<times> (string \<times> string) list \<times> (string \<times> field_value) list \<times> string) option" where
  "read_line s = (case take_name s of (table, s1) \<Rightarrow>
     (case read_tags (length s1) s1 of
        None \<Rightarrow> None
      | Some (tags, s2) \<Rightarrow> map_option (\<lambda>(fs, t). (table, tags, fs, t)) (read_fields (length s2) s2)))"

definition read_body :: "string \<Rightarrow> (string \<times> (string \<times> string) list \<times> (string \<times> field_value) list \<times> string) option list" where
  "read_body s = map read_line (butlast (split_on newline s))"

section \<open>What escaping keeps\<close>

definition clean_char :: "string \<Rightarrow> string" where
  "clean_char u = (if is_control u then '' '' else u)"

text \<open>The text with every control character as a space.\<close>

definition clean :: "string \<Rightarrow> string" where
  "clean s = concat (map clean_char (chars s))"

definition plain :: "char \<Rightarrow> bool" where
  "plain c \<longleftrightarrow> c \<noteq> backslash \<and> \<not> name_end c \<and> c \<noteq> quote \<and> c \<noteq> newline"

lemma high_plain: "(128 :: nat) \<le> of_char c \<Longrightarrow> plain c"
  by (auto simp: plain_def name_end_def backslash_def quote_def newline_def)

lemma take_name_plain: "list_all plain u \<Longrightarrow> take_name (u @ s) = (case take_name s of (v, r) \<Rightarrow> (u @ v, r))"
  by (induction u) (auto simp: plain_def split: prod.splits)

lemma take_quoted_plain: "list_all plain u \<Longrightarrow> take_quoted (u @ s) = map_option (\<lambda>(v, r). (u @ v, r)) (take_quoted s)"
  by (cases "take_quoted s"; induction u) (auto simp: plain_def)

lemma unit_cases:
  assumes "unit_char u"
  obtains (high) "list_all plain u" "u \<noteq> []" "list_all (\<lambda>c. (128 :: nat) \<le> of_char c) u" | (ascii) c where "u = [c]" "(of_char c :: nat) < 128"
  using assms high_plain by (auto simp: unit_char_def list_all_iff)

lemma take_name_unit:
  assumes "unit_char u"
  shows "take_name (escape_name_char u @ s) = (case take_name s of (v, r) \<Rightarrow> (clean_char u @ v, r))"
  using assms
proof (cases rule: unit_cases)
  case high
  then have "u \<notin> {'','', '' '', ''='', [backslash]}" by (auto simp: plain_def name_end_def)
  with high take_name_plain [of u s] show ?thesis
    by (simp add: escape_name_char_def clean_char_def name_end_def split: prod.splits)
next
  case (ascii c)
  have "is_control [c] \<Longrightarrow> c \<noteq> CHR '','' \<and> c \<noteq> CHR '' '' \<and> c \<noteq> CHR ''='' \<and> c \<noteq> backslash"
    by (auto simp: is_control_def backslash_def)
  with ascii show ?thesis
    by (auto simp: escape_name_char_def clean_char_def name_end_def split: prod.splits)
qed

lemma take_name_units: "list_all unit_char us \<Longrightarrow>
    take_name (concat (map escape_name_char us) @ s) = (case take_name s of (v, r) \<Rightarrow> (concat (map clean_char us) @ v, r))"
  by (induction us) (auto simp: take_name_unit split: prod.splits)

lemma take_escaped_name [simp]: "name_end c \<Longrightarrow> take_name (escape_name v @ c # s) = (clean v, c # s)"
  using take_name_units [of "chars v" "c # s"] chars_units
  by (auto simp: escape_name_def clean_def list_all_iff name_end_def backslash_def)

lemma take_quoted_unit:
  assumes "unit_char u"
  shows "take_quoted (escape_string_char u @ s) = map_option (\<lambda>(v, r). (clean_char u @ v, r)) (take_quoted s)"
  using assms
proof (cases rule: unit_cases)
  case high
  then have "u \<notin> {[quote], [backslash]}" by (auto simp: plain_def)
  with high take_quoted_plain [of u s] show ?thesis
    by (simp add: escape_string_char_def clean_char_def quote_def backslash_def)
next
  case (ascii c)
  have "is_control [c] \<Longrightarrow> c \<noteq> quote \<and> c \<noteq> backslash" by (auto simp: is_control_def backslash_def quote_def)
  with ascii show ?thesis
    by (auto simp: escape_string_char_def clean_char_def quote_def backslash_def)
qed

lemma take_quoted_units: "list_all unit_char us \<Longrightarrow>
    take_quoted (concat (map escape_string_char us) @ s) = map_option (\<lambda>(v, r). (concat (map clean_char us) @ v, r)) (take_quoted s)"
  by (cases "take_quoted s"; induction us) (auto simp: take_quoted_unit)

lemma take_escaped_string [simp]: "take_quoted (escape_string v @ quote # s) = Some (clean v, s)"
  using take_quoted_units [of "chars v" "quote # s"] chars_units
  by (auto simp: escape_string_def clean_def list_all_iff quote_def backslash_def)

section \<open>Lines read back\<close>

lemma take_plain_name [simp]: "list_all plain k \<Longrightarrow> name_end c \<Longrightarrow> take_name (k @ c # s) = (k, c # s)"
  using take_name_plain [of k "c # s"] by (auto simp: name_end_def backslash_def)

lemma name_end_simps [simp]: "name_end CHR '',''" "name_end CHR '' ''" "name_end CHR ''=''"
  by (simp_all add: name_end_def)

definition plain_keys :: "(string \<times> string) list \<Rightarrow> bool" where
  "plain_keys kvs \<longleftrightarrow> list_all (\<lambda>(k, v). list_all plain k) kvs"

definition tag_text :: "(string \<times> string) list \<Rightarrow> string" where
  "tag_text kvs = concat (map (\<lambda>(k, v). '','' @ k @ ''='' @ escape_name v) kvs)"

definition field_text :: "(string \<times> string) list \<Rightarrow> string" where
  "field_text kvs = concat (map (\<lambda>(k, v). '','' @ k @ ''='' @ [quote] @ escape_string v @ [quote]) kvs)"

definition cleaned :: "(string \<times> string) list \<Rightarrow> (string \<times> string) list" where
  "cleaned kvs = map (\<lambda>(k, v). (k, clean v)) kvs"

definition cleaned_fields :: "(string \<times> string) list \<Rightarrow> (string \<times> field_value) list" where
  "cleaned_fields kvs = map (\<lambda>(k, v). (k, Quoted (clean v))) kvs"

lemma tag_text_start: "\<exists>c s1. tag_text kvs @ CHR '' '' # s = c # s1 \<and> name_end c"
  by (cases kvs) (auto simp: tag_text_def)

lemma read_tags_back: "plain_keys kvs \<Longrightarrow> length kvs < n \<Longrightarrow>
    read_tags n (tag_text kvs @ CHR '' '' # s) = Some (cleaned kvs, s)"
proof (induction kvs arbitrary: n)
  case Nil
  then show ?case by (cases n) (auto simp: tag_text_def cleaned_def)
next
  case (Cons kv kvs)
  obtain k v where kv: "kv = (k, v)" by force
  from Cons.prems obtain m where n: "n = Suc m" "length kvs < m" by (cases n) auto
  obtain c s1 where c: "tag_text kvs @ CHR '' '' # s = c # s1" "name_end c" using tag_text_start by blast
  have t: "tag_text (kv # kvs) @ CHR '' '' # s = CHR '','' # k @ CHR ''='' # escape_name v @ c # s1"
    using c(1) by (simp add: tag_text_def kv)
  have "read_tags m (c # s1) = Some (cleaned kvs, s)" using Cons c(1) n by (simp add: plain_keys_def)
  with Cons.prems(1) c(2) kv show ?case unfolding t n by (simp add: cleaned_def plain_keys_def)
qed

lemma field_text_start: "\<exists>c s1. field_text kvs @ CHR '' '' # s = c # s1 \<and> (c = CHR '','' \<or> c = CHR '' '' )
    \<and> (kvs = [] \<longrightarrow> c = CHR '' '' \<and> s1 = s) \<and> (kvs \<noteq> [] \<longrightarrow> c = CHR '','' )"
  by (cases kvs) (auto simp: field_text_def)

definition value_text :: "string \<Rightarrow> field_value \<Rightarrow> bool" where
  "value_text vt w \<longleftrightarrow> (\<forall>c r. c = CHR '','' \<or> c = CHR '' '' \<longrightarrow> read_value (vt @ c # r) = Some (w, c # r))"

lemma quoted_value: "value_text (quote # escape_string v @ [quote]) (Quoted (clean v))"
  by (simp add: value_text_def read_value_def)

lemma plain_value:
  assumes "list_all plain v" and "v \<noteq> []"
  shows "value_text v (Plain v)"
proof -
  obtain a u where v: "v = a # u" and "a \<noteq> quote" using assms by (cases v) (auto simp: plain_def)
  have "take_name (v @ c # r) = (v, c # r)" if "c = CHR '','' \<or> c = CHR '' ''" for c r
    using take_plain_name [OF assms(1), of c r] that by auto
  with v \<open>a \<noteq> quote\<close> show ?thesis by (simp add: value_text_def read_value_def del: take_name.simps)
qed

lemma read_fields_back:
  "value_text vt w \<Longrightarrow> list_all plain k \<Longrightarrow> plain_keys kvs \<Longrightarrow> length kvs < n \<Longrightarrow>
    read_fields n (k @ CHR ''='' # vt @ field_text kvs @ CHR '' '' # s) = Some ((k, w) # cleaned_fields kvs, s)"
proof (induction kvs arbitrary: n k vt w)
  case Nil
  then show ?case by (cases n) (auto simp: field_text_def cleaned_fields_def value_text_def)
next
  case (Cons kv kvs)
  obtain k1 v1 where kv: "kv = (k1, v1)" by force
  from Cons.prems obtain m where n: "n = Suc m" "length kvs < m" by (cases n) auto
  let ?more = "k1 @ CHR ''='' # (quote # escape_string v1 @ [quote]) @ field_text kvs @ CHR '' '' # s"
  have "read_fields m ?more = Some ((k1, Quoted (clean v1)) # cleaned_fields kvs, s)"
    by (rule Cons.IH [OF quoted_value]) (use Cons.prems kv n in \<open>simp_all add: plain_keys_def\<close>)
  moreover have "read_value (vt @ CHR '','' # ?more) = Some (w, CHR '','' # ?more)"
    using Cons.prems(1) by (simp only: value_text_def simp_thms)
  moreover have "vt @ field_text (kv # kvs) @ CHR '' '' # s = vt @ CHR '','' # ?more" by (simp add: field_text_def kv)
  ultimately show ?case using Cons.prems(2) by (simp add: n kv cleaned_fields_def)
qed

lemma nat_str_digits: "list_all plain (nat_str n)"
proof -
  have "plain (digit_char d)" if "d < 10" for d
    using of_char_digit [OF that] that by (auto simp: plain_def name_end_def backslash_def quote_def newline_def)
  then show ?thesis by (auto simp: list_all_iff dest: nat_str_chars)
qed

lemma int_str_plain: "list_all plain (int_str i)"
  using nat_str_digits by (simp add: int_str_def plain_def name_end_def backslash_def quote_def newline_def)

lemma int_str_nonempty [simp]: "int_str i \<noteq> []"
  by (simp add: int_str_def)

lemma lengths: "length kvs \<le> length (tag_text kvs)" "length kvs \<le> length (field_text kvs)"
  by (induction kvs) (auto simp: tag_text_def field_text_def)

definition exported :: "serde \<Rightarrow> string \<Rightarrow> stored_record \<Rightarrow> (string \<times> (string \<times> string) list \<times> (string \<times> field_value) list \<times> string)" where
  "exported S table r = (clean table, cleaned (line_tags S r),
     (''seq'', Plain (int_str (sr_seq r) @ ''i'')) # cleaned_fields (line_strings S r), int_str (timestamp r))"

lemma plain_keys_filter: "plain_keys kvs \<Longrightarrow> plain_keys (filter P kvs)"
  by (induction kvs) (auto simp: plain_keys_def)

lemma plain_line_keys: "plain_keys (line_tags S r)" "plain_keys (line_strings S r)"
  unfolding line_tags_def line_strings_def Let_def
  by (rule plain_keys_filter, simp add: plain_keys_def plain_def name_end_def backslash_def quote_def newline_def)+

definition line_body :: "serde \<Rightarrow> string \<Rightarrow> stored_record \<Rightarrow> string" where
  "line_body S table r = escape_name table @ tag_text (line_tags S r) @ CHR '' '' # ''seq'' @ CHR ''='' #
     (int_str (sr_seq r) @ ''i'') @ field_text (line_strings S r) @ CHR '' '' # int_str (timestamp r)"

lemma line_split: "line S table r = line_body S table r @ [newline]"
  by (simp add: line_def line_body_def tag_text_def field_text_def)

lemma read_line_body: "read_line (line_body S table r) = Some (exported S table r)"
proof -
  have i: "list_all plain (int_str (sr_seq r) @ ''i'')"
    using int_str_plain by (simp add: plain_def name_end_def backslash_def quote_def newline_def)
  have k: "list_all plain ''seq''" by (simp add: plain_def name_end_def backslash_def quote_def newline_def)
  let ?fields = "''seq'' @ CHR ''='' # (int_str (sr_seq r) @ ''i'') @ field_text (line_strings S r) @ CHR '' '' # int_str (timestamp r)"
  let ?tail = "tag_text (line_tags S r) @ CHR '' '' # ?fields"
  obtain c s1 where c: "?tail = c # s1" "name_end c" using tag_text_start by blast
  have "take_name (line_body S table r) = (clean table, ?tail)"
    unfolding line_body_def c(1) using c(2) by simp
  moreover have "read_tags (length ?tail) ?tail = Some (cleaned (line_tags S r), ?fields)"
    by (rule read_tags_back [OF plain_line_keys(1)]) (use lengths(1) [of "line_tags S r"] in simp)
  moreover have "read_fields (length ?fields) ?fields
      = Some ((''seq'', Plain (int_str (sr_seq r) @ ''i'')) # cleaned_fields (line_strings S r), int_str (timestamp r))"
    by (rule read_fields_back [OF plain_value [OF i] k plain_line_keys(2)])
      (use lengths(2) [of "line_strings S r"] in simp_all)
  ultimately show ?thesis by (simp add: read_line_def exported_def)
qed

lemma newline_control: "is_control [newline]"
  by (simp add: is_control_def newline_def)

lemma clean_char_plain: "unit_char u \<Longrightarrow> \<not> is_control u \<Longrightarrow> newline \<notin> set u"
  using newline_control by (auto elim!: unit_cases simp: list_all_iff plain_def)

lemma escape_name_newline [simp]: "newline \<notin> set (escape_name v)"
proof -
  have "newline \<notin> set (escape_name_char u)" if "u \<in> set (chars v)" for u
    using clean_char_plain [OF chars_units [OF that]]
    by (auto simp: escape_name_char_def newline_def backslash_def)
  then show ?thesis by (auto simp: escape_name_def)
qed

lemma escape_string_newline [simp]: "newline \<notin> set (escape_string v)"
proof -
  have "newline \<notin> set (escape_string_char u)" if "u \<in> set (chars v)" for u
    using clean_char_plain [OF chars_units [OF that]]
    by (auto simp: escape_string_char_def newline_def backslash_def quote_def)
  then show ?thesis by (auto simp: escape_string_def)
qed

lemma keys_no_newline: "plain_keys kvs \<Longrightarrow> newline \<notin> set (tag_text kvs) \<and> newline \<notin> set (field_text kvs)"
proof (induction kvs)
  case (Cons kv kvs)
  obtain k v where kv: "kv = (k, v)" by force
  have "newline \<notin> set k" using Cons.prems kv by (auto simp: plain_keys_def list_all_iff plain_def)
  moreover have "tag_text (kv # kvs) = '','' @ k @ ''='' @ escape_name v @ tag_text kvs"
    "field_text (kv # kvs) = '','' @ k @ ''='' @ [quote] @ escape_string v @ [quote] @ field_text kvs"
    by (simp_all add: tag_text_def field_text_def kv)
  moreover have "newline \<noteq> CHR '',''" "newline \<noteq> CHR ''=''" "newline \<noteq> quote" by (simp_all add: newline_def quote_def)
  ultimately show ?case using Cons by (simp add: plain_keys_def)
qed (simp add: tag_text_def field_text_def)

lemma line_body_newline: "newline \<notin> set (line_body S table r)"
proof -
  have "newline \<noteq> CHR ''i''" "newline \<noteq> CHR '' ''" "newline \<noteq> CHR ''=''" "newline \<notin> set ''seq''" by (simp_all add: newline_def)
  then show ?thesis using keys_no_newline plain_line_keys by (simp add: line_body_def int_str_no_newline)
qed

lemma split_on_piece: "c \<notin> set x \<Longrightarrow> split_on c (x @ c # y) = x # split_on c y"
  by (induction x) auto

text \<open>C33. A reader of the line protocol finds in a batch one line per record, in order, with the table,
  the tags, the fields and the timestamp of that record, control characters read as spaces: no text in a
  record can end a tag, a field or a line early, or start another.\<close>

theorem lines_read_back: "read_body (concat (map (line S table) rs)) = map (\<lambda>r. Some (exported S table r)) rs"
proof -
  have "split_on newline (concat (map (line S table) rs)) = map (line_body S table) rs @ [[]]"
    by (induction rs) (simp_all add: line_split split_on_piece line_body_newline)
  then show ?thesis by (simp add: read_body_def read_line_body)
qed

section \<open>Sending\<close>

definition holds_record :: "serde \<Rightarrow> string \<Rightarrow> stored_record \<Rightarrow> string \<Rightarrow> bool" where
  "holds_record S table r b \<longleftrightarrow> b = line S table r \<or> (\<exists>reason. b = minimal_line table r reason)"

lemma send_one_holds: "send_one S post table r s = (res, done, s1) \<Longrightarrow>
    (if res = None then \<exists>b. done = [b] \<and> holds_record S table r b else done = [])"
  by (auto simp: send_one_def holds_record_def Let_def split: prod.splits answer.splits)

lemma send_each_holds: "send_each S post table rs s = (res, done, s1) \<Longrightarrow>
    list_all2 (holds_record S table) (take (length done) rs) done \<and> (res = None \<longrightarrow> length done = length rs)"
proof (induction rs arbitrary: s res "done" s1)
  case (Cons r rs)
  obtain res1 done1 s2 where one: "send_one S post table r s = (res1, done1, s2)" by (metis prod_cases3)
  show ?case
  proof (cases res1)
    case (Some e)
    with one Cons.prems send_one_holds [OF one] show ?thesis by auto
  next
    case None
    then obtain b where b: "done1 = [b]" "holds_record S table r b" using send_one_holds [OF one] by auto
    obtain more where m: "send_each S post table rs s2 = (res, more, s1)" "done = b # more"
      using Cons.prems one None b(1) by (auto split: prod.splits)
    with Cons.IH [OF m(1)] b(2) show ?thesis by auto
  qed
qed simp

text \<open>A batch counts as sent only when the server accepted every record of it: all lines in one body,
  or each record in a body of its own, as its line or, refused, as its minimal line.\<close>

theorem sent_means_stored:
  assumes "send S post table rs s = (None, bodies, s1)"
  shows "bodies = [concat (map (line S table) rs)] \<or> list_all2 (holds_record S table) rs bodies"
proof (cases "bodies = [concat (map (line S table) rs)]")
  case False
  then obtain s2 where "send_each S post table rs s2 = (None, bodies, s1)"
    using assms by (auto simp: send_def Let_def split: prod.splits answer.splits if_splits)
  from send_each_holds [OF this] show ?thesis by (auto simp: list_all2_lengthD)
qed simp

text \<open>A server that refuses the batch, then stores everything.\<close>

definition picky :: "bool \<Rightarrow> string \<Rightarrow> answer \<times> bool" where
  "picky seen b = (if seen then (Accepted, True) else (Answered 400 ''malformed'', True))"

definition plain_serde :: serde where
  "plain_serde = \<lparr>event_object = (\<lambda>e. []), json_text = (\<lambda>j. ''{}'')\<rparr>"

definition a_record :: stored_record where
  "a_record = \<lparr>sr_seq = 1, sr_hash = ''h'', sr_prev_hash = ''g'', sr_entry = new_entry 0 GatewayStopped\<rparr>"

theorem sent_means_stored_witness:
  "[line plain_serde ''t'' a_record] = [concat (map (line plain_serde ''t'') [a_record])]
    \<or> list_all2 (holds_record plain_serde ''t'') [a_record] [line plain_serde ''t'' a_record]"
  by (rule sent_means_stored [where post = picky and s = False])
    (simp add: send_def picky_def send_one_def Let_def)

end
