(* ===== verification/Config.thy ===== *)
theory Config
  imports Audit_Pipeline Summarise Sessions Quest_Db
begin

text \<open>
  The gateway's configuration (src/config.rs): its sections with their defaults, what loading corrects
  and the checks it must pass. Paths, addresses and node ids are parsed and joined by the standard
  library and the opcua library: arguments here.
\<close>

section \<open>Addresses and paths\<close>

datatype ip_addr = V4 u32 | V6 "128 word"

record socket_addr =
  sa_ip :: ip_addr
  sa_port :: "16 word"

fun is_loopback :: "ip_addr \<Rightarrow> bool" where
  "is_loopback (V4 a) \<longleftrightarrow> drop_bit 24 a = 127"
| "is_loopback (V6 a) \<longleftrightarrow> a = 1"

record paths =
  is_relative :: "string \<Rightarrow> bool"
  path_join :: "string \<Rightarrow> string \<Rightarrow> string"

section \<open>Sections\<close>

record gateway_config =
  gw_application_name :: string
  gw_application_uri :: "string option"
  gw_pki_dir :: string
  gw_data_dir :: string
  gw_certificate_hostnames :: "string list"

definition default_gateway :: gateway_config where
  "default_gateway = \<lparr>gw_application_name = ''OPC UA Audit Gateway'', gw_application_uri = None, gw_pki_dir = ''pki'',
     gw_data_dir = ''data'', gw_certificate_hostnames = []\<rparr>"

record web_config =
  w_listen :: socket_addr
  w_tls :: bool
  w_tls_certificate :: "string option"
  w_tls_private_key :: "string option"
  w_allowed_hosts :: "string list"
  w_trusted_proxies :: "ip_addr list"

definition default_web :: web_config where
  "default_web = \<lparr>w_listen = \<lparr>sa_ip = V4 0x7F000001, sa_port = 8080\<rparr>, w_tls = False, w_tls_certificate = None,
     w_tls_private_key = None, w_allowed_hosts = [], w_trusted_proxies = []\<rparr>"

record audit_section = audit_config +
  a_database :: "string option"

definition default_audit :: audit_section where
  "default_audit = \<lparr>fail_mode = FailOpen, record_old_value = True, retention_days = 365, ignored_summary_secs = 3600,
     a_database = None\<rparr>"

record export_config =
  x_questdb :: "questdb_config option"
  x_syslog :: bool

definition default_export :: export_config where
  "default_export = \<lparr>x_questdb = None, x_syslog = False\<rparr>"

record mcp_config =
  m_enabled :: bool
  m_allow :: "string list"

definition default_mcp :: mcp_config where
  "default_mcp = \<lparr>m_enabled = False, m_allow = []\<rparr>"

record target = target_config +
  t_listen :: socket_addr
  t_discovery_interval_secs :: nat
  t_max_connections :: nat
  t_max_connections_per_address :: nat
  t_summarise :: "summarise_group list"
  t_ignore :: "ignore_rule list"

definition DEFAULT_QUESTDB_TABLE :: string where "DEFAULT_QUESTDB_TABLE = ''opcua_audit''"
definition DEFAULT_EXPORT_INTERVAL :: nat where "DEFAULT_EXPORT_INTERVAL = 5"
definition DEFAULT_DISCOVERY_INTERVAL :: nat where "DEFAULT_DISCOVERY_INTERVAL = 60"
definition DEFAULT_MAX_CONNECTIONS :: nat where "DEFAULT_MAX_CONNECTIONS = 50"
definition DEFAULT_MAX_CONNECTIONS_PER_ADDRESS :: nat where "DEFAULT_MAX_CONNECTIONS_PER_ADDRESS = 10"

record config =
  c_gateway :: gateway_config
  c_web :: web_config
  c_audit :: audit_section
  c_export :: export_config
  c_mcp :: mcp_config
  c_targets :: "target list"
  c_load_fixes :: "(string \<times> string \<times> string \<times> string) list"

definition application_uri_of :: "string list \<Rightarrow> gateway_config \<Rightarrow> string" where
  "application_uri_of hostnames g = (case gw_application_uri g of
     Some u \<Rightarrow> u
   | None \<Rightarrow> ''urn:'' @ (case hostnames of h # _ \<Rightarrow> h | [] \<Rightarrow> ''localhost'') @ '':opcua-audit-gateway'')"

definition audit_database :: "paths \<Rightarrow> config \<Rightarrow> string" where
  "audit_database F c = (case a_database (c_audit c) of
     Some p \<Rightarrow> p | None \<Rightarrow> path_join F (gw_data_dir (c_gateway c)) ''audit.db'')"

section \<open>Loading\<close>

datatype config_error =
    BadFile
  | BadTlsVariable string
  | ZeroSummaryInterval
  | CertificateWithoutKey
  | CertificateWithoutTls
  | QuestDbScheme
  | QuestDbCredentialsInUrl
  | QuestDbTokenAndPassword
  | ZeroExportInterval
  | BadTargetName string
  | DuplicateTarget string
  | SharedListen string socket_addr
  | WebListen string socket_addr
  | NotOpcTcp string string
  | ZeroDiscoveryInterval string
  | ZeroConnectionLimit string
  | BadSummarise string summarise_error
  | UnknownTarget string
  | FileNotWritten
  | CannotListen string

definition WEB_TLS_ENV :: string where "WEB_TLS_ENV = ''OPCUA_GATEWAY_WEB_TLS''"

definition apply_env :: "(string \<Rightarrow> string option) \<Rightarrow> config \<Rightarrow> config_error + config" where
  "apply_env var c = (case var WEB_TLS_ENV of
     None \<Rightarrow> Inr c
   | Some v \<Rightarrow>
       (let w = ascii_lower (trim v); set_tls = (\<lambda>b. c\<lparr>c_web := (c_web c)\<lparr>w_tls := b\<rparr>\<rparr>) in
        if trim v = [] then Inr c
        else if w \<in> {''1'', ''true'', ''yes'', ''on''} then Inr (set_tls True)
        else if w \<in> {''0'', ''false'', ''no'', ''off''} then Inr (set_tls False)
        else Inl (BadTlsVariable w)))"

definition resolve :: "paths \<Rightarrow> string \<Rightarrow> string \<Rightarrow> string" where
  "resolve F base p = (if is_relative F p then path_join F base p else p)"

definition resolve_paths :: "paths \<Rightarrow> string \<Rightarrow> config \<Rightarrow> config" where
  "resolve_paths F base c =
     c\<lparr>c_gateway := (c_gateway c)\<lparr>gw_pki_dir := resolve F base (gw_pki_dir (c_gateway c)),
         gw_data_dir := resolve F base (gw_data_dir (c_gateway c))\<rparr>,
       c_web := (c_web c)\<lparr>w_tls_certificate := map_option (resolve F base) (w_tls_certificate (c_web c)),
         w_tls_private_key := map_option (resolve F base) (w_tls_private_key (c_web c))\<rparr>,
       c_audit := (c_audit c)\<lparr>a_database := map_option (resolve F base) (a_database (c_audit c))\<rparr>,
       c_export := (c_export c)\<lparr>x_questdb := map_option (\<lambda>q. q\<lparr>q_ca_file := map_option (resolve F base) (q_ca_file q)\<rparr>)
         (x_questdb (c_export c))\<rparr>\<rparr>"

text \<open>Old \<open>ignore\<close> rules become groups; a node in two groups for the same writes stays in the first.\<close>

definition load_target :: "(string \<Rightarrow> 'n option) \<Rightarrow> target \<Rightarrow> target \<times> (string \<times> string \<times> string \<times> string) list" where
  "load_target P t = (case drop_summarise_overlaps P (migrate_ignore (t_ignore t) (t_summarise t)) of
     (gs, msgs) \<Rightarrow> (t\<lparr>t_summarise := gs, t_ignore := []\<rparr>, map (\<lambda>m. (t_name t, m)) msgs))"

section \<open>Validation\<close>

definition strip_prefix :: "string \<Rightarrow> string \<Rightarrow> string option" where
  "strip_prefix p s = (if starts_with s p then Some (drop (length p) s) else None)"

definition url_rest :: "string \<Rightarrow> string option" where
  "url_rest url = (case strip_prefix ''http://'' url of Some r \<Rightarrow> Some r | None \<Rightarrow> strip_prefix ''https://'' url)"

definition validate_questdb :: "questdb_config \<Rightarrow> config_error option" where
  "validate_questdb q = (case url_rest (q_url q) of
     None \<Rightarrow> Some QuestDbScheme
   | Some r \<Rightarrow>
       if CHR ''@'' \<in> set (hd (split_on CHR ''/'' r)) then Some QuestDbCredentialsInUrl
       else if q_token q \<noteq> None \<and> (q_username q \<noteq> None \<or> q_password q \<noteq> None) then Some QuestDbTokenAndPassword
       else if q_interval_secs q = 0 then Some ZeroExportInterval
       else None)"

definition ascii_alnum :: "char \<Rightarrow> bool" where
  "ascii_alnum c \<longleftrightarrow> (let n = (of_char c :: nat) in (48 \<le> n \<and> n \<le> 57) \<or> (65 \<le> n \<and> n \<le> 90) \<or> (97 \<le> n \<and> n \<le> 122))"

definition valid_target_name :: "string \<Rightarrow> bool" where
  "valid_target_name n \<longleftrightarrow> n \<noteq> [] \<and> length n \<le> 64 \<and> list_all (\<lambda>c. ascii_alnum c \<or> c \<in> set ''._-'') n"

definition validate_target :: "(string \<Rightarrow> 'n option) \<Rightarrow> socket_addr \<Rightarrow> string set \<Rightarrow> socket_addr set \<Rightarrow> target \<Rightarrow> config_error option" where
  "validate_target P web seen_names listens t =
     (if \<not> valid_target_name (t_name t) then Some (BadTargetName (t_name t))
      else if t_name t \<in> seen_names then Some (DuplicateTarget (t_name t))
      else if t_listen t \<in> listens then Some (SharedListen (t_name t) (t_listen t))
      else if t_listen t = web then Some (WebListen (t_name t) (t_listen t))
      else if \<not> starts_with (t_endpoint_url t) ''opc.tcp://'' then Some (NotOpcTcp (t_name t) (t_endpoint_url t))
      else if t_discovery_interval_secs t = 0 then Some (ZeroDiscoveryInterval (t_name t))
      else if t_max_connections t = 0 \<or> t_max_connections_per_address t = 0 then Some (ZeroConnectionLimit (t_name t))
      else map_option (BadSummarise (t_name t)) (validate_summarise P (t_summarise t)))"

fun validate_targets :: "(string \<Rightarrow> 'n option) \<Rightarrow> socket_addr \<Rightarrow> string set \<Rightarrow> socket_addr set \<Rightarrow> target list \<Rightarrow> config_error option" where
  "validate_targets P web seen_names listens [] = None"
| "validate_targets P web seen_names listens (t # rest) = (case validate_target P web seen_names listens t of
     Some e \<Rightarrow> Some e
   | None \<Rightarrow> validate_targets P web (insert (t_name t) seen_names) (insert (t_listen t) listens) rest)"

definition validate_config :: "(string \<Rightarrow> 'n option) \<Rightarrow> config \<Rightarrow> config_error option" where
  "validate_config P c =
     (if ignored_summary_secs (c_audit c) = 0 then Some ZeroSummaryInterval
      else if (w_tls_certificate (c_web c) = None) \<noteq> (w_tls_private_key (c_web c) = None) then Some CertificateWithoutKey
      else if w_tls_certificate (c_web c) \<noteq> None \<and> \<not> w_tls (c_web c) then Some CertificateWithoutTls
      else case Option.bind (x_questdb (c_export c)) validate_questdb of
        Some e \<Rightarrow> Some e
      | None \<Rightarrow> validate_targets P (w_listen (c_web c)) {} {} (c_targets c))"

text \<open>\<open>Config::load\<close> after the file was read and deserialized.\<close>

definition load_config :: "(string \<Rightarrow> 'n option) \<Rightarrow> paths \<Rightarrow> (string \<Rightarrow> string option) \<Rightarrow> string \<Rightarrow> config option \<Rightarrow> config_error + config" where
  "load_config P F var base read = (case read of
     None \<Rightarrow> Inl BadFile
   | Some c0 \<Rightarrow>
       (let c1 = resolve_paths F base c0;
            loaded = map (load_target P) (c_targets c1);
            c2 = c1\<lparr>c_targets := map fst loaded, c_load_fixes := concat (map snd loaded)\<rparr>
        in case apply_env var c2 of
             Inl e \<Rightarrow> Inl e
           | Inr c3 \<Rightarrow> (case validate_config P c3 of Some e \<Rightarrow> Inl e | None \<Rightarrow> Inr c3)))"

end
