(* ===== verification/Config_File.thy ===== *)
theory Config_File
  imports Config "HOL-Library.Monad_Syntax"
begin

text \<open>
  The configuration file: what serde reads from it (the derives of src/config.rs) and what the gateway
  writes into it (\<open>write_settings\<close> and \<open>write_targets\<close> of src/targets.rs). A file is the document
  toml_edit makes of its text: a table of items in their order, without comments and layout. Addresses
  are shown and parsed by the standard library: arguments.
\<close>

section \<open>Documents\<close>

text \<open>An inline table is a value, a standard table is not; so for arrays.\<close>

datatype toml =
    TString string
  | TInt int
  | TBool bool
  | TArray "toml list"
  | TInline "(string \<times> toml) list"
  | TTable "(string \<times> toml) list"
  | TTables "(string \<times> toml) list list"

type_synonym toml_table = "(string \<times> toml) list"

fun tb_set :: "string \<Rightarrow> toml \<Rightarrow> toml_table \<Rightarrow> toml_table" where
  "tb_set k v [] = [(k, v)]"
| "tb_set k v ((j, w) # kvs) = (if j = k then (k, v) # kvs else (j, w) # tb_set k v kvs)"

definition tb_remove :: "string \<Rightarrow> toml_table \<Rightarrow> toml_table" where
  "tb_remove k kvs = filter (\<lambda>(j, v). j \<noteq> k) kvs"

definition is_table :: "toml option \<Rightarrow> bool" where
  "is_table v \<longleftrightarrow> (case v of Some (TTable _) \<Rightarrow> True | _ \<Rightarrow> False)"

text \<open>The standard table under a key, a new one where there is none.\<close>

definition sub_table :: "string \<Rightarrow> toml_table \<Rightarrow> toml_table" where
  "sub_table k kvs = (case map_of kvs k of Some (TTable fs) \<Rightarrow> fs | _ \<Rightarrow> [])"

definition in_table :: "string \<Rightarrow> (toml_table \<Rightarrow> toml_table) \<Rightarrow> toml_table \<Rightarrow> toml_table" where
  "in_table k f kvs = tb_set k (TTable (f (sub_table k kvs))) kvs"

text \<open>\<open>as i64\<close> of an unsigned 64-bit number.\<close>

definition as_i64 :: "nat \<Rightarrow> int" where
  "as_i64 n = (if n < 2 ^ 63 then int n else int n - 2 ^ 64)"

record addr_text =
  show_addr :: "socket_addr \<Rightarrow> string"
  parse_addr :: "string \<Rightarrow> socket_addr option"
  parse_ip :: "string \<Rightarrow> ip_addr option"

section \<open>Writing\<close>

definition set_opt :: "string \<Rightarrow> string option \<Rightarrow> toml_table \<Rightarrow> toml_table" where
  "set_opt k v kvs = (case v of Some s \<Rightarrow> tb_set k (TString s) kvs | None \<Rightarrow> tb_remove k kvs)"

fun fail_mode_str :: "fail_mode \<Rightarrow> string" where
  "fail_mode_str FailOpen = ''open''"
| "fail_mode_str FailClosed = ''closed''"

definition write_gateway :: "gateway_config \<Rightarrow> toml_table \<Rightarrow> toml_table" where
  "write_gateway g kvs =
     (if gw_certificate_hostnames g = [] then tb_remove ''certificate_hostnames'' kvs
      else tb_set ''certificate_hostnames'' (TArray (map TString (gw_certificate_hostnames g))) kvs)"

definition write_audit :: "audit_section \<Rightarrow> toml_table \<Rightarrow> toml_table" where
  "write_audit a kvs =
     tb_set ''ignored_summary_secs'' (TInt (as_i64 (ignored_summary_secs a)))
       (tb_set ''record_old_value'' (TBool (record_old_value a))
         (tb_set ''fail_mode'' (TString (fail_mode_str (fail_mode a)))
           (tb_set ''retention_days'' (TInt (int (retention_days a))) kvs)))"

definition write_questdb :: "questdb_config \<Rightarrow> toml_table \<Rightarrow> toml_table" where
  "write_questdb q kvs =
     tb_set ''interval_secs'' (TInt (as_i64 (q_interval_secs q)))
       (set_opt ''ca_file'' (q_ca_file q)
         (set_opt ''password'' (q_password q)
           (set_opt ''username'' (q_username q)
             (set_opt ''token'' (q_token q)
               (tb_set ''table'' (TString (q_table q)) (tb_set ''url'' (TString (q_url q)) kvs))))))"

definition write_export :: "export_config \<Rightarrow> toml_table \<Rightarrow> toml_table" where
  "write_export x kvs = (case x_questdb x of
     None \<Rightarrow> tb_remove ''questdb'' kvs
   | Some q \<Rightarrow> in_table ''questdb'' (write_questdb q) kvs)"

definition write_mcp :: "mcp_config \<Rightarrow> toml_table \<Rightarrow> toml_table" where
  "write_mcp m kvs = tb_remove ''allow'' (tb_set ''enabled'' (TBool (m_enabled m)) kvs)"

text \<open>\<open>write_settings\<close>: only these keys change; an empty export table goes.\<close>

definition write_settings :: "config \<Rightarrow> toml_table \<Rightarrow> toml_table" where
  "write_settings c root =
     (let root = in_table ''gateway'' (write_gateway (c_gateway c)) root;
          root = in_table ''audit'' (write_audit (c_audit c)) root;
          root = in_table ''export'' (write_export (c_export c)) root;
          root = (if m_enabled (c_mcp c) \<or> ''mcp'' \<in> fst ` set root
                  then in_table ''mcp'' (write_mcp (c_mcp c)) root else root);
          root = in_table ''export'' (tb_remove ''syslog'') root
      in if sub_table ''export'' root = [] then tb_remove ''export'' root else root)"

definition group_table :: "summarise_group \<Rightarrow> toml_table" where
  "group_table g =
     (case g_name g of Some n \<Rightarrow> [(''name'', TString n)] | None \<Rightarrow> [])
     @ (case g_client g of Some c \<Rightarrow> [(''client'', TString c)] | None \<Rightarrow> [])
     @ [(''nodes'', TArray (map TString (nodes g)))]
     @ (if names g = [] then [] else [(''names'', TTable (map (\<lambda>(k, v). (k, TString v)) (names g)))])"

definition target_table :: "addr_text \<Rightarrow> target \<Rightarrow> toml_table" where
  "target_table A t =
     [(''name'', TString (t_name t)), (''listen'', TString (show_addr A (t_listen t))),
      (''endpoint_url'', TString (t_endpoint_url t)),
      (''discovery_interval_secs'', TInt (as_i64 (t_discovery_interval_secs t)))]
     @ (if t_min_security t = MinNone then [] else [(''min_security'', TString (min_security_str (t_min_security t)))])
     @ (if t_max_connections t = DEFAULT_MAX_CONNECTIONS then []
        else [(''max_connections'', TInt (as_i64 (t_max_connections t)))])
     @ (if t_max_connections_per_address t = DEFAULT_MAX_CONNECTIONS_PER_ADDRESS then []
        else [(''max_connections_per_address'', TInt (as_i64 (t_max_connections_per_address t)))])
     @ (if t_summarise t = [] then [] else [(''summarise'', TTables (map group_table (t_summarise t)))])"

definition write_targets :: "addr_text \<Rightarrow> target list \<Rightarrow> toml_table \<Rightarrow> toml_table" where
  "write_targets A tgts root =
     (if tgts = [] then tb_remove ''targets'' root
      else tb_set ''targets'' (TTables (map (target_table A) tgts)) root)"

section \<open>Reading\<close>

text \<open>Each reader is \<open>None\<close> for what serde refuses.\<close>

fun rd_string :: "toml \<Rightarrow> string option" where
  "rd_string (TString s) = Some s" | "rd_string _ = None"

fun rd_bool :: "toml \<Rightarrow> bool option" where
  "rd_bool (TBool b) = Some b" | "rd_bool _ = None"

fun rd_unsigned :: "nat \<Rightarrow> toml \<Rightarrow> nat option" where
  "rd_unsigned w (TInt i) = (if 0 \<le> i \<and> i < 2 ^ w then Some (nat i) else None)"
| "rd_unsigned w _ = None"

fun rd_list :: "(toml \<Rightarrow> 'a option) \<Rightarrow> toml \<Rightarrow> 'a list option" where
  "rd_list f (TArray vs) = those (map f vs)"
| "rd_list f (TTables tbs) = those (map (\<lambda>t. f (TTable t)) tbs)"
| "rd_list f _ = None"

fun rd_table :: "toml \<Rightarrow> toml_table option" where
  "rd_table (TInline fs) = Some fs" | "rd_table (TTable fs) = Some fs" | "rd_table _ = None"

definition rd_addr :: "addr_text \<Rightarrow> toml \<Rightarrow> socket_addr option" where
  "rd_addr A v = Option.bind (rd_string v) (parse_addr A)"

definition rd_ip :: "addr_text \<Rightarrow> toml \<Rightarrow> ip_addr option" where
  "rd_ip A v = Option.bind (rd_string v) (parse_ip A)"

fun rd_fail_mode :: "toml \<Rightarrow> fail_mode option" where
  "rd_fail_mode (TString s) = (if s = ''open'' then Some FailOpen else if s = ''closed'' then Some FailClosed else None)"
| "rd_fail_mode _ = None"

fun rd_min_security :: "toml \<Rightarrow> min_security option" where
  "rd_min_security (TString s) = (if s = ''none'' then Some MinNone else if s = ''sign'' then Some MinSign
     else if s = ''sign_and_encrypt'' then Some MinSignAndEncrypt else None)"
| "rd_min_security _ = None"

text \<open>A field with a default, one without, an optional one; \<open>deny_unknown_fields\<close>.\<close>

definition fld :: "(toml \<Rightarrow> 'a option) \<Rightarrow> 'a \<Rightarrow> string \<Rightarrow> toml_table \<Rightarrow> 'a option" where
  "fld f d k kvs = (case map_of kvs k of None \<Rightarrow> Some d | Some v \<Rightarrow> f v)"

definition req :: "(toml \<Rightarrow> 'a option) \<Rightarrow> string \<Rightarrow> toml_table \<Rightarrow> 'a option" where
  "req f k kvs = Option.bind (map_of kvs k) f"

definition opt :: "(toml \<Rightarrow> 'a option) \<Rightarrow> string \<Rightarrow> toml_table \<Rightarrow> 'a option option" where
  "opt f k kvs = (case map_of kvs k of None \<Rightarrow> Some None | Some v \<Rightarrow> map_option Some (f v))"

definition known :: "string list \<Rightarrow> toml_table \<Rightarrow> unit option" where
  "known ks kvs = (if list_all (\<lambda>(k, v). k \<in> set ks) kvs then Some () else None)"

definition rd_gateway :: "toml_table \<Rightarrow> gateway_config option" where
  "rd_gateway kvs = do {
     known [''application_name'', ''application_uri'', ''pki_dir'', ''data_dir'', ''certificate_hostnames''] kvs;
     an \<leftarrow> fld rd_string (gw_application_name default_gateway) ''application_name'' kvs;
     au \<leftarrow> opt rd_string ''application_uri'' kvs;
     pd \<leftarrow> fld rd_string (gw_pki_dir default_gateway) ''pki_dir'' kvs;
     dd \<leftarrow> fld rd_string (gw_data_dir default_gateway) ''data_dir'' kvs;
     hs \<leftarrow> fld (rd_list rd_string) [] ''certificate_hostnames'' kvs;
     Some \<lparr>gw_application_name = an, gw_application_uri = au, gw_pki_dir = pd, gw_data_dir = dd, gw_certificate_hostnames = hs\<rparr> }"

definition rd_web :: "addr_text \<Rightarrow> toml_table \<Rightarrow> web_config option" where
  "rd_web A kvs = do {
     known [''listen'', ''tls'', ''tls_certificate'', ''tls_private_key'', ''allowed_hosts'', ''trusted_proxies''] kvs;
     li \<leftarrow> fld (rd_addr A) (w_listen default_web) ''listen'' kvs;
     tl \<leftarrow> fld rd_bool False ''tls'' kvs;
     ce \<leftarrow> opt rd_string ''tls_certificate'' kvs;
     ke \<leftarrow> opt rd_string ''tls_private_key'' kvs;
     ah \<leftarrow> fld (rd_list rd_string) [] ''allowed_hosts'' kvs;
     tp \<leftarrow> fld (rd_list (rd_ip A)) [] ''trusted_proxies'' kvs;
     Some \<lparr>w_listen = li, w_tls = tl, w_tls_certificate = ce, w_tls_private_key = ke, w_allowed_hosts = ah, w_trusted_proxies = tp\<rparr> }"

definition rd_audit :: "toml_table \<Rightarrow> audit_section option" where
  "rd_audit kvs = do {
     known [''database'', ''retention_days'', ''fail_mode'', ''record_old_value'', ''ignored_summary_secs''] kvs;
     db \<leftarrow> opt rd_string ''database'' kvs;
     rt \<leftarrow> fld (rd_unsigned 32) 365 ''retention_days'' kvs;
     fm \<leftarrow> fld rd_fail_mode FailOpen ''fail_mode'' kvs;
     ov \<leftarrow> fld rd_bool True ''record_old_value'' kvs;
     is \<leftarrow> fld (rd_unsigned 64) 3600 ''ignored_summary_secs'' kvs;
     Some \<lparr>fail_mode = fm, record_old_value = ov, retention_days = rt, ignored_summary_secs = is, a_database = db\<rparr> }"

definition rd_questdb :: "toml_table \<Rightarrow> questdb_config option" where
  "rd_questdb kvs = do {
     known [''url'', ''ca_file'', ''table'', ''token'', ''username'', ''password'', ''interval_secs''] kvs;
     ur \<leftarrow> req rd_string ''url'' kvs;
     ca \<leftarrow> opt rd_string ''ca_file'' kvs;
     ta \<leftarrow> fld rd_string DEFAULT_QUESTDB_TABLE ''table'' kvs;
     tk \<leftarrow> opt rd_string ''token'' kvs;
     un \<leftarrow> opt rd_string ''username'' kvs;
     pw \<leftarrow> opt rd_string ''password'' kvs;
     iv \<leftarrow> fld (rd_unsigned 64) DEFAULT_EXPORT_INTERVAL ''interval_secs'' kvs;
     Some \<lparr>q_url = ur, q_ca_file = ca, q_table = ta, q_token = tk, q_username = un, q_password = pw, q_interval_secs = iv\<rparr> }"

definition rd_export :: "toml_table \<Rightarrow> export_config option" where
  "rd_export kvs = do {
     known [''questdb'', ''syslog''] kvs;
     q \<leftarrow> opt (\<lambda>v. Option.bind (rd_table v) rd_questdb) ''questdb'' kvs;
     Some \<lparr>x_questdb = q, x_syslog = (map_of kvs ''syslog'' \<noteq> None)\<rparr> }"

definition rd_mcp :: "toml_table \<Rightarrow> mcp_config option" where
  "rd_mcp kvs = do {
     known [''enabled'', ''allow''] kvs;
     en \<leftarrow> fld rd_bool False ''enabled'' kvs;
     al \<leftarrow> fld (rd_list rd_string) [] ''allow'' kvs;
     Some \<lparr>m_enabled = en, m_allow = al\<rparr> }"

definition rd_names :: "toml \<Rightarrow> (string \<times> string) list option" where
  "rd_names v = Option.bind (rd_table v) (\<lambda>kvs.
     map_option (\<lambda>ps. fold (\<lambda>(k, s). bt_put k s) ps []) (those (map (\<lambda>(k, w). map_option (Pair k) (rd_string w)) kvs)))"

definition rd_group :: "toml \<Rightarrow> summarise_group option" where
  "rd_group v = do {
     kvs \<leftarrow> rd_table v;
     known [''name'', ''client'', ''nodes'', ''names''] kvs;
     na \<leftarrow> opt rd_string ''name'' kvs;
     cl \<leftarrow> opt rd_string ''client'' kvs;
     no \<leftarrow> fld (rd_list rd_string) [] ''nodes'' kvs;
     ns \<leftarrow> fld rd_names [] ''names'' kvs;
     Some \<lparr>g_name = na, g_client = cl, nodes = no, names = ns\<rparr> }"

definition rd_rule :: "toml \<Rightarrow> ignore_rule option" where
  "rd_rule v = do {
     kvs \<leftarrow> rd_table v;
     known [''node_id'', ''client'', ''name''] kvs;
     no \<leftarrow> req rd_string ''node_id'' kvs;
     cl \<leftarrow> opt rd_string ''client'' kvs;
     na \<leftarrow> opt rd_string ''name'' kvs;
     Some \<lparr>ir_node_id = no, ir_client = cl, ir_name = na\<rparr> }"

definition rd_target :: "addr_text \<Rightarrow> toml \<Rightarrow> target option" where
  "rd_target A v = do {
     kvs \<leftarrow> rd_table v;
     known [''name'', ''listen'', ''endpoint_url'', ''discovery_interval_secs'', ''min_security'', ''max_connections'',
       ''max_connections_per_address'', ''summarise'', ''ignore''] kvs;
     na \<leftarrow> req rd_string ''name'' kvs;
     li \<leftarrow> req (rd_addr A) ''listen'' kvs;
     eu \<leftarrow> req rd_string ''endpoint_url'' kvs;
     di \<leftarrow> fld (rd_unsigned 64) DEFAULT_DISCOVERY_INTERVAL ''discovery_interval_secs'' kvs;
     ms \<leftarrow> fld rd_min_security MinNone ''min_security'' kvs;
     mc \<leftarrow> fld (rd_unsigned 64) DEFAULT_MAX_CONNECTIONS ''max_connections'' kvs;
     ma \<leftarrow> fld (rd_unsigned 64) DEFAULT_MAX_CONNECTIONS_PER_ADDRESS ''max_connections_per_address'' kvs;
     su \<leftarrow> fld (rd_list rd_group) [] ''summarise'' kvs;
     ig \<leftarrow> fld (rd_list rd_rule) [] ''ignore'' kvs;
     Some \<lparr>t_name = na, t_endpoint_url = eu, t_min_security = ms, t_listen = li, t_discovery_interval_secs = di,
       t_max_connections = mc, t_max_connections_per_address = ma, t_summarise = su, t_ignore = ig\<rparr> }"

text \<open>A section that may be absent.\<close>

definition section_of :: "(toml_table \<Rightarrow> 'a option) \<Rightarrow> 'a \<Rightarrow> string \<Rightarrow> toml_table \<Rightarrow> 'a option" where
  "section_of f d k root = fld (\<lambda>v. Option.bind (rd_table v) f) d k root"

definition rd_config :: "addr_text \<Rightarrow> toml_table \<Rightarrow> config option" where
  "rd_config A root = do {
     known [''gateway'', ''web'', ''audit'', ''export'', ''mcp'', ''targets''] root;
     gw \<leftarrow> section_of rd_gateway default_gateway ''gateway'' root;
     we \<leftarrow> section_of (rd_web A) default_web ''web'' root;
     au \<leftarrow> section_of rd_audit default_audit ''audit'' root;
     ex \<leftarrow> section_of rd_export default_export ''export'' root;
     mc \<leftarrow> section_of rd_mcp default_mcp ''mcp'' root;
     tgts \<leftarrow> fld (rd_list (rd_target A)) [] ''targets'' root;
     Some \<lparr>c_gateway = gw, c_web = we, c_audit = au, c_export = ex, c_mcp = mc, c_targets = tgts, c_load_fixes = []\<rparr> }"

end
