(* ===== verification/Config_Safety.thy ===== *)
theory Config_Safety
  imports Config_File
begin

text \<open>
  What the checks of src/config.rs guarantee, in declarative form, and that the file the gateway
  writes (src/targets.rs) loads again as the configuration it runs with.
\<close>

section \<open>Lookups after a change of a table\<close>

named_theorems table_simps \<open>lookups in changed tables\<close>

lemma map_of_tb_set [table_simps]: "map_of (tb_set k v kvs) j = (if j = k then Some v else map_of kvs j)"
  by (induction k v kvs rule: tb_set.induct) auto

lemma map_of_tb_remove [table_simps]: "map_of (tb_remove k kvs) j = (if j = k then None else map_of kvs j)"
  by (induction kvs) (auto simp: tb_remove_def)

lemma known_set [table_simps]: "known ks kvs = Some u \<Longrightarrow> k \<in> set ks \<Longrightarrow> known ks (tb_set k v kvs) = Some u"
  by (induction k v kvs rule: tb_set.induct) (auto simp: known_def split: if_splits)

lemma known_remove [table_simps]: "known ks kvs = Some u \<Longrightarrow> known ks (tb_remove k kvs) = Some u"
  by (auto simp: known_def tb_remove_def list_all_iff split: if_splits)

lemma known_set_opt [table_simps]: "known ks kvs = Some u \<Longrightarrow> k \<in> set ks \<Longrightarrow> known ks (set_opt k v kvs) = Some u"
  by (simp add: set_opt_def table_simps split: option.splits)

lemma fld_tb_set [table_simps]: "fld f d j (tb_set k v kvs) = (if j = k then f v else fld f d j kvs)"
  by (simp add: fld_def table_simps)

lemma fld_tb_remove [table_simps]: "fld f d j (tb_remove k kvs) = (if j = k then Some d else fld f d j kvs)"
  by (simp add: fld_def table_simps)

lemma req_tb_set [table_simps]: "req f j (tb_set k v kvs) = (if j = k then f v else req f j kvs)"
  by (simp add: req_def table_simps)

lemma opt_tb_set [table_simps]: "opt f j (tb_set k v kvs) = (if j = k then map_option Some (f v) else opt f j kvs)"
  by (simp add: opt_def table_simps)

lemma opt_tb_remove [table_simps]: "opt f j (tb_remove k kvs) = (if j = k then Some None else opt f j kvs)"
  by (simp add: opt_def table_simps)

lemma set_opt_lookup [table_simps]:
  "opt rd_string j (set_opt k v kvs) = (if j = k then Some v else opt rd_string j kvs)"
  "j \<noteq> k \<Longrightarrow> fld f d j (set_opt k v kvs) = fld f d j kvs"
  "j \<noteq> k \<Longrightarrow> req f j (set_opt k v kvs) = req f j kvs"
  by (auto simp: set_opt_def table_simps req_def split: option.splits)

lemma those_strings [simp]: "those (map (rd_string \<circ> TString) xs) = Some xs"
  by (induction xs) auto

lemma rd_as_i64: "n < 2 ^ 63 \<Longrightarrow> rd_unsigned 64 (TInt (as_i64 n)) = Some n"
  by (simp add: as_i64_def)

section \<open>Sections read back\<close>

lemma read_gateway_back: "rd_gateway kvs = Some g \<Longrightarrow>
    rd_gateway (write_gateway (g'\<lparr>gw_certificate_hostnames := hs\<rparr>) kvs) = Some (g\<lparr>gw_certificate_hostnames := hs\<rparr>)"
  by (auto simp: rd_gateway_def write_gateway_def table_simps Option.bind_eq_Some_conv)

lemma read_audit_back:
  assumes "rd_audit kvs = Some a0" and "a_database a = d" and "retention_days a < 2 ^ 32" and "ignored_summary_secs a < 2 ^ 63"
  shows "rd_audit (write_audit a kvs) = Some (a\<lparr>a_database := a_database a0\<rparr>)"
proof -
  have "rd_fail_mode (TString (fail_mode_str m)) = Some m" for m by (cases m) simp_all
  moreover have "rd_unsigned 32 (TInt (int (retention_days a))) = Some (retention_days a)" using assms(3) by simp
  ultimately show ?thesis
    using assms(1) rd_as_i64 [OF assms(4)]
    by (auto simp: rd_audit_def write_audit_def table_simps Option.bind_eq_Some_conv simp del: rd_unsigned.simps rd_fail_mode.simps)
qed

lemma read_questdb_back:
  assumes "known [''url'', ''ca_file'', ''table'', ''token'', ''username'', ''password'', ''interval_secs''] kvs = Some ()"
    and "q_interval_secs q < 2 ^ 63"
  shows "rd_questdb (write_questdb q kvs) = Some q"
  using assms(1) rd_as_i64 [OF assms(2)]
  by (simp add: rd_questdb_def write_questdb_def table_simps del: rd_unsigned.simps)

lemma read_mcp_back: "rd_mcp kvs = Some m0 \<Longrightarrow> rd_mcp (write_mcp m kvs) = Some \<lparr>m_enabled = m_enabled m, m_allow = []\<rparr>"
  by (auto simp: rd_mcp_def write_mcp_def table_simps Option.bind_eq_Some_conv)

text \<open>The sections the gateway writes stand as tables of their own, not inline.\<close>

definition standard_key :: "toml_table \<Rightarrow> string \<Rightarrow> bool" where
  "standard_key kvs k \<longleftrightarrow> map_of kvs k = None \<or> is_table (map_of kvs k)"

definition standard :: "toml_table \<Rightarrow> bool" where
  "standard root \<longleftrightarrow> list_all (standard_key root) [''gateway'', ''audit'', ''export'', ''mcp''] \<and>
     standard_key (sub_table ''export'' root) ''questdb''"

lemma standard_keyE:
  assumes "standard_key kvs k"
  obtains "map_of kvs k = None" "sub_table k kvs = []" | fs where "map_of kvs k = Some (TTable fs)" "sub_table k kvs = fs"
  using assms by (auto simp: standard_key_def is_table_def sub_table_def split: option.splits toml.splits)

lemma section_sub_table:
  assumes "standard_key root k" and "f [] = Some d" and "section_of f d k root = Some x"
  shows "f (sub_table k root) = Some x"
  using assms by (elim standard_keyE) (auto simp: section_of_def fld_def)

lemma section_in_table [table_simps]:
  "section_of f d k (in_table j g root) = (if k = j then f (g (sub_table j root)) else section_of f d k root)"
  by (auto simp: section_of_def in_table_def table_simps)

lemma sub_table_in_table [table_simps]:
  "sub_table k (in_table j g root) = (if k = j then g (sub_table j root) else sub_table k root)"
  by (auto simp: sub_table_def in_table_def table_simps)

lemma section_remove [table_simps]: "section_of f d k (tb_remove j root) = (if k = j then Some d else section_of f d k root)"
  by (simp add: section_of_def table_simps)

lemma known_in_table [table_simps]: "known ks root = Some u \<Longrightarrow> k \<in> set ks \<Longrightarrow> known ks (in_table k g root) = Some u"
  by (simp add: in_table_def table_simps)

lemma fld_in_table [table_simps]: "j \<noteq> k \<Longrightarrow> fld f d j (in_table k g root) = fld f d j root"
  by (simp add: in_table_def table_simps)

lemma read_export_back:
  assumes "rd_export kvs = Some x0" and "standard_key kvs ''questdb''"
    and "case x_questdb x of None \<Rightarrow> True | Some q \<Rightarrow> q_interval_secs q < 2 ^ 63"
  shows "rd_export (tb_remove ''syslog'' (write_export x kvs)) = Some \<lparr>x_questdb = x_questdb x, x_syslog = False\<rparr>"
proof (cases "x_questdb x")
  case None
  with assms(1) show ?thesis by (auto simp: rd_export_def write_export_def table_simps Option.bind_eq_Some_conv)
next
  case (Some q)
  have "known [''url'', ''ca_file'', ''table'', ''token'', ''username'', ''password'', ''interval_secs'']
      (sub_table ''questdb'' kvs) = Some ()"
    using assms(2)
  proof (cases rule: standard_keyE)
    case (2 fs)
    with assms(1) show ?thesis by (auto simp: rd_export_def opt_def rd_questdb_def Option.bind_eq_Some_conv)
  qed (simp add: known_def)
  then have "rd_questdb (write_questdb q (sub_table ''questdb'' kvs)) = Some q"
    using assms(3) Some by (intro read_questdb_back) simp_all
  with assms(1) Some show ?thesis
    by (auto simp: rd_export_def write_export_def in_table_def table_simps Option.bind_eq_Some_conv)
qed

lemma defaults: "rd_gateway [] = Some default_gateway" "rd_audit [] = Some default_audit"
    "rd_export [] = Some default_export" "rd_mcp [] = Some default_mcp"
  by (simp_all add: rd_gateway_def rd_audit_def rd_export_def rd_mcp_def known_def fld_def opt_def
      default_gateway_def default_audit_def default_export_def default_mcp_def)

section \<open>The whole file\<close>

definition fits :: "config \<Rightarrow> bool" where
  "fits c \<longleftrightarrow> retention_days (c_audit c) < 2 ^ 32 \<and> ignored_summary_secs (c_audit c) < 2 ^ 63 \<and>
     (case x_questdb (c_export c) of None \<Rightarrow> True | Some q \<Rightarrow> q_interval_secs q < 2 ^ 63)"

definition settings_of :: "config \<Rightarrow> config \<Rightarrow> config" where
  "settings_of c c0 = c0\<lparr>
     c_gateway := (c_gateway c0)\<lparr>gw_certificate_hostnames := gw_certificate_hostnames (c_gateway c)\<rparr>,
     c_audit := (c_audit c)\<lparr>a_database := a_database (c_audit c0)\<rparr>,
     c_export := \<lparr>x_questdb = x_questdb (c_export c), x_syslog = False\<rparr>,
     c_mcp := \<lparr>m_enabled = m_enabled (c_mcp c), m_allow = []\<rparr>\<rparr>"

lemma in_table_keys [table_simps]: "k \<in> fst ` set (in_table j g root) \<longleftrightarrow> k = j \<or> k \<in> fst ` set root"
proof -
  have "k \<in> fst ` set (tb_set j v root) \<longleftrightarrow> k = j \<or> k \<in> fst ` set root" for v
    by (induction j v root rule: tb_set.induct) auto
  then show ?thesis by (simp add: in_table_def)
qed

lemma read_settings_back:
  assumes c0: "rd_config A root = Some c0" and "standard root" and fits: "fits c"
  shows "rd_config A (write_settings c root) = Some (settings_of c c0)"
proof -
  let ?ks = "[''gateway'', ''web'', ''audit'', ''export'', ''mcp'', ''targets'']"
  have std: "standard_key root ''gateway''" "standard_key root ''audit''" "standard_key root ''export''"
      "standard_key root ''mcp''" "standard_key (sub_table ''export'' root) ''questdb''"
    using assms(2) by (simp_all add: standard_def)
  have rd: "known ?ks root = Some ()" "section_of rd_gateway default_gateway ''gateway'' root = Some (c_gateway c0)"
      "section_of (rd_web A) default_web ''web'' root = Some (c_web c0)"
      "section_of rd_audit default_audit ''audit'' root = Some (c_audit c0)"
      "section_of rd_export default_export ''export'' root = Some (c_export c0)"
      "section_of rd_mcp default_mcp ''mcp'' root = Some (c_mcp c0)"
      "fld (rd_list (rd_target A)) [] ''targets'' root = Some (c_targets c0)" "c_load_fixes c0 = []"
    using c0 by (auto simp: rd_config_def Option.bind_eq_Some_conv)
  have gw: "rd_gateway (write_gateway (c_gateway c) (sub_table ''gateway'' root))
      = Some ((c_gateway c0)\<lparr>gw_certificate_hostnames := gw_certificate_hostnames (c_gateway c)\<rparr>)"
    using read_gateway_back [OF section_sub_table [OF std(1) defaults(1) rd(2)], where g' = "c_gateway c" and hs = "gw_certificate_hostnames (c_gateway c)"] by simp
  have au: "rd_audit (write_audit (c_audit c) (sub_table ''audit'' root)) = Some ((c_audit c)\<lparr>a_database := a_database (c_audit c0)\<rparr>)"
    using read_audit_back [OF section_sub_table [OF std(2) defaults(2) rd(4)] refl] fits by (simp add: fits_def)
  have ex: "rd_export (tb_remove ''syslog'' (write_export (c_export c) (sub_table ''export'' root)))
      = Some \<lparr>x_questdb = x_questdb (c_export c), x_syslog = False\<rparr>"
    using read_export_back [OF section_sub_table [OF std(3) defaults(3) rd(5)] std(5)] fits by (simp add: fits_def)
  have mc: "rd_mcp (write_mcp (c_mcp c) (sub_table ''mcp'' root)) = Some \<lparr>m_enabled = m_enabled (c_mcp c), m_allow = []\<rparr>"
    using read_mcp_back [OF section_sub_table [OF std(4) defaults(4) rd(6)]] .
  define root1 where "root1 = in_table ''export'' (write_export (c_export c))
    (in_table ''audit'' (write_audit (c_audit c)) (in_table ''gateway'' (write_gateway (c_gateway c)) root))"
  define root2 where "root2 = in_table ''export'' (tb_remove ''syslog'')
    (if m_enabled (c_mcp c) \<or> ''mcp'' \<in> fst ` set root1 then in_table ''mcp'' (write_mcp (c_mcp c)) root1 else root1)"
  have mcp: "section_of rd_mcp default_mcp ''mcp'' root2 = Some \<lparr>m_enabled = m_enabled (c_mcp c), m_allow = []\<rparr>"
  proof (cases "m_enabled (c_mcp c) \<or> ''mcp'' \<in> fst ` set root1")
    case True
    with mc show ?thesis by (simp add: root2_def root1_def table_simps)
  next
    case False
    then have "map_of root ''mcp'' = None" by (simp add: root1_def table_simps map_of_eq_None_iff)
    with False show ?thesis by (simp add: root2_def root1_def table_simps) (simp add: section_of_def fld_def default_mcp_def)
  qed
  have ex2: "sub_table ''export'' root2 = tb_remove ''syslog'' (write_export (c_export c) (sub_table ''export'' root))"
    by (simp add: root2_def root1_def table_simps)
  have keep: "known ?ks root2 = Some ()" "section_of (rd_web A) default_web ''web'' root2 = Some (c_web c0)"
      "fld (rd_list (rd_target A)) [] ''targets'' root2 = Some (c_targets c0)"
    using rd by (simp_all add: root2_def root1_def table_simps)
  have gw2: "section_of rd_gateway default_gateway ''gateway'' root2
      = Some ((c_gateway c0)\<lparr>gw_certificate_hostnames := gw_certificate_hostnames (c_gateway c)\<rparr>)"
    using gw by (simp add: root2_def root1_def table_simps)
  have au2: "section_of rd_audit default_audit ''audit'' root2 = Some ((c_audit c)\<lparr>a_database := a_database (c_audit c0)\<rparr>)"
    using au by (simp add: root2_def root1_def table_simps)
  have ex3: "section_of rd_export default_export ''export'' root2 = Some \<lparr>x_questdb = x_questdb (c_export c), x_syslog = False\<rparr>"
    using ex by (simp add: root2_def root1_def table_simps)
  have "rd_config A root2 = Some (settings_of c c0)"
    using keep gw2 au2 ex3 mcp rd(8) by (simp add: rd_config_def settings_of_def)
  moreover have "rd_config A (tb_remove ''export'' root2) = rd_config A root2" if "sub_table ''export'' root2 = []"
  proof -
    have "default_export = \<lparr>x_questdb = x_questdb (c_export c), x_syslog = False\<rparr>"
      using defaults(3) that ex ex2 by simp
    then have "section_of rd_export default_export ''export'' root2 = Some default_export" using ex3 by simp
    then show ?thesis using keep(1) by (simp add: rd_config_def table_simps)
  qed
  moreover have "write_settings c root = (if sub_table ''export'' root2 = [] then tb_remove ''export'' root2 else root2)"
    by (simp only: write_settings_def Let_def root2_def root1_def)
  ultimately show ?thesis by simp
qed

section \<open>Loading what was saved\<close>

text \<open>What the file no longer holds once it was saved: the old syslog section and the old MCP list.\<close>

definition without_unused :: "config \<Rightarrow> config" where
  "without_unused c = c\<lparr>c_export := (c_export c)\<lparr>x_syslog := False\<rparr>, c_mcp := (c_mcp c)\<lparr>m_allow := []\<rparr>\<rparr>"

definition ca_absolute :: "paths \<Rightarrow> config \<Rightarrow> bool" where
  "ca_absolute F c \<longleftrightarrow> (case x_questdb (c_export c) of None \<Rightarrow> True
     | Some q \<Rightarrow> (case q_ca_file q of None \<Rightarrow> True | Some f \<Rightarrow> \<not> is_relative F f))"

lemma resolve_settings: "ca_absolute F c \<Longrightarrow> resolve_paths F base (settings_of c c0) = settings_of c (resolve_paths F base c0)"
  by (auto simp: resolve_paths_def settings_of_def ca_absolute_def resolve_def split: option.splits)

lemma env_settings: "apply_env var (settings_of c c0) = map_sum id (settings_of c) (apply_env var c0)"
  by (auto simp: apply_env_def settings_of_def Let_def split: option.splits)

lemma env_targets: "apply_env var c = Inr c' \<Longrightarrow> c_targets c' = c_targets c"
  by (auto simp: apply_env_def Let_def split: option.splits if_splits)

lemma settings_load:
  assumes "load_config P F var base (rd_config A root) = Inr c0"
    and "validate_config P (settings_of c c0) = None" and "standard root" and "fits c" and "ca_absolute F c"
  shows "load_config P F var base (rd_config A (write_settings c root)) = Inr (settings_of c c0)"
proof -
  obtain r0 where r0: "rd_config A root = Some r0" using assms(1) by (auto simp: load_config_def split: option.splits)
  define r1 where "r1 = resolve_paths F base r0"
  define r2 where "r2 = r1\<lparr>c_targets := map fst (map (load_target P) (c_targets r1)),
    c_load_fixes := concat (map snd (map (load_target P) (c_targets r1)))\<rparr>"
  have env: "apply_env var r2 = Inr c0"
    using assms(1) r0 by (auto simp: load_config_def Let_def r1_def [symmetric] r2_def split: sum.splits option.splits)
  have "c_targets (settings_of c r1) = c_targets r1" "settings_of c r2 = (settings_of c r1)\<lparr>c_targets :=
      map fst (map (load_target P) (c_targets r1)), c_load_fixes := concat (map snd (map (load_target P) (c_targets r1)))\<rparr>"
    by (simp_all add: settings_of_def r2_def)
  then have "load_config P F var base (Some (settings_of c r0)) =
      (case apply_env var (settings_of c r2) of Inl e \<Rightarrow> Inl e
       | Inr c3 \<Rightarrow> (case validate_config P c3 of Some e \<Rightarrow> Inl e | None \<Rightarrow> Inr c3))"
    using resolve_settings [OF assms(5), of base r0] by (simp add: load_config_def r1_def [symmetric] Let_def)
  then show ?thesis
    using read_settings_back [OF r0 assms(3,4)] env assms(2) by (simp add: env_settings)
qed


text \<open>Each of the three conditions is needed. A section written inline loses every key the gateway does
  not write; an interval beyond a signed 64-bit number is refused at the next start; and a relative CA
  path, of a configuration file named relative to a directory, is joined to the directory again.\<close>

lemma inline_section_is_lost:
  assumes "map_of root ''audit'' = Some (TInline kvs)"
  shows "section_of rd_audit default_audit ''audit'' (in_table ''audit'' (write_audit a) root) = rd_audit (write_audit a [])"
  using assms by (simp add: table_simps) (simp add: sub_table_def)

lemma big_interval_does_not_load:
  assumes "2 ^ 63 \<le> ignored_summary_secs a" and "ignored_summary_secs a < 2 ^ 64"
  shows "rd_audit (write_audit a kvs) = None"
proof -
  have "rd_unsigned 64 (TInt (as_i64 (ignored_summary_secs a))) = None" using assms by (simp add: as_i64_def)
  then show ?thesis
    by (auto simp: rd_audit_def write_audit_def table_simps Option.bind_eq_None_conv simp del: rd_unsigned.simps)
qed

lemma relative_ca_moves:
  assumes "x_questdb (c_export c) = Some q" and "q_ca_file q = Some f" and "is_relative F f" and "path_join F base f \<noteq> f"
  shows "x_questdb (c_export (resolve_paths F base c)) \<noteq> x_questdb (c_export c)"
proof -
  have "q\<lparr>q_ca_file := Some (path_join F base f)\<rparr> \<noteq> q" using assms(2,4) by (metis (no_types) option.inject questdb_config.select_convs(2) questdb_config.surjective questdb_config.update_convs(2))
  with assms show ?thesis by (simp add: resolve_paths_def resolve_def)
qed

section \<open>Targets read back\<close>

definition names_ok :: "summarise_group \<Rightarrow> bool" where
  "names_ok g \<longleftrightarrow> bt_sorted (names g) \<and> fst ` set (names g) \<subseteq> set (nodes g)"

definition target_fits :: "addr_text \<Rightarrow> target \<Rightarrow> bool" where
  "target_fits A t \<longleftrightarrow> parse_addr A (show_addr A (t_listen t)) = Some (t_listen t) \<and> t_discovery_interval_secs t < 2 ^ 63 \<and>
     t_max_connections t < 2 ^ 63 \<and> t_max_connections_per_address t < 2 ^ 63 \<and> t_ignore t = [] \<and>
     list_all names_ok (t_summarise t)"

lemma bt_put_last: "bt_sorted (m @ [(k, v)]) \<Longrightarrow> bt_put k v m = m @ [(k, v)]"
  by (induction k v m rule: bt_put.induct) (auto simp: bt_sorted_def sorted_wrt_append)

lemma fold_bt_put: "bt_sorted (m @ ps) \<Longrightarrow> fold (\<lambda>(k, s). bt_put k s) ps m = m @ ps"
proof (induction ps arbitrary: m)
  case (Cons p ps)
  obtain k v where p: "p = (k, v)" by force
  have "bt_sorted (m @ [(k, v)])" using Cons.prems p by (auto simp: bt_sorted_def sorted_wrt_append)
  then show ?case using Cons.IH [of "m @ [(k, v)]"] Cons.prems p by (simp add: bt_put_last)
qed simp

lemma those_map_Some: "(\<And>x. x \<in> set xs \<Longrightarrow> f x = Some (g x)) \<Longrightarrow> those (map f xs) = Some (map g xs)"
  by (induction xs) auto

lemma read_names_back:
  assumes "bt_sorted ns"
  shows "rd_names (TTable (map (\<lambda>(k, v). (k, TString v)) ns)) = Some ns"
proof -
  have "those (map ((\<lambda>(k, w). map_option (Pair k) (rd_string w)) \<circ> (\<lambda>(k, v). (k, TString v))) ns) = Some (map id ns)"
    by (rule those_map_Some) auto
  with fold_bt_put [of "[]" ns] assms show ?thesis by (simp add: rd_names_def)
qed

lemma read_group_back: "names_ok g \<Longrightarrow> rd_group (TTable (group_table g)) = Some g"
  using read_names_back [of "names g"]
  by (cases g; cases "g_name g"; cases "g_client g"; cases "names g = []")
    (simp_all add: rd_group_def group_table_def names_ok_def known_def opt_def fld_def)

lemma read_groups_back: "list_all names_ok gs \<Longrightarrow> rd_list rd_group (TTables (map group_table gs)) = Some gs"
  using those_map_Some [of gs "\<lambda>g. rd_group (TTable (group_table g))" id] read_group_back
  by (simp add: list_all_iff comp_def)

lemma read_min_security: "rd_min_security (TString (min_security_str m)) = Some m"
  by (cases m) (simp_all add: min_security_str_def)

lemma target_lookups:
  "map_of (target_table A t) ''name'' = Some (TString (t_name t))"
  "map_of (target_table A t) ''listen'' = Some (TString (show_addr A (t_listen t)))"
  "map_of (target_table A t) ''endpoint_url'' = Some (TString (t_endpoint_url t))"
  "map_of (target_table A t) ''discovery_interval_secs'' = Some (TInt (as_i64 (t_discovery_interval_secs t)))"
  "map_of (target_table A t) ''min_security'' = (if t_min_security t = MinNone then None else Some (TString (min_security_str (t_min_security t))))"
  "map_of (target_table A t) ''max_connections'' = (if t_max_connections t = DEFAULT_MAX_CONNECTIONS then None
     else Some (TInt (as_i64 (t_max_connections t))))"
  "map_of (target_table A t) ''max_connections_per_address'' = (if t_max_connections_per_address t = DEFAULT_MAX_CONNECTIONS_PER_ADDRESS then None
     else Some (TInt (as_i64 (t_max_connections_per_address t))))"
  "map_of (target_table A t) ''summarise'' = (if t_summarise t = [] then None else Some (TTables (map group_table (t_summarise t))))"
  "map_of (target_table A t) ''ignore'' = None"
  by (simp_all add: target_table_def map_add_def)

lemma target_known: "known [''name'', ''listen'', ''endpoint_url'', ''discovery_interval_secs'', ''min_security'', ''max_connections'',
       ''max_connections_per_address'', ''summarise'', ''ignore''] (target_table A t) = Some ()"
  by (simp add: target_table_def known_def)

lemma read_target_back:
  assumes "target_fits A t"
  shows "rd_target A (TTable (target_table A t)) = Some t"
proof -
  let ?kvs = "target_table A t"
  have fits: "parse_addr A (show_addr A (t_listen t)) = Some (t_listen t)" "t_discovery_interval_secs t < 2 ^ 63"
      "t_max_connections t < 2 ^ 63" "t_max_connections_per_address t < 2 ^ 63" "t_ignore t = []" "list_all names_ok (t_summarise t)"
    using assms by (simp_all add: target_fits_def)
  have r: "req rd_string ''name'' ?kvs = Some (t_name t)" "req (rd_addr A) ''listen'' ?kvs = Some (t_listen t)"
      "req rd_string ''endpoint_url'' ?kvs = Some (t_endpoint_url t)"
    using fits(1) by (simp_all add: req_def target_lookups rd_addr_def)
  have di: "fld (rd_unsigned 64) DEFAULT_DISCOVERY_INTERVAL ''discovery_interval_secs'' ?kvs = Some (t_discovery_interval_secs t)"
    by (simp add: fld_def target_lookups rd_as_i64 [OF fits(2)] del: rd_unsigned.simps)
  have ms: "fld rd_min_security MinNone ''min_security'' ?kvs = Some (t_min_security t)"
    by (simp add: fld_def target_lookups read_min_security del: rd_min_security.simps)
  have mc: "fld (rd_unsigned 64) DEFAULT_MAX_CONNECTIONS ''max_connections'' ?kvs = Some (t_max_connections t)"
    by (simp add: fld_def target_lookups rd_as_i64 [OF fits(3)] del: rd_unsigned.simps)
  have ma: "fld (rd_unsigned 64) DEFAULT_MAX_CONNECTIONS_PER_ADDRESS ''max_connections_per_address'' ?kvs = Some (t_max_connections_per_address t)"
    by (simp add: fld_def target_lookups rd_as_i64 [OF fits(4)] del: rd_unsigned.simps)
  have su: "fld (rd_list rd_group) [] ''summarise'' ?kvs = Some (t_summarise t)"
    by (simp add: fld_def target_lookups read_groups_back [OF fits(6)] del: rd_list.simps)
  have ig: "fld (rd_list rd_rule) [] ''ignore'' ?kvs = Some (t_ignore t)"
    using fits(5) by (simp add: fld_def target_lookups)
  show ?thesis
    by (simp add: rd_target_def target_known r di ms mc ma su ig)
qed

lemma section_set [table_simps]: "k \<noteq> j \<Longrightarrow> section_of f d k (tb_set j v root) = section_of f d k root"
  by (simp add: section_of_def table_simps)

lemma read_targets_back:
  assumes "rd_config A root = Some c0" and "list_all (target_fits A) tgts"
  shows "rd_config A (write_targets A tgts root) = Some (c0\<lparr>c_targets := tgts\<rparr>)"
proof -
  have "rd_list (rd_target A) (TTables (map (target_table A) tgts)) = Some tgts"
    using those_map_Some [of tgts "\<lambda>t. rd_target A (TTable (target_table A t))" id] read_target_back assms(2)
    by (simp add: list_all_iff comp_def)
  then show ?thesis
    using assms(1) by (auto simp: rd_config_def write_targets_def table_simps Option.bind_eq_Some_conv)
qed

section \<open>Targets that need no correction\<close>

lemma drop_nodes_nothing: "find (in_nodes P e) (nodes b) = None \<Longrightarrow> fst ` set (names b) \<subseteq> set (nodes b) \<Longrightarrow> drop_nodes P e b = b"
  by (cases b) (auto simp: drop_nodes_def find_None_iff filter_id_conv)

lemma drop_from_nothing: "overlap_with P a bs = None \<Longrightarrow> \<forall>b \<in> set bs. fst ` set (names b) \<subseteq> set (nodes b) \<Longrightarrow> drop_from P a bs = (bs, [])"
  by (induction bs) (auto simp: drop_nodes_nothing Let_def find_None_iff filter_empty_conv split: if_splits option.splits)

lemma drop_overlaps_nothing: "summarise_overlap P gs = None \<Longrightarrow> \<forall>g \<in> set gs. fst ` set (names g) \<subseteq> set (nodes g) \<Longrightarrow>
    drop_summarise_overlaps P gs = (gs, [])"
  by (induction gs) (auto simp: drop_from_nothing split: option.splits)

section \<open>What validation guarantees\<close>

definition group_ok :: "(string \<Rightarrow> 'n option) \<Rightarrow> summarise_group \<Rightarrow> bool" where
  "group_ok P g \<longleftrightarrow> (\<forall>n. g_name g = Some n \<longrightarrow> trim n \<noteq> [] \<and> chars_count n \<le> 100) \<and>
     (\<forall>c. g_client g = Some c \<longrightarrow> trim c \<noteq> [] \<and> length c \<le> 256) \<and>
     (\<forall>n \<in> set (nodes g). parse_node P n \<noteq> None) \<and> distinct (map (parse_node P) (nodes g)) \<and>
     fst ` set (names g) \<subseteq> set (nodes g)"

definition apart :: "(string \<Rightarrow> 'n option) \<Rightarrow> summarise_group \<Rightarrow> summarise_group \<Rightarrow> bool" where
  "apart P a b \<longleftrightarrow> (groups_overlap a b \<longrightarrow> set (node_set P a) \<inter> set (node_set P b) = {})"

definition groups_ok :: "(string \<Rightarrow> 'n option) \<Rightarrow> summarise_group list \<Rightarrow> bool" where
  "groups_ok P gs \<longleftrightarrow> length gs \<le> 100 \<and> sum_list (map (length \<circ> nodes) gs) \<le> 1000 \<and>
     distinct (map (\<lambda>g. (g_name g, g_client g)) gs) \<and> list_all (group_ok P) gs \<and> sorted_wrt (apart P) gs"

definition questdb_ok :: "questdb_config \<Rightarrow> bool" where
  "questdb_ok q \<longleftrightarrow> (\<exists>rest. (q_url q = ''http://'' @ rest \<or> q_url q = ''https://'' @ rest) \<and>
       CHR ''@'' \<notin> set (takeWhile (\<lambda>c. c \<noteq> CHR ''/'') rest)) \<and>
     (q_token q = None \<or> (q_username q = None \<and> q_password q = None)) \<and> 0 < q_interval_secs q"

definition target_ok :: "(string \<Rightarrow> 'n option) \<Rightarrow> socket_addr \<Rightarrow> target \<Rightarrow> bool" where
  "target_ok P web t \<longleftrightarrow> valid_target_name (t_name t) \<and> t_listen t \<noteq> web \<and> (\<exists>host. t_endpoint_url t = ''opc.tcp://'' @ host) \<and>
     0 < t_discovery_interval_secs t \<and> 0 < t_max_connections t \<and> 0 < t_max_connections_per_address t \<and> groups_ok P (t_summarise t)"

definition config_ok :: "(string \<Rightarrow> 'n option) \<Rightarrow> config \<Rightarrow> bool" where
  "config_ok P c \<longleftrightarrow> 0 < ignored_summary_secs (c_audit c) \<and>
     (w_tls_certificate (c_web c) = None \<longleftrightarrow> w_tls_private_key (c_web c) = None) \<and>
     (w_tls_certificate (c_web c) \<noteq> None \<longrightarrow> w_tls (c_web c)) \<and>
     (\<forall>q. x_questdb (c_export c) = Some q \<longrightarrow> questdb_ok q) \<and>
     distinct (map t_name (c_targets c)) \<and> distinct (map t_listen (c_targets c)) \<and>
     list_all (target_ok P (w_listen (c_web c))) (c_targets c)"

lemma check_nodes_iff: "check_nodes P l seen ns = None \<longleftrightarrow>
    (\<forall>n \<in> set ns. parse_node P n \<noteq> None) \<and> distinct (map (parse_node P) ns) \<and> (\<forall>n \<in> set ns. the (parse_node P n) \<notin> seen)"
proof (induction ns arbitrary: seen)
  case (Cons n ns)
  show ?case
  proof (cases "parse_node P n")
    case (Some p)
    have "(\<forall>m \<in> set ns. parse_node P m \<noteq> None) \<Longrightarrow> (Some p \<in> parse_node P ` set ns) = (\<exists>m \<in> set ns. the (parse_node P m) = p)"
      by (metis (no_types, lifting) image_iff option.collapse option.sel)
    with Some Cons.IH [of "insert p seen"] show ?thesis by auto
  qed auto
qed simp

lemma check_group_iff: "check_group P g = None \<longleftrightarrow> group_ok P g"
proof -
  have "find (\<lambda>k. k \<notin> set (nodes g)) (map fst (names g)) = None \<longleftrightarrow> fst ` set (names g) \<subseteq> set (nodes g)"
    by (auto simp: find_None_iff)
  then show ?thesis
    using check_nodes_iff [of P "group_label g" "{}" "nodes g"]
    by (cases "g_name g"; cases "g_client g") (auto simp: check_group_def group_ok_def not_less split: option.splits)
qed

lemma not_image_iff: "x \<notin> f ` S \<longleftrightarrow> (\<forall>y \<in> S. f y \<noteq> x)"
  by blast

lemma check_groups_iff: "check_groups P seen gs = None \<longleftrightarrow> list_all (group_ok P) gs \<and>
    distinct (map (\<lambda>g. (g_name g, g_client g)) gs) \<and> (\<forall>g \<in> set gs. (g_name g, g_client g) \<notin> seen)"
proof (induction gs arbitrary: seen)
  case (Cons a gs)
  then show ?case by (auto simp: check_group_iff [symmetric] not_image_iff split: option.splits)
qed simp

lemma in_nodes_set: "in_nodes P (node_set P a) n \<longleftrightarrow> (\<exists>p. parse_node P n = Some p \<and> p \<in> set (node_set P a))"
  by (auto simp: in_nodes_def split: option.splits)

lemma node_set_iff: "p \<in> set (node_set P g) \<longleftrightarrow> (\<exists>n \<in> set (nodes g). parse_node P n = Some p)"
  by (auto simp: node_set_def map_filter_def image_iff)

lemma summarise_overlap_iff: "summarise_overlap P gs = None \<longleftrightarrow> sorted_wrt (apart P) gs"
proof (induction gs)
  case (Cons a gs)
  have "overlap_with P a gs = None \<longleftrightarrow> (\<forall>b \<in> set gs. apart P a b)"
    unfolding overlap_with_iff apart_def in_nodes_set using node_set_iff [of _ P] by fastforce
  with Cons show ?case by (auto split: option.splits)
qed simp

lemma validate_summarise_iff: "validate_summarise P gs = None \<longleftrightarrow> groups_ok P gs"
  using check_groups_iff [of P "{}" gs] summarise_overlap_iff [of P gs]
  by (auto simp: validate_summarise_def groups_ok_def MAX_SUMMARISE_GROUPS_def MAX_SUMMARISED_NODES_def Let_def not_less
      split: option.splits)

lemma validate_questdb_iff: "validate_questdb q = None \<longleftrightarrow> questdb_ok q"
proof -
  have hd: "hd (split_on c r) = takeWhile (\<lambda>x. x \<noteq> c) r" for c r
    by (induction r) (auto split: list.splits)
  have rest: "url_rest (q_url q) = Some r \<longleftrightarrow> q_url q = ''http://'' @ r \<or> q_url q = ''https://'' @ r" for r
    by (auto simp: url_rest_def strip_prefix_def starts_with_iff)
  show ?thesis
  proof (cases "url_rest (q_url q)")
    case None
    with rest have "\<not> questdb_ok q" unfolding questdb_ok_def by (metis option.distinct(1))
    with None show ?thesis by (simp add: validate_questdb_def)
  next
    case (Some r)
    have "questdb_ok q \<longleftrightarrow> CHR ''@'' \<notin> set (takeWhile (\<lambda>c. c \<noteq> CHR ''/'') r) \<and>
        (q_token q = None \<or> (q_username q = None \<and> q_password q = None)) \<and> 0 < q_interval_secs q"
      unfolding questdb_ok_def rest [symmetric] using Some by simp
    with Some show ?thesis by (simp add: validate_questdb_def hd)
  qed
qed

lemma validate_targets_iff: "validate_targets P web seen listens tgts = None \<longleftrightarrow> list_all (target_ok P web) tgts \<and>
    distinct (map t_name tgts) \<and> distinct (map t_listen tgts) \<and>
    (\<forall>t \<in> set tgts. t_name t \<notin> seen) \<and> (\<forall>t \<in> set tgts. t_listen t \<notin> listens)"
proof (induction tgts arbitrary: seen listens)
  case (Cons t tgts)
  have "validate_target P web seen listens t = None \<longleftrightarrow> target_ok P web t \<and> t_name t \<notin> seen \<and> t_listen t \<notin> listens"
    using validate_summarise_iff [of P "t_summarise t"] by (auto simp: validate_target_def target_ok_def starts_with_iff)
  with Cons show ?case by (auto simp: not_image_iff split: option.splits)
qed simp

lemma config_ok_iff: "validate_config P c = None \<longleftrightarrow> config_ok P c"
  using validate_targets_iff [of P "w_listen (c_web c)" "{}" "{}" "c_targets c"]
  by (cases "x_questdb (c_export c)")
    (auto simp: validate_config_def config_ok_def validate_questdb_iff [symmetric] split: option.splits)

text \<open>A configuration that was loaded is well formed: names, addresses and node groups are valid and
  none is used twice; and validation accepts every well-formed configuration.\<close>

theorem valid_config_iff: "validate_config P c = None \<longleftrightarrow> config_ok P c"
  by (rule config_ok_iff)

lemma load_target_nothing:
  assumes "groups_ok P (t_summarise t)" and "t_ignore t = []"
  shows "load_target P t = (t, [])"
proof -
  have "drop_summarise_overlaps P (t_summarise t) = (t_summarise t, [])"
    using assms(1) by (intro drop_overlaps_nothing) (auto simp: groups_ok_def summarise_overlap_iff list_all_iff group_ok_def)
  moreover have "t\<lparr>t_summarise := t_summarise t, t_ignore := []\<rparr> = t" using assms(2) by (cases t) simp
  ultimately show ?thesis using assms(2) by (simp add: load_target_def migrate_ignore_def)
qed

lemma targets_load:
  assumes "load_config P F var base (rd_config A root) = Inr c0" and "validate_config P (c0\<lparr>c_targets := tgts\<rparr>) = None"
    and "list_all (target_fits A) tgts"
  shows "load_config P F var base (rd_config A (write_targets A tgts root)) = Inr (c0\<lparr>c_targets := tgts, c_load_fixes := []\<rparr>)"
proof -
  obtain r0 where r0: "rd_config A root = Some r0" using assms(1) by (auto simp: load_config_def split: option.splits)
  define r1 where "r1 = resolve_paths F base r0"
  have env: "apply_env var (r1\<lparr>c_targets := t1, c_load_fixes := f1\<rparr>)
      = map_sum id (\<lambda>c. c\<lparr>c_targets := t1, c_load_fixes := f1\<rparr>) (apply_env var r1)" for t1 f1
    by (auto simp: apply_env_def Let_def split: option.splits)
  obtain e1 where e1: "apply_env var r1 = Inr e1" "c0 = e1\<lparr>c_targets := c_targets c0, c_load_fixes := c_load_fixes c0\<rparr>"
    using assms(1) r0
    by (cases "apply_env var r1") (auto simp: load_config_def Let_def r1_def [symmetric] env split: option.splits)
  have ok: "config_ok P (c0\<lparr>c_targets := tgts\<rparr>)" using assms(2) config_ok_iff by blast
  have load: "load_target P t = (t, [])" if "t \<in> set tgts" for t
    using ok assms(3) that by (intro load_target_nothing) (auto simp: config_ok_def list_all_iff target_ok_def target_fits_def)
  then have "map fst (map (load_target P) tgts) = tgts" "concat (map snd (map (load_target P) tgts)) = []"
    by (simp_all add: map_idI)
  moreover have "resolve_paths F base (r0\<lparr>c_targets := tgts\<rparr>) = r1\<lparr>c_targets := tgts\<rparr>"
    by (simp add: resolve_paths_def r1_def)
  moreover have "e1\<lparr>c_targets := tgts, c_load_fixes := []\<rparr> = c0\<lparr>c_targets := tgts, c_load_fixes := []\<rparr>" by (subst e1(2)) simp
  moreover have "validate_config P (c0\<lparr>c_targets := tgts, c_load_fixes := []\<rparr>) = None"
    using assms(2) by (auto simp: config_ok_iff config_ok_def)
  ultimately show ?thesis
    using read_targets_back [OF r0 assms(3)] env [where ?t1.0 = tgts and ?f1.0 = "[]"] e1(1)
    by (simp add: load_config_def Let_def del: concat_eq_Nil_conv)
qed

text \<open>The targets the gateway writes into its file load as the targets it runs, with nothing to
  correct, and the rest of the file loads as before.\<close>

theorem saved_targets_load_again:
  assumes "load_config P F var base (rd_config A root) = Inr c0" and "validate_config P (c0\<lparr>c_targets := tgts\<rparr>) = None"
    and "list_all (target_fits A) tgts"
  shows "load_config P F var base (rd_config A (write_targets A tgts root)) = Inr (c0\<lparr>c_targets := tgts, c_load_fixes := []\<rparr>)"
  by (rule targets_load [OF assms])

section \<open>Witnesses\<close>

definition unix_paths :: paths where
  "unix_paths = \<lparr>is_relative = (\<lambda>p. \<not> starts_with p ''/''), path_join = (\<lambda>b p. b @ ''/'' @ p)\<rparr>"

definition plc_listen :: socket_addr where "plc_listen = \<lparr>sa_ip = V4 0, sa_port = 4841\<rparr>"

definition one_addr :: addr_text where
  "one_addr = \<lparr>show_addr = (\<lambda>a. ''0.0.0.0:4841''), parse_addr = (\<lambda>s. if s = ''0.0.0.0:4841'' then Some plc_listen else None),
     parse_ip = (\<lambda>s. None)\<rparr>"

definition small_file :: toml_table where
  "small_file = [(''gateway'', TTable [(''pki_dir'', TString ''certs'')]), (''audit'', TTable [(''fail_mode'', TString ''closed'')])]"

definition small_config :: config where
  "small_config = \<lparr>c_gateway = default_gateway\<lparr>gw_pki_dir := ''/etc/gw/certs'', gw_data_dir := ''/etc/gw/data''\<rparr>, c_web = default_web,
     c_audit = default_audit\<lparr>fail_mode := FailClosed\<rparr>, c_export = default_export, c_mcp = default_mcp, c_targets = [], c_load_fixes = []\<rparr>"

lemma small_config_loads: "load_config Some unix_paths (\<lambda>v. None) ''/etc/gw'' (rd_config one_addr small_file) = Inr small_config"
  by (simp add: load_config_def rd_config_def small_file_def small_config_def known_def section_of_def fld_def opt_def
      rd_gateway_def rd_audit_def default_gateway_def default_audit_def default_web_def default_export_def default_mcp_def
      resolve_paths_def resolve_def unix_paths_def apply_env_def validate_config_def Let_def)

definition changed_config :: config where
  "changed_config = small_config\<lparr>c_audit := (c_audit small_config)\<lparr>retention_days := 30\<rparr>,
     c_export := \<lparr>x_questdb = Some \<lparr>q_url = ''http://db:9000'', q_ca_file = None, q_table = ''t'', q_token = None, q_username = None,
       q_password = None, q_interval_secs = 5\<rparr>, x_syslog = False\<rparr>\<rparr>"


definition plc_target :: target where
  "plc_target = \<lparr>t_name = ''plc1'', t_endpoint_url = ''opc.tcp://plc:4840'', t_min_security = MinSign, t_listen = plc_listen,
     t_discovery_interval_secs = 60, t_max_connections = 5, t_max_connections_per_address = 10,
     t_summarise = [\<lparr>g_name = None, g_client = None, nodes = [''i=1''], names = [(''i=1'', ''Life'')]\<rparr>], t_ignore = []\<rparr>"

theorem saved_targets_load_again_witness:
  "load_config Some unix_paths (\<lambda>v. None) ''/etc/gw'' (rd_config one_addr (write_targets one_addr [plc_target] small_file))
     = Inr (small_config\<lparr>c_targets := [plc_target], c_load_fixes := []\<rparr>)"
proof (rule saved_targets_load_again [OF small_config_loads])
  have "groups_ok Some (t_summarise plc_target)"
    by (simp add: groups_ok_def group_ok_def plc_target_def parse_node_def)
  then show "validate_config Some (small_config\<lparr>c_targets := [plc_target]\<rparr>) = None"
    by (simp only: config_ok_iff) (simp add: config_ok_def small_config_def target_ok_def default_audit_def default_web_def default_export_def
        plc_target_def plc_listen_def valid_target_name_def ascii_alnum_def)
  show "list_all (target_fits one_addr) [plc_target]"
    by (simp add: target_fits_def plc_target_def one_addr_def names_ok_def bt_sorted_def)
qed

end
