(* ===== verification/Targets.thy ===== *)
theory Targets
  imports Config_File Discovery
begin

text \<open>
  The target manager (src/targets.rs): the configuration as applied, its file, the targets that run and
  their statuses, and the operations of the web interface on them. Each holds the configuration's lock,
  so an operation is one step. Whether a target can be started (its certificate read, its port bound)
  and whether the file can be written are arguments of the step.
\<close>

text \<open>A running target: its configuration when it was started, and the groups its relay summarises now.\<close>

record running =
  r_target :: target
  r_groups :: "summarise_group list"

record manager =
  mg_config :: config
  mg_file :: "toml_table option"
  mg_running :: "(string \<times> running) list"
  mg_statuses :: statuses

record outcomes =
  can_start :: "target \<Rightarrow> bool"
  can_write :: bool

definition new_manager :: "config \<Rightarrow> toml_table option \<Rightarrow> manager" where
  "new_manager c f = \<lparr>mg_config = c, mg_file = f, mg_running = [], mg_statuses = []\<rparr>"

definition run_target :: "target \<Rightarrow> manager \<Rightarrow> manager" where
  "run_target t m = m\<lparr>mg_running := bt_put (t_name t) \<lparr>r_target = t, r_groups = t_summarise t\<rparr> (mg_running m),
     mg_statuses := bt_put (t_name t) new_status (mg_statuses m)\<rparr>"

definition drop_status :: "string \<Rightarrow> manager \<Rightarrow> manager" where
  "drop_status n m = m\<lparr>mg_statuses := bt_remove n (mg_statuses m)\<rparr>"

definition stop_target :: "string \<Rightarrow> manager \<Rightarrow> manager" where
  "stop_target n m = m\<lparr>mg_running := bt_remove n (mg_running m)\<rparr>"

fun start_all :: "outcomes \<Rightarrow> target list \<Rightarrow> manager \<Rightarrow> manager" where
  "start_all E [] m = m"
| "start_all E (t # rest) m = start_all E rest (if can_start E t then run_target t m else m)"

definition stop_all :: "manager \<Rightarrow> manager" where
  "stop_all m = m\<lparr>mg_running := []\<rparr>"

definition restart_all :: "outcomes \<Rightarrow> manager \<Rightarrow> manager" where
  "restart_all E m = start_all E (c_targets (mg_config m)) (stop_all m)"

text \<open>A file that cannot be read or parsed is not written either.\<close>

definition save :: "outcomes \<Rightarrow> (toml_table \<Rightarrow> toml_table) \<Rightarrow> manager \<Rightarrow> manager option" where
  "save E f m = (case mg_file m of
     Some root \<Rightarrow> if can_write E then Some (m\<lparr>mg_file := Some (f root)\<rparr>) else None
   | None \<Rightarrow> None)"

definition update_settings :: "(string \<Rightarrow> 'n option) \<Rightarrow> outcomes \<Rightarrow> (config \<Rightarrow> config) \<Rightarrow> manager
    \<Rightarrow> (config_error + (config \<times> config)) \<times> manager" where
  "update_settings P E change m =
     (let c = change (mg_config m) in case validate_config P c of
        Some e \<Rightarrow> (Inl e, m)
      | None \<Rightarrow> (case save E (write_settings c) m of
          None \<Rightarrow> (Inl FileNotWritten, m)
        | Some m1 \<Rightarrow> (Inr (mg_config m, c), m1\<lparr>mg_config := c\<rparr>)))"

fun replace_first :: "string \<Rightarrow> target \<Rightarrow> target list \<Rightarrow> target list option" where
  "replace_first n t [] = None"
| "replace_first n t (u # us) = (if t_name u = n then Some (t # us) else map_option ((#) u) (replace_first n t us))"

text \<open>The new list of targets, or that the one to replace is not there.\<close>

definition upserted :: "target \<Rightarrow> string option \<Rightarrow> config \<Rightarrow> config_error + config" where
  "upserted t replaces c = (case replaces of
     Some n \<Rightarrow> (case replace_first n t (c_targets c) of
         Some us \<Rightarrow> Inr (c\<lparr>c_targets := us\<rparr>) | None \<Rightarrow> Inl (UnknownTarget n))
   | None \<Rightarrow> Inr (c\<lparr>c_targets := c_targets c @ [t]\<rparr>))"

text \<open>The old instance is stopped first, as it may hold the same port, and put back as it was when the
  new one does not start or cannot be saved.\<close>

definition upsert :: "(string \<Rightarrow> 'n option) \<Rightarrow> addr_text \<Rightarrow> outcomes \<Rightarrow> target \<Rightarrow> string option \<Rightarrow> manager
    \<Rightarrow> (config_error + unit) \<times> manager" where
  "upsert P A E t replaces m = (case upserted t replaces (mg_config m) of
     Inl e \<Rightarrow> (Inl e, m)
   | Inr c \<Rightarrow> (case validate_config P c of
       Some e \<Rightarrow> (Inl e, m)
     | None \<Rightarrow>
         (let old = Option.bind replaces (map_of (mg_running m));
              m1 = (case old of Some r \<Rightarrow> drop_status (t_name (r_target r)) (stop_target (the replaces) m) | None \<Rightarrow> m);
              put_back = (\<lambda>m. case old of
                  Some r \<Rightarrow> if can_start E (r_target r) then run_target (r_target r) m else m
                | None \<Rightarrow> m)
          in if \<not> can_start E t then (Inl (CannotListen (t_name t)), put_back m1)
             else (case save E (write_targets A (c_targets c)) m1 of
                 Some m2 \<Rightarrow> (Inr (), (run_target t m2)\<lparr>mg_config := c\<rparr>)
               | None \<Rightarrow> (Inl FileNotWritten, put_back (drop_status (t_name t) m1))))))"

definition update_summarise :: "(string \<Rightarrow> 'n option) \<Rightarrow> addr_text \<Rightarrow> outcomes \<Rightarrow> string
    \<Rightarrow> (summarise_group list \<Rightarrow> 'e + ('t \<times> summarise_group list)) \<Rightarrow> manager \<Rightarrow> ((config_error + 'e) + 't) \<times> manager" where
  "update_summarise P A E n change m =
     (case find (\<lambda>t. t_name t = n) (c_targets (mg_config m)) of
        None \<Rightarrow> (Inl (Inl (UnknownTarget n)), m)
      | Some t \<Rightarrow> (case change (t_summarise t) of
          Inl e \<Rightarrow> (Inl (Inr e), m)
        | Inr (out, groups) \<Rightarrow>
            (let us = the (replace_first n (t\<lparr>t_summarise := groups\<rparr>) (c_targets (mg_config m)));
                 c = (mg_config m)\<lparr>c_targets := us\<rparr>
             in case validate_config P c of
                 Some e \<Rightarrow> (Inl (Inl e), m)
               | None \<Rightarrow> (case save E (write_targets A us) m of
                   None \<Rightarrow> (Inl (Inl FileNotWritten), m)
                 | Some m1 \<Rightarrow> (Inr out, m1\<lparr>mg_running := bt_update n (\<lambda>r. r\<lparr>r_groups := groups\<rparr>) (mg_running m1),
                     mg_config := c\<rparr>)))))"

definition remove_target :: "addr_text \<Rightarrow> outcomes \<Rightarrow> string \<Rightarrow> manager \<Rightarrow> (config_error + unit) \<times> manager" where
  "remove_target A E n m =
     (if \<not> list_ex (\<lambda>t. t_name t = n) (c_targets (mg_config m)) then (Inl (UnknownTarget n), m)
      else (let c = (mg_config m)\<lparr>c_targets := filter (\<lambda>t. t_name t \<noteq> n) (c_targets (mg_config m))\<rparr> in
        case save E (write_targets A (c_targets c)) m of
          None \<Rightarrow> (Inl FileNotWritten, m)
        | Some m1 \<Rightarrow> (Inr (), (drop_status n (stop_target n m1))\<lparr>mg_config := c\<rparr>)))"

end
