(* ===== verification/Targets_Safety.thy ===== *)
theory Targets_Safety
  imports Targets Config_Safety
begin

text \<open>
  The target manager of src/targets.rs over whole histories: the file always loads as the configuration
  that runs, only configured targets run, and an operation that fails changes neither.
\<close>

section \<open>Configurations that read the same\<close>

definition alike :: "config \<Rightarrow> config \<Rightarrow> bool" where
  "alike c d \<longleftrightarrow> c_gateway c = c_gateway d \<and> c_web c = c_web d \<and> c_audit c = c_audit d \<and>
     x_questdb (c_export c) = x_questdb (c_export d) \<and> m_enabled (c_mcp c) = m_enabled (c_mcp d) \<and> c_targets c = c_targets d"

lemma alike_valid: "alike c d \<Longrightarrow> validate_config P c = None \<longleftrightarrow> validate_config P d = None"
  by (simp add: config_ok_iff config_ok_def alike_def)

definition loads_as :: "(string \<Rightarrow> 'n option) \<Rightarrow> paths \<Rightarrow> (string \<Rightarrow> string option) \<Rightarrow> string \<Rightarrow> addr_text \<Rightarrow> toml_table option \<Rightarrow> config \<Rightarrow> bool" where
  "loads_as P F var base A f c \<longleftrightarrow> (\<exists>root c0. f = Some root \<and> standard root \<and>
     load_config P F var base (rd_config A root) = Inr c0 \<and> alike c0 c)"

text \<open>The settings of the web interface: never the database, the web server or the gateway's identity.\<close>

definition settings_change :: "audit_section \<Rightarrow> export_config \<Rightarrow> string list \<Rightarrow> bool \<Rightarrow> config \<Rightarrow> config" where
  "settings_change a x hs en c = c\<lparr>
     c_gateway := (c_gateway c)\<lparr>gw_certificate_hostnames := hs\<rparr>,
     c_audit := a\<lparr>a_database := a_database (c_audit c)\<rparr>,
     c_export := x, c_mcp := (c_mcp c)\<lparr>m_enabled := en\<rparr>\<rparr>"

lemma settings_alike: "alike c0 c \<Longrightarrow> alike (settings_of (settings_change a x hs en c) c0) (settings_change a x hs en c)"
  by (simp add: alike_def settings_of_def settings_change_def)

lemma standard_key_in_table [simp]: "standard_key (in_table k g root) j \<longleftrightarrow> j = k \<or> standard_key root j"
  by (simp add: standard_key_def is_table_def in_table_def table_simps)

lemma standard_key_remove [simp]: "standard_key (tb_remove k root) j \<longleftrightarrow> j = k \<or> standard_key root j"
  by (simp add: standard_key_def table_simps)

lemma standard_key_absent [simp]: "k \<notin> fst ` set root \<Longrightarrow> standard_key root k"
  by (simp add: standard_key_def map_of_eq_None_iff)

lemma standard_write_export: "standard_key (write_export x kvs) ''questdb''"
  by (simp add: write_export_def split: option.splits)

lemma standard_write_settings: "standard (write_settings c root)"
proof -
  define root1 where "root1 = in_table ''export'' (write_export (c_export c))
    (in_table ''audit'' (write_audit (c_audit c)) (in_table ''gateway'' (write_gateway (c_gateway c)) root))"
  define root2 where "root2 = in_table ''export'' (tb_remove ''syslog'')
    (if m_enabled (c_mcp c) \<or> ''mcp'' \<in> fst ` set root1 then in_table ''mcp'' (write_mcp (c_mcp c)) root1 else root1)"
  have "standard_key root2 ''gateway''" "standard_key root2 ''audit''" "standard_key root2 ''export''" "standard_key root2 ''mcp''"
    by (simp_all add: root2_def root1_def in_table_keys)
  moreover have "standard_key (sub_table ''export'' root2) ''questdb''"
    by (simp add: root2_def root1_def table_simps standard_write_export)
  moreover have "sub_table ''export'' (tb_remove ''export'' root2) = []" by (simp add: sub_table_def table_simps)
  moreover have "write_settings c root = (if sub_table ''export'' root2 = [] then tb_remove ''export'' root2 else root2)"
    by (simp only: write_settings_def Let_def root2_def root1_def)
  ultimately show ?thesis by (simp add: standard_def standard_key_def [of "[]"])
qed

lemma standard_write_targets: "standard root \<Longrightarrow> standard (write_targets A tgts root)"
  by (simp add: standard_def write_targets_def standard_key_def sub_table_def table_simps)

section \<open>The file follows\<close>

lemma settings_saved:
  assumes "loads_as P F var base A (Some root) c" and "validate_config P c' = None" and "c' = settings_change a x hs en c"
    and "fits c'" and "ca_absolute F c'"
  shows "loads_as P F var base A (Some (write_settings c' root)) c'"
proof -
  obtain c0 where c0: "standard root" "load_config P F var base (rd_config A root) = Inr c0" "alike c0 c"
    using assms(1) by (auto simp: loads_as_def)
  have al: "alike (settings_of c' c0) c'" using settings_alike [OF c0(3)] assms(3) by simp
  then have "validate_config P (settings_of c' c0) = None" using alike_valid assms(2) by blast
  from settings_load [OF c0(2) this c0(1) assms(4,5)] al show ?thesis
    by (auto simp: loads_as_def standard_write_settings)
qed

lemma targets_saved:
  assumes "loads_as P F var base A (Some root) c" and "validate_config P (c\<lparr>c_targets := tgts\<rparr>) = None" and "list_all (target_fits A) tgts"
  shows "loads_as P F var base A (Some (write_targets A tgts root)) (c\<lparr>c_targets := tgts\<rparr>)"
proof -
  obtain c0 where c0: "standard root" "load_config P F var base (rd_config A root) = Inr c0" "alike c0 c"
    using assms(1) by (auto simp: loads_as_def)
  have al: "alike (c0\<lparr>c_targets := tgts\<rparr>) (c\<lparr>c_targets := tgts\<rparr>)" using c0(3) by (simp add: alike_def)
  then have "validate_config P (c0\<lparr>c_targets := tgts\<rparr>) = None" using alike_valid assms(2) by blast
  from targets_load [OF c0(2) this assms(3)] c0(1,3) show ?thesis
    by (auto simp: loads_as_def standard_write_targets alike_def)
qed

section \<open>Histories\<close>

datatype manager_op =
    OpSettings audit_section export_config "string list" bool
  | OpUpsert target "string option"
  | OpGroups string "summarise_group list \<Rightarrow> summarise_group list option"
  | OpRemove string
  | OpStartAll
  | OpStopAll

definition group_change :: "(summarise_group list \<Rightarrow> summarise_group list option) \<Rightarrow> summarise_group list \<Rightarrow> unit + (unit \<times> summarise_group list)" where
  "group_change f gs = (case f gs of None \<Rightarrow> Inl () | Some gs' \<Rightarrow> Inr ((), gs'))"

text \<open>An operation with what it meets; whether it succeeded.\<close>

definition manager_step :: "(string \<Rightarrow> 'n option) \<Rightarrow> addr_text \<Rightarrow> outcomes \<Rightarrow> manager_op \<Rightarrow> manager \<Rightarrow> bool \<times> manager" where
  "manager_step P A E op m = (case op of
     OpSettings a x hs en \<Rightarrow> (case update_settings P E (settings_change a x hs en) m of (r, m1) \<Rightarrow> (isl r = False, m1))
   | OpUpsert t replaces \<Rightarrow> (case upsert P A E t replaces m of (r, m1) \<Rightarrow> (isl r = False, m1))
   | OpGroups n f \<Rightarrow> (case update_summarise P A E n (group_change f) m of (r, m1) \<Rightarrow> (isl r = False, m1))
   | OpRemove n \<Rightarrow> (case remove_target A E n m of (r, m1) \<Rightarrow> (isl r = False, m1))
   | OpStartAll \<Rightarrow> (True, start_all E (c_targets (mg_config m)) m)
   | OpStopAll \<Rightarrow> (True, stop_all m))"

fun manager_run :: "(string \<Rightarrow> 'n option) \<Rightarrow> addr_text \<Rightarrow> (outcomes \<times> manager_op) list \<Rightarrow> manager \<Rightarrow> manager" where
  "manager_run P A [] m = m"
| "manager_run P A ((E, op) # ops) m = manager_run P A ops (snd (manager_step P A E op m))"

definition op_fits :: "paths \<Rightarrow> addr_text \<Rightarrow> manager_op \<Rightarrow> bool" where
  "op_fits F A op = (case op of
     OpSettings a x hs en \<Rightarrow> (\<forall>c. fits (settings_change a x hs en c) \<and> ca_absolute F (settings_change a x hs en c))
   | OpUpsert t replaces \<Rightarrow> target_fits A t
   | OpGroups n f \<Rightarrow> (\<forall>gs gs'. list_all names_ok gs \<longrightarrow> f gs = Some gs' \<longrightarrow> list_all names_ok gs')
   | _ \<Rightarrow> True)"

definition running_ok :: "manager \<Rightarrow> bool" where
  "running_ok m \<longleftrightarrow> (\<forall>n r. map_of (mg_running m) n = Some r \<longrightarrow> t_name (r_target r) = n \<and> map_of (mg_statuses m) n \<noteq> None \<and>
     (\<exists>t \<in> set (c_targets (mg_config m)). r_target r = t\<lparr>t_summarise := t_summarise (r_target r)\<rparr>))"

definition manager_ok :: "(string \<Rightarrow> 'n option) \<Rightarrow> paths \<Rightarrow> (string \<Rightarrow> string option) \<Rightarrow> string \<Rightarrow> addr_text \<Rightarrow> manager \<Rightarrow> bool" where
  "manager_ok P F var base A m \<longleftrightarrow> loads_as P F var base A (mg_file m) (mg_config m) \<and>
     validate_config P (mg_config m) = None \<and> list_all (target_fits A) (c_targets (mg_config m)) \<and> running_ok m"

section \<open>Each operation\<close>

lemma replace_first_Some:
  assumes "replace_first n t us = Some vs"
  shows "\<exists>pre u post. us = pre @ u # post \<and> vs = pre @ t # post \<and> t_name u = n \<and> n \<notin> t_name ` set pre"
  using assms
proof (induction us arbitrary: vs)
  case (Cons u us)
  show ?case
  proof (cases "t_name u = n")
    case True
    with Cons.prems show ?thesis by (intro exI [of _ "[]"]) auto
  next
    case False
    then obtain ws where "replace_first n t us = Some ws" "vs = u # ws" using Cons.prems by auto
    with Cons.IH obtain pre v post where "us = pre @ v # post" "ws = pre @ t # post" "t_name v = n" "n \<notin> t_name ` set pre" by blast
    with False \<open>vs = u # ws\<close> show ?thesis by (intro exI [of _ "u # pre"]) auto
  qed
qed simp

lemma replace_first_None: "replace_first n t us = None \<longleftrightarrow> n \<notin> t_name ` set us"
  by (induction us) auto

lemma save_Some: "save E f m = Some m1 \<longleftrightarrow> (\<exists>root. mg_file m = Some root \<and> can_write E \<and> m1 = m\<lparr>mg_file := Some (f root)\<rparr>)"
  by (auto simp: save_def split: option.splits)

text \<open>What running targets need only depends on who runs, their statuses and the configured targets.\<close>

definition configured :: "target list \<Rightarrow> target \<Rightarrow> bool" where
  "configured us t \<longleftrightarrow> (\<exists>u \<in> set us. t = u\<lparr>t_summarise := t_summarise t\<rparr>)"

lemma running_ok_alt: "running_ok m \<longleftrightarrow> (\<forall>n r. map_of (mg_running m) n = Some r \<longrightarrow> t_name (r_target r) = n \<and>
    map_of (mg_statuses m) n \<noteq> None \<and> configured (c_targets (mg_config m)) (r_target r))"
  by (simp add: running_ok_def configured_def)

lemma configured_name: "configured us t \<Longrightarrow> t_name t \<in> t_name ` set us"
proof -
  assume "configured us t"
  then obtain u where "u \<in> set us" "t = u\<lparr>t_summarise := t_summarise t\<rparr>" by (auto simp: configured_def)
  moreover from this(2) have "t_name t = t_name u" by (metis target.simps(1) target_config.ext_inject target_config.surjective target_config.simps(1) target.surjective target.update_convs(5))
  ultimately show ?thesis by auto
qed

lemma configured_self: "t \<in> set us \<Longrightarrow> configured us t"
  unfolding configured_def by (rule bexI [of _ t]) simp_all

lemma run_target_simps [simp]:
  "mg_config (run_target t m) = mg_config m" "mg_file (run_target t m) = mg_file m"
  "mg_running (run_target t m) = bt_put (t_name t) \<lparr>r_target = t, r_groups = t_summarise t\<rparr> (mg_running m)"
  "mg_statuses (run_target t m) = bt_put (t_name t) new_status (mg_statuses m)"
  by (simp_all add: run_target_def)

lemma stop_simps [simp]:
  "mg_config (stop_target n m) = mg_config m" "mg_file (stop_target n m) = mg_file m"
  "mg_running (stop_target n m) = bt_remove n (mg_running m)" "mg_statuses (stop_target n m) = mg_statuses m"
  "mg_config (drop_status n m) = mg_config m" "mg_file (drop_status n m) = mg_file m"
  "mg_running (drop_status n m) = mg_running m" "mg_statuses (drop_status n m) = bt_remove n (mg_statuses m)"
  by (simp_all add: stop_target_def drop_status_def)

lemma running_ok_run: "running_ok m \<Longrightarrow> configured (c_targets (mg_config m)) t \<Longrightarrow> running_ok (run_target t m)"
  by (auto simp: running_ok_alt)

lemma start_all_keeps: "running_ok m \<Longrightarrow> set us \<subseteq> set (c_targets (mg_config m)) \<Longrightarrow>
    running_ok (start_all E us m) \<and> mg_config (start_all E us m) = mg_config m \<and> mg_file (start_all E us m) = mg_file m"
proof (induction us arbitrary: m)
  case (Cons t us)
  let ?m = "if can_start E t then run_target t m else m"
  have "running_ok ?m" using Cons.prems running_ok_run [OF Cons.prems(1)] configured_self [of t] by auto
  with Cons.IH [of ?m] Cons.prems(2) show ?case by auto
qed simp

lemma upserted_valid:
  assumes "upserted t replaces c = Inr c1" and "validate_config P c1 = None"
  shows "distinct (map t_name (c_targets c1))" "t \<in> set (c_targets c1)" "c1 = c\<lparr>c_targets := c_targets c1\<rparr>"
    and "configured (c_targets c) u \<Longrightarrow> Some (t_name u) \<noteq> replaces \<Longrightarrow> configured (c_targets c1) u \<and> t_name u \<noteq> t_name t"
    and "set (c_targets c1) \<subseteq> insert t (set (c_targets c))"
proof -
  show d: "distinct (map t_name (c_targets c1))" using assms(2) by (simp add: config_ok_iff config_ok_def)
  show "t \<in> set (c_targets c1)" "c1 = c\<lparr>c_targets := c_targets c1\<rparr>" "set (c_targets c1) \<subseteq> insert t (set (c_targets c))"
    using assms(1) by (auto simp: upserted_def split: option.splits dest!: replace_first_Some)
  assume u: "configured (c_targets c) u" "Some (t_name u) \<noteq> replaces"
  then obtain v where v: "v \<in> set (c_targets c)" "u = v\<lparr>t_summarise := t_summarise u\<rparr>" by (auto simp: configured_def)
  have n: "t_name v = t_name u" by (subst v(2)) simp
  show "configured (c_targets c1) u \<and> t_name u \<noteq> t_name t"
  proof (cases replaces)
    case None
    then have "c_targets c1 = c_targets c @ [t]" using assms(1) by (auto simp: upserted_def)
    then have "v \<in> set (c_targets c1)" "t_name t \<notin> t_name ` set (c_targets c)" using v(1) d by auto
    moreover from this(2) have "t_name v \<noteq> t_name t" using v(1) by (metis imageI)
    ultimately show ?thesis using v(2) n unfolding configured_def by auto
  next
    case (Some k)
    then obtain pre w post where w: "c_targets c = pre @ w # post" "c_targets c1 = pre @ t # post" "t_name w = k"
      using assms(1) by (auto simp: upserted_def split: option.splits dest!: replace_first_Some)
    have "v \<noteq> w" using u(2) n w(3) Some by auto
    with v(1) w have "v \<in> set pre \<union> set post" by auto
    then have "v \<in> set (c_targets c1)" "t_name t \<notin> t_name ` (set pre \<union> set post)" using w(2) d by auto
    moreover from this(2) have "t_name v \<noteq> t_name t" using \<open>v \<in> set pre \<union> set post\<close> by (metis imageI)
    ultimately show ?thesis using v(2) n unfolding configured_def by auto
  qed
qed

text \<open>Failing, an upsert leaves configuration and file, and keeps what runs configured.\<close>

lemma upsert_keeps:
  assumes "running_ok m" and "upsert P A E t replaces m = (r, m1)"
  shows "running_ok m1" and "isl r \<Longrightarrow> mg_config m1 = mg_config m \<and> mg_file m1 = mg_file m"
    and "\<not> isl r \<Longrightarrow> \<exists>c root. upserted t replaces (mg_config m) = Inr c \<and> validate_config P c = None \<and> mg_file m = Some root \<and>
      mg_config m1 = c \<and> mg_file m1 = Some (write_targets A (c_targets c) root)"
proof -
  let ?goal = "running_ok m1 \<and> (isl r \<longrightarrow> mg_config m1 = mg_config m \<and> mg_file m1 = mg_file m) \<and>
    (\<not> isl r \<longrightarrow> (\<exists>c root. upserted t replaces (mg_config m) = Inr c \<and> validate_config P c = None \<and> mg_file m = Some root \<and>
      mg_config m1 = c \<and> mg_file m1 = Some (write_targets A (c_targets c) root)))"
  have ?goal
  proof (cases "\<exists>c. upserted t replaces (mg_config m) = Inr c \<and> validate_config P c = None")
    case False
    with assms show ?thesis by (auto simp: upsert_def split: sum.splits option.splits)
  next
    case True
    then obtain c where c: "upserted t replaces (mg_config m) = Inr c" "validate_config P c = None" by blast
    define old where "old = Option.bind replaces (map_of (mg_running m))"
    define m0 where "m0 = (case old of Some r \<Rightarrow> drop_status (t_name (r_target r)) (stop_target (the replaces) m) | None \<Rightarrow> m)"
    define revive where "revive = (\<lambda>m. case old of Some r \<Rightarrow> if can_start E (r_target r) then run_target (r_target r) m else m | None \<Rightarrow> m)"
    have u: "upsert P A E t replaces m = (if \<not> can_start E t then (Inl (CannotListen (t_name t)), revive m0)
      else (case save E (write_targets A (c_targets c)) m0 of
          Some m2 \<Rightarrow> (Inr (), (run_target t m2)\<lparr>mg_config := c\<rparr>)
        | None \<Rightarrow> (Inl FileNotWritten, revive (drop_status (t_name t) m0))))"
      by (simp only: upsert_def c sum.case option.case old_def m0_def revive_def Let_def)
    have old: "t_name (r_target x) = the replaces" "configured (c_targets (mg_config m)) (r_target x)" if "old = Some x" for x
      using that assms(1) by (auto simp: old_def running_ok_alt Option.bind_eq_Some_conv)
    have cf: "mg_config m0 = mg_config m" "mg_file m0 = mg_file m" by (simp_all add: m0_def split: option.splits)
    have m0: "running_ok m0" using assms(1) old by (auto simp: m0_def running_ok_alt split: option.splits)
    have gone: "map_of (mg_running m0) n = Some x \<Longrightarrow> Some n \<noteq> replaces \<and> map_of (mg_running m) n = Some x" for n x
      by (cases replaces) (auto simp: m0_def old_def split: option.splits if_splits)
    have other: "map_of (mg_running m0) n = Some x \<Longrightarrow> n \<noteq> t_name t \<and> configured (c_targets c) (r_target x)" for n x
      using gone [of n x] assms(1) upserted_valid(4) [OF c, of "r_target x"] by (auto simp: running_ok_alt)
    have m1: "running_ok (drop_status (t_name t) m0)" using m0 other by (auto simp: running_ok_alt)
    have revive: "running_ok (revive x)" "mg_config (revive x) = mg_config x" "mg_file (revive x) = mg_file x"
      if "running_ok x" "mg_config x = mg_config m" for x
      using that old running_ok_run by (auto simp: revive_def split: option.splits)
    have new: "running_ok ((run_target t (m0\<lparr>mg_file := f\<rparr>))\<lparr>mg_config := c\<rparr>)" for f
      using m0 other configured_self [OF upserted_valid(2) [OF c]] by (auto simp: running_ok_alt)
    show ?thesis
    proof (cases "can_start E t")
      case False
      then have "isl r" "m1 = revive m0" using assms(2) u by auto
      with revive m0 cf show ?thesis by simp
    next
      case True
      show ?thesis
      proof (cases "save E (write_targets A (c_targets c)) m0")
        case None
        with True have "isl r" "m1 = revive (drop_status (t_name t) m0)" using assms(2) u by auto
        with revive m1 cf show ?thesis by simp
      next
        case (Some m2)
        then obtain root where root: "mg_file m0 = Some root" "m2 = m0\<lparr>mg_file := Some (write_targets A (c_targets c) root)\<rparr>"
          by (auto simp: save_Some)
        have "r = Inr ()" "m1 = (run_target t m2)\<lparr>mg_config := c\<rparr>" using assms(2) u True Some by auto
        with new root c cf show ?thesis by simp
      qed
    qed
  qed
  then show "running_ok m1" "isl r \<Longrightarrow> mg_config m1 = mg_config m \<and> mg_file m1 = mg_file m"
    "\<not> isl r \<Longrightarrow> \<exists>c root. upserted t replaces (mg_config m) = Inr c \<and> validate_config P c = None \<and> mg_file m = Some root \<and>
      mg_config m1 = c \<and> mg_file m1 = Some (write_targets A (c_targets c) root)" by blast+
qed

lemma update_settings_keeps:
  assumes "update_settings P E change m = (r, m1)"
  shows "isl r \<Longrightarrow> m1 = m"
    and "\<not> isl r \<Longrightarrow> \<exists>root. validate_config P (change (mg_config m)) = None \<and> mg_file m = Some root \<and>
      m1 = m\<lparr>mg_config := change (mg_config m), mg_file := Some (write_settings (change (mg_config m)) root)\<rparr>"
  using assms by (auto simp: update_settings_def Let_def save_Some split: option.splits)

lemma remove_target_keeps:
  assumes "running_ok m" and "remove_target A E n m = (r, m1)"
  shows "isl r \<Longrightarrow> m1 = m" and "running_ok m1"
    and "\<not> isl r \<Longrightarrow> \<exists>root us. us = filter (\<lambda>t. t_name t \<noteq> n) (c_targets (mg_config m)) \<and> mg_file m = Some root \<and>
      mg_config m1 = (mg_config m)\<lparr>c_targets := us\<rparr> \<and> mg_file m1 = Some (write_targets A us root)"
proof -
  show "isl r \<Longrightarrow> m1 = m"
    and "\<not> isl r \<Longrightarrow> \<exists>root us. us = filter (\<lambda>t. t_name t \<noteq> n) (c_targets (mg_config m)) \<and> mg_file m = Some root \<and>
      mg_config m1 = (mg_config m)\<lparr>c_targets := us\<rparr> \<and> mg_file m1 = Some (write_targets A us root)"
    using assms(2) by (auto simp: remove_target_def Let_def save_Some split: option.splits if_splits)
  have *: "configured (filter (\<lambda>t. t_name t \<noteq> n) us) u" if c: "configured us u" "t_name u \<noteq> n" for us u
  proof -
    obtain v where v: "v \<in> set us" "u = v\<lparr>t_summarise := t_summarise u\<rparr>" using c(1) by (auto simp: configured_def)
    have "t_name v = t_name u" by (subst v(2)) simp
    with v c(2) show ?thesis unfolding configured_def by auto
  qed
  show "running_ok m1"
    using assms * by (auto simp: remove_target_def Let_def save_Some running_ok_alt split: option.splits if_splits)
qed

lemma configured_groups:
  assumes "configured us u" and "replace_first n (t\<lparr>t_summarise := gs\<rparr>) us = Some vs" and "find (\<lambda>t. t_name t = n) us = Some t"
  shows "configured vs u"
proof -
  obtain v where v: "v \<in> set us" "u = v\<lparr>t_summarise := t_summarise u\<rparr>" using assms(1) by (auto simp: configured_def)
  obtain pre w post where w: "us = pre @ w # post" "vs = pre @ (t\<lparr>t_summarise := gs\<rparr>) # post" "t_name w = n" "n \<notin> t_name ` set pre"
    using replace_first_Some [OF assms(2)] by blast
  have "find (\<lambda>t. t_name t = n) pre = None" using w(4) by (auto simp: find_None_iff)
  then have "t = w" using assms(3) w(1,3) by (induction pre arbitrary: us) (auto split: if_splits)
  show ?thesis
  proof (cases "v = w")
    case True
    then have "u = (t\<lparr>t_summarise := gs\<rparr>)\<lparr>t_summarise := t_summarise u\<rparr>" using v(2) \<open>t = w\<close> by simp
    moreover have "t\<lparr>t_summarise := gs\<rparr> \<in> set vs" using w(2) by simp
    ultimately show ?thesis unfolding configured_def by blast
  next
    case False
    with v w show ?thesis unfolding configured_def by auto
  qed
qed

lemma update_summarise_keeps:
  assumes "running_ok m" and "update_summarise P A E n change m = (r, m1)"
  shows "isl r \<Longrightarrow> m1 = m" and "running_ok m1"
    and "\<not> isl r \<Longrightarrow> \<exists>root t out gs us. t \<in> set (c_targets (mg_config m)) \<and> change (t_summarise t) = Inr (out, gs) \<and>
      replace_first n (t\<lparr>t_summarise := gs\<rparr>) (c_targets (mg_config m)) = Some us \<and> mg_file m = Some root \<and>
      validate_config P ((mg_config m)\<lparr>c_targets := us\<rparr>) = None \<and>
      mg_config m1 = (mg_config m)\<lparr>c_targets := us\<rparr> \<and> mg_file m1 = Some (write_targets A us root)"
proof -
  consider (none) "isl r" "m1 = m"
    | (ok) root t out gs us where "find (\<lambda>t. t_name t = n) (c_targets (mg_config m)) = Some t" "change (t_summarise t) = Inr (out, gs)"
      "us = the (replace_first n (t\<lparr>t_summarise := gs\<rparr>) (c_targets (mg_config m)))"
      "validate_config P ((mg_config m)\<lparr>c_targets := us\<rparr>) = None" "mg_file m = Some root" "r = Inr out"
      "m1 = m\<lparr>mg_file := Some (write_targets A us root), mg_running := bt_update n (\<lambda>r. r\<lparr>r_groups := gs\<rparr>) (mg_running m),
        mg_config := (mg_config m)\<lparr>c_targets := us\<rparr>\<rparr>"
  proof (cases "find (\<lambda>t. t_name t = n) (c_targets (mg_config m))")
    case None
    with assms(2) none show ?thesis by (auto simp: update_summarise_def)
  next
    case (Some t)
    show ?thesis
    proof (cases "change (t_summarise t)")
      case (Inl e)
      with Some assms(2) none show ?thesis by (auto simp: update_summarise_def)
    next
      case (Inr x)
      obtain out gs where x: "x = (out, gs)" by force
      let ?us = "the (replace_first n (t\<lparr>t_summarise := gs\<rparr>) (c_targets (mg_config m)))"
      let ?c = "(mg_config m)\<lparr>c_targets := ?us\<rparr>"
      show ?thesis
      proof (cases "validate_config P ?c = None \<and> save E (write_targets A ?us) m \<noteq> None")
        case True
        then obtain root where "mg_file m = Some root" "save E (write_targets A ?us) m = Some (m\<lparr>mg_file := Some (write_targets A ?us root)\<rparr>)"
          by (auto simp: save_Some)
        with True Some Inr x assms(2) ok [of t out gs ?us root] show ?thesis by (simp add: update_summarise_def Let_def)
      next
        case False
        then have "isl r \<and> m1 = m" using Some Inr x assms(2) by (auto simp: update_summarise_def Let_def split: option.splits)
        with none show ?thesis by simp
      qed
    qed
  qed
  then have "(isl r \<longrightarrow> m1 = m) \<and> running_ok m1 \<and> (\<not> isl r \<longrightarrow> (\<exists>root t out gs us. t \<in> set (c_targets (mg_config m)) \<and>
      change (t_summarise t) = Inr (out, gs) \<and>
      replace_first n (t\<lparr>t_summarise := gs\<rparr>) (c_targets (mg_config m)) = Some us \<and> mg_file m = Some root \<and>
      validate_config P ((mg_config m)\<lparr>c_targets := us\<rparr>) = None \<and>
      mg_config m1 = (mg_config m)\<lparr>c_targets := us\<rparr> \<and> mg_file m1 = Some (write_targets A us root)))"
  proof cases
    case none
    with assms(1) show ?thesis by simp
  next
    case (ok root t out gs us)
    have t: "t \<in> set (c_targets (mg_config m))" "t_name t = n" using ok(1) by (auto simp: find_Some_iff)
    have "replace_first n (t\<lparr>t_summarise := gs\<rparr>) (c_targets (mg_config m)) \<noteq> None"
      using t imageI [OF t(1), of t_name] by (simp add: replace_first_None del: imageI)
    then have us: "replace_first n (t\<lparr>t_summarise := gs\<rparr>) (c_targets (mg_config m)) = Some us" using ok(3) by auto
    have "running_ok m1" using assms(1) configured_groups [OF _ us ok(1)] ok(7)
      by (auto simp: running_ok_alt)
    have "\<exists>root t out gs us. t \<in> set (c_targets (mg_config m)) \<and> change (t_summarise t) = Inr (out, gs) \<and>
        replace_first n (t\<lparr>t_summarise := gs\<rparr>) (c_targets (mg_config m)) = Some us \<and> mg_file m = Some root \<and>
        validate_config P ((mg_config m)\<lparr>c_targets := us\<rparr>) = None \<and>
        mg_config m1 = (mg_config m)\<lparr>c_targets := us\<rparr> \<and> mg_file m1 = Some (write_targets A us root)"
      by (rule exI [of _ root], rule exI [of _ t], rule exI [of _ out], rule exI [of _ gs], rule exI [of _ us])
        (use ok us t in simp)
    with \<open>running_ok m1\<close> ok(6) show ?thesis by simp
  qed
  then show "isl r \<Longrightarrow> m1 = m" "running_ok m1" "\<not> isl r \<Longrightarrow> \<exists>root t out gs us. t \<in> set (c_targets (mg_config m)) \<and>
      change (t_summarise t) = Inr (out, gs) \<and>
      replace_first n (t\<lparr>t_summarise := gs\<rparr>) (c_targets (mg_config m)) = Some us \<and> mg_file m = Some root \<and>
      validate_config P ((mg_config m)\<lparr>c_targets := us\<rparr>) = None \<and>
      mg_config m1 = (mg_config m)\<lparr>c_targets := us\<rparr> \<and> mg_file m1 = Some (write_targets A us root)" by blast+
qed

section \<open>Histories of the manager\<close>

lemma filter_valid: "validate_config P c = None \<Longrightarrow> validate_config P (c\<lparr>c_targets := filter Q (c_targets c)\<rparr>) = None"
  by (auto simp: config_ok_iff config_ok_def list_all_iff distinct_map_filter)

lemma step_ok:
  assumes inv: "manager_ok P F var base A m" and fits: "op_fits F A op" and s: "manager_step P A E op m = (ok, m1)"
  shows "manager_ok P F var base A m1" and "\<not> ok \<Longrightarrow> mg_config m1 = mg_config m \<and> mg_file m1 = mg_file m"
proof -
  have m: "loads_as P F var base A (mg_file m) (mg_config m)" "validate_config P (mg_config m) = None"
      "list_all (target_fits A) (c_targets (mg_config m))" "running_ok m"
    using inv by (simp_all add: manager_ok_def)
  have "manager_ok P F var base A m1 \<and> (\<not> ok \<longrightarrow> mg_config m1 = mg_config m \<and> mg_file m1 = mg_file m)"
  proof (cases op)
    case (OpSettings a x hs en)
    then obtain r where u: "update_settings P E (settings_change a x hs en) m = (r, m1)" "ok = (\<not> isl r)"
      using s by (auto simp: manager_step_def split: prod.splits)
    show ?thesis
    proof (cases "isl r")
      case True
      with update_settings_keeps(1) [OF u(1)] inv u(2) show ?thesis by simp
    next
      case False
      let ?c = "settings_change a x hs en (mg_config m)"
      obtain root where root: "validate_config P ?c = None" "mg_file m = Some root"
          "m1 = m\<lparr>mg_config := ?c, mg_file := Some (write_settings ?c root)\<rparr>"
        using update_settings_keeps(2) [OF u(1) False] by blast
      have "loads_as P F var base A (Some (write_settings ?c root)) ?c"
        using settings_saved [OF _ root(1) refl] m(1) root(2) fits OpSettings by (simp add: op_fits_def)
      with root m u(2) False show ?thesis by (simp add: manager_ok_def running_ok_alt settings_change_def)
    qed
  next
    case (OpUpsert t replaces)
    then obtain r where u: "upsert P A E t replaces m = (r, m1)" "ok = (\<not> isl r)"
      using s by (auto simp: manager_step_def split: prod.splits)
    note k = upsert_keeps [OF m(4) u(1)]
    show ?thesis
    proof (cases "isl r")
      case True
      with k m u(2) show ?thesis by (simp add: manager_ok_def)
    next
      case False
      then obtain c root where c: "upserted t replaces (mg_config m) = Inr c" "validate_config P c = None" "mg_file m = Some root"
          "mg_config m1 = c" "mg_file m1 = Some (write_targets A (c_targets c) root)" using k(3) by blast
      note v = upserted_valid [OF c(1,2)]
      have "list_all (target_fits A) (c_targets c)" using v(5) m(3) fits OpUpsert by (auto simp: list_all_iff op_fits_def)
      with targets_saved [of P F var base A root "mg_config m" "c_targets c"] m(1) c v(3) have
        "loads_as P F var base A (mg_file m1) (mg_config m1)" by metis
      with c k(1) u(2) False \<open>list_all (target_fits A) (c_targets c)\<close> show ?thesis by (simp add: manager_ok_def)
    qed
  next
    case (OpGroups n f)
    then obtain r where u: "update_summarise P A E n (group_change f) m = (r, m1)" "ok = (\<not> isl r)"
      using s by (auto simp: manager_step_def split: prod.splits)
    note k = update_summarise_keeps [OF m(4) u(1)]
    show ?thesis
    proof (cases "isl r")
      case True
      with k inv u(2) show ?thesis by simp
    next
      case False
      then obtain root t out gs us where g: "t \<in> set (c_targets (mg_config m))" "group_change f (t_summarise t) = Inr (out, gs)"
          "replace_first n (t\<lparr>t_summarise := gs\<rparr>) (c_targets (mg_config m)) = Some us" "mg_file m = Some root"
          "validate_config P ((mg_config m)\<lparr>c_targets := us\<rparr>) = None"
          "mg_config m1 = (mg_config m)\<lparr>c_targets := us\<rparr>" "mg_file m1 = Some (write_targets A us root)" using k(3) by blast
      have t: "target_fits A t" using m(3) g(1) by (simp add: list_all_iff)
      then have "list_all names_ok gs"
        using g(2) fits OpGroups by (auto simp: op_fits_def group_change_def target_fits_def split: option.splits)
      with t have "target_fits A (t\<lparr>t_summarise := gs\<rparr>)" by (simp add: target_fits_def)
      moreover have "set us \<subseteq> insert (t\<lparr>t_summarise := gs\<rparr>) (set (c_targets (mg_config m)))" using replace_first_Some [OF g(3)] by auto
      ultimately have us: "list_all (target_fits A) us" using m(3) by (auto simp: list_all_iff)
      with targets_saved [OF _ g(5) us] m(1) g(4,6,7) k(2) g(5) u(2) False show ?thesis by (simp add: manager_ok_def)
    qed
  next
    case (OpRemove n)
    then obtain r where u: "remove_target A E n m = (r, m1)" "ok = (\<not> isl r)"
      using s by (auto simp: manager_step_def split: prod.splits)
    note k = remove_target_keeps [OF m(4) u(1)]
    show ?thesis
    proof (cases "isl r")
      case True
      with k inv u(2) show ?thesis by simp
    next
      case False
      then obtain root us where g: "us = filter (\<lambda>t. t_name t \<noteq> n) (c_targets (mg_config m))" "mg_file m = Some root"
          "mg_config m1 = (mg_config m)\<lparr>c_targets := us\<rparr>" "mg_file m1 = Some (write_targets A us root)" using k(3) by blast
      have us: "list_all (target_fits A) us" "validate_config P ((mg_config m)\<lparr>c_targets := us\<rparr>) = None"
        using m(2,3) filter_valid unfolding g(1) by (auto simp: list_all_iff)
      with targets_saved [OF _ us(2,1)] m(1) g(2-4) k(2) u(2) False show ?thesis by (simp add: manager_ok_def)
    qed
  next
    case OpStartAll
    with s start_all_keeps [OF m(4), of "c_targets (mg_config m)" E] m show ?thesis
      by (auto simp: manager_step_def manager_ok_def)
  next
    case OpStopAll
    with s m show ?thesis by (auto simp: manager_step_def manager_ok_def stop_all_def running_ok_alt)
  qed
  then show "manager_ok P F var base A m1" "\<not> ok \<Longrightarrow> mg_config m1 = mg_config m \<and> mg_file m1 = mg_file m" by blast+
qed

interpretation manager: guarded_stepper "\<lambda>m x. snd (manager_step P A (fst x) (snd x) m)" "op_fits F A \<circ> snd"
  "manager_ok P F var base A" for P F var base A
  by unfold_locales (auto intro: step_ok(1) [OF _ _ prod.collapse [symmetric]])

lemma manager_run_foldl: "manager_run P A ops m = foldl (\<lambda>m x. snd (manager_step P A (fst x) (snd x) m)) m ops"
  by (induction P A ops m rule: manager_run.induct) simp_all

lemma run_keeps_ok: "manager_ok P F var base A m \<Longrightarrow> list_all (op_fits F A \<circ> snd) ops \<Longrightarrow> manager_ok P F var base A (manager_run P A ops m)"
  unfolding manager_run_foldl by (rule manager.fit_run_inv)


section \<open>Failed changes\<close>

lemma failed_upsert_running:
  assumes "running_ok m" and "upsert P A E t replaces m = (Inl e, m1)"
  shows "map_of (mg_running m1) n = (case map_of (mg_running m) n of None \<Rightarrow> None
    | Some r \<Rightarrow> if replaces \<noteq> Some n \<or> m1 = m then Some r
        else if can_start E (r_target r) then Some \<lparr>r_target = r_target r, r_groups = t_summarise (r_target r)\<rparr> else None)"
proof (cases "\<exists>c. upserted t replaces (mg_config m) = Inr c \<and> validate_config P c = None")
  case False
  with assms(2) have "m1 = m" by (auto simp: upsert_def split: sum.splits option.splits)
  then show ?thesis by (simp split: option.splits)
next
  case True
  then obtain c where c: "upserted t replaces (mg_config m) = Inr c" "validate_config P c = None" by blast
  have name: "t_name (r_target x) = k" if "map_of (mg_running m) k = Some x" for k x
    using that assms(1) by (simp add: running_ok_alt)
  show ?thesis
  proof (cases "Option.bind replaces (map_of (mg_running m))")
    case None
    then have "mg_running m1 = mg_running m \<and> map_of (mg_running m) n = None \<or> mg_running m1 = mg_running m \<and> replaces \<noteq> Some n"
      using assms(2) c by (cases replaces) (auto simp: upsert_def Let_def split: if_splits option.splits)
    then show ?thesis by (auto split: option.splits)
  next
    case (Some x)
    then obtain k where k: "replaces = Some k" "map_of (mg_running m) k = Some x" by (auto simp: Option.bind_eq_Some_conv)
    have run: "mg_running m1 = (if can_start E (r_target x)
        then bt_put k \<lparr>r_target = r_target x, r_groups = t_summarise (r_target x)\<rparr> (bt_remove k (mg_running m)) else bt_remove k (mg_running m))"
      using assms(2) c Some k name [OF k(2)] by (auto simp: upsert_def Let_def split: if_splits option.splits)
    show ?thesis
    proof (cases "m1 = m")
      case True
      then show ?thesis by (simp split: option.splits)
    next
      case False
      with run k show ?thesis by (auto split: option.splits)
    qed
  qed
qed

text \<open>A change that is refused, cannot be applied or cannot be saved leaves the configuration and the
  file as they were, and every target running that ran, as far as it can be started again.\<close>

theorem failed_change_changes_nothing:
  assumes "manager_ok P F var base A m" and "op_fits F A op" and "manager_step P A E op m = (False, m1)"
    and "\<forall>n r. map_of (mg_running m) n = Some r \<longrightarrow> can_start E (r_target r)"
  shows "mg_config m1 = mg_config m \<and> mg_file m1 = mg_file m \<and>
    map_option r_target (map_of (mg_running m1) n) = map_option r_target (map_of (mg_running m) n)"
proof -
  have "mg_running m1 = mg_running m \<or> (\<exists>t replaces e. upsert P A E t replaces m = (Inl e, m1))"
  proof (cases op)
    case (OpSettings a x hs en)
    then obtain r where "update_settings P E (settings_change a x hs en) m = (r, m1)" "isl r"
      using assms(3) by (auto simp: manager_step_def split: prod.splits)
    then have "m1 = m" by (rule update_settings_keeps(1))
    then show ?thesis by simp
  next
    case (OpUpsert t replaces)
    with assms(3) show ?thesis by (auto simp: manager_step_def isl_def split: prod.splits)
  next
    case (OpGroups k f)
    obtain r where "update_summarise P A E k (group_change f) m = (r, m1)" "isl r"
      using assms(3) OpGroups by (auto simp: manager_step_def split: prod.splits)
    then have "m1 = m" using update_summarise_keeps(1) assms(1) by (auto simp: manager_ok_def)
    then show ?thesis by simp
  next
    case (OpRemove k)
    then obtain r where "remove_target A E k m = (r, m1)" "isl r"
      using assms(3) by (auto simp: manager_step_def split: prod.splits)
    then have "m1 = m" using remove_target_keeps(1) assms(1) by (auto simp: manager_ok_def)
    then show ?thesis by simp
  qed (use assms(3) in \<open>auto simp: manager_step_def\<close>)
  then have "map_option r_target (map_of (mg_running m1) n) = map_option r_target (map_of (mg_running m) n)"
    using failed_upsert_running [of m P A E] assms(1,4) by (auto simp: manager_ok_def split: option.splits)
  with step_ok(2) [OF assms(1-3)] show ?thesis by simp
qed

text \<open>The target put back summarises what its configuration said when it was last started, not what the
  groups say since they were changed: until it is started anew, file and relay disagree.\<close>

lemma failed_edit_revives_old_groups:
  assumes "upserted t (Some n) (mg_config m) = Inr c" and "validate_config P c = None" and "\<not> can_start E t"
    and "map_of (mg_running m) n = Some r" and "t_name (r_target r) = n" and "can_start E (r_target r)"
  shows "map_of (mg_running (snd (upsert P A E t (Some n) m))) n = Some \<lparr>r_target = r_target r, r_groups = t_summarise (r_target r)\<rparr>"
  using assms by (simp add: upsert_def Let_def)

section \<open>Witnesses\<close>

definition calm :: outcomes where "calm = \<lparr>can_start = (\<lambda>t. True), can_write = True\<rparr>"

definition example_ops :: "(outcomes \<times> manager_op) list" where
  "example_ops = [(calm, OpStartAll), (calm, OpUpsert plc_target None), (calm\<lparr>can_write := False\<rparr>, OpRemove ''plc1''),
     (calm, OpGroups ''plc1'' (\<lambda>gs. Some [])), (calm, OpSettings default_audit default_export [''gw''] True)]"

lemma example_ops_fit: "list_all (op_fits unix_paths one_addr \<circ> snd) example_ops"
  by (simp add: example_ops_def op_fits_def target_fits_def plc_target_def one_addr_def names_ok_def bt_sorted_def fits_def
      settings_change_def default_audit_def default_export_def ca_absolute_def)


lemma small_manager_ok: "manager_ok Some unix_paths (\<lambda>v. None) ''/etc/gw'' one_addr (new_manager small_config (Some small_file))"
proof -
  have "validate_config Some small_config = None"
    by (simp add: validate_config_def small_config_def default_audit_def default_web_def default_export_def)
  moreover have "standard small_file" by (simp add: standard_def small_file_def standard_key_def is_table_def sub_table_def)
  ultimately show ?thesis
    using small_config_loads by (simp add: manager_ok_def new_manager_def loads_as_def alike_def running_ok_alt small_config_def)
qed

theorem failed_change_changes_nothing_witness:
  "case manager_step Some one_addr (calm\<lparr>can_write := False\<rparr>) (OpUpsert plc_target (Some ''plc9'')) (new_manager small_config (Some small_file)) of
     (_, m1) \<Rightarrow> mg_config m1 = small_config \<and> mg_file m1 = Some small_file \<and> map_option r_target (map_of (mg_running m1) ''plc9'') = None"
proof -
  let ?m = "new_manager small_config (Some small_file)" and ?E = "calm\<lparr>can_write := False\<rparr>" and ?op = "OpUpsert plc_target (Some ''plc9'')"
  obtain m1 where s: "manager_step Some one_addr ?E ?op ?m = (False, m1)"
    by (simp add: manager_step_def upsert_def upserted_def new_manager_def small_config_def)
  have "op_fits unix_paths one_addr ?op"
    by (simp add: op_fits_def target_fits_def plc_target_def one_addr_def names_ok_def bt_sorted_def)
  from failed_change_changes_nothing [OF small_manager_ok this s, of "''plc9''"] s show ?thesis
    by (simp add: new_manager_def)
qed

end
