(* ===== verification/Pki.thy ===== *)
theory Pki
  imports Config Export_Fields "HOL-Library.Product_Lexorder"
begin

text \<open>
  The certificate store (src/pki.rs): the gateway's own pair with its backups, the trusted and the
  rejected certificates. Certificates and keys are the opcua library's: the record \<open>x509_ops\<close>. A
  directory is its files in the order the system lists them, with their modification times.
\<close>

record ('c, 'k) x509_ops =
  from_der :: "string \<Rightarrow> 'c option"
  from_pem :: "string \<Rightarrow> 'c option"
  to_der :: "'c \<Rightarrow> string option"
  key_from_pem :: "string \<Rightarrow> 'k option"
  pair_of :: "'c \<Rightarrow> 'k \<Rightarrow> bool"
  hex_thumbprint :: "'c \<Rightarrow> string"
  subject_name :: "'c \<Rightarrow> string"
  not_before_of :: "'c \<Rightarrow> string option"
  not_after_of :: "'c \<Rightarrow> string option"
  common_name :: "'c \<Rightarrow> string option"
  cert_file_name :: "'c \<Rightarrow> string"
  hostname_valid :: "'c \<Rightarrow> string \<Rightarrow> bool"
  time_valid :: "'c \<Rightarrow> bool"
  uri_valid :: "'c \<Rightarrow> string \<Rightarrow> bool"

datatype pki_error =
    NotEncodable | UnsafeName | NoRejected string | NoTrusted string | UnreadableFile | NotACertificate | NotAKey
  | WrongKey | NotValidNow | WrongUri string | NoBackup | FileFailed

type_synonym dir = "(string \<times> (time \<times> string)) list"

record own_pair =
  ow_cert :: "string option"
  ow_key :: "string option"
  ow_cert_baks :: "(string \<times> string) list"
  ow_key_baks :: "(string \<times> string) list"

record pki =
  pk_own :: own_pair
  pk_trusted :: dir
  pk_rejected :: dir

record certificate_info =
  ci_subject :: string
  ci_thumbprint :: string
  ci_not_before :: "string option"
  ci_not_after :: "string option"
  ci_missing_hostnames :: "string list"

definition cert_info :: "('c, 'k) x509_ops \<Rightarrow> 'c \<Rightarrow> certificate_info" where
  "cert_info X c = \<lparr>ci_subject = subject_name X c, ci_thumbprint = hex_thumbprint X c, ci_not_before = not_before_of X c,
     ci_not_after = not_after_of X c, ci_missing_hostnames = []\<rparr>"

definition info_with_hostnames :: "('c, 'k) x509_ops \<Rightarrow> 'c \<Rightarrow> string list \<Rightarrow> certificate_info" where
  "info_with_hostnames X c ns = (cert_info X c)\<lparr>ci_missing_hostnames := filter (\<lambda>n. \<not> hostname_valid X c n) ns\<rparr>"

section \<open>Trusted and rejected certificates\<close>

definition MAX_REJECTED :: nat where "MAX_REJECTED = 200"

text \<open>Outside Windows.\<close>

definition safe_file_name :: "('c, 'k) x509_ops \<Rightarrow> 'c \<Rightarrow> bool" where
  "safe_file_name X c \<longleftrightarrow> \<not> list_ex is_control (chars (case common_name X c of Some n \<Rightarrow> n | None \<Rightarrow> []))"

text \<open>The oldest files beyond the limit go; of the same age, those first by name.\<close>

definition cap_rejected :: "dir \<Rightarrow> dir" where
  "cap_rejected d =
     (if length d \<le> MAX_REJECTED then d
      else (let files = sort (map (\<lambda>(n, m, b). (m, n)) d);
                gone = set (map snd (take (length files - MAX_REJECTED) files))
            in filter (\<lambda>(n, f). n \<notin> gone) d))"

definition dir_put :: "string \<Rightarrow> time \<Rightarrow> string \<Rightarrow> dir \<Rightarrow> dir" where
  "dir_put n now b d = (if n \<in> fst ` set d then map (\<lambda>(k, f). if k = n then (k, (now, b)) else (k, f)) d else d @ [(n, (now, b))])"

definition dir_remove :: "string \<Rightarrow> dir \<Rightarrow> dir" where
  "dir_remove n d = filter (\<lambda>(k, f). k \<noteq> n) d"

text \<open>The first file that holds the certificate with this thumbprint.\<close>

definition find_cert :: "('c, 'k) x509_ops \<Rightarrow> string \<Rightarrow> dir \<Rightarrow> (string \<times> 'c) option" where
  "find_cert X thumb d = (case find (\<lambda>(n, m, b). case from_der X b of
       Some c \<Rightarrow> eq_ignore_ascii_case (hex_thumbprint X c) thumb | None \<Rightarrow> False) d of
     Some (n, m, b) \<Rightarrow> Some (n, the (from_der X b)) | None \<Rightarrow> None)"

definition list_dir :: "('c, 'k) x509_ops \<Rightarrow> dir \<Rightarrow> certificate_info list" where
  "list_dir X d = sort_key ci_subject (List.map_filter (\<lambda>(n, m, b). map_option (cert_info X) (from_der X b)) d)"

definition rejected_count :: "pki \<Rightarrow> nat" where
  "rejected_count p = length (pk_rejected p)"

definition trust :: "('c, 'k) x509_ops \<Rightarrow> time \<Rightarrow> 'c \<Rightarrow> pki \<Rightarrow> (pki_error + certificate_info) \<times> pki" where
  "trust X now c p =
     (if \<not> safe_file_name X c then (Inl UnsafeName, p)
      else case to_der X c of
        None \<Rightarrow> (Inl NotEncodable, p)
      | Some der \<Rightarrow>
          (let p1 = p\<lparr>pk_trusted := dir_put (cert_file_name X c) now der (pk_trusted p)\<rparr>;
               p2 = (case find_cert X (hex_thumbprint X c) (pk_rejected p1) of
                   Some (n, _) \<Rightarrow> p1\<lparr>pk_rejected := dir_remove n (pk_rejected p1)\<rparr> | None \<Rightarrow> p1)
           in (Inr (cert_info X c), p2)))"

definition trust_rejected :: "('c, 'k) x509_ops \<Rightarrow> time \<Rightarrow> string \<Rightarrow> pki \<Rightarrow> (pki_error + certificate_info) \<times> pki" where
  "trust_rejected X now thumb p = (case find_cert X thumb (pk_rejected p) of
     None \<Rightarrow> (Inl (NoRejected thumb), p)
   | Some (n, c) \<Rightarrow> trust X now c p)"

text \<open>A rename keeps content and time.\<close>

definition untrust :: "('c, 'k) x509_ops \<Rightarrow> string \<Rightarrow> pki \<Rightarrow> (pki_error + certificate_info) \<times> pki" where
  "untrust X thumb p = (case find_cert X thumb (pk_trusted p) of
     None \<Rightarrow> (Inl (NoTrusted thumb), p)
   | Some (n, c) \<Rightarrow>
       (let (m, b) = the (map_of (pk_trusted p) n) in
        (Inr (cert_info X c), p\<lparr>pk_trusted := dir_remove n (pk_trusted p),
           pk_rejected := dir_put (cert_file_name X c) m b (pk_rejected p)\<rparr>)))"

definition delete_rejected :: "('c, 'k) x509_ops \<Rightarrow> string \<Rightarrow> pki \<Rightarrow> (pki_error + certificate_info) \<times> pki" where
  "delete_rejected X thumb p = (case find_cert X thumb (pk_rejected p) of
     None \<Rightarrow> (Inl (NoRejected thumb), p)
   | Some (n, c) \<Rightarrow> (Inr (cert_info X c), p\<lparr>pk_rejected := dir_remove n (pk_rejected p)\<rparr>))"

section \<open>The gateway's own pair\<close>

text \<open>Changes of the pair on disk: a file replaced in one step, or copied to its backup.\<close>

datatype own_step = BackupCert string | BackupKey string | PutKey string | PutCert string

fun own_do :: "own_step \<Rightarrow> own_pair \<Rightarrow> own_pair" where
  "own_do (BackupCert stamp) o' = (case ow_cert o' of None \<Rightarrow> o' | Some b \<Rightarrow> o'\<lparr>ow_cert_baks := bt_put stamp b (ow_cert_baks o')\<rparr>)"
| "own_do (BackupKey stamp) o' = (case ow_key o' of None \<Rightarrow> o' | Some b \<Rightarrow> o'\<lparr>ow_key_baks := bt_put stamp b (ow_key_baks o')\<rparr>)"
| "own_do (PutKey b) o' = o'\<lparr>ow_key := Some b\<rparr>"
| "own_do (PutCert b) o' = o'\<lparr>ow_cert := Some b\<rparr>"

definition backup_own :: "string \<Rightarrow> own_step list" where
  "backup_own stamp = [BackupCert stamp, BackupKey stamp]"

text \<open>\<open>create_own\<close> with the generated pair: the key first.\<close>

definition create_own :: "string \<times> string \<Rightarrow> own_step list" where
  "create_own new = [PutKey (snd new), PutCert (fst new)]"

definition regenerate_own :: "string \<Rightarrow> string \<times> string \<Rightarrow> own_step list" where
  "regenerate_own stamp new = backup_own stamp @ create_own new"

definition import_own :: "('c, 'k) x509_ops \<Rightarrow> string \<Rightarrow> string \<Rightarrow> string \<Rightarrow> string \<Rightarrow> pki_error + (own_step list \<times> 'c)" where
  "import_own X stamp uri cert key =
     (case (case from_der X cert of Some c \<Rightarrow> Some c | None \<Rightarrow> from_pem X cert) of
        None \<Rightarrow> Inl NotACertificate
      | Some c \<Rightarrow> (case key_from_pem X key of
          None \<Rightarrow> Inl NotAKey
        | Some k \<Rightarrow>
            if \<not> pair_of X c k then Inl WrongKey
            else if \<not> time_valid X c then Inl NotValidNow
            else if \<not> uri_valid X c uri then Inl (WrongUri uri)
            else (case to_der X c of
                None \<Rightarrow> Inl NotEncodable
              | Some der \<Rightarrow> Inr (backup_own stamp @ [PutKey key, PutCert der], c))))"

definition readable_pair :: "('c, 'k) x509_ops \<Rightarrow> own_pair \<Rightarrow> ('c \<times> 'k) option" where
  "readable_pair X o' = (case (Option.bind (ow_cert o') (from_der X), Option.bind (ow_key o') (key_from_pem X)) of
     (Some c, Some k) \<Rightarrow> Some (c, k) | _ \<Rightarrow> None)"

text \<open>The newest backup pair that can be read and matches.\<close>

definition usable_backup :: "('c, 'k) x509_ops \<Rightarrow> own_pair \<Rightarrow> string \<Rightarrow> bool" where
  "usable_backup X o' stamp = (case (map_of (ow_cert_baks o') stamp, map_of (ow_key_baks o') stamp) of
     (Some cb, Some kb) \<Rightarrow> (case (from_der X cb, key_from_pem X kb) of
         (Some c, Some k) \<Rightarrow> pair_of X c k | _ \<Rightarrow> False)
   | _ \<Rightarrow> False)"

definition restore_backup :: "('c, 'k) x509_ops \<Rightarrow> own_pair \<Rightarrow> own_pair option" where
  "restore_backup X o' = (case find (usable_backup X o') (rev (sort (map fst (ow_cert_baks o')))) of
     None \<Rightarrow> None
   | Some stamp \<Rightarrow> Some (o'\<lparr>ow_key := map_of (ow_key_baks o') stamp, ow_cert := map_of (ow_cert_baks o') stamp\<rparr>))"

text \<open>At the start: the pair as it is, restored, or generated; and whether it is new.\<close>

definition ensure_own :: "('c, 'k) x509_ops \<Rightarrow> string \<times> string \<Rightarrow> own_pair \<Rightarrow> pki_error + (bool \<times> own_pair)" where
  "ensure_own X new o' = (case readable_pair X o' of
     Some (c, k) \<Rightarrow>
       if pair_of X c k then Inr (False, o')
       else (case restore_backup X o' of None \<Rightarrow> Inl NoBackup | Some o1 \<Rightarrow> Inr (False, o1))
   | None \<Rightarrow> Inr (True, fold own_do (create_own new) o'))"

end
