(* ===== verification/Pki_Safety.thy ===== *)
theory Pki_Safety
  imports Pki
begin

text \<open>
  What src/pki.rs promises: a replacement of the gateway's pair that is interrupted anywhere leaves a
  pair the next start can use, and the rejected certificates stay few.
\<close>

section \<open>Interrupted replacements\<close>

fun is_copy :: "own_step \<Rightarrow> bool" where
  "is_copy (BackupCert _) \<longleftrightarrow> True" | "is_copy (BackupKey _) \<longleftrightarrow> True" | "is_copy _ \<longleftrightarrow> False"

text \<open>The files after a crash: some steps done; a copy that was under way may have left anything in the
  backups, the pair itself is replaced in one step each.\<close>

definition crashed :: "own_step list \<Rightarrow> own_pair \<Rightarrow> own_pair \<Rightarrow> bool" where
  "crashed steps own after \<longleftrightarrow> (\<exists>n. let o1 = fold own_do (take n steps) own in
     after = o1 \<or> (n < length steps \<and> is_copy (steps ! n) \<and> ow_cert after = ow_cert o1 \<and> ow_key after = ow_key o1))"

definition matching :: "('c, 'k) x509_ops \<Rightarrow> own_pair \<Rightarrow> bool" where
  "matching X own \<longleftrightarrow> (\<exists>c k. readable_pair X own = Some (c, k) \<and> pair_of X c k)"

lemma readable_Some: "readable_pair X own = Some (c, k) \<longleftrightarrow>
    (\<exists>cb kb. ow_cert own = Some cb \<and> ow_key own = Some kb \<and> from_der X cb = Some c \<and> key_from_pem X kb = Some k)"
  by (auto simp: readable_pair_def Option.bind_eq_Some_conv split: option.splits)

lemma matching_same: "ow_cert a = ow_cert b \<Longrightarrow> ow_key a = ow_key b \<Longrightarrow> matching X a = matching X b"
  by (simp add: matching_def readable_pair_def)

lemma ensure_matching: "matching X own \<Longrightarrow> ensure_own X new own = Inr (False, own)"
  by (auto simp: matching_def ensure_own_def)

lemma find_newest:
  assumes "Q s" and "s \<in> set ks" and "\<forall>k \<in> set ks. k \<le> s"
  shows "find Q (rev (sort ks)) = Some (s :: 'a::linorder)"
proof -
  have "ks \<noteq> []" using assms(2) by auto
  moreover have "last (sort ks) = s"
  proof -
    have "last (sort ks) \<in> set ks" using \<open>ks \<noteq> []\<close> by (metis last_in_set set_empty set_sort)
    moreover have "k \<le> last (sort ks)" if "k \<in> set (sort ks)" for k
      using that sorted_sort [of ks] by (metis last_conv_nth length_pos_if_in_set in_set_conv_nth sorted_nth_mono diff_less
          length_greater_0_conv less_Suc_eq_le Suc_pred' zero_less_one list.size(3) not_less0)
    ultimately show ?thesis using assms(2,3) by (simp add: order_antisym)
  qed
  ultimately obtain ys where "sort ks = ys @ [s]" by (metis append_butlast_last_id set_empty set_sort)
  then show ?thesis using assms(1) by simp
qed

text \<open>A regeneration or import of the gateway's pair that is interrupted at any point, in the middle of
  a copy included, leaves files from which the next start takes a matching pair, without making a new
  one: of the certificate in use before, or of the new one.\<close>

theorem interrupted_replacement_recovers:
  assumes "matching X own" and "from_der X cert = Some c" and "key_from_pem X key = Some k" and "pair_of X c k"
    and "\<forall>s \<in> set (map fst (ow_cert_baks own)). s \<le> stamp"
    and "crashed (backup_own stamp @ [PutKey key, PutCert cert]) own after"
  shows "\<exists>own1. ensure_own X new after = Inr (False, own1) \<and> matching X own1 \<and> ow_cert own1 \<in> {ow_cert own, Some cert}"
proof -
  obtain c0 k0 cb kb where old: "ow_cert own = Some cb" "ow_key own = Some kb" "from_der X cb = Some c0" "key_from_pem X kb = Some k0" "pair_of X c0 k0"
    using assms(1) by (auto simp: matching_def readable_Some)
  define own2 where "own2 = own\<lparr>ow_cert_baks := bt_put stamp cb (ow_cert_baks own), ow_key_baks := bt_put stamp kb (ow_key_baks own)\<rparr>"
  have key_put: "\<exists>own1. ensure_own X new (own2\<lparr>ow_key := Some key\<rparr>) = Inr (False, own1) \<and> matching X own1 \<and> ow_cert own1 \<in> {ow_cert own, Some cert}"
  proof (cases "pair_of X c0 k")
    case True
    then have "matching X (own2\<lparr>ow_key := Some key\<rparr>)" using old assms(3) by (simp add: matching_def readable_Some own2_def)
    with ensure_matching [OF this] show ?thesis by (auto simp: own2_def)
  next
    case False
    let ?o = "own2\<lparr>ow_key := Some key\<rparr>"
    have "usable_backup X ?o stamp" using old by (simp add: usable_backup_def own2_def)
    moreover have "set (map fst (ow_cert_baks ?o)) = insert stamp (set (map fst (ow_cert_baks own)))" by (simp add: own2_def)
    ultimately have "find (usable_backup X ?o) (rev (sort (map fst (ow_cert_baks ?o)))) = Some stamp"
      using assms(5) by (intro find_newest) auto
    then have "restore_backup X ?o = Some (?o\<lparr>ow_key := Some kb, ow_cert := Some cb\<rparr>)" by (simp add: restore_backup_def own2_def)
    moreover have "readable_pair X ?o = Some (c0, k)" using old assms(3) by (simp add: readable_Some own2_def)
    ultimately have "ensure_own X new ?o = Inr (False, ?o\<lparr>ow_key := Some kb, ow_cert := Some cb\<rparr>)" using False by (simp add: ensure_own_def)
    moreover have "matching X (?o\<lparr>ow_key := Some kb, ow_cert := Some cb\<rparr>)" using old by (simp add: matching_def readable_Some)
    ultimately show ?thesis using old(1) by simp
  qed
  let ?steps = "[BackupCert stamp, BackupKey stamp, PutKey key, PutCert cert]"
  have steps: "fold own_do ?steps own = own2\<lparr>ow_key := Some key, ow_cert := Some cert\<rparr>" "fold own_do (take 3 ?steps) own = own2\<lparr>ow_key := Some key\<rparr>"
      "n \<le> 2 \<Longrightarrow> ow_cert (fold own_do (take n ?steps) own) = ow_cert own \<and> ow_key (fold own_do (take n ?steps) own) = ow_key own" for n
    using old(1,2) by (auto simp: own2_def le_Suc_eq numeral_2_eq_2 numeral_3_eq_3)
  obtain n where n: "after = fold own_do (take n ?steps) own \<or>
      (n < 4 \<and> is_copy (?steps ! n) \<and> ow_cert after = ow_cert (fold own_do (take n ?steps) own) \<and> ow_key after = ow_key (fold own_do (take n ?steps) own))"
  proof -
    have "backup_own stamp @ [PutKey key, PutCert cert] = ?steps" by (simp add: backup_own_def)
    moreover have "length ?steps = 4" by simp
    ultimately show thesis using assms(6) that unfolding crashed_def Let_def by metis
  qed
  consider "n \<le> 2" | "n = 3" | "4 \<le> n" by linarith
  then show ?thesis
  proof cases
    case 1
    then have "ow_cert after = ow_cert own" "ow_key after = ow_key own" using n steps(3) [of n] by auto
    with matching_same [OF this, of X] assms(1) have "matching X after" by simp
    then show ?thesis using ensure_matching [of X after new] \<open>ow_cert after = ow_cert own\<close> by (intro exI [of _ after]) simp
  next
    case 2
    with n steps(2) have "after = own2\<lparr>ow_key := Some key\<rparr>" by (simp add: numeral_3_eq_3)
    with key_put show ?thesis by simp
  next
    case 3
    with n have "after = own2\<lparr>ow_key := Some key, ow_cert := Some cert\<rparr>" using steps(1) by auto
    moreover have "matching X (own2\<lparr>ow_key := Some key, ow_cert := Some cert\<rparr>)" using assms(2-4) by (simp add: matching_def readable_Some)
    ultimately show ?thesis using ensure_matching [of X after] by simp
  qed
qed

text \<open>Certificates and keys as text: a certificate is \<open>C\<close> and a number, its key \<open>K\<close> and the number.\<close>

definition text_x509 :: "(string, string) x509_ops" where
  "text_x509 = \<lparr>from_der = (\<lambda>s. if take 1 s = ''C'' then Some s else None), from_pem = (\<lambda>s. None), to_der = Some,
     key_from_pem = (\<lambda>s. if take 1 s = ''K'' then Some s else None), pair_of = (\<lambda>c k. drop 1 c = drop 1 k),
     hex_thumbprint = drop 1, subject_name = id, not_before_of = (\<lambda>c. None), not_after_of = (\<lambda>c. None),
     common_name = Some, cert_file_name = id, hostname_valid = (\<lambda>c n. True), time_valid = (\<lambda>c. True), uri_valid = (\<lambda>c u. True)\<rparr>"

definition old_pair :: own_pair where
  "old_pair = \<lparr>ow_cert = Some ''C1'', ow_key = Some ''K1'', ow_cert_baks = [], ow_key_baks = []\<rparr>"

text \<open>The crash between the two replacements, when key and certificate do not match.\<close>

lemma crash_between: "crashed (backup_own ''20240101T000000.000'' @ [PutKey ''K2'', PutCert ''C2'']) old_pair
    (fold own_do (take 3 (backup_own ''20240101T000000.000'' @ [PutKey ''K2'', PutCert ''C2''])) old_pair)"
  unfolding crashed_def Let_def by (intro exI [of _ 3] disjI1 refl)

theorem interrupted_replacement_recovers_witness:
  "\<exists>own1. ensure_own text_x509 (''C9'', ''K9'') (fold own_do (take 3 (backup_own ''20240101T000000.000'' @ [PutKey ''K2'', PutCert ''C2''])) old_pair)
       = Inr (False, own1) \<and> matching text_x509 own1 \<and> ow_cert own1 \<in> {ow_cert old_pair, Some ''C2''}"
  by (rule interrupted_replacement_recovers [OF _ _ _ _ _ crash_between, where c = "''C2''" and k = "''K2''"])
    (simp_all add: text_x509_def old_pair_def matching_def readable_Some)

section \<open>Rejected certificates\<close>

definition aged :: "dir \<Rightarrow> (time \<times> string) list" where
  "aged d = sort (map (\<lambda>(n, m, b). (m, n)) d)"

lemma aged_simps: "length (aged d) = length d" "set (aged d) = (\<lambda>(n, m, b). (m, n)) ` set d"
  by (simp_all add: aged_def)

lemma aged_names:
  assumes "distinct (map fst d)"
  shows "distinct (map snd (aged d))"
proof -
  have "inj_on (\<lambda>(n, m, b). (m, n)) (set d)" "inj_on snd (set (aged d))"
    by (auto simp: inj_on_def aged_simps dest: eq_key_imp_eq_value [OF assms])
  then show ?thesis using assms by (simp add: distinct_map aged_def)
qed

lemma cap_rejected_long: "\<not> length d \<le> MAX_REJECTED \<Longrightarrow>
    cap_rejected d = filter (\<lambda>(n, f). n \<notin> set (map snd (take (length d - MAX_REJECTED) (aged d)))) d"
  by (simp add: cap_rejected_def aged_def Let_def)

lemma cap_rejected_length:
  assumes "distinct (map fst d)"
  shows "length (cap_rejected d) = min (length d) MAX_REJECTED"
proof (cases "length d \<le> MAX_REJECTED")
  case False
  let ?k = "length d - MAX_REJECTED" and ?gone = "set (map snd (take (length d - MAX_REJECTED) (aged d)))"
  have names: "fst ` set d = set (map snd (aged d))" by (force simp: aged_simps image_iff)
  have "?gone \<subseteq> fst ` set d" unfolding names by (auto dest: in_set_takeD)
  have "card ?gone = ?k" using aged_names [OF assms]
    by (simp only: distinct_card [OF distinct_take] take_map [symmetric]) (use False in \<open>simp add: aged_simps MAX_REJECTED_def\<close>)
  have "length (cap_rejected d) = length (filter (\<lambda>n. n \<notin> ?gone) (map fst d))"
    unfolding cap_rejected_long [OF False] filter_map length_map 
    by (rule arg_cong [where f = length], rule filter_cong) (auto intro: rev_image_eqI)
  also have "\<dots> = card (fst ` set d - ?gone)"
    using distinct_card [OF distinct_filter [OF assms]] by (simp add: set_diff_eq flip: set_map)
  also have "\<dots> = length d - ?k" using \<open>?gone \<subseteq> fst ` set d\<close> \<open>card ?gone = ?k\<close> distinct_card [OF assms]
    by (subst card_Diff_subset) auto
  finally show ?thesis using False by simp
qed (simp add: cap_rejected_def)

lemma cap_rejected_newest:
  assumes "distinct (map fst d)" and "(n, m, b) \<in> set d - set (cap_rejected d)" and "(n1, m1, b1) \<in> set (cap_rejected d)"
  shows "m \<le> m1"
proof -
  let ?k = "length d - MAX_REJECTED"
  have long: "\<not> length d \<le> MAX_REJECTED" using assms(2) by (auto simp: cap_rejected_def)
  obtain m' where gone: "(m', n) \<in> set (take ?k (aged d))" using assms(2) by (auto simp: cap_rejected_long [OF long])
  have "(m', n) \<in> set (aged d)" using gone by (rule in_set_takeD)
  then have "m' = m" using assms(1,2) by (auto simp: aged_simps dest: eq_key_imp_eq_value)
  have "(m1, n1) \<in> set (aged d)" "(m1, n1) \<notin> set (take ?k (aged d))"
    using assms(3) by (force simp: aged_simps cap_rejected_long [OF long])+
  then have "(m1, n1) \<in> set (drop ?k (aged d))" by (metis Un_iff append_take_drop_id set_append)
  moreover have "sorted (take ?k (aged d) @ drop ?k (aged d))" by (simp add: aged_def)
  ultimately have "(m', n) \<le> (m1, n1)" using gone unfolding sorted_append by blast
  then show ?thesis using \<open>m' = m\<close> by (auto simp: less_eq_prod_def)
qed

text \<open>Whatever number of certificates was offered, at most 200 rejected ones are kept: those kept are no
  older than those removed.\<close>

theorem rejected_stay_few:
  assumes "distinct (map fst d)"
  shows "length (cap_rejected d) = min (length d) MAX_REJECTED \<and>
    (\<forall>(n, m, b) \<in> set d - set (cap_rejected d). \<forall>(n1, m1, b1) \<in> set (cap_rejected d). m \<le> m1)"
  using cap_rejected_length [OF assms] cap_rejected_newest [OF assms] by blast

theorem rejected_stay_few_witness:
  "length (cap_rejected [(''C1'', 5, ''C1''), (''C2'', 3, ''C2'')]) = min 2 MAX_REJECTED"
  using rejected_stay_few [of "[(''C1'', 5, ''C1''), (''C2'', 3, ''C2'')]"] by simp

text \<open>A certificate that lies in two files of the trusted directory stays trusted after it is distrusted.\<close>

lemma second_copy_stays_trusted:
  "let p = \<lparr>pk_own = old_pair, pk_trusted = [(''plc.der'', (5, ''C7'')), (''copy.der'', (6, ''C7''))], pk_rejected = []\<rparr>;
       (r, p1) = untrust text_x509 ''7'' p
   in r = Inr (cert_info text_x509 ''C7'') \<and> find_cert text_x509 ''7'' (pk_trusted p1) = Some (''copy.der'', ''C7'')"
  by (simp add: untrust_def find_cert_def dir_remove_def dir_put_def text_x509_def eq_ignore_ascii_case_def)

text \<open>A start that finds a key but no readable certificate makes a new pair and overwrites the key, for
  which there may be a backup.\<close>

lemma unreadable_certificate_replaces_key:
  "let own = \<lparr>ow_cert = Some ''torn'', ow_key = Some ''K1'', ow_cert_baks = [(''20240101T000000.000'', ''C1'')],
                ow_key_baks = [(''20240101T000000.000'', ''K1'')]\<rparr>
   in \<exists>own1. ensure_own text_x509 (''C9'', ''K9'') own = Inr (True, own1) \<and> ow_key own1 = Some ''K9''"
  by (simp add: ensure_own_def readable_pair_def text_x509_def create_own_def)

end
