(* ===== verification/Browser.thy ===== *)
theory Browser
  imports Web_Auth Discovery Sessions Audit_Value "HOL-Library.Product_Lexorder"
begin

text \<open>
  The OPC UA browser of the web interface (src/web/browser.rs): the sessions its users hold on the
  targets, how one is opened and how it ends, with the records made of it, and the reads made over one.
  The server's answers and the fate of a session's connection are arguments.
\<close>

section \<open>Sessions\<close>

definition BROWSER_IDLE :: time where "BROWSER_IDLE = secs 600"
definition MAX_BROWSE_PAGES :: nat where "MAX_BROWSE_PAGES = 20"

text \<open>\<open>be_session\<close> is the number of the upstream session.\<close>

record browser_entry =
  be_session :: nat
  be_used :: time
  be_user :: string
  be_target :: string

type_synonym browser = "((string \<times> string) \<times> browser_entry) list"

definition browser_client :: "string \<Rightarrow> client_context" where
  "browser_client u = default_client\<lparr>remote_addr := ''web-ui'', application_name := Some ''Gateway web browser'',
     user := Some (UserName (''ui:'' @ u))\<rparr>"

text \<open>\<open>close\<close>: the record of the end of a session.\<close>

definition closed_record :: "time \<Rightarrow> browser_entry \<Rightarrow> audit_entry" where
  "closed_record now e = with_client (browser_client (be_user e)) (with_target (be_target e) (new_entry now SessionClosed))"

definition opened_record :: "time \<Rightarrow> string \<Rightarrow> string \<Rightarrow> string \<Rightarrow> audit_entry" where
  "opened_record now u t who = with_client (browser_client u) (with_target t
     (new_entry now (SessionCreated (''web browser as '' @ who))))"

text \<open>\<open>get\<close>; \<open>ended\<close> tells whose event loop has finished.\<close>

definition browser_get :: "time \<Rightarrow> (nat \<Rightarrow> bool) \<Rightarrow> string \<Rightarrow> string \<Rightarrow> browser \<Rightarrow> nat option \<times> browser" where
  "browser_get now ended u t b = (case map_of b (u, t) of
     None \<Rightarrow> (None, b)
   | Some e \<Rightarrow>
       if ended (be_session e) then (None, bt_remove (u, t) b)
       else (Some (be_session e), bt_put (u, t) (e\<lparr>be_used := now\<rparr>) b))"

text \<open>Sessions whose key or entry is chosen are removed and closed one after the other.\<close>

definition close_where :: "time \<Rightarrow> (string \<times> string \<Rightarrow> browser_entry \<Rightarrow> bool) \<Rightarrow> browser \<Rightarrow> audit_entry list \<times> browser" where
  "close_where now P b = (map (\<lambda>(k, e). closed_record now e) (filter (\<lambda>(k, e). P k e) b), bt_retain (\<lambda>k e. \<not> P k e) b)"

definition close_user :: "time \<Rightarrow> string \<Rightarrow> browser \<Rightarrow> audit_entry list \<times> browser" where
  "close_user now u = close_where now (\<lambda>k e. fst k = u)"

definition close_all :: "time \<Rightarrow> browser \<Rightarrow> audit_entry list \<times> browser" where
  "close_all now = close_where now (\<lambda>k e. True)"

definition close_target :: "time \<Rightarrow> string \<Rightarrow> browser \<Rightarrow> audit_entry list \<times> browser" where
  "close_target now t = close_where now (\<lambda>k e. snd k = t)"

definition reap_idle :: "time \<Rightarrow> browser \<Rightarrow> audit_entry list \<times> browser" where
  "reap_idle now = close_where now (\<lambda>k e. BROWSER_IDLE < elapsed now (be_used e))"

text \<open>\<open>take\<close> and closing what was taken.\<close>

definition close_own :: "time \<Rightarrow> string \<Rightarrow> string \<Rightarrow> browser \<Rightarrow> audit_entry list \<times> browser" where
  "close_own now u t b = (case map_of b (u, t) of
     None \<Rightarrow> ([], b)
   | Some e \<Rightarrow> ([closed_record now e], bt_remove (u, t) b))"

section \<open>Opening a session\<close>

definition carries_login :: "sec \<Rightarrow> token_type \<Rightarrow> endpoint \<Rightarrow> token_policy \<Rightarrow> bool" where
  "carries_login S token e t \<longleftrightarrow> tp_token_type t = token \<and> is_relayable_token t \<and>
     (token \<noteq> TUserName \<or> ep_policy S e \<noteq> PolicyNone \<or>
      from_uri S (tp_policy_uri t) \<notin> {PolicyNone, PolicyUnknown})"

definition pick_endpoint :: "sec \<Rightarrow> endpoint list \<Rightarrow> token_type \<Rightarrow> endpoint option" where
  "pick_endpoint S es token =
     (case sort_key (\<lambda>e. (- int (min_rank (security_of S e)), - int (ep_level e)))
        (filter (\<lambda>e. ep_policy S e \<noteq> PolicyUnknown \<and> supported S (ep_policy S e) \<and>
                     list_ex (carries_login S token e) (ep_tokens e)) es) of
        [] \<Rightarrow> None | e # _ \<Rightarrow> Some e)"

definition connect_login :: "string option \<Rightarrow> token_type \<times> string" where
  "connect_login username = (case username of
     Some u \<Rightarrow> if u = [] then (TAnonymous, ''anonymous'') else (TUserName, u)
   | None \<Rightarrow> (TAnonymous, ''anonymous''))"

datatype browser_error =
    NoTarget string | Unreachable u32 | NoLoginEndpoint | ExpiredCertificate | NoSession | NotConnected | TooManyNodes | BadNode string
  | ServerAnswer status

text \<open>The endpoint to connect to, or why not; \<open>valid\<close> checks the dates of a certificate. The address is
  the configured one.\<close>

definition connect_endpoint :: "sec \<Rightarrow> (string \<Rightarrow> bool) \<Rightarrow> target_config \<Rightarrow> u32 + endpoint list \<Rightarrow> token_type \<Rightarrow> browser_error + endpoint" where
  "connect_endpoint S valid t endpoints token = (case endpoints of
     Inl s \<Rightarrow> Inl (Unreachable s)
   | Inr es \<Rightarrow> (case pick_endpoint S es token of
       None \<Rightarrow> Inl NoLoginEndpoint
     | Some e \<Rightarrow>
         if ep_policy S e \<noteq> PolicyNone \<and> \<not> valid (ep_certificate e) then Inl ExpiredCertificate
         else Inr (e\<lparr>ep_url := t_endpoint_url t\<rparr>)))"

text \<open>The end of \<open>connect\<close>, once the session \<open>n\<close> is open: another connect may have been faster.\<close>

definition connect_done :: "time \<Rightarrow> nat \<Rightarrow> string \<Rightarrow> string \<Rightarrow> string \<Rightarrow> browser \<Rightarrow> audit_entry list \<times> browser" where
  "connect_done now n u t who b =
     (opened_record now u t who # (case map_of b (u, t) of Some e \<Rightarrow> [closed_record now e] | None \<Rightarrow> []),
      bt_put (u, t) \<lparr>be_session = n, be_used = now, be_user = u, be_target = t\<rparr> b)"

text \<open>The whole request; \<open>opens\<close> is the new session or that none could be opened.\<close>

definition browser_connect :: "sec \<Rightarrow> (string \<Rightarrow> bool) \<Rightarrow> time \<Rightarrow> target_config \<Rightarrow> u32 + endpoint list \<Rightarrow> (endpoint \<Rightarrow> nat option)
    \<Rightarrow> string \<Rightarrow> string option \<Rightarrow> browser \<Rightarrow> (browser_error + (endpoint \<times> string)) \<times> audit_entry list \<times> browser" where
  "browser_connect S valid now t endpoints opens u username b =
     (let (closed, b1) = close_own now u (t_name t) b; (token, who) = connect_login username in
      case connect_endpoint S valid t endpoints token of
        Inl e \<Rightarrow> (Inl e, closed, b1)
      | Inr e \<Rightarrow> (case opens e of
          None \<Rightarrow> (Inl NoSession, closed, b1)
        | Some n \<Rightarrow> (case connect_done now n u (t_name t) who b1 of
            (recs, b2) \<Rightarrow> (Inr (e, who), closed @ recs, b2))))"

section \<open>Reading\<close>

record reference =
  rf_node :: string
  rf_browse_name :: string
  rf_display_name :: string
  rf_class :: string

text \<open>One answer to a browse: its status, its references and the continuation point.\<close>

record browse_page =
  bp_status :: status
  bp_refs :: "reference list option"
  bp_more :: "string option"

record browse_item =
  bi_ref :: reference
  bi_children :: bool

definition refs_of :: "browse_page \<Rightarrow> reference list" where
  "refs_of p = (case bp_refs p of Some rs \<Rightarrow> rs | None \<Rightarrow> [])"

text \<open>The pages of one node: \<open>next\<close> answers a continuation point. \<open>k\<close> more pages may be looked at; the
  next one is asked for before that is known.\<close>

fun browse_pages :: "(status \<Rightarrow> bool) \<Rightarrow> (string \<Rightarrow> status + browse_page option) \<Rightarrow> nat \<Rightarrow> browse_page option
    \<Rightarrow> status + reference list" where
  "browse_pages bad next 0 p = Inr []"
| "browse_pages bad next (Suc k) p = (case p of
     None \<Rightarrow> Inr []
   | Some p \<Rightarrow>
       if bad (bp_status p) then Inl (bp_status p)
       else (case bp_more p of
           None \<Rightarrow> Inr (refs_of p)
         | Some cp \<Rightarrow> (case next cp of
             Inl e \<Rightarrow> Inl e
           | Inr q \<Rightarrow> map_sum id ((@) (refs_of p)) (browse_pages bad next k q))))"

text \<open>\<open>mark_leaves\<close>: batches of 100 nodes; a batch that fails ends it and the rest keep their arrows.\<close>

fun mark_batch :: "(status \<Rightarrow> bool) \<Rightarrow> browse_page list \<Rightarrow> browse_item list \<Rightarrow> browse_item list" where
  "mark_batch good (p # ps) (i # is) =
     (if good (bp_status p) then i\<lparr>bi_children := refs_of p \<noteq> []\<rparr> else i) # mark_batch good ps is"
| "mark_batch good _ is = is"

function mark_leaves :: "(status \<Rightarrow> bool) \<Rightarrow> (string list \<Rightarrow> browse_page list option) \<Rightarrow> browse_item list \<Rightarrow> browse_item list" where
  "mark_leaves good ask is = (if is = [] then [] else case ask (map (rf_node \<circ> bi_ref) (take 100 is)) of
     None \<Rightarrow> is
   | Some ps \<Rightarrow> mark_batch good ps (take 100 is) @ mark_leaves good ask (drop 100 is))"
  by pat_completeness auto
termination by (relation "measure (length \<circ> snd \<circ> snd)") auto

declare mark_leaves.simps [simp del]

definition browse :: "'n ua \<Rightarrow> (string \<Rightarrow> status + browse_page option) \<Rightarrow> (string list \<Rightarrow> browse_page list option)
    \<Rightarrow> status + browse_page option \<Rightarrow> browser_error + browse_item list" where
  "browse U next ask answer = (case answer of
     Inl e \<Rightarrow> Inl (ServerAnswer e)
   | Inr p \<Rightarrow> (case browse_pages (is_bad U) next MAX_BROWSE_PAGES p of
       Inl e \<Rightarrow> Inl (ServerAnswer e)
     | Inr rs \<Rightarrow> Inr (mark_leaves (is_good U) ask (map (\<lambda>r. \<lparr>bi_ref = r, bi_children = True\<rparr>) rs))))"

text \<open>\<open>values\<close>: the nodes to read, and the answers put beside them.\<close>

record value_item =
  vi_node :: string
  vi_value :: "audit_value option option"
  vi_status :: string

fun parse_nodes :: "(string \<Rightarrow> 'n option) \<Rightarrow> string list \<Rightarrow> browser_error + 'n list" where
  "parse_nodes P [] = Inr []"
| "parse_nodes P (n # ns) = (case P n of
     None \<Rightarrow> Inl (BadNode n)
   | Some p \<Rightarrow> map_sum id ((#) p) (parse_nodes P ns))"

definition read_values :: "'n ua \<Rightarrow> (string \<Rightarrow> 'n option) \<Rightarrow> ('n list \<Rightarrow> status + data_value list) \<Rightarrow> string list
    \<Rightarrow> browser_error + value_item list" where
  "read_values U P read ns =
     (if 500 < length ns then Inl TooManyNodes
      else (case parse_nodes P ns of
          Inl e \<Rightarrow> Inl e
        | Inr ps \<Rightarrow> (case read ps of
            Inl e \<Rightarrow> Inl (ServerAnswer e)
          | Inr vs \<Rightarrow> Inr (map (\<lambda>(n, v). \<lparr>vi_node = n, vi_value = map_option (to_audit_value U) (dv_value v),
              vi_status = status_text U (case dv_status v of Some s \<Rightarrow> s | None \<Rightarrow> 0)\<rparr>) (zip ns vs)))))"

text \<open>\<open>attributes\<close>: what is shown of attribute \<open>i\<close>, if anything.\<close>

definition BadAttributeIdInvalid :: status where "BadAttributeIdInvalid = 0x80350000"

record attribute_item =
  ai_attribute :: nat
  ai_value :: "audit_value option option"
  ai_status :: "string option"

definition attribute_item :: "'n ua \<Rightarrow> nat \<Rightarrow> data_value \<Rightarrow> attribute_item option" where
  "attribute_item U i v =
     (let s = (case dv_status v of Some s \<Rightarrow> s | None \<Rightarrow> 0) in
      if s = BadAttributeIdInvalid \<or> is_good U s \<and> dv_value v = None then None
      else Some \<lparr>ai_attribute = i, ai_value = map_option (to_audit_value U) (dv_value v),
        ai_status = (if is_good U s then None else Some (status_text U s))\<rparr>)"

definition attributes :: "'n ua \<Rightarrow> (nat list \<Rightarrow> status + data_value list) \<Rightarrow> browser_error + attribute_item list" where
  "attributes U read = (case read [1..<28] of
     Inl e \<Rightarrow> Inl (ServerAnswer e)
   | Inr vs \<Rightarrow> Inr (List.map_filter (\<lambda>(i, v). attribute_item U i v) (zip [1..<28] vs)))"

end
