(* ===== verification/Browser_Safety.thy ===== *)
theory Browser_Safety
  imports Browser Summarise
begin

text \<open>
  The browser of the web interface (src/web/browser.rs): the trail knows of every session it opens, and
  a password is tried only at secured endpoints.
\<close>

section \<open>Histories of sessions\<close>

text \<open>\<open>hi_dropped\<close> collects the sessions removed because their connection had ended.\<close>

record browser_history =
  hi_browser :: browser
  hi_records :: "audit_entry list"
  hi_dropped :: "(string \<times> string) list"

datatype browser_op =
    OpConnect target_config "u32 + endpoint list" "endpoint \<Rightarrow> nat option" string "string option"
  | OpDone nat string string string
  | OpGet "nat \<Rightarrow> bool" string string
  | OpDisconnect string string
  | OpCloseUser string
  | OpCloseTarget string
  | OpCloseAll
  | OpReap

definition after_close :: "audit_entry list \<times> browser \<Rightarrow> browser_history \<Rightarrow> browser_history" where
  "after_close r h = h\<lparr>hi_browser := snd r, hi_records := hi_records h @ fst r\<rparr>"

fun browser_step :: "sec \<Rightarrow> (string \<Rightarrow> bool) \<Rightarrow> time \<times> browser_op \<Rightarrow> browser_history \<Rightarrow> browser_history" where
  "browser_step S valid (now, OpConnect t es opens u name) h = after_close (snd (browser_connect S valid now t es opens u name (hi_browser h))) h"
| "browser_step S valid (now, OpDone n u t who) h = after_close (connect_done now n u t who (hi_browser h)) h"
| "browser_step S valid (now, OpGet ended u t) h = h\<lparr>hi_browser := snd (browser_get now ended u t (hi_browser h)),
     hi_dropped := hi_dropped h @ (case map_of (hi_browser h) (u, t) of
         Some e \<Rightarrow> if ended (be_session e) then [(u, t)] else [] | None \<Rightarrow> [])\<rparr>"
| "browser_step S valid (now, OpDisconnect u t) h = after_close (close_own now u t (hi_browser h)) h"
| "browser_step S valid (now, OpCloseUser u) h = after_close (close_user now u (hi_browser h)) h"
| "browser_step S valid (now, OpCloseTarget t) h = after_close (close_target now t (hi_browser h)) h"
| "browser_step S valid (now, OpCloseAll) h = after_close (close_all now (hi_browser h)) h"
| "browser_step S valid (now, OpReap) h = after_close (reap_idle now (hi_browser h)) h"

definition is_created :: "audit_event \<Rightarrow> bool" where
  "is_created ev = (case ev of SessionCreated _ \<Rightarrow> True | _ \<Rightarrow> False)"

text \<open>How many sessions of a user on a target the trail says were opened and closed.\<close>

definition of_session :: "string \<Rightarrow> string \<Rightarrow> audit_entry \<Rightarrow> bool" where
  "of_session u t r \<longleftrightarrow> e_client r = Some (browser_client u) \<and> e_target r = Some t"

definition opened :: "string \<Rightarrow> string \<Rightarrow> audit_entry list \<Rightarrow> nat" where
  "opened u t rs = length (filter (\<lambda>r. is_created (e_event r) \<and> of_session u t r) rs)"

definition ended :: "string \<Rightarrow> string \<Rightarrow> audit_entry list \<Rightarrow> nat" where
  "ended u t rs = length (filter (\<lambda>r. e_event r = SessionClosed \<and> of_session u t r) rs)"

definition open_now :: "string \<Rightarrow> string \<Rightarrow> browser \<Rightarrow> nat" where
  "open_now u t b = (if map_of b (u, t) = None then 0 else 1)"

definition browser_ok :: "browser \<Rightarrow> bool" where
  "browser_ok b \<longleftrightarrow> bt_sorted b \<and> (\<forall>(k, e) \<in> set b. k = (be_user e, be_target e))"

definition sessions_accounted :: "string \<Rightarrow> string \<Rightarrow> browser_history \<Rightarrow> bool" where
  "sessions_accounted u t h \<longleftrightarrow> opened u t (hi_records h) =
     ended u t (hi_records h) + open_now u t (hi_browser h) + count_list (hi_dropped h) (u, t)"

lemma browser_client_inject [simp]: "browser_client u = browser_client v \<longleftrightarrow> u = v"
  by (auto simp: browser_client_def default_client_def)

lemma record_facts [simp]:
  "e_event (closed_record now e) = SessionClosed" "of_session u t (closed_record now e) \<longleftrightarrow> be_user e = u \<and> be_target e = t"
  "e_event (opened_record now v s l) = SessionCreated (''web browser as '' @ l)" "of_session u t (opened_record now v s l) \<longleftrightarrow> v = u \<and> s = t"
  by (auto simp: closed_record_def opened_record_def of_session_def)

lemma counts_append [simp]: "opened u t (xs @ ys) = opened u t xs + opened u t ys" "ended u t (xs @ ys) = ended u t xs + ended u t ys"
  by (simp_all add: opened_def ended_def)

lemma counts_cons [simp]:
  "opened u t (r # rs) = (if is_created (e_event r) \<and> of_session u t r then 1 else 0) + opened u t rs" "opened u t [] = 0"
  "ended u t (r # rs) = (if e_event r = SessionClosed \<and> of_session u t r then 1 else 0) + ended u t rs" "ended u t [] = 0"
  by (simp_all add: opened_def ended_def)

lemma is_created_simps [simp]: "is_created (SessionCreated s)" "\<not> is_created SessionClosed"
  by (simp_all add: is_created_def)

lemma key_of: "browser_ok b \<Longrightarrow> map_of b (u, t) = Some e \<Longrightarrow> be_user e = u \<and> be_target e = t"
  by (force simp: browser_ok_def dest: map_of_SomeD)

lemma browser_ok_change:
  assumes "browser_ok b"
  shows "browser_ok (bt_remove k b)" and "k = (be_user e, be_target e) \<Longrightarrow> browser_ok (bt_put k e b)"
  using assms bt_sorted_remove [of b k] by (auto simp: browser_ok_def bt_remove_def dest!: set_bt_put)

lemma length_filter_key:
  "distinct (map fst m) \<Longrightarrow> length (filter (\<lambda>(k, v). k = a \<and> P k v) m) = (case map_of m a of Some v \<Rightarrow> if P a v then 1 else 0 | None \<Rightarrow> 0)"
proof (induction m)
  case (Cons x m)
  have "filter (\<lambda>(k, v). k = fst x \<and> P k v) m = []" if "fst x \<notin> fst ` set m"
    using that by (induction m) auto
  with Cons show ?case by (cases x) (auto dest: map_of_SomeD split: option.splits)
qed simp

lemma close_where_counts:
  assumes "browser_ok b"
  shows "opened u t (fst (close_where now P b)) = 0"
    and "ended u t (fst (close_where now P b)) + open_now u t (snd (close_where now P b)) = open_now u t b"
    and "browser_ok (snd (close_where now P b))"
proof -
  have d: "distinct (map fst b)" using assms by (simp add: browser_ok_def bt_sorted_distinct)
  show "opened u t (fst (close_where now P b)) = 0"
    by (auto simp: close_where_def opened_def filter_empty_conv)
  have "ended u t (fst (close_where now P b)) = length (filter (\<lambda>(k, e). k = (u, t) \<and> P k e) b)"
    using assms unfolding close_where_def ended_def browser_ok_def
    by (auto simp: filter_map comp_def case_prod_beta intro!: arg_cong [where f = length] filter_cong)
  then show "ended u t (fst (close_where now P b)) + open_now u t (snd (close_where now P b)) = open_now u t b"
    unfolding length_filter_key [OF d]
    by (simp add: close_where_def open_now_def map_of_bt_retain [OF d] split: option.splits)
  show "browser_ok (snd (close_where now P b))"
    using assms by (auto simp: browser_ok_def close_where_def bt_retain_def intro: bt_sorted_filter)
qed

lemma close_own_counts:
  assumes "browser_ok b"
  shows "opened u t (fst (close_own now v s b)) = 0"
    and "ended u t (fst (close_own now v s b)) + open_now u t (snd (close_own now v s b)) = open_now u t b"
    and "browser_ok (snd (close_own now v s b))"
  using assms key_of [OF assms]
  by (auto simp: close_own_def open_now_def browser_ok_change split: option.splits)

lemma connect_done_counts:
  assumes "browser_ok b"
  shows "opened u t (fst (connect_done now n v s l b)) + open_now u t b =
      ended u t (fst (connect_done now n v s l b)) + open_now u t (snd (connect_done now n v s l b))"
    and "browser_ok (snd (connect_done now n v s l b))"
  using assms key_of [OF assms]
  by (auto simp: connect_done_def open_now_def browser_ok_change split: option.splits)

lemma after_close_accounted:
  assumes "sessions_accounted u t h" and "opened u t (fst r) + open_now u t (hi_browser h) = ended u t (fst r) + open_now u t (snd r)"
  shows "sessions_accounted u t (after_close r h)"
  using assms by (simp add: sessions_accounted_def after_close_def)

lemma connect_counts:
  assumes "browser_ok b" and "browser_connect S valid now c es opens v name b = (res, recs, b2)"
  shows "opened u t recs + open_now u t b = ended u t recs + open_now u t b2" and "browser_ok b2"
proof -
  obtain closed b1 where own: "close_own now v (t_name c) b = (closed, b1)" by (metis surj_pair)
  obtain token who where login: "connect_login name = (token, who)" by (metis surj_pair)
  note c = close_own_counts [OF assms(1), where now = now and v = v and s = "t_name c", unfolded own fst_conv snd_conv]
  define dr db where "dr n = fst (connect_done now n v (t_name c) who b1)" and "db n = snd (connect_done now n v (t_name c) who b1)" for n
  then have don: "connect_done now n v (t_name c) who b1 = (dr n, db n)" for n by simp
  have d: "opened u t (dr n) + open_now u t b1 = ended u t (dr n) + open_now u t (db n)" "browser_ok (db n)" for n
    using connect_done_counts(1) [OF c(3), of u t now n v "t_name c" who] connect_done_counts(2) [OF c(3), of now n v "t_name c" who]
    by (simp_all add: don)
  have "opened u t (dr n) + open_now u t b = ended u t closed + ended u t (dr n) + open_now u t (db n)" for n
    using d(1) [of n] c(2) [of u t] by linarith
  then show "opened u t recs + open_now u t b = ended u t recs + open_now u t b2" "browser_ok b2"
    using assms(2) c(1,2) [of u t] c(3) d(2)
    by (auto simp: browser_connect_def own login don Let_def split: sum.splits option.splits)
qed

lemma browser_step_ok:
  assumes "browser_ok (hi_browser h)" and "sessions_accounted u t h"
  shows "browser_ok (hi_browser (browser_step S valid x h)) \<and> sessions_accounted u t (browser_step S valid x h)"
proof -
  note w = close_where_counts [OF assms(1)] and own = close_own_counts [OF assms(1)] and fin = connect_done_counts [OF assms(1)]
  obtain now op where x: "x = (now, op)" by (cases x)
  have close: "browser_ok (hi_browser (after_close (close_where now P (hi_browser h)) h)) \<and> sessions_accounted u t (after_close (close_where now P (hi_browser h)) h)" for P
    using after_close_accounted [OF assms(2), of "close_where now P (hi_browser h)"] w [where now = now and P = P]
    by (simp add: after_close_def)
  show ?thesis
  proof (cases op)
    case (OpConnect c es opens v name)
    obtain res recs b2 where r: "browser_connect S valid now c es opens v name (hi_browser h) = (res, recs, b2)" by (metis prod_cases3)
    from connect_counts [OF assms(1) r] after_close_accounted [OF assms(2), of "(recs, b2)"] show ?thesis
      by (simp add: x OpConnect r after_close_def)
  next
    case (OpDone n v s l)
    with fin after_close_accounted [OF assms(2), of "connect_done now n v s l (hi_browser h)"] show ?thesis
      by (simp add: x after_close_def)
  next
    case (OpGet dead v s)
    then show ?thesis
      using assms key_of [OF assms(1), of v s]
      by (auto simp: x sessions_accounted_def browser_get_def open_now_def browser_ok_change count_list_append split: option.splits)
  next
    case (OpDisconnect v s)
    with own [where now = now and v = v and s = s] after_close_accounted [OF assms(2), of "close_own now v s (hi_browser h)"] show ?thesis
      by (simp add: x after_close_def)
  qed (use close in \<open>simp_all add: x close_user_def close_target_def close_all_def reap_idle_def\<close>)
qed

interpretation histories: stepper "\<lambda>h x. browser_step S valid x h" "\<lambda>h. browser_ok (hi_browser h) \<and> sessions_accounted u t h" for S valid u t
  by unfold_locales (use browser_step_ok in blast)

definition browser_start :: browser_history where
  "browser_start = \<lparr>hi_browser = [], hi_records = [], hi_dropped = []\<rparr>"

text \<open>C35. Whatever the users do, at once or one after the other, and however their sessions end, the trail
  accounts for the browser sessions of every user on every target: the sessions recorded as opened are
  those recorded as closed, the one that is open now, and those whose connection had broken when they
  were next used, which are dropped without a record.\<close>

theorem browser_sessions_are_accounted:
  "sessions_accounted u t (fold (browser_step S valid) ops browser_start)"
  using histories.run_inv [of browser_start u t S valid ops]
  by (simp add: browser_start_def browser_ok_def sessions_accounted_def open_now_def foldl_conv_fold)

text \<open>The session whose connection broke leaves no record of its end.\<close>

lemma broken_session_has_no_end:
  "opened ''ann'' ''plc'' (hi_records (fold (browser_step S valid) [(0, OpDone 1 ''ann'' ''plc'' ''anonymous''), (5, OpGet (\<lambda>_. True) ''ann'' ''plc'')] browser_start)) = 1 \<and>
   ended ''ann'' ''plc'' (hi_records (fold (browser_step S valid) [(0, OpDone 1 ''ann'' ''plc'' ''anonymous''), (5, OpGet (\<lambda>_. True) ''ann'' ''plc'')] browser_start)) = 0 \<and>
   hi_browser (fold (browser_step S valid) [(0, OpDone 1 ''ann'' ''plc'' ''anonymous''), (5, OpGet (\<lambda>_. True) ''ann'' ''plc'')] browser_start) = []"
  by (simp add: browser_start_def after_close_def connect_done_def browser_get_def bt_remove_def)

section \<open>Logins\<close>

lemma sort_key_first: "sort_key f xs = e # es \<Longrightarrow> e \<in> set xs \<and> (\<forall>x \<in> set xs. f e \<le> f x)"
  by (metis list.set_intros(1) set_ConsD set_sort sorted_sort_key list.simps(9) sorted_simps(2) image_eqI list.set_map order_refl)

text \<open>A user name login is tried only at an endpoint with a security policy, or one whose token policy
  encrypts the password. And no endpoint that could carry the login is more secure, whatever security
  level the server claims for it.\<close>

theorem password_logins_need_security:
  assumes "pick_endpoint S es TUserName = Some e"
  shows "e \<in> set es \<and> (ep_policy S e \<noteq> PolicyNone \<or>
      (\<exists>t \<in> set (ep_tokens e). tp_token_type t = TUserName \<and> from_uri S (tp_policy_uri t) \<notin> {PolicyNone, PolicyUnknown})) \<and>
    (\<forall>x \<in> set es. security_of S e < security_of S x \<longrightarrow>
       ep_policy S x = PolicyUnknown \<or> \<not> supported S (ep_policy S x) \<or> \<not> list_ex (carries_login S TUserName x) (ep_tokens x))"
proof -
  let ?ok = "\<lambda>e. ep_policy S e \<noteq> PolicyUnknown \<and> supported S (ep_policy S e) \<and> list_ex (carries_login S TUserName e) (ep_tokens e)"
  obtain rest where "sort_key (\<lambda>e. (- int (min_rank (security_of S e)), - int (ep_level e))) (filter ?ok es) = e # rest"
    using assms by (auto simp: pick_endpoint_def split: list.splits)
  from sort_key_first [OF this] have e: "e \<in> set es" "?ok e"
    and best: "\<And>x. x \<in> set es \<Longrightarrow> ?ok x \<Longrightarrow> (- int (min_rank (security_of S e)), - int (ep_level e)) \<le> (- int (min_rank (security_of S x)), - int (ep_level x))"
    by auto
  have "\<not> ?ok x" if "x \<in> set es" "security_of S e < security_of S x" for x
    using best [OF that(1)] that(2) by (auto simp: less_eq_prod_def less_min_security_def)
  moreover have "ep_policy S e \<noteq> PolicyNone \<or> (\<exists>t \<in> set (ep_tokens e). tp_token_type t = TUserName \<and> from_uri S (tp_policy_uri t) \<notin> {PolicyNone, PolicyUnknown})"
    using e(2) by (auto simp: list_ex_iff carries_login_def)
  ultimately show ?thesis using e(1) by blast
qed

definition login_endpoint :: "string \<Rightarrow> security_mode \<Rightarrow> string \<Rightarrow> nat \<Rightarrow> endpoint" where
  "login_endpoint p mode tp level = (toy_endpoint p)\<lparr>ep_mode := mode, ep_level := level,
     ep_tokens := [\<lparr>tp_policy_id = ''u'', tp_token_type = TUserName, tp_policy_uri = tp\<rparr>]\<rparr>"

theorem password_logins_need_security_witness:
  "let es = [login_endpoint ''none'' ModeNone ''none'' 9, login_endpoint ''b'' ModeSign [] 1, login_endpoint ''b'' ModeSignAndEncrypt [] 0]
   in pick_endpoint toy_sec es TUserName = Some (es ! 2) \<and> (\<forall>x \<in> set es. \<not> security_of toy_sec (es ! 2) < security_of toy_sec x)"
proof -
  let ?es = "[login_endpoint ''none'' ModeNone ''none'' 9, login_endpoint ''b'' ModeSign [] 1, login_endpoint ''b'' ModeSignAndEncrypt [] 0]"
  have "pick_endpoint toy_sec ?es TUserName = Some (login_endpoint ''b'' ModeSignAndEncrypt [] 0)"
    by (simp add: pick_endpoint_def login_endpoint_def toy_endpoint_def toy_sec_def ep_policy_def carries_login_def
        is_relayable_token_def security_of_def less_eq_prod_def)
  from password_logins_need_security [OF this] this show ?thesis
    by (simp add: less_min_security_def login_endpoint_def toy_endpoint_def security_of_def ep_policy_def toy_sec_def)
qed

text \<open>A signed channel does not hide what it carries: with a token policy that does not encrypt, the password
  is readable on the way.\<close>

lemma signed_channel_carries_plain_password:
  "pick_endpoint toy_sec [login_endpoint ''b'' ModeSign ''none'' 1] TUserName = Some (login_endpoint ''b'' ModeSign ''none'' 1)"
  by (simp add: pick_endpoint_def login_endpoint_def toy_endpoint_def toy_sec_def ep_policy_def carries_login_def is_relayable_token_def)

end
