(* ===== verification/Web_Api.thy ===== *)
theory Web_Api
  imports Targets Pki Browser Export Audit_Query
begin

text \<open>
  The web interface's REST API (src/web/mod.rs), first part: its state, the record of every change, and
  the requests on targets, their summarised nodes and discovery. A request is one function of the state.
  Every record it makes is stored before anything else looks at the trail, as if the writer handled each
  command on its own.
\<close>

section \<open>State and surroundings\<close>

record web =
  ap_manager :: manager
  ap_settings :: audit_settings
  ap_exports :: export_config
  ap_pki :: pki
  ap_web_pair :: own_pair
  ap_files :: "(string \<times> string) list"
  ap_users :: user_db
  ap_auth :: web_auth
  ap_browser :: browser
  ap_store :: store
  ap_lost :: nat

text \<open>What a request meets: the libraries, the clock, the fate of every record, of the configuration
  file and of ports, the answers of OPC UA servers, random texts and new key pairs.\<close>

record ('n, 'c, 'k) web_env =
  we_node :: "string \<Rightarrow> 'n option"
  we_addr :: addr_text
  we_out :: outcomes
  we_hash :: hashing
  we_salt :: string
  we_x509 :: "('c, 'k) x509_ops"
  we_codec :: codec
  we_json :: "string \<Rightarrow> string \<Rightarrow> string option"
  we_time :: time
  we_now :: string
  we_stamp :: string
  we_stores :: "audit_entry \<Rightarrow> bool"
  we_sec :: sec
  we_status :: "u32 \<Rightarrow> string"
  we_discover :: "string \<Rightarrow> string + endpoint list"
  we_upstream :: "string \<Rightarrow> u32 + endpoint list"
  we_connect :: "endpoint \<Rightarrow> connect_outcome"
  we_random :: "string \<times> string"
  we_pair :: "(string \<times> string) option"
  we_base64 :: "string \<Rightarrow> string option"
  we_hostnames :: "string list"
  we_uri :: "string \<Rightarrow> (string option \<times> string option \<times> nat option) option"
  we_file_ok :: "string \<Rightarrow> bool"
  we_sinks :: "(string \<Rightarrow> string option) \<Rightarrow> export_config \<Rightarrow> bool"
  we_positions_ok :: bool
  we_export_file :: state_file
  we_paths :: paths

text \<open>Failures, by the HTTP status they become.\<close>

datatype api_error =
    NeedsRole role
  | NoTargetNamed string
  | NoGroup string nat
  | GroupsChanged string
  | BadNodeId string
  | BadConfig config_error
  | BadPki pki_error
  | PkiFailed pki_error
  | KeyGeneration
  | BadUsers users_error
  | UsersFailed users_error
  | TokenMissing users_error
  | UpstreamFailed string
  | NotPresented string
  | NotOpcUrl
  | NotBase64
  | NotRecorded audit_error
  | TrailUnreadable store_error
  | BadCaText
  | EmptyTable
  | ZeroInterval
  | BadExport
  | BadHostName string
  | FileTrouble

fun http_status :: "api_error \<Rightarrow> nat" where
  "http_status (NeedsRole _) = 403"
| "http_status (NoTargetNamed _) = 404"
| "http_status (NoGroup _ _) = 404"
| "http_status (GroupsChanged _) = 409"
| "http_status (TokenMissing _) = 404"
| "http_status (UpstreamFailed _) = 502"
| "http_status (PkiFailed _) = 500"
| "http_status KeyGeneration = 500"
| "http_status (UsersFailed _) = 500"
| "http_status (NotRecorded _) = 500"
| "http_status (TrailUnreadable _) = 500"
| "http_status _ = 400"

section \<open>Records\<close>

definition commit_entry :: "('n, 'c, 'k) web_env \<Rightarrow> audit_entry \<Rightarrow> web \<Rightarrow> (audit_error + int) \<times> web" where
  "commit_entry V e s = (case append (we_codec V) (\<not> we_stores V e) [e] (ap_store s) of
     (Inr ns, st) \<Rightarrow> (Inr (hd ns), s\<lparr>ap_store := st\<rparr>)
   | (Inl err, st) \<Rightarrow> (Inl (StoreFailed err), s\<lparr>ap_store := st,
       ap_lost := ap_lost s + (if settings_fail_mode (ap_settings s) = FailOpen then 1 else 0)\<rparr>))"

text \<open>\<open>record\<close>: its caller learns of a failure only in fail-closed mode.\<close>

definition submit_entry :: "('n, 'c, 'k) web_env \<Rightarrow> audit_entry \<Rightarrow> web \<Rightarrow> (audit_error + unit) \<times> web" where
  "submit_entry V e s = (case commit_entry V e s of (r, s1) \<Rightarrow>
     (if settings_fail_mode (ap_settings s) = FailClosed then map_sum id (\<lambda>_. ()) r else Inr (), s1))"

fun submit_all :: "('n, 'c, 'k) web_env \<Rightarrow> audit_entry list \<Rightarrow> web \<Rightarrow> web" where
  "submit_all V [] s = s"
| "submit_all V (e # es) s = submit_all V es (snd (submit_entry V e s))"

definition change_entry :: "('n, 'c, 'k) web_env \<Rightarrow> auth_user \<Rightarrow> string \<Rightarrow> audit_entry" where
  "change_entry V u summary = new_entry (we_time V) (ConfigChanged (actor u) summary)"

definition config_changed :: "('n, 'c, 'k) web_env \<Rightarrow> auth_user \<Rightarrow> string \<Rightarrow> web \<Rightarrow> web" where
  "config_changed V u summary s = snd (commit_entry V (change_entry V u summary) s)"

text \<open>Browser sessions ended by a request.\<close>

definition end_sessions :: "('n, 'c, 'k) web_env \<Rightarrow> (browser \<Rightarrow> audit_entry list \<times> browser) \<Rightarrow> web \<Rightarrow> web" where
  "end_sessions V close s = (case close (ap_browser s) of (recs, b) \<Rightarrow> submit_all V recs (s\<lparr>ap_browser := b\<rparr>))"

section \<open>Host names\<close>

definition is_ascii_digit :: "char \<Rightarrow> bool" where
  "is_ascii_digit c \<longleftrightarrow> 48 \<le> (of_char c :: nat) \<and> (of_char c :: nat) \<le> 57"

definition host_name :: "string \<Rightarrow> string" where
  "host_name host = (case rsplit_once CHR '':'' host of
     Some (name, port) \<Rightarrow> if list_all is_ascii_digit port \<and> \<not> (name \<noteq> [] \<and> last name = CHR '':'') then name else host
   | None \<Rightarrow> host)"

definition is_loopback_host :: "string \<Rightarrow> bool" where
  "is_loopback_host host \<longleftrightarrow> host_name host \<in> set [''localhost'', ''127.0.0.1'', ''[::1]'']"

definition host_allowed :: "addr_text \<Rightarrow> string \<Rightarrow> bool \<Rightarrow> string list \<Rightarrow> bool" where
  "host_allowed A host loopback allowed \<longleftrightarrow> is_loopback_host host \<or> (\<not> loopback \<and>
     (let name = ascii_lower (host_name host); ip = trim_matches_end CHR '']'' (trim_matches_start CHR ''['' name)
      in name \<noteq> [] \<and> (parse_ip A ip \<noteq> None \<or> list_ex (\<lambda>n. eq_ignore_ascii_case n name) allowed)))"

section \<open>Targets\<close>

text \<open>The settings as shown: of the secrets only whether they are set.\<close>

record questdb_view =
  qv_url :: string
  qv_table :: string
  qv_username :: "string option"
  qv_password_set :: bool
  qv_token_set :: bool
  qv_ca_pem :: "string option"
  qv_interval_secs :: nat

record settings_view =
  sv_audit :: audit_config
  sv_database :: string
  sv_questdb :: "questdb_view option"
  sv_application_name :: string
  sv_application_uri :: string
  sv_hostnames :: "string list"
  sv_tls :: bool
  sv_mcp :: bool
  sv_transport_ok :: bool

datatype web_reply =
    Created
  | NoContent
  | GroupChange nat nat
  | CertificateShown certificate_info
  | EndpointsShown "endpoint_info list"
  | TokenShown api_token string
  | AlarmsShown "alarm_count list"
  | TargetsShown "(target \<times> target_status option) list"
  | CertificatesShown "certificate_info option" "certificate_info list" "certificate_info list"
  | RecordsShown "stored_record list"
  | ReportShown report
  | UsersShown "user_info list"
  | TokensShown "api_token list"
  | AllTokensShown "(string \<times> api_token) list"
  | SettingsShown settings_view

type_synonym web_result = "(api_error + web_reply) \<times> web"

definition quoted :: "string \<Rightarrow> string" where
  "quoted n = [CHR 0x27] @ n @ [CHR 0x27]"

definition find_target :: "string \<Rightarrow> web \<Rightarrow> target option" where
  "find_target n s = find (\<lambda>t. t_name t = n) (c_targets (mg_config (ap_manager s)))"

definition target_views :: "web \<Rightarrow> (target \<times> target_status option) list" where
  "target_views s = map (\<lambda>t. (t, map_of (mg_statuses (ap_manager s)) (t_name t))) (c_targets (mg_config (ap_manager s)))"

definition list_targets :: "auth_user \<Rightarrow> web \<Rightarrow> web_result" where
  "list_targets u s = (if \<not> require Auditor u then (Inl (NeedsRole Auditor), s) else (Inr (TargetsShown (target_views s)), s))"

definition create_target :: "('n, 'c, 'k) web_env \<Rightarrow> auth_user \<Rightarrow> target \<Rightarrow> web \<Rightarrow> web_result" where
  "create_target V u t0 s =
     (if \<not> require Admin u then (Inl (NeedsRole Admin), s)
      else (let t = t0\<lparr>t_summarise := migrate_ignore (t_ignore t0) (t_summarise t0), t_ignore := []\<rparr>;
                summary = ''added target '' @ quoted (t_name t) @ '' ('' @ show_addr (we_addr V) (t_listen t) @ '' -> '' @ t_endpoint_url t @ '')''
            in case upsert (we_node V) (we_addr V) (we_out V) t None (ap_manager s) of
              (Inl e, m) \<Rightarrow> (Inl (BadConfig e), s\<lparr>ap_manager := m\<rparr>)
            | (Inr _, m) \<Rightarrow> (Inr Created, config_changed V u summary (s\<lparr>ap_manager := m\<rparr>))))"

definition min_security_debug :: "min_security \<Rightarrow> string" where
  "min_security_debug m = (case m of MinNone \<Rightarrow> ''None'' | MinSign \<Rightarrow> ''Sign'' | MinSignAndEncrypt \<Rightarrow> ''SignAndEncrypt'')"

fun join_text :: "string \<Rightarrow> string list \<Rightarrow> string" where
  "join_text sep [] = []"
| "join_text sep [x] = x"
| "join_text sep (x # y # xs) = x @ sep @ join_text sep (y # xs)"

definition diff :: "string \<Rightarrow> string \<Rightarrow> string \<Rightarrow> string list" where
  "diff what a b = (if a \<noteq> b then [what @ '' '' @ a @ '' -> '' @ b] else [])"

definition target_diffs :: "addr_text \<Rightarrow> target \<Rightarrow> target \<Rightarrow> string list" where
  "target_diffs A old new =
     diff ''name'' (t_name old) (t_name new) @
     diff ''listen'' (show_addr A (t_listen old)) (show_addr A (t_listen new)) @
     diff ''endpoint'' (t_endpoint_url old) (t_endpoint_url new) @
     diff ''minimum security'' (min_security_debug (t_min_security old)) (min_security_debug (t_min_security new)) @
     diff ''discovery every'' (nat_str (t_discovery_interval_secs old) @ '' s'') (nat_str (t_discovery_interval_secs new) @ '' s'') @
     diff ''max connections'' (nat_str (t_max_connections old)) (nat_str (t_max_connections new)) @
     diff ''max connections per address'' (nat_str (t_max_connections_per_address old)) (nat_str (t_max_connections_per_address new))"

definition target_changes :: "addr_text \<Rightarrow> target \<Rightarrow> target \<Rightarrow> string" where
  "target_changes A old new =
     (if target_diffs A old new = [] then ''saved target '' @ quoted (t_name old) @ '' unchanged''
      else ''changed target '' @ quoted (t_name old) @ '': '' @ join_text '', '' (target_diffs A old new))"

definition update_target :: "('n, 'c, 'k) web_env \<Rightarrow> auth_user \<Rightarrow> string \<Rightarrow> target \<Rightarrow> web \<Rightarrow> web_result" where
  "update_target V u name t0 s =
     (if \<not> require Admin u then (Inl (NeedsRole Admin), s)
      else (case find_target name s of
          None \<Rightarrow> (Inl (NoTargetNamed name), s)
        | Some old \<Rightarrow>
            (let t = t0\<lparr>t_summarise := t_summarise old, t_ignore := []\<rparr>
             in case upsert (we_node V) (we_addr V) (we_out V) t (Some name) (ap_manager s) of
               (Inl e, m) \<Rightarrow> (Inl (BadConfig e), s\<lparr>ap_manager := m\<rparr>)
             | (Inr _, m) \<Rightarrow> (Inr NoContent, config_changed V u (target_changes (we_addr V) old t)
                 (end_sessions V (close_target (we_time V) name) (s\<lparr>ap_manager := m\<rparr>))))))"

definition delete_target :: "('n, 'c, 'k) web_env \<Rightarrow> auth_user \<Rightarrow> string \<Rightarrow> web \<Rightarrow> web_result" where
  "delete_target V u name s =
     (if \<not> require Admin u then (Inl (NeedsRole Admin), s)
      else (case remove_target (we_addr V) (we_out V) name (ap_manager s) of
          (Inl e, m) \<Rightarrow> (Inl (BadConfig e), s\<lparr>ap_manager := m\<rparr>)
        | (Inr _, m) \<Rightarrow> (Inr NoContent, config_changed V u (''removed target '' @ quoted name)
            (end_sessions V (close_target (we_time V) name) (s\<lparr>ap_manager := m\<rparr>)))))"

section \<open>Summarised nodes\<close>

record node_ref =
  nr_node_id :: string
  nr_name :: "string option"

record new_group =
  ng_name :: "string option"
  ng_client :: "string option"
  ng_nodes :: "node_ref list"

record group_check =
  gk_check :: bool
  gk_name :: "string option"
  gk_client :: "string option"

definition trimmed :: "string option \<Rightarrow> string option" where
  "trimmed t = (case t of None \<Rightarrow> None | Some v \<Rightarrow> if trim v = [] then None else Some (trim v))"

definition group_at :: "summarise_group list \<Rightarrow> nat \<Rightarrow> string \<Rightarrow> group_check \<Rightarrow> api_error + summarise_group" where
  "group_at gs i target expect =
     (if length gs \<le> i then Inl (NoGroup target i)
      else if gk_check expect \<and> \<not> (trimmed (g_name (gs ! i)) = trimmed (gk_name expect) \<and>
                                    trimmed (g_client (gs ! i)) = trimmed (gk_client expect))
      then Inl (GroupsChanged target)
      else Inr (gs ! i))"

fun add_refs :: "(string \<Rightarrow> 'n option) \<Rightarrow> 'n set \<Rightarrow> node_ref list \<Rightarrow> summarise_group \<times> nat \<Rightarrow> api_error + (summarise_group \<times> nat)" where
  "add_refs P present [] r = Inr r"
| "add_refs P present (n # ns) (g, added) =
     (let i = trim (nr_node_id n) in
      if i = [] then add_refs P present ns (g, added)
      else (case parse_node P i of
          None \<Rightarrow> Inl (BadNodeId i)
        | Some p \<Rightarrow>
            if p \<in> present then add_refs P present ns (g, added)
            else add_refs P (insert p present) ns
              (g\<lparr>nodes := nodes g @ [i],
                 names := (case trimmed (nr_name n) of Some l \<Rightarrow> bt_put i (clip l MAX_NAME) (names g) | None \<Rightarrow> names g)\<rparr>, added + 1)))"

definition add_to_group :: "(string \<Rightarrow> 'n option) \<Rightarrow> summarise_group \<Rightarrow> node_ref list \<Rightarrow> api_error + (summarise_group \<times> nat)" where
  "add_to_group P g ns = add_refs P (set (node_set P g)) ns (g, 0)"

definition nodes_text :: "nat \<Rightarrow> string" where
  "nodes_text n = (if n = 1 then ''1 node'' else nat_str n @ '' nodes'')"

text \<open>What the handlers give to \<open>update_summarise\<close>, for the group at a position.\<close>

definition create_group_change :: "(string \<Rightarrow> 'n option) \<Rightarrow> new_group \<Rightarrow> summarise_group list
    \<Rightarrow> api_error + (((nat \<times> nat) \<times> string) \<times> summarise_group list)" where
  "create_group_change P new gs =
     (case add_to_group P \<lparr>g_name = trimmed (ng_name new), g_client = trimmed (ng_client new), nodes = [], names = []\<rparr> (ng_nodes new) of
        Inl e \<Rightarrow> Inl e
      | Inr (g, added) \<Rightarrow> Inr (((length gs, added), group_label g), gs @ [g]))"

definition rename_group_change :: "nat \<Rightarrow> string \<Rightarrow> group_check \<Rightarrow> string option \<Rightarrow> summarise_group list
    \<Rightarrow> api_error + ((string \<times> string) \<times> summarise_group list)" where
  "rename_group_change i target expect name gs = (case group_at gs i target expect of
     Inl e \<Rightarrow> Inl e
   | Inr g \<Rightarrow> (let g1 = g\<lparr>g_name := trimmed name\<rparr> in Inr ((group_label g, group_label g1), gs[i := g1])))"

definition delete_group_change :: "nat \<Rightarrow> string \<Rightarrow> group_check \<Rightarrow> summarise_group list
    \<Rightarrow> api_error + (summarise_group \<times> summarise_group list)" where
  "delete_group_change i target expect gs = (case group_at gs i target expect of
     Inl e \<Rightarrow> Inl e | Inr g \<Rightarrow> Inr (g, take i gs @ drop (i + 1) gs))"

definition add_nodes_change :: "(string \<Rightarrow> 'n option) \<Rightarrow> nat \<Rightarrow> string \<Rightarrow> group_check \<Rightarrow> node_ref list \<Rightarrow> summarise_group list
    \<Rightarrow> api_error + ((nat \<times> string) \<times> summarise_group list)" where
  "add_nodes_change P i target expect ns gs = (case group_at gs i target expect of
     Inl e \<Rightarrow> Inl e
   | Inr g \<Rightarrow> (case add_to_group P g ns of
       Inl e \<Rightarrow> Inl e
     | Inr (g1, added) \<Rightarrow> Inr ((added, group_label g1), gs[i := g1])))"

definition drop_listed :: "(string \<Rightarrow> 'n option) \<Rightarrow> string list \<Rightarrow> summarise_group \<Rightarrow> summarise_group" where
  "drop_listed P ids g =
     (let remove = set (List.map_filter (parse_node P) ids);
          kept = filter (\<lambda>n. case parse_node P n of Some p \<Rightarrow> p \<notin> remove | None \<Rightarrow> True) (nodes g)
      in g\<lparr>nodes := kept, names := bt_retain (\<lambda>k _. k \<in> set kept) (names g)\<rparr>)"

definition remove_nodes_change :: "(string \<Rightarrow> 'n option) \<Rightarrow> nat \<Rightarrow> string \<Rightarrow> group_check \<Rightarrow> string list \<Rightarrow> summarise_group list
    \<Rightarrow> api_error + ((nat \<times> string) \<times> summarise_group list)" where
  "remove_nodes_change P i target expect ids gs = (case group_at gs i target expect of
     Inl e \<Rightarrow> Inl e
   | Inr g \<Rightarrow> (let g1 = drop_listed P ids g
       in Inr ((length (nodes g) - length (nodes g1), group_label g1), gs[i := g1])))"

text \<open>One change of the groups, and what is recorded of it (nothing when the text is empty).\<close>

definition change_groups :: "('n, 'c, 'k) web_env \<Rightarrow> auth_user \<Rightarrow> string \<Rightarrow> (summarise_group list \<Rightarrow> api_error + ('t \<times> summarise_group list))
    \<Rightarrow> ('t \<Rightarrow> string option) \<Rightarrow> ('t \<Rightarrow> web_reply) \<Rightarrow> web \<Rightarrow> web_result" where
  "change_groups V u name change text reply s =
     (if \<not> require Admin u then (Inl (NeedsRole Admin), s)
      else (case update_summarise (we_node V) (we_addr V) (we_out V) name change (ap_manager s) of
          (Inl (Inl e), m) \<Rightarrow> (Inl (BadConfig e), s\<lparr>ap_manager := m\<rparr>)
        | (Inl (Inr e), m) \<Rightarrow> (Inl e, s\<lparr>ap_manager := m\<rparr>)
        | (Inr out, m) \<Rightarrow> (Inr (reply out), (case text out of
              Some t \<Rightarrow> config_changed V u (''target '' @ quoted name @ '': '' @ t) (s\<lparr>ap_manager := m\<rparr>)
            | None \<Rightarrow> s\<lparr>ap_manager := m\<rparr>))))"

definition create_group :: "('n, 'c, 'k) web_env \<Rightarrow> auth_user \<Rightarrow> string \<Rightarrow> new_group \<Rightarrow> web \<Rightarrow> web_result" where
  "create_group V u name new = change_groups V u name (create_group_change (we_node V) new)
     (\<lambda>((i, n), l). Some (''summarise group '' @ l @ '' created'' @ (if 0 < n then '' with '' @ nodes_text n else [])))
     (\<lambda>((i, n), l). GroupChange i n)"

definition rename_group :: "('n, 'c, 'k) web_env \<Rightarrow> auth_user \<Rightarrow> string \<Rightarrow> nat \<Rightarrow> group_check \<Rightarrow> string option \<Rightarrow> web \<Rightarrow> web_result" where
  "rename_group V u name i expect new = change_groups V u name (rename_group_change i name expect new)
     (\<lambda>(a, b). if a \<noteq> b then Some (''summarise group '' @ a @ '' renamed to '' @ b) else None) (\<lambda>_. NoContent)"

definition delete_group :: "('n, 'c, 'k) web_env \<Rightarrow> auth_user \<Rightarrow> string \<Rightarrow> nat \<Rightarrow> group_check \<Rightarrow> web \<Rightarrow> web_result" where
  "delete_group V u name i expect = change_groups V u name (delete_group_change i name expect)
     (\<lambda>g. Some (''summarise group '' @ group_label g @ '' removed; writes to its '' @ nodes_text (length (nodes g)) @ '' are recorded again''))
     (\<lambda>_. NoContent)"

definition add_nodes :: "('n, 'c, 'k) web_env \<Rightarrow> auth_user \<Rightarrow> string \<Rightarrow> nat \<Rightarrow> group_check \<Rightarrow> node_ref list \<Rightarrow> web \<Rightarrow> web_result" where
  "add_nodes V u name i expect ns = change_groups V u name (add_nodes_change (we_node V) i name expect ns)
     (\<lambda>(n, l). if 0 < n then Some (nodes_text n @ '' added to '' @ l) else None) (\<lambda>(n, l). GroupChange i n)"

definition remove_nodes :: "('n, 'c, 'k) web_env \<Rightarrow> auth_user \<Rightarrow> string \<Rightarrow> nat \<Rightarrow> group_check \<Rightarrow> string list \<Rightarrow> web \<Rightarrow> web_result" where
  "remove_nodes V u name i expect ids = change_groups V u name (remove_nodes_change (we_node V) i name expect ids)
     (\<lambda>(n, l). if 0 < n then Some (nodes_text n @ '' removed from '' @ l @ ''; their writes are recorded again'') else None)
     (\<lambda>(n, l). GroupChange i n)"

section \<open>Discovery and trust of a target\<close>

text \<open>The check whether the target accepts the gateway, for a target that runs.\<close>

definition web_check_trust :: "('n, 'c, 'k) web_env \<Rightarrow> string \<Rightarrow> web \<Rightarrow> web" where
  "web_check_trust V name s = (case map_of (mg_running (ap_manager s)) name of
     None \<Rightarrow> s
   | Some r \<Rightarrow>
       (let url = t_endpoint_url (r_target r);
            verdict = check_gateway_trust (we_sec V) (we_status V) (we_upstream V url) (we_connect V)
        in case set_gateway_trust (we_time V) (t_name (r_target r)) url verdict (mg_statuses (ap_manager s)) of
             (st, e) \<Rightarrow> submit_all V (case e of Some e \<Rightarrow> [e] | None \<Rightarrow> [])
               (s\<lparr>ap_manager := (ap_manager s)\<lparr>mg_statuses := st\<rparr>\<rparr>)))"

definition discover_target :: "('n, 'c, 'k) web_env \<Rightarrow> auth_user \<Rightarrow> string \<Rightarrow> web \<Rightarrow> web_result" where
  "discover_target V u name s =
     (if \<not> require Operator u then (Inl (NeedsRole Operator), s)
      else (case find_target name s of
          None \<Rightarrow> (Inl (NoTargetNamed name), s)
        | Some t \<Rightarrow>
            (let result = map_sum id discovered (we_discover V (t_endpoint_url t));
                 s1 = (case map_of (mg_running (ap_manager s)) name of
                     None \<Rightarrow> s
                   | Some r \<Rightarrow> (case apply_discovery (we_sec V) (we_time V) (t_name (r_target r)) (t_endpoint_url (r_target r))
                         result (mg_statuses (ap_manager s)) of
                       (st, es) \<Rightarrow> web_check_trust V name (submit_all V es (s\<lparr>ap_manager := (ap_manager s)\<lparr>mg_statuses := st\<rparr>\<rparr>))))
             in (case result of Inl e \<Rightarrow> Inl (UpstreamFailed e) | Inr es \<Rightarrow> Inr (EndpointsShown (map (endpoint_info_of (we_sec V)) es)), s1))))"

definition presented_cert :: "('c, 'k) x509_ops \<Rightarrow> string \<Rightarrow> endpoint list \<Rightarrow> 'c option" where
  "presented_cert X thumb es = find (\<lambda>c. eq_ignore_ascii_case (hex_thumbprint X c) (trim thumb))
     (List.map_filter (\<lambda>e. from_der X (ep_certificate e)) es)"

definition trust_server :: "('n, 'c, 'k) web_env \<Rightarrow> auth_user \<Rightarrow> string \<Rightarrow> string \<Rightarrow> web \<Rightarrow> web_result" where
  "trust_server V u name thumb s =
     (if \<not> require Admin u then (Inl (NeedsRole Admin), s)
      else (case find_target name s of
          None \<Rightarrow> (Inl (NoTargetNamed name), s)
        | Some t \<Rightarrow> (case we_discover V (t_endpoint_url t) of
            Inl e \<Rightarrow> (Inl (UpstreamFailed e), s)
          | Inr es \<Rightarrow> (case presented_cert (we_x509 V) thumb (discovered es) of
              None \<Rightarrow> (Inl (NotPresented thumb), s)
            | Some c \<Rightarrow> (case trust (we_x509 V) (we_time V) c (ap_pki s) of
                (Inl e, p) \<Rightarrow> (Inl (PkiFailed e), s\<lparr>ap_pki := p\<rparr>)
              | (Inr i, p) \<Rightarrow> (Inr (CertificateShown i), web_check_trust V name
                  (config_changed V u (''trusted server certificate '' @ ci_subject i @ '' ['' @ ci_thumbprint i @ ''] of target '' @ quoted name)
                    (s\<lparr>ap_pki := p\<rparr>))))))))"

definition discover_url :: "('n, 'c, 'k) web_env \<Rightarrow> auth_user \<Rightarrow> string \<Rightarrow> web \<Rightarrow> web_result" where
  "discover_url V u url s =
     (if \<not> require Admin u then (Inl (NeedsRole Admin), s)
      else if \<not> starts_with url ''opc.tcp://'' then (Inl NotOpcUrl, s)
      else (let s1 = snd (commit_entry V (new_entry (we_time V) (Discovery (actor u) (clip url 1024))) s)
            in case we_discover V url of
                 Inl e \<Rightarrow> (Inl (UpstreamFailed e), s1)
               | Inr es \<Rightarrow> (Inr (EndpointsShown (map (endpoint_info_of (we_sec V)) (discovered es))), s1)))"

end
