(* ===== verification/Web_Admin.thy ===== *)
theory Web_Admin
  imports Web_Api
begin

text \<open>
  The REST API (src/web/mod.rs), second part: certificates, the trail and its alarms, users and tokens;
  and the settings (src/web/settings.rs).
\<close>

section \<open>Certificates\<close>

definition cert_text :: "certificate_info \<Rightarrow> string" where
  "cert_text i = ci_subject i @ '' ['' @ ci_thumbprint i @ '']''"

definition list_certificates :: "('n, 'c, 'k) web_env \<Rightarrow> auth_user \<Rightarrow> web \<Rightarrow> web_result" where
  "list_certificates V u s =
     (if \<not> require Auditor u then (Inl (NeedsRole Auditor), s)
      else (Inr (CertificatesShown
          (map_option (\<lambda>c. info_with_hostnames (we_x509 V) c (gw_certificate_hostnames (c_gateway (mg_config (ap_manager s)))))
             (Option.bind (ow_cert (pk_own (ap_pki s))) (from_der (we_x509 V))))
          (list_dir (we_x509 V) (pk_trusted (ap_pki s))) (list_dir (we_x509 V) (pk_rejected (ap_pki s)))), s))"

definition web_trust_rejected :: "('n, 'c, 'k) web_env \<Rightarrow> auth_user \<Rightarrow> string \<Rightarrow> web \<Rightarrow> web_result" where
  "web_trust_rejected V u thumb s =
     (if \<not> require Admin u then (Inl (NeedsRole Admin), s)
      else (case trust_rejected (we_x509 V) (we_time V) thumb (ap_pki s) of
          (Inl e, p) \<Rightarrow> (Inl (BadPki e), s\<lparr>ap_pki := p\<rparr>)
        | (Inr i, p) \<Rightarrow> (Inr (CertificateShown i), config_changed V u (''trusted certificate '' @ cert_text i) (s\<lparr>ap_pki := p\<rparr>))))"

definition web_delete_rejected :: "('n, 'c, 'k) web_env \<Rightarrow> auth_user \<Rightarrow> string \<Rightarrow> web \<Rightarrow> web_result" where
  "web_delete_rejected V u thumb s =
     (if \<not> require Admin u then (Inl (NeedsRole Admin), s)
      else (case delete_rejected (we_x509 V) thumb (ap_pki s) of
          (Inl e, p) \<Rightarrow> (Inl (BadPki e), s\<lparr>ap_pki := p\<rparr>)
        | (Inr i, p) \<Rightarrow> (Inr (CertificateShown i), config_changed V u (''deleted rejected certificate '' @ cert_text i) (s\<lparr>ap_pki := p\<rparr>))))"

definition web_untrust :: "('n, 'c, 'k) web_env \<Rightarrow> auth_user \<Rightarrow> string \<Rightarrow> web \<Rightarrow> web_result" where
  "web_untrust V u thumb s =
     (if \<not> require Admin u then (Inl (NeedsRole Admin), s)
      else (case untrust (we_x509 V) thumb (ap_pki s) of
          (Inl e, p) \<Rightarrow> (Inl (BadPki e), s\<lparr>ap_pki := p\<rparr>)
        | (Inr i, p) \<Rightarrow> (Inr (CertificateShown i), config_changed V u (''revoked trust in certificate '' @ cert_text i)
            (end_sessions V (close_all (we_time V)) (s\<lparr>ap_pki := p\<rparr>)))))"

text \<open>A new pair of the gateway: its files, and every target started again with it.\<close>

definition with_own :: "('n, 'c, 'k) web_env \<Rightarrow> own_step list \<Rightarrow> web \<Rightarrow> web" where
  "with_own V steps s = s\<lparr>ap_pki := (ap_pki s)\<lparr>pk_own := fold own_do steps (pk_own (ap_pki s))\<rparr>,
     ap_manager := restart_all (we_out V) (ap_manager s)\<rparr>"

definition web_import_own :: "('n, 'c, 'k) web_env \<Rightarrow> auth_user \<Rightarrow> string \<Rightarrow> string \<Rightarrow> web \<Rightarrow> web_result" where
  "web_import_own V u cert key s =
     (if \<not> require Admin u then (Inl (NeedsRole Admin), s)
      else (case (we_base64 V (trim cert), we_base64 V (trim key)) of
          (Some c, Some k) \<Rightarrow> (case import_own (we_x509 V) (we_stamp V)
              (application_uri_of (we_hostnames V) (c_gateway (mg_config (ap_manager s)))) c k of
            Inl e \<Rightarrow> (Inl (BadPki e), s)
          | Inr (steps, x) \<Rightarrow> (let i = cert_info (we_x509 V) x in
              (Inr (CertificateShown i), config_changed V u (''imported gateway certificate '' @ cert_text i) (with_own V steps s))))
        | _ \<Rightarrow> (Inl NotBase64, s)))"

text \<open>The backups are made before a new pair is generated, which may fail.\<close>

definition web_regenerate_own :: "('n, 'c, 'k) web_env \<Rightarrow> auth_user \<Rightarrow> web \<Rightarrow> web_result" where
  "web_regenerate_own V u s =
     (if \<not> require Admin u then (Inl (NeedsRole Admin), s)
      else (case Option.bind (we_pair V) (\<lambda>new. map_option (Pair new) (from_der (we_x509 V) (fst new))) of
          None \<Rightarrow> (Inl KeyGeneration, s\<lparr>ap_pki := (ap_pki s)\<lparr>pk_own := fold own_do (backup_own (we_stamp V)) (pk_own (ap_pki s))\<rparr>\<rparr>)
        | Some (new, c) \<Rightarrow> (let i = cert_info (we_x509 V) c in
            (Inr (CertificateShown i), config_changed V u (''generated new gateway certificate '' @ cert_text i)
              (with_own V (regenerate_own (we_stamp V) new) s)))))"

definition regenerate_web_certificate :: "('n, 'c, 'k) web_env \<Rightarrow> auth_user \<Rightarrow> web \<Rightarrow> web_result" where
  "regenerate_web_certificate V u s =
     (if \<not> require Admin u then (Inl (NeedsRole Admin), s)
      else (case Option.bind (we_pair V) (\<lambda>new. map_option (Pair new) (from_der (we_x509 V) (fst new))) of
          None \<Rightarrow> (Inl KeyGeneration, s)
        | Some (new, c) \<Rightarrow> (let i = cert_info (we_x509 V) c in
            (Inr (CertificateShown i), config_changed V u
              (''generated a new web UI certificate ['' @ ci_thumbprint i @ ''] (used after a restart)'')
              (s\<lparr>ap_web_pair := fold own_do (create_own new) (ap_web_pair s)\<rparr>)))))"

section \<open>The trail and its alarms\<close>

abbreviation trail_db :: "web \<Rightarrow> db" where
  "trail_db s \<equiv> conn (ap_store s)"

definition web_audit_query :: "('n, 'c, 'k) web_env \<Rightarrow> auth_user \<Rightarrow> audit_query \<Rightarrow> web \<Rightarrow> web_result" where
  "web_audit_query V u q s =
     (if \<not> require Auditor u then (Inl (NeedsRole Auditor), s)
      else (map_sum TrailUnreadable RecordsShown (query (we_codec V) (we_json V) (trail_db s) q), s))"

definition audit_verify :: "('n, 'c, 'k) web_env \<Rightarrow> auth_user \<Rightarrow> web \<Rightarrow> web_result" where
  "audit_verify V u s =
     (if \<not> require Auditor u then (Inl (NeedsRole Auditor), s)
      else (Inr (ReportShown (verify_against (we_codec V) (trail_db s) (anchors_from (we_export_file V)))), s))"

definition list_alarms :: "('n, 'c, 'k) web_env \<Rightarrow> auth_user \<Rightarrow> web \<Rightarrow> web_result" where
  "list_alarms V u s =
     (if \<not> require Auditor u then (Inl (NeedsRole Auditor), s)
      else (Inr (AlarmsShown (alarms (we_codec V) (trail_db s))), s))"

definition acknowledge_alarms :: "('n, 'c, 'k) web_env \<Rightarrow> auth_user \<Rightarrow> severity \<Rightarrow> web \<Rightarrow> web_result" where
  "acknowledge_alarms V u sev s =
     (if \<not> require Operator u then (Inl (NeedsRole Operator), s)
      else (let count = (case find (\<lambda>a. al_severity a = sev) (alarms (we_codec V) (trail_db s)) of
                Some a \<Rightarrow> unacknowledged a | None \<Rightarrow> 0)
            in if count = 0 then (Inr (AlarmsShown (alarms (we_codec V) (trail_db s))), s)
               else (case commit_entry V (new_entry (we_time V) (AlarmsAcknowledged (au_name u) sev (head_seq (trail_db s)) count)) s of
                   (Inl e, s1) \<Rightarrow> (Inl (NotRecorded e), s1)
                 | (Inr _, s1) \<Rightarrow> (Inr (AlarmsShown (alarms (we_codec V) (trail_db s1))), s1))))"

section \<open>Users and tokens\<close>

definition web_list_users :: "auth_user \<Rightarrow> web \<Rightarrow> web_result" where
  "web_list_users u s =
     (if \<not> require Admin u then (Inl (NeedsRole Admin), s) else (map_sum UsersFailed UsersShown (list_users (ap_users s)), s))"

definition web_create_user :: "('n, 'c, 'k) web_env \<Rightarrow> auth_user \<Rightarrow> string \<Rightarrow> string \<Rightarrow> role \<Rightarrow> web \<Rightarrow> web_result" where
  "web_create_user V u name password r s =
     (if \<not> require Admin u then (Inl (NeedsRole Admin), s)
      else (case create_with (we_hash V) (we_salt V) (we_now V) name password r True (ap_users s) of
          (Inl e, db) \<Rightarrow> (Inl (BadUsers e), s\<lparr>ap_users := db\<rparr>)
        | (Inr _, db) \<Rightarrow> (Inr Created, config_changed V u (''created user '' @ quoted name @ '' ('' @ role_str r @ '')'') (s\<lparr>ap_users := db\<rparr>))))"

definition web_update_user :: "('n, 'c, 'k) web_env \<Rightarrow> auth_user \<Rightarrow> string \<Rightarrow> role option \<Rightarrow> string option \<Rightarrow> web \<Rightarrow> web_result" where
  "web_update_user V u name r password s =
     (if \<not> require Admin u then (Inl (NeedsRole Admin), s)
      else (case update_user (we_hash V) (we_salt V) name r password True (ap_users s) of
          (Inl e, db) \<Rightarrow> (Inl (BadUsers e), s\<lparr>ap_users := db\<rparr>)
        | (Inr changes, db) \<Rightarrow>
            (let s1 = s\<lparr>ap_users := db, ap_auth := remove_user_sessions name (ap_auth s)\<rparr>;
                 s2 = (if password \<noteq> None \<or> (case r of Some q \<Rightarrow> q < Operator | None \<Rightarrow> False)
                       then end_sessions V (close_user (we_time V) name) s1 else s1)
             in (Inr NoContent, config_changed V u (''changed user '' @ quoted name @ '': '' @ join_text '', '' changes) s2))))"

definition web_delete_user :: "('n, 'c, 'k) web_env \<Rightarrow> auth_user \<Rightarrow> string \<Rightarrow> web \<Rightarrow> web_result" where
  "web_delete_user V u name s =
     (if \<not> require Admin u then (Inl (NeedsRole Admin), s)
      else (case delete_user name (ap_users s) of
          (Inl e, db) \<Rightarrow> (Inl (BadUsers e), s\<lparr>ap_users := db\<rparr>)
        | (Inr _, db) \<Rightarrow> (Inr NoContent, config_changed V u (''deleted user '' @ quoted name)
            (end_sessions V (close_user (we_time V) name) (s\<lparr>ap_users := db, ap_auth := remove_user_sessions name (ap_auth s)\<rparr>)))))"

definition web_all_tokens :: "auth_user \<Rightarrow> web \<Rightarrow> web_result" where
  "web_all_tokens u s =
     (if \<not> require Admin u then (Inl (NeedsRole Admin), s) else (map_sum UsersFailed AllTokensShown (all_tokens (ap_users s)), s))"

definition web_revoke_token :: "('n, 'c, 'k) web_env \<Rightarrow> auth_user \<Rightarrow> string \<Rightarrow> string \<Rightarrow> web \<Rightarrow> web_result" where
  "web_revoke_token V u name i s =
     (if \<not> require Admin u then (Inl (NeedsRole Admin), s)
      else (case delete_token name i (ap_users s) of
          (Inl e, db) \<Rightarrow> (Inl (TokenMissing e), s\<lparr>ap_users := db\<rparr>)
        | (Inr t, db) \<Rightarrow> (Inr NoContent, config_changed V u
            (''revoked API token '' @ quoted t @ '' ('' @ i @ '') of user '' @ quoted name) (s\<lparr>ap_users := db\<rparr>))))"

definition web_list_tokens :: "auth_user \<Rightarrow> web \<Rightarrow> web_result" where
  "web_list_tokens u s = (Inr (TokensShown (tokens_of (au_name u) (ap_users s))), s)"

text \<open>Every scope needs its role.\<close>

definition web_create_token :: "('n, 'c, 'k) web_env \<Rightarrow> auth_user \<Rightarrow> string \<Rightarrow> string list \<Rightarrow> web \<Rightarrow> web_result" where
  "web_create_token V u name scopes s =
     (case find (\<lambda>x. \<not> require (mcp_scope_role x) u) scopes of
        Some x \<Rightarrow> (Inl (NeedsRole (mcp_scope_role x)), s)
      | None \<Rightarrow> (case create_token (we_hash V) (we_now V) (fst (we_random V)) (snd (we_random V)) (au_name u) name scopes (ap_users s) of
          (Inl e, db) \<Rightarrow> (Inl (BadUsers e), s\<lparr>ap_users := db\<rparr>)
        | (Inr (t, secret), db) \<Rightarrow>
            (let access = (if at_scopes t = [] then ''read only'' else ''may change '' @ join_text '', '' (at_scopes t))
             in (Inr (TokenShown t secret), config_changed V u
                  (''created API token '' @ quoted (at_name t) @ '' ('' @ at_id t @ '', '' @ access @ '')'') (s\<lparr>ap_users := db\<rparr>)))))"

definition web_delete_token :: "('n, 'c, 'k) web_env \<Rightarrow> auth_user \<Rightarrow> string \<Rightarrow> web \<Rightarrow> web_result" where
  "web_delete_token V u i s =
     (case delete_token (au_name u) i (ap_users s) of
        (Inl e, db) \<Rightarrow> (Inl (TokenMissing e), s\<lparr>ap_users := db\<rparr>)
      | (Inr t, db) \<Rightarrow> (Inr NoContent, config_changed V u (''deleted API token '' @ quoted t @ '' ('' @ i @ '')'') (s\<lparr>ap_users := db\<rparr>)))"

section \<open>Settings\<close>

definition MAX_PEM :: nat where "MAX_PEM = 256 * 1024"

definition transport_is_safe :: "web_config \<Rightarrow> bool" where
  "transport_is_safe w \<longleftrightarrow> w_tls w \<or> is_loopback (sa_ip (w_listen w))"

text \<open>What is shown of a CA file that is there.\<close>

definition read_pem :: "(string \<times> string) list \<Rightarrow> string \<Rightarrow> string" where
  "read_pem files path = (case map_of files path of
     Some pem \<Rightarrow> if length pem \<le> MAX_PEM then pem else ''# '' @ path @ '' is too large to show''
   | None \<Rightarrow> ''# '' @ path @ '' cannot be read'')"

definition view_questdb :: "(string \<times> string) list \<Rightarrow> questdb_config \<Rightarrow> questdb_view" where
  "view_questdb files q = \<lparr>qv_url = q_url q, qv_table = q_table q, qv_username = q_username q,
     qv_password_set = (q_password q \<noteq> None), qv_token_set = (q_token q \<noteq> None),
     qv_ca_pem = map_option (read_pem files) (q_ca_file q), qv_interval_secs = q_interval_secs q\<rparr>"

definition get_settings :: "('n, 'c, 'k) web_env \<Rightarrow> auth_user \<Rightarrow> web \<Rightarrow> web_result" where
  "get_settings V u s =
     (if \<not> require Auditor u then (Inl (NeedsRole Auditor), s)
      else (let c = mg_config (ap_manager s) in
        (Inr (SettingsShown \<lparr>sv_audit = audit_config.truncate (c_audit c), sv_database = audit_database (we_paths V) c,
           sv_questdb = map_option (view_questdb (ap_files s)) (x_questdb (c_export c)),
           sv_application_name = gw_application_name (c_gateway c), sv_application_uri = application_uri_of (we_hostnames V) (c_gateway c),
           sv_hostnames = gw_certificate_hostnames (c_gateway c), sv_tls = w_tls (c_web c), sv_mcp = m_enabled (c_mcp c),
           sv_transport_ok = transport_is_safe (c_web c)\<rparr>), s)))"

definition days_text :: "nat \<Rightarrow> string" where
  "days_text d = (if d = 0 then ''forever'' else nat_str d @ '' days'')"

definition mode_text :: "fail_mode \<Rightarrow> string" where
  "mode_text m = (case m of FailOpen \<Rightarrow> ''open'' | FailClosed \<Rightarrow> ''closed'')"

definition audit_diffs :: "audit_section \<Rightarrow> audit_section \<Rightarrow> string list" where
  "audit_diffs a b =
     (if retention_days a \<noteq> retention_days b then [''retention '' @ days_text (retention_days a) @ '' -> '' @ days_text (retention_days b)] else []) @
     (if fail_mode a \<noteq> fail_mode b then [''fail mode '' @ mode_text (fail_mode a) @ '' -> '' @ mode_text (fail_mode b)] else []) @
     (if record_old_value a \<noteq> record_old_value b then [''old values '' @ (if record_old_value b then ''recorded'' else ''not recorded'')] else []) @
     (if ignored_summary_secs a \<noteq> ignored_summary_secs b
      then [''summaries of summarised nodes every '' @ nat_str (ignored_summary_secs a) @ '' s -> '' @ nat_str (ignored_summary_secs b) @ '' s''] else [])"

definition put_audit :: "('n, 'c, 'k) web_env \<Rightarrow> auth_user \<Rightarrow> audit_section \<Rightarrow> web \<Rightarrow> web_result" where
  "put_audit V u new s =
     (if \<not> require Admin u then (Inl (NeedsRole Admin), s)
      else (case update_settings (we_node V) (we_out V) (\<lambda>c. c\<lparr>c_audit := new\<lparr>a_database := a_database (c_audit c)\<rparr>\<rparr>) (ap_manager s) of
          (Inl e, m) \<Rightarrow> (Inl (BadConfig e), s\<lparr>ap_manager := m\<rparr>)
        | (Inr (old, c), m) \<Rightarrow>
            (let s1 = s\<lparr>ap_manager := m, ap_settings := settings_apply (audit_config.truncate (c_audit c)) (ap_settings s)\<rparr>;
                 changes = audit_diffs (c_audit old) (c_audit c)
             in (Inr NoContent, if changes = [] then s1 else config_changed V u (''audit settings: '' @ join_text '', '' changes) s1))))"

text \<open>A secret in a form: absent keeps the stored one, empty removes it.\<close>

definition secret :: "string option \<Rightarrow> string option \<Rightarrow> string option" where
  "secret input stored = (case input of None \<Rightarrow> stored | Some v \<Rightarrow> if v = [] then None else Some v)"

definition origin :: "('n, 'c, 'k) web_env \<Rightarrow> string \<Rightarrow> (string \<times> string \<times> nat option) option" where
  "origin V url = (case we_uri V (trim url) of
     Some (Some scheme, Some host, port) \<Rightarrow>
       (let sc = ascii_lower scheme in Some (sc, ascii_lower host,
          (case port of Some p \<Rightarrow> Some p | None \<Rightarrow> if sc = ''http'' then Some 80 else if sc = ''https'' then Some 443 else None)))
   | _ \<Rightarrow> None)"

definition same_server :: "('n, 'c, 'k) web_env \<Rightarrow> string \<Rightarrow> string \<Rightarrow> bool" where
  "same_server V a b \<longleftrightarrow> origin V a \<noteq> None \<and> origin V a = origin V b"

record questdb_input =
  qi_url :: string
  qi_table :: string
  qi_username :: "string option"
  qi_password :: "string option"
  qi_token :: "string option"
  qi_ca_pem :: "string option"
  qi_interval_secs :: nat

definition new_ca :: "('n, 'c, 'k) web_env \<Rightarrow> config \<Rightarrow> string" where
  "new_ca V c = path_join (we_paths V) (gw_data_dir (c_gateway c)) ''questdb-ca.pem.new''"

definition managed_ca :: "('n, 'c, 'k) web_env \<Rightarrow> config \<Rightarrow> string" where
  "managed_ca V c = path_join (we_paths V) (gw_data_dir (c_gateway c)) ''questdb-ca.pem''"

definition ca_text_ok :: "string \<Rightarrow> bool" where
  "ca_text_ok pem \<longleftrightarrow> length pem \<le> MAX_PEM \<and> contains pem ''-----BEGIN CERTIFICATE-----''"

text \<open>The destination the form asks for, with the credentials kept for its server.\<close>

definition questdb_of :: "('n, 'c, 'k) web_env \<Rightarrow> config \<Rightarrow> questdb_input \<Rightarrow> questdb_config" where
  "questdb_of V c q =
     (let url = trim_matches_end CHR ''/'' (trim (qi_url q));
          stored = (case x_questdb (c_export c) of Some st \<Rightarrow> if same_server V (q_url st) url then Some st else None | None \<Rightarrow> None)
      in \<lparr>q_url = url, q_ca_file = map_option (\<lambda>_. new_ca V c) (trimmed (qi_ca_pem q)), q_table = trim (qi_table q),
          q_token = secret (qi_token q) (Option.bind stored q_token), q_username = trimmed (qi_username q),
          q_password = secret (qi_password q) (Option.bind stored q_password), q_interval_secs = qi_interval_secs q\<rparr>)"

definition quest_text :: "questdb_config \<Rightarrow> string" where
  "quest_text q = q_url q @ '' (table '' @ q_table q @ '')''"

definition describe_export :: "questdb_config option \<Rightarrow> questdb_config option \<Rightarrow> string option" where
  "describe_export before after = (case (before, after) of
     (None, None) \<Rightarrow> None
   | (None, Some a) \<Rightarrow> Some (''QuestDB export to '' @ quest_text a @ '' turned on'')
   | (Some b, None) \<Rightarrow> Some (''QuestDB export to '' @ quest_text b @ '' turned off'')
   | (Some b, Some a) \<Rightarrow> Some (if quest_text a \<noteq> quest_text b
       then ''QuestDB export moved from '' @ quest_text b @ '' to '' @ quest_text a else ''QuestDB export to '' @ quest_text a @ '' changed''))"

definition ca_shown :: "(string \<times> string) list \<Rightarrow> questdb_config option \<Rightarrow> string option" where
  "ca_shown files q = Option.bind q (\<lambda>q. map_option (read_pem files) (q_ca_file q))"

text \<open>The last part: the pasted CA takes its place, the settings are applied and saved, and the exporter
  starts again.\<close>

definition apply_export :: "('n, 'c, 'k) web_env \<Rightarrow> auth_user \<Rightarrow> config \<Rightarrow> questdb_config option \<Rightarrow> web \<Rightarrow> web_result" where
  "apply_export V u current questdb s =
     (let old_ca = ca_shown (ap_files s) (x_questdb (c_export current));
          ca = ca_shown (ap_files s) questdb;
          moves = (case questdb of Some q \<Rightarrow> q_ca_file q \<noteq> None | None \<Rightarrow> False);
          from_file = new_ca V current; to_file = managed_ca V current;
          s1 = (if moves then s\<lparr>ap_files := bt_put to_file (the (map_of (ap_files s) from_file)) (bt_remove from_file (ap_files s))\<rparr> else s);
          x = \<lparr>x_questdb = map_option (\<lambda>q. q\<lparr>q_ca_file := map_option (\<lambda>_. to_file) (q_ca_file q)\<rparr>) questdb, x_syslog = False\<rparr>
      in if moves \<and> \<not> we_file_ok V to_file then (Inl FileTrouble, s)
         else (case update_settings (we_node V) (we_out V) (\<lambda>c. c\<lparr>c_export := x\<rparr>) (ap_manager s1) of
             (Inl e, m) \<Rightarrow> (Inl (BadConfig e), s1\<lparr>ap_manager := m\<rparr>)
           | (Inr (old, c), m) \<Rightarrow>
               (let s2 = s1\<lparr>ap_manager := m\<rparr> in
                if \<not> (we_sinks V (map_of (ap_files s2)) (c_export c) \<and> we_positions_ok V) then (Inl BadExport, s2)
                else (let s3 = s2\<lparr>ap_exports := c_export c\<rparr>;
                          same = (old_ca = ca \<and> x_questdb (c_export old) = x_questdb (c_export c))
                      in (Inr NoContent,
                          if same then s3
                          else (case describe_export (x_questdb (c_export old)) (x_questdb (c_export c)) of
                              Some t \<Rightarrow> config_changed V u t s3 | None \<Rightarrow> s3))))))"

definition put_export :: "('n, 'c, 'k) web_env \<Rightarrow> auth_user \<Rightarrow> questdb_input option \<Rightarrow> web \<Rightarrow> web_result" where
  "put_export V u input s =
     (if \<not> require Admin u then (Inl (NeedsRole Admin), s)
      else (let current = mg_config (ap_manager s);
                pem = Option.bind input (\<lambda>q. trimmed (qi_ca_pem q));
                questdb = map_option (questdb_of V current) input;
                s1 = (case pem of Some p \<Rightarrow> s\<lparr>ap_files := bt_put (new_ca V current) (p @ [newline]) (ap_files s)\<rparr> | None \<Rightarrow> s)
            in if (case pem of Some p \<Rightarrow> \<not> ca_text_ok p | None \<Rightarrow> False) then (Inl BadCaText, s)
               else if pem \<noteq> None \<and> \<not> we_file_ok V (new_ca V current) then (Inl FileTrouble, s)
               else if (case questdb of Some q \<Rightarrow> q_table q = [] | None \<Rightarrow> False) then (Inl EmptyTable, s1)
               else if (case questdb of Some q \<Rightarrow> q_interval_secs q = 0 | None \<Rightarrow> False) then (Inl ZeroInterval, s1)
               else if \<not> we_sinks V (map_of (ap_files s1)) \<lparr>x_questdb = questdb, x_syslog = False\<rparr> then (Inl BadExport, s1)
               else apply_export V u current questdb s1))"

definition host_char :: "char \<Rightarrow> bool" where
  "host_char c \<longleftrightarrow> ascii_alnum c \<or> c \<in> set ''.-:[]''"

fun host_names :: "string list \<Rightarrow> string list \<Rightarrow> api_error + string list" where
  "host_names kept [] = Inr kept"
| "host_names kept (n # ns) =
     (let t = trim n in
      if t = [] then host_names kept ns
      else if \<not> (length t \<le> 253 \<and> list_all host_char t) then Inl (BadHostName t)
      else host_names (if t \<in> set kept then kept else kept @ [t]) ns)"

definition put_gateway :: "('n, 'c, 'k) web_env \<Rightarrow> auth_user \<Rightarrow> string list \<Rightarrow> web \<Rightarrow> web_result" where
  "put_gateway V u names0 s =
     (if \<not> require Admin u then (Inl (NeedsRole Admin), s)
      else (case host_names [] names0 of
          Inl e \<Rightarrow> (Inl e, s)
        | Inr ns \<Rightarrow> (case update_settings (we_node V) (we_out V)
              (\<lambda>c. c\<lparr>c_gateway := (c_gateway c)\<lparr>gw_certificate_hostnames := ns\<rparr>\<rparr>) (ap_manager s) of
            (Inl e, m) \<Rightarrow> (Inl (BadConfig e), s\<lparr>ap_manager := m\<rparr>)
          | (Inr (old, c), m) \<Rightarrow> (Inr NoContent,
              if gw_certificate_hostnames (c_gateway old) \<noteq> gw_certificate_hostnames (c_gateway c)
              then config_changed V u (''certificate host names: '' @ join_text '', '' (gw_certificate_hostnames (c_gateway c))) (s\<lparr>ap_manager := m\<rparr>)
              else s\<lparr>ap_manager := m\<rparr>))))"

definition put_mcp :: "('n, 'c, 'k) web_env \<Rightarrow> auth_user \<Rightarrow> bool \<Rightarrow> web \<Rightarrow> web_result" where
  "put_mcp V u enabled s =
     (if \<not> require Admin u then (Inl (NeedsRole Admin), s)
      else (case update_settings (we_node V) (we_out V) (\<lambda>c. c\<lparr>c_mcp := (c_mcp c)\<lparr>m_enabled := enabled\<rparr>\<rparr>) (ap_manager s) of
          (Inl e, m) \<Rightarrow> (Inl (BadConfig e), s\<lparr>ap_manager := m\<rparr>)
        | (Inr (old, c), m) \<Rightarrow> (Inr NoContent,
            if m_enabled (c_mcp old) \<noteq> m_enabled (c_mcp c)
            then config_changed V u (''MCP endpoint for AI assistants '' @ (if m_enabled (c_mcp c) then ''on'' else ''off'')) (s\<lparr>ap_manager := m\<rparr>)
            else s\<lparr>ap_manager := m\<rparr>)))"

end
