(* ===== verification/Web_Serve.thy ===== *)
theory Web_Serve
  imports Web_Admin
begin

text \<open>
  A request to the REST API from its arrival to its answer (\<open>router\<close> of src/web/mod.rs with the layers
  \<open>security_headers\<close> and \<open>csrf\<close>): the host name, the CSRF header, the session, and the handler.
\<close>

section \<open>Requests\<close>

datatype web_request =
    ListTargets
  | CreateTarget target
  | UpdateTarget string target
  | DeleteTarget string
  | CreateGroup string new_group
  | RenameGroup string nat group_check "string option"
  | DeleteGroup string nat group_check
  | AddNodes string nat group_check "node_ref list"
  | RemoveNodes string nat group_check "string list"
  | DiscoverTarget string
  | TrustServer string string
  | DiscoverUrl string
  | ListCertificates
  | TrustRejected string
  | DeleteRejected string
  | Untrust string
  | ImportOwn string string
  | RegenerateOwn
  | RegenerateWeb
  | QueryAudit audit_query
  | VerifyAudit
  | ListAlarms
  | AcknowledgeAlarms severity
  | ListUsers
  | CreateUser string string role
  | UpdateUser string "role option" "string option"
  | DeleteUser string
  | AllTokens
  | RevokeToken string string
  | ListTokens
  | CreateToken string "string list"
  | DeleteToken string
  | GetSettings
  | PutAudit audit_section
  | PutExport "questdb_input option"
  | PutGateway "string list"
  | PutMcp bool

fun handle_request :: "('n, 'c, 'k) web_env \<Rightarrow> auth_user \<Rightarrow> web_request \<Rightarrow> web \<Rightarrow> web_result" where
  "handle_request V u ListTargets s = list_targets u s"
| "handle_request V u (CreateTarget t) s = create_target V u t s"
| "handle_request V u (UpdateTarget n t) s = update_target V u n t s"
| "handle_request V u (DeleteTarget n) s = delete_target V u n s"
| "handle_request V u (CreateGroup n g) s = create_group V u n g s"
| "handle_request V u (RenameGroup n i c l) s = rename_group V u n i c l s"
| "handle_request V u (DeleteGroup n i c) s = delete_group V u n i c s"
| "handle_request V u (AddNodes n i c ns) s = add_nodes V u n i c ns s"
| "handle_request V u (RemoveNodes n i c ns) s = remove_nodes V u n i c ns s"
| "handle_request V u (DiscoverTarget n) s = discover_target V u n s"
| "handle_request V u (TrustServer n thumb) s = trust_server V u n thumb s"
| "handle_request V u (DiscoverUrl url) s = discover_url V u url s"
| "handle_request V u ListCertificates s = list_certificates V u s"
| "handle_request V u (TrustRejected thumb) s = web_trust_rejected V u thumb s"
| "handle_request V u (DeleteRejected thumb) s = web_delete_rejected V u thumb s"
| "handle_request V u (Untrust thumb) s = web_untrust V u thumb s"
| "handle_request V u (ImportOwn c k) s = web_import_own V u c k s"
| "handle_request V u RegenerateOwn s = web_regenerate_own V u s"
| "handle_request V u RegenerateWeb s = regenerate_web_certificate V u s"
| "handle_request V u (QueryAudit q) s = web_audit_query V u q s"
| "handle_request V u VerifyAudit s = audit_verify V u s"
| "handle_request V u ListAlarms s = list_alarms V u s"
| "handle_request V u (AcknowledgeAlarms sev) s = acknowledge_alarms V u sev s"
| "handle_request V u ListUsers s = web_list_users u s"
| "handle_request V u (CreateUser n p r) s = web_create_user V u n p r s"
| "handle_request V u (UpdateUser n r p) s = web_update_user V u n r p s"
| "handle_request V u (DeleteUser n) s = web_delete_user V u n s"
| "handle_request V u AllTokens s = web_all_tokens u s"
| "handle_request V u (RevokeToken n i) s = web_revoke_token V u n i s"
| "handle_request V u ListTokens s = web_list_tokens u s"
| "handle_request V u (CreateToken n xs) s = web_create_token V u n xs s"
| "handle_request V u (DeleteToken i) s = web_delete_token V u i s"
| "handle_request V u GetSettings s = get_settings V u s"
| "handle_request V u (PutAudit a) s = put_audit V u a s"
| "handle_request V u (PutExport q) s = put_export V u q s"
| "handle_request V u (PutGateway ns) s = put_gateway V u ns s"
| "handle_request V u (PutMcp b) s = put_mcp V u b s"

text \<open>The method and path each handler is routed at.\<close>

fun route :: "web_request \<Rightarrow> string \<times> string" where
  "route ListTargets = (''GET'', ''/api/targets'')"
| "route (CreateTarget _) = (''POST'', ''/api/targets'')"
| "route (UpdateTarget n _) = (''PUT'', ''/api/targets/'' @ n)"
| "route (DeleteTarget n) = (''DELETE'', ''/api/targets/'' @ n)"
| "route (CreateGroup n _) = (''POST'', ''/api/targets/'' @ n @ ''/summarise'')"
| "route (RenameGroup n i _ _) = (''PUT'', ''/api/targets/'' @ n @ ''/summarise/'' @ nat_str i)"
| "route (DeleteGroup n i _) = (''DELETE'', ''/api/targets/'' @ n @ ''/summarise/'' @ nat_str i)"
| "route (AddNodes n i _ _) = (''POST'', ''/api/targets/'' @ n @ ''/summarise/'' @ nat_str i @ ''/add'')"
| "route (RemoveNodes n i _ _) = (''POST'', ''/api/targets/'' @ n @ ''/summarise/'' @ nat_str i @ ''/remove'')"
| "route (DiscoverTarget n) = (''POST'', ''/api/targets/'' @ n @ ''/discover'')"
| "route (TrustServer n _) = (''POST'', ''/api/targets/'' @ n @ ''/trust-server'')"
| "route (DiscoverUrl _) = (''POST'', ''/api/discover'')"
| "route ListCertificates = (''GET'', ''/api/certificates'')"
| "route (TrustRejected t) = (''POST'', ''/api/certificates/rejected/'' @ t @ ''/trust'')"
| "route (DeleteRejected t) = (''DELETE'', ''/api/certificates/rejected/'' @ t)"
| "route (Untrust t) = (''POST'', ''/api/certificates/trusted/'' @ t @ ''/untrust'')"
| "route (ImportOwn _ _) = (''POST'', ''/api/certificates/own'')"
| "route RegenerateOwn = (''POST'', ''/api/certificates/own/regenerate'')"
| "route RegenerateWeb = (''POST'', ''/api/web-certificate/regenerate'')"
| "route (QueryAudit _) = (''GET'', ''/api/audit'')"
| "route VerifyAudit = (''GET'', ''/api/audit/verify'')"
| "route ListAlarms = (''GET'', ''/api/alarms'')"
| "route (AcknowledgeAlarms _) = (''POST'', ''/api/alarms/acknowledge'')"
| "route ListUsers = (''GET'', ''/api/users'')"
| "route (CreateUser _ _ _) = (''POST'', ''/api/users'')"
| "route (UpdateUser n _ _) = (''PUT'', ''/api/users/'' @ n)"
| "route (DeleteUser n) = (''DELETE'', ''/api/users/'' @ n)"
| "route AllTokens = (''GET'', ''/api/tokens'')"
| "route (RevokeToken n i) = (''DELETE'', ''/api/users/'' @ n @ ''/tokens/'' @ i)"
| "route ListTokens = (''GET'', ''/api/me/tokens'')"
| "route (CreateToken _ _) = (''POST'', ''/api/me/tokens'')"
| "route (DeleteToken i) = (''DELETE'', ''/api/me/tokens/'' @ i)"
| "route GetSettings = (''GET'', ''/api/settings'')"
| "route (PutAudit _) = (''PUT'', ''/api/settings/audit'')"
| "route (PutExport _) = (''PUT'', ''/api/settings/export'')"
| "route (PutGateway _) = (''PUT'', ''/api/settings/gateway'')"
| "route (PutMcp _) = (''PUT'', ''/api/settings/mcp'')"

section \<open>Serving one\<close>

record http_request =
  rq_host :: string
  rq_csrf :: "string option"
  rq_cookie :: "string option"
  rq_request :: web_request

datatype web_answer =
    UnknownHost
  | CsrfRefused
  | NotAuthenticated auth_error
  | Refused api_error
  | Served web_reply

text \<open>\<open>started\<close> is the configuration at the start of the gateway: the address and the hosts of the web
  server do not change while it runs.\<close>

definition known_host :: "('n, 'c, 'k) web_env \<Rightarrow> web_config \<Rightarrow> web \<Rightarrow> string \<Rightarrow> bool" where
  "known_host V started s host =
     (let loopback = is_loopback (sa_ip (w_listen started))
      in host_allowed (we_addr V) host loopback (w_allowed_hosts started @
           (if loopback then [] else gw_certificate_hostnames (c_gateway (mg_config (ap_manager s))) @ we_hostnames V)))"

definition serve_request :: "('n, 'c, 'k) web_env \<Rightarrow> web_config \<Rightarrow> http_request \<Rightarrow> web \<Rightarrow> web_answer \<times> web" where
  "serve_request V started rq s =
     (if \<not> known_host V started s (rq_host rq) then (UnknownHost, s)
      else if \<not> csrf_ok (fst (route (rq_request rq))) (rq_csrf rq) (snd (route (rq_request rq))) then (CsrfRefused, s)
      else (case authenticate (we_time V) (rq_cookie rq) (snd (route (rq_request rq))) (ap_users s) (ap_auth s) of
          (Inl e, w) \<Rightarrow> (NotAuthenticated e, s\<lparr>ap_auth := w\<rparr>)
        | (Inr u, w) \<Rightarrow> (case handle_request V u (rq_request rq) (s\<lparr>ap_auth := w\<rparr>) of
            (Inl e, s1) \<Rightarrow> (Refused e, s1)
          | (Inr r, s1) \<Rightarrow> (Served r, s1))))"

end
