(* ===== verification/Web_Safety.thy ===== *)
theory Web_Safety
  imports Web_Serve Config_Safety Pki_Safety
begin

text \<open>
  What the REST API promises: whoever changes the gateway is logged in, has the role for it and is named
  in the trail.
\<close>

section \<open>What is configuration, and what is recorded\<close>

abbreviation trail :: "web \<Rightarrow> row list" where
  "trail s \<equiv> audit (trail_db s)"

definition config_part :: "web \<Rightarrow> config \<times> (dir \<times> dir) \<times> (string option \<times> string option) \<times> own_pair \<times> user_db" where
  "config_part s = (mg_config (ap_manager s), (pk_trusted (ap_pki s), pk_rejected (ap_pki s)),
     (ow_cert (pk_own (ap_pki s)), ow_key (pk_own (ap_pki s))), ap_web_pair s, ap_users s)"

definition extends :: "web \<Rightarrow> web \<Rightarrow> bool" where
  "extends s s' \<longleftrightarrow> (table_wf (ap_store s) \<longrightarrow> table_wf (ap_store s') \<and> (\<exists>rows. trail s' = trail s @ rows))"

definition keeps :: "web \<Rightarrow> web \<Rightarrow> bool" where
  "keeps s s' \<longleftrightarrow> config_part s' = config_part s \<and> extends s s'"

text \<open>The records added since include one of a change made by the user.\<close>

definition logged :: "('n, 'c, 'k) web_env \<Rightarrow> auth_user \<Rightarrow> web \<Rightarrow> web \<Rightarrow> bool" where
  "logged V u s s' \<longleftrightarrow> (\<exists>summary. \<exists>r \<in> set (drop (length (trail s)) (trail s')).
     r_kind r = ''config_changed'' \<and> body r = to_json (we_codec V) (change_entry V u summary))"

definition traced :: "('n, 'c, 'k) web_env \<Rightarrow> auth_user \<Rightarrow> web \<Rightarrow> web \<Rightarrow> bool" where
  "traced V u s s' \<longleftrightarrow> (config_part s' = config_part s \<or> (table_wf (ap_store s) \<longrightarrow> logged V u s s')) \<and> extends s s'"

lemma extends_refl [simp]: "extends s s"
  by (simp add: extends_def)

lemma extends_trans: "extends s t \<Longrightarrow> extends t v \<Longrightarrow> extends s v"
  by (fastforce simp: extends_def)

lemma keeps_refl [simp]: "keeps s s"
  by (simp add: keeps_def)

lemma keeps_trans: "keeps s t \<Longrightarrow> keeps t v \<Longrightarrow> keeps s v"
  by (auto simp: keeps_def intro: extends_trans)

lemma keeps_traced: "keeps s s' \<Longrightarrow> traced V u s s'"
  by (simp add: keeps_def traced_def)

lemma traced_then: "traced V u s t \<Longrightarrow> keeps t v \<Longrightarrow> traced V u s v"
  unfolding traced_def keeps_def logged_def extends_def by fastforce

lemma commit_entry_fields [simp]:
  "ap_manager (snd (commit_entry V e s)) = ap_manager s" "ap_pki (snd (commit_entry V e s)) = ap_pki s"
  "ap_web_pair (snd (commit_entry V e s)) = ap_web_pair s" "ap_users (snd (commit_entry V e s)) = ap_users s"
  "ap_settings (snd (commit_entry V e s)) = ap_settings s" "ap_auth (snd (commit_entry V e s)) = ap_auth s"
  "ap_exports (snd (commit_entry V e s)) = ap_exports s" "ap_browser (snd (commit_entry V e s)) = ap_browser s"
  "ap_files (snd (commit_entry V e s)) = ap_files s"
  by (simp_all add: commit_entry_def split: prod.splits sum.splits)

lemma commit_entry_stored:
  assumes "table_wf (ap_store s)" and "we_stores V e"
  shows "\<exists>r. trail (snd (commit_entry V e s)) = trail s @ [r] \<and> r_kind r = kind (e_event e) \<and> body r = to_json (we_codec V) e \<and>
    fst (commit_entry V e s) = Inr (last_seq (ap_store s) + 1)"
  using assms by (simp add: commit_entry_def append_result Let_def make_row_def columns_def)

lemma commit_entry_extends [simp]: "extends s (snd (commit_entry V e s))"
proof (cases "we_stores V e")
  case True
  show ?thesis
  proof (unfold extends_def, intro impI conjI)
    assume wf: "table_wf (ap_store s)"
    obtain r st where a: "append (we_codec V) (\<not> we_stores V e) [e] (ap_store s) = (r, st)" by fastforce
    from wf_append [OF wf, of "we_codec V" "\<not> we_stores V e" "[e]"]
    show "table_wf (ap_store (snd (commit_entry V e s)))"
      unfolding a commit_entry_def by (cases r) simp_all
    from commit_entry_stored [OF wf True] show "\<exists>rows. trail (snd (commit_entry V e s)) = trail s @ rows" by blast
  qed
qed (simp add: extends_def commit_entry_def)

lemma commit_entry_keeps [simp]: "keeps s (snd (commit_entry V e s))"
  by (simp add: keeps_def config_part_def)

lemma submit_entry_state [simp]: "snd (submit_entry V e s) = snd (commit_entry V e s)"
  by (simp add: submit_entry_def case_prod_beta)

lemma submit_all_keeps [simp]: "keeps s (submit_all V es s)"
proof (induction es arbitrary: s)
  case (Cons e es)
  from keeps_trans [OF commit_entry_keeps Cons] show ?case by simp
qed simp

lemma same_keeps: "config_part s' = config_part s \<Longrightarrow> ap_store s' = ap_store s \<Longrightarrow> keeps s s'"
  by (simp add: keeps_def extends_def)

lemma end_sessions_keeps [simp]: "keeps s (end_sessions V close s)"
proof -
  obtain recs b where c: "close (ap_browser s) = (recs, b)" by fastforce
  have "keeps s (s\<lparr>ap_browser := b\<rparr>)" by (rule same_keeps) (simp_all add: config_part_def)
  then show ?thesis by (auto simp: end_sessions_def c intro: keeps_trans)
qed

lemma statuses_keeps [simp]: "keeps s (s\<lparr>ap_manager := (ap_manager s)\<lparr>mg_statuses := st\<rparr>\<rparr>)"
  by (rule same_keeps) (simp_all add: config_part_def)

lemma check_trust_keeps [simp]: "keeps s (web_check_trust V name s)"
  unfolding web_check_trust_def Let_def
  by (auto split: option.splits prod.splits intro: keeps_trans [OF statuses_keeps submit_all_keeps] keeps_trans [OF statuses_keeps commit_entry_keeps])

text \<open>A change, records in between, and the record of the change.\<close>

lemma config_changed_traced:
  assumes "\<forall>t. we_stores V (change_entry V u t)" and "extends s s1"
  shows "traced V u s (config_changed V u t s1)"
proof -
  have "logged V u s (config_changed V u t s1)" if wf: "table_wf (ap_store s)"
  proof -
    obtain rows where "table_wf (ap_store s1)" "trail s1 = trail s @ rows" using assms(2) wf by (auto simp: extends_def)
    with commit_entry_stored [of s1 V "change_entry V u t"] assms(1) show ?thesis
      unfolding logged_def config_changed_def by (force simp: change_entry_def)
  qed
  moreover have "extends s (config_changed V u t s1)"
    using assms(2) unfolding config_changed_def by (blast intro: extends_trans commit_entry_extends)
  ultimately show ?thesis by (simp add: traced_def)
qed

lemma extends_store: "ap_store s' = ap_store s \<Longrightarrow> extends s s'"
  by (simp add: extends_def)

lemma extends_keeps: "ap_store s1 = ap_store s \<Longrightarrow> keeps s1 s2 \<Longrightarrow> extends s s2"
  by (auto simp: keeps_def extends_def)

section \<open>The configuration's part of each operation\<close>

lemma upsert_refused: "upsert P A E t r m = (Inl e, m') \<Longrightarrow> mg_config m' = mg_config m"
  by (auto simp: upsert_def Let_def run_target_def drop_status_def stop_target_def split: sum.splits option.splits if_splits)

lemma remove_target_refused: "remove_target A E n m = (Inl e, m') \<Longrightarrow> m' = m"
  by (auto simp: remove_target_def Let_def split: option.splits if_splits)

lemma update_settings_result:
  "update_settings P E change m = (Inl e, m') \<Longrightarrow> m' = m"
  "update_settings P E change m = (Inr (old, c), m') \<Longrightarrow> old = mg_config m \<and> c = change (mg_config m) \<and> mg_config m' = c"
  by (auto simp: update_settings_def Let_def split: option.splits)

lemma replace_first_same: "find (\<lambda>t. t_name t = n) us = Some t \<Longrightarrow> replace_first n t us = Some us"
  by (induction us) (auto split: if_splits)

lemma update_summarise_result:
  "update_summarise P A E n change m = (Inl e, m') \<Longrightarrow> m' = m"
  "update_summarise P A E n change m = (Inr out, m') \<Longrightarrow> \<exists>t gs. find (\<lambda>t. t_name t = n) (c_targets (mg_config m)) = Some t \<and>
     change (t_summarise t) = Inr (out, gs) \<and> (gs = t_summarise t \<longrightarrow> mg_config m' = mg_config m)"
  by (auto simp: update_summarise_def Let_def replace_first_same split: option.splits sum.splits)

lemma pki_refused:
  "trust X now c p = (Inl e, p') \<Longrightarrow> p' = p" "trust_rejected X now thumb p = (Inl e, p') \<Longrightarrow> p' = p"
  "untrust X thumb p = (Inl e, p') \<Longrightarrow> p' = p" "delete_rejected X thumb p = (Inl e, p') \<Longrightarrow> p' = p"
  by (auto simp: trust_def trust_rejected_def untrust_def delete_rejected_def Let_def split: option.splits if_splits prod.splits)

lemma users_refused:
  "create_with H salt now n p r b db = (Inl e, db') \<Longrightarrow> db' = db" "update_user H salt n q pw b db = (Inl e, db') \<Longrightarrow> db' = db"
  "delete_user n db = (Inl e, db') \<Longrightarrow> db' = db" "delete_token n i db = (Inl e, db') \<Longrightarrow> db' = db"
  "create_token H now i x n l xs db = (Inl e, db') \<Longrightarrow> db' = db"
  by (auto simp: create_with_def update_user_def delete_user_def delete_token_def create_token_def Let_def
      split: option.splits if_splits sum.splits prod.splits)

section \<open>Every change of the configuration is recorded\<close>

lemma label_client: "group_label (g\<lparr>g_name := n\<rparr>) = group_label g \<longleftrightarrow> n = g_name g"
  by (cases n; cases "g_name g"; cases "g_client g") (auto simp: group_label_def)

lemma add_refs_nothing:
  assumes "add_refs P present ns (g, k) = Inr (g1, k1)"
  shows "k \<le> k1 \<and> (k1 = k \<longrightarrow> g1 = g)"
  using assms
proof (induction ns arbitrary: present g k)
  case (Cons n ns)
  consider "trim (nr_node_id n) = []" | "trim (nr_node_id n) \<noteq> []" "parse_node P (nr_node_id n) = None"
    | p where "trim (nr_node_id n) \<noteq> []" "parse_node P (nr_node_id n) = Some p" "p \<in> present"
    | p where "trim (nr_node_id n) \<noteq> []" "parse_node P (nr_node_id n) = Some p" "p \<notin> present" by blast
  then show ?case
  proof cases
    case (4 p)
    then have "\<exists>g2. add_refs P (insert p present) ns (g2, k + 1) = Inr (g1, k1)" using Cons.prems by (auto simp: Let_def)
    then show ?thesis using Cons.IH by fastforce
  next
    case 1
    with Cons.prems have "add_refs P present ns (g, k) = Inr (g1, k1)" by simp
    then show ?thesis by (rule Cons.IH)
  next
    case 3
    with Cons.prems have "add_refs P present ns (g, k) = Inr (g1, k1)" by (simp add: Let_def)
    then show ?thesis by (rule Cons.IH)
  qed (use Cons.prems in \<open>simp add: Let_def\<close>)
qed simp

lemma group_at_Inr: "group_at gs i target expect = Inr g \<Longrightarrow> i < length gs \<and> g = gs ! i"
  by (auto simp: group_at_def split: if_splits)

lemma drop_listed_nothing:
  assumes "group_ok P g" and "length (nodes g) - length (nodes (drop_listed P ids g)) = 0"
  shows "drop_listed P ids g = g"
proof -
  define kept where "kept = nodes (drop_listed P ids g)"
  have "length (nodes g) \<le> length kept" using assms(2) by (simp add: kept_def)
  moreover have f: "\<exists>Q. kept = filter Q (nodes g)" by (auto simp: kept_def drop_listed_def Let_def)
  ultimately have "kept = nodes g" by (metis filter_id_conv length_filter_le length_filter_less linorder_not_less)
  moreover have "drop_listed P ids g = g\<lparr>nodes := kept, names := bt_retain (\<lambda>k _. k \<in> set kept) (names g)\<rparr>"
    by (simp add: kept_def drop_listed_def Let_def)
  moreover have "bt_retain (\<lambda>k _. k \<in> set (nodes g)) (names g) = names g"
    using assms(1) unfolding bt_retain_def group_ok_def by (intro filter_True) auto
  ultimately show ?thesis by simp
qed

text \<open>A change of the groups that records nothing changes nothing.\<close>

lemma silent_changes:
  "rename_group_change i target expect l gs = Inr ((a, a), gs') \<Longrightarrow> gs' = gs"
  "add_nodes_change P i target expect ns gs = Inr ((0, b), gs') \<Longrightarrow> gs' = gs"
  "list_all (group_ok P) gs \<Longrightarrow> remove_nodes_change P i target expect ids gs = Inr ((0, b), gs') \<Longrightarrow> gs' = gs"
proof -
  show "rename_group_change i target expect l gs = Inr ((a, a), gs') \<Longrightarrow> gs' = gs"
    using label_client [where g = "gs ! i" and n = "trimmed l"] by (auto simp: rename_group_change_def Let_def dest!: group_at_Inr split: sum.splits)
  show "add_nodes_change P i target expect ns gs = Inr ((0, b), gs') \<Longrightarrow> gs' = gs"
    by (auto simp: add_nodes_change_def add_to_group_def dest!: group_at_Inr add_refs_nothing split: sum.splits)
  show "list_all (group_ok P) gs \<Longrightarrow> remove_nodes_change P i target expect ids gs = Inr ((0, b), gs') \<Longrightarrow> gs' = gs"
    using drop_listed_nothing [of P "gs ! i" ids]
    by (auto simp: remove_nodes_change_def Let_def list_all_length dest!: group_at_Inr split: sum.splits)
qed

lemma traced_same: "config_part s' = config_part s \<Longrightarrow> ap_store s' = ap_store s \<Longrightarrow> traced V u s s'"
  by (rule keeps_traced, rule same_keeps)

lemma config_part_update [simp]:
  "mg_config m = mg_config (ap_manager s) \<Longrightarrow> config_part (s\<lparr>ap_manager := m\<rparr>) = config_part s"
  by (simp add: config_part_def)

lemma config_part_users [simp]: "db = ap_users s \<Longrightarrow> config_part (s\<lparr>ap_users := db\<rparr>) = config_part s"
  by (simp add: config_part_def)

lemma change_groups_traced:
  assumes "\<forall>t. we_stores V (change_entry V u t)"
    and "\<And>t out gs. find_target n s = Some t \<Longrightarrow> change (t_summarise t) = Inr (out, gs) \<Longrightarrow> text out = None \<Longrightarrow> gs = t_summarise t"
  shows "traced V u s (snd (change_groups V u n change text reply s))"
proof (cases "require Admin u")
  case True
  obtain r m where u: "update_summarise (we_node V) (we_addr V) (we_out V) n change (ap_manager s) = (r, m)" by fastforce
  show ?thesis
  proof (cases r)
    case (Inl e)
    from update_summarise_result(1) [OF u [unfolded Inl]] show ?thesis
      by (cases e) (simp_all add: change_groups_def True u Inl traced_same)
  next
    case (Inr out)
    from update_summarise_result(2) [OF u [unfolded Inr]] obtain t gs where
      t: "find_target n s = Some t" "change (t_summarise t) = Inr (out, gs)" "gs = t_summarise t \<Longrightarrow> mg_config m = mg_config (ap_manager s)"
      by (auto simp: find_target_def)
    show ?thesis
    proof (cases "text out")
      case None
      with t assms(2) show ?thesis by (simp add: change_groups_def True u Inr traced_same)
    next
      case (Some x)
      then show ?thesis using assms(1) by (simp add: change_groups_def True u Inr config_changed_traced extends_store)
    qed
  qed
qed (simp add: change_groups_def traced_same)

lemma groups_of_valid:
  assumes "validate_config P (mg_config (ap_manager s)) = None" and "find_target n s = Some t"
  shows "list_all (group_ok P) (t_summarise t)"
  using assms find_Some_in [of _ _ t]
  by (fastforce simp: config_ok_iff config_ok_def find_target_def list_all_iff target_ok_def groups_ok_def)

lemma if_text: "(if a then Some x else None) = None \<longleftrightarrow> \<not> a"
  by simp

lemma group_requests_traced:
  assumes "\<forall>t. we_stores V (change_entry V u t)" and "validate_config (we_node V) (mg_config (ap_manager s)) = None"
  shows "traced V u s (snd (create_group V u n g s))" "traced V u s (snd (rename_group V u n i c l s))"
    "traced V u s (snd (delete_group V u n i c s))" "traced V u s (snd (add_nodes V u n i c ns s))"
    "traced V u s (snd (remove_nodes V u n i c ids s))"
  unfolding create_group_def rename_group_def delete_group_def add_nodes_def remove_nodes_def
  by (rule change_groups_traced [OF assms(1)];
      force simp: if_text split: prod.splits dest: silent_changes silent_changes(3) [OF groups_of_valid [OF assms(2)]])+

lemma change_recorded:
  "\<forall>t. we_stores V (change_entry V u t) \<Longrightarrow> ap_store s1 = ap_store s \<Longrightarrow> traced V u s (config_changed V u t s1)"
  "\<forall>t. we_stores V (change_entry V u t) \<Longrightarrow> ap_store s1 = ap_store s \<Longrightarrow> traced V u s (config_changed V u t (end_sessions V c s1))"
  by (simp_all add: config_changed_traced extends_store extends_keeps)

lemma target_requests_traced:
  assumes "\<forall>t. we_stores V (change_entry V u t)"
  shows "traced V u s (snd (create_target V u t s))" "traced V u s (snd (update_target V u n t s))"
    "traced V u s (snd (delete_target V u n s))"
proof -
  note [simp] = change_recorded [OF assms] traced_same
  have upsert: "traced V u s (s\<lparr>ap_manager := m\<rparr>)" if "upsert (we_node V) (we_addr V) (we_out V) t r (ap_manager s) = (Inl e, m)" for t r e m
    using upsert_refused [OF that] by simp
  show "traced V u s (snd (create_target V u t s))"
    using upsert by (simp add: create_target_def Let_def split: prod.split sum.split)
  show "traced V u s (snd (update_target V u n t s))"
    using upsert by (simp add: update_target_def Let_def split: prod.split sum.split option.split)
  show "traced V u s (snd (delete_target V u n s))"
  proof (cases "remove_target (we_addr V) (we_out V) n (ap_manager s)")
    case (Pair r m)
    then show ?thesis by (cases r) (auto simp: delete_target_def dest: remove_target_refused)
  qed
qed

lemma discovery_traced: "traced V u s (snd (discover_target V u n s))" "traced V u s (snd (discover_url V u url s))"
proof -
  have "keeps s (web_check_trust V n (submit_all V es (s\<lparr>ap_manager := (ap_manager s)\<lparr>mg_statuses := st\<rparr>\<rparr>)))" for es st
    by (rule keeps_trans [OF keeps_trans [OF statuses_keeps submit_all_keeps] check_trust_keeps])
  then have "keeps s (snd (discover_target V u n s))"
    by (simp add: discover_target_def Let_def split: option.split prod.split)
  then show "traced V u s (snd (discover_target V u n s))" by (rule keeps_traced)
  have "keeps s (snd (discover_url V u url s))"
    by (simp add: discover_url_def Let_def split: sum.split)
  then show "traced V u s (snd (discover_url V u url s))" by (rule keeps_traced)
qed

lemma certificate_requests_traced:
  assumes "\<forall>t. we_stores V (change_entry V u t)"
  shows "traced V u s (snd (trust_server V u n thumb s))" "traced V u s (snd (web_trust_rejected V u thumb s))"
    "traced V u s (snd (web_delete_rejected V u thumb s))" "traced V u s (snd (web_untrust V u thumb s))"
    "traced V u s (snd (web_import_own V u cert key s))" "traced V u s (snd (web_regenerate_own V u s))"
    "traced V u s (snd (regenerate_web_certificate V u s))"
proof -
  note [simp] = change_recorded [OF assms] and [dest] = pki_refused and [split] = sum.splits option.splits prod.splits
  have "traced V u s (web_check_trust V n (config_changed V u t (s\<lparr>ap_pki := p\<rparr>)))" for t p
    by (rule traced_then [where t = "config_changed V u t (s\<lparr>ap_pki := p\<rparr>)"]) simp_all
  then show "traced V u s (snd (trust_server V u n thumb s))" by (auto simp: trust_server_def traced_same)
  show "traced V u s (snd (web_trust_rejected V u thumb s))" by (auto simp: web_trust_rejected_def traced_same)
  show "traced V u s (snd (web_delete_rejected V u thumb s))" by (auto simp: web_delete_rejected_def traced_same)
  show "traced V u s (snd (web_untrust V u thumb s))" by (auto simp: web_untrust_def traced_same)
  show "traced V u s (snd (web_import_own V u cert key s))" by (auto simp: web_import_own_def with_own_def Let_def traced_same)
  have "config_part (s\<lparr>ap_pki := (ap_pki s)\<lparr>pk_own := fold own_do (backup_own (we_stamp V)) (pk_own (ap_pki s))\<rparr>\<rparr>) = config_part s"
    by (auto simp: config_part_def backup_own_def)
  then show "traced V u s (snd (web_regenerate_own V u s))" by (auto simp: web_regenerate_own_def with_own_def Let_def traced_same)
  show "traced V u s (snd (regenerate_web_certificate V u s))" by (auto simp: regenerate_web_certificate_def Let_def traced_same)
qed

lemma user_requests_traced:
  assumes "\<forall>t. we_stores V (change_entry V u t)"
  shows "traced V u s (snd (web_create_user V u n p r s))" "traced V u s (snd (web_update_user V u n q pw s))"
    "traced V u s (snd (web_delete_user V u n s))" "traced V u s (snd (web_revoke_token V u n i s))"
    "traced V u s (snd (web_create_token V u n xs s))" "traced V u s (snd (web_delete_token V u i s))"
proof -
  note [simp] = change_recorded [OF assms] traced_same
  show "traced V u s (snd (web_create_user V u n p r s))"
  proof (cases "create_with (we_hash V) (we_salt V) (we_now V) n p r True (ap_users s)")
    case (Pair res db)
    then show ?thesis by (cases res) (auto simp: web_create_user_def dest: users_refused(1))
  qed
  show "traced V u s (snd (web_update_user V u n q pw s))"
  proof (cases "update_user (we_hash V) (we_salt V) n q pw True (ap_users s)")
    case (Pair res db)
    then show ?thesis by (cases res) (auto simp: web_update_user_def Let_def dest: users_refused(2))
  qed
  show "traced V u s (snd (web_delete_user V u n s))"
  proof (cases "delete_user n (ap_users s)")
    case (Pair res db)
    then show ?thesis by (cases res) (auto simp: web_delete_user_def dest: users_refused(3))
  qed
  show "traced V u s (snd (web_revoke_token V u n i s))"
  proof (cases "delete_token n i (ap_users s)")
    case (Pair res db)
    then show ?thesis by (cases res) (auto simp: web_revoke_token_def dest: users_refused(4))
  qed
  show "traced V u s (snd (web_delete_token V u i s))"
  proof (cases "delete_token (au_name u) i (ap_users s)")
    case (Pair res db)
    then show ?thesis by (cases res) (auto simp: web_delete_token_def dest: users_refused(4))
  qed
  show "traced V u s (snd (web_create_token V u n xs s))"
  proof (cases "create_token (we_hash V) (we_now V) (fst (we_random V)) (snd (we_random V)) (au_name u) n xs (ap_users s)")
    case (Pair res db)
    then show ?thesis
      by (cases res; cases "find (\<lambda>x. \<not> require (mcp_scope_role x) u) xs")
        (auto simp: web_create_token_def Let_def dest: users_refused(5) split: prod.splits)
  qed
qed

lemma audit_section_eq:
  "audit_diffs a (new\<lparr>a_database := a_database a\<rparr>) = [] \<Longrightarrow> new\<lparr>a_database := a_database a\<rparr> = a"
  by (cases a; cases new) (auto simp: audit_diffs_def split: if_splits)

lemma update_settings_same:
  "update_settings P E change m = (Inr (old, c), m') \<Longrightarrow> change (mg_config m) = mg_config m \<Longrightarrow> mg_config m' = mg_config m"
  by (auto dest: update_settings_result(2))

lemma put_audit_traced:
  assumes "\<forall>t. we_stores V (change_entry V u t)"
  shows "traced V u s (snd (put_audit V u new s))"
proof (cases "update_settings (we_node V) (we_out V) (\<lambda>c. c\<lparr>c_audit := new\<lparr>a_database := a_database (c_audit c)\<rparr>\<rparr>) (ap_manager s)")
  case (Pair r m)
  show ?thesis
  proof (cases r)
    case (Inl e)
    with Pair update_settings_result(1) [OF Pair [unfolded Inl]] show ?thesis by (simp add: put_audit_def traced_same)
  next
    case (Inr oc)
    obtain old c where oc: "oc = (old, c)" by fastforce
    from update_settings_result(2) [OF Pair [unfolded Inr oc]]
    have c: "old = mg_config (ap_manager s)" "c = old\<lparr>c_audit := new\<lparr>a_database := a_database (c_audit old)\<rparr>\<rparr>" "mg_config m = c" by auto
    show ?thesis
    proof (cases "audit_diffs (c_audit old) (c_audit c) = []")
      case True
      then have "c_audit c = c_audit old" using c audit_section_eq by simp
      then have "mg_config m = mg_config (ap_manager s)" using c by (metis config.surjective config.update_convs(3) config.select_convs(3))
      then show ?thesis using True Pair Inr oc by (simp add: put_audit_def Let_def traced_same config_part_def)
    next
      case False
      then show ?thesis using Pair Inr oc change_recorded [OF assms] by (simp add: put_audit_def Let_def traced_same)
    qed
  qed
qed

lemma put_gateway_mcp_traced:
  assumes "\<forall>t. we_stores V (change_entry V u t)"
  shows "traced V u s (snd (put_gateway V u ns s))" and "traced V u s (snd (put_mcp V u b s))"
proof -
  note [simp] = change_recorded [OF assms] traced_same
  have gw: "c\<lparr>c_gateway := (c_gateway c)\<lparr>gw_certificate_hostnames := gw_certificate_hostnames (c_gateway c)\<rparr>\<rparr> = c" for c by simp
  have mcp: "c\<lparr>c_mcp := (c_mcp c)\<lparr>m_enabled := m_enabled (c_mcp c)\<rparr>\<rparr> = c" for c by simp
  show "traced V u s (snd (put_gateway V u ns s))"
  proof (cases "host_names [] ns")
    case (Inr hs)
    obtain r m where u: "update_settings (we_node V) (we_out V) (\<lambda>c. c\<lparr>c_gateway := (c_gateway c)\<lparr>gw_certificate_hostnames := hs\<rparr>\<rparr>) (ap_manager s) = (r, m)"
      by fastforce
    show ?thesis
    proof (cases r)
      case (Inl e)
      with update_settings_result(1) [OF u [unfolded Inl]] show ?thesis using u Inr by (simp add: put_gateway_def)
    next
      case (Inr oc)
      obtain old c where oc: "oc = (old, c)" by fastforce
      note r = update_settings_result(2) [OF u [unfolded Inr oc]]
      show ?thesis using u \<open>host_names [] ns = Inr hs\<close> Inr oc r gw [of old]
        by (cases "gw_certificate_hostnames (c_gateway old) = hs") (auto simp: put_gateway_def)
    qed
  qed (simp add: put_gateway_def)
  obtain r m where u: "update_settings (we_node V) (we_out V) (\<lambda>c. c\<lparr>c_mcp := (c_mcp c)\<lparr>m_enabled := b\<rparr>\<rparr>) (ap_manager s) = (r, m)" by fastforce
  show "traced V u s (snd (put_mcp V u b s))"
  proof (cases r)
    case (Inl e)
    with update_settings_result(1) [OF u [unfolded Inl]] show ?thesis using u by (simp add: put_mcp_def)
  next
    case (Inr oc)
    obtain old c where oc: "oc = (old, c)" by fastforce
    note r = update_settings_result(2) [OF u [unfolded Inr oc]]
    show ?thesis using u Inr oc r mcp [of old]
      by (cases "m_enabled (c_mcp old) = b") (auto simp: put_mcp_def)
  qed
qed

text \<open>The settings of the export are saved before they are applied.\<close>

lemma describe_export_changed: "x \<noteq> y \<Longrightarrow> describe_export x y \<noteq> None"
  by (cases x; cases y) (auto simp: describe_export_def)

lemma apply_export_traced:
  assumes "\<forall>t. we_stores V (change_entry V u t)" and "\<not> x_syslog (c_export (mg_config (ap_manager s)))"
    and "apply_export V u current q s = (r, s')" and "r \<noteq> Inl BadExport"
  shows "traced V u s s'"
proof -
  note [simp] = change_recorded [OF assms(1)] traced_same
  define s1 where "s1 = (if (case q of Some q \<Rightarrow> q_ca_file q \<noteq> None | None \<Rightarrow> False)
    then s\<lparr>ap_files := bt_put (managed_ca V current) (the (map_of (ap_files s) (new_ca V current))) (bt_remove (new_ca V current) (ap_files s))\<rparr> else s)"
  define x where "x = \<lparr>x_questdb = map_option (\<lambda>q. q\<lparr>q_ca_file := map_option (\<lambda>_. managed_ca V current) (q_ca_file q)\<rparr>) q, x_syslog = False\<rparr>"
  have s1: "ap_manager s1 = ap_manager s" "ap_store s1 = ap_store s" "\<And>m. mg_config m = mg_config (ap_manager s) \<Longrightarrow> config_part (s1\<lparr>ap_manager := m\<rparr>) = config_part s"
    "\<And>m e. mg_config m = mg_config (ap_manager s) \<Longrightarrow> config_part (s1\<lparr>ap_manager := m, ap_exports := e\<rparr>) = config_part s"
    by (simp_all add: s1_def config_part_def)
  obtain res m where u: "update_settings (we_node V) (we_out V) (\<lambda>c. c\<lparr>c_export := x\<rparr>) (ap_manager s1) = (res, m)" by fastforce
  show ?thesis
  proof (cases res)
    case (Inl e)
    with update_settings_result(1) [OF u [unfolded Inl]] assms(3) u s1 show ?thesis
      by (auto simp: apply_export_def Let_def s1_def [symmetric] x_def [symmetric] split: if_splits)
  next
    case (Inr oc)
    obtain old c where oc: "oc = (old, c)" by fastforce
    from update_settings_result(2) [OF u [unfolded Inr oc]] s1(1)
    have c: "old = mg_config (ap_manager s)" "c = old\<lparr>c_export := x\<rparr>" "mg_config m = c" by auto
    have export: "export_config.x_questdb (c_export old) = x_questdb x \<Longrightarrow> mg_config m = mg_config (ap_manager s)"
      using c assms(2) by (cases "c_export old"; cases "old") (simp add: x_def)
    define moves where "moves = (case q of Some q \<Rightarrow> q_ca_file q \<noteq> None | None \<Rightarrow> False)"
    define same where "same \<longleftrightarrow> ca_shown (ap_files s) (x_questdb (c_export current)) = ca_shown (ap_files s) q \<and> x_questdb (c_export old) = x_questdb x"
    let ?s3 = "s1\<lparr>ap_manager := m, ap_exports := x\<rparr>"
    have "apply_export V u current q s = (if moves \<and> \<not> we_file_ok V (managed_ca V current) then (Inl FileTrouble, s)
        else if \<not> (we_sinks V (map_of (ap_files s1)) x \<and> we_positions_ok V) then (Inl BadExport, s1\<lparr>ap_manager := m\<rparr>)
        else (Inr NoContent, if same then ?s3
          else (case describe_export (x_questdb (c_export old)) (x_questdb x) of Some t \<Rightarrow> config_changed V u t ?s3 | None \<Rightarrow> ?s3)))"
      using u c by (simp add: apply_export_def Let_def s1_def [symmetric] x_def [symmetric] Inr oc moves_def same_def)
    with assms(3,4) consider "s' = s" | "same" "s' = ?s3" | t where "s' = config_changed V u t ?s3"
      | "s' = ?s3" "describe_export (x_questdb (c_export old)) (x_questdb x) = None"
      by (auto split: if_splits option.splits)
    then show ?thesis
    proof cases
      case 4
      with describe_export_changed have "x_questdb (c_export old) = x_questdb x" by blast
      from export [OF this] 4 s1 show ?thesis by simp
    qed (use s1 export same_def in simp_all)
  qed
qed

lemma put_export_traced:
  assumes "\<forall>t. we_stores V (change_entry V u t)" and "\<not> x_syslog (c_export (mg_config (ap_manager s)))"
    and "put_export V u input s = (r, s')" and "r \<noteq> Inl BadExport"
  shows "traced V u s s'"
proof -
  define s1 where "s1 = (case Option.bind input (\<lambda>q. trimmed (qi_ca_pem q)) of
     Some p \<Rightarrow> s\<lparr>ap_files := bt_put (new_ca V (mg_config (ap_manager s))) (p @ [newline]) (ap_files s)\<rparr> | None \<Rightarrow> s)"
  have s1: "config_part s1 = config_part s" "ap_store s1 = ap_store s" "ap_manager s1 = ap_manager s"
    by (simp_all add: s1_def config_part_def split: option.splits)
  have last: "traced V u s s'" if "apply_export V u c q s1 = (r, s')" for c q
    using apply_export_traced [OF assms(1) _ that assms(4)] assms(2) s1
    by (simp add: traced_def logged_def extends_def)
  show ?thesis
    using assms(3,4) last s1 traced_same [of s1 s V u] traced_same [of s s V u]
    by (auto simp: put_export_def Let_def s1_def [symmetric] split: if_splits)
qed

lemma reads_keep [simp]:
  "snd (list_targets u s) = s" "snd (list_certificates V u s) = s" "snd (web_audit_query V u q s) = s" "snd (audit_verify V u s) = s"
  "snd (list_alarms V u s) = s" "snd (web_list_users u s) = s" "snd (web_all_tokens u s) = s" "snd (web_list_tokens u s) = s"
  "snd (get_settings V u s) = s"
  by (simp_all add: list_targets_def list_certificates_def web_audit_query_def audit_verify_def list_alarms_def web_list_users_def
      web_all_tokens_def web_list_tokens_def get_settings_def Let_def)

lemma acknowledge_keeps [simp]: "keeps s (snd (acknowledge_alarms V u sev s))"
proof -
  have "keeps s s1" if "commit_entry V e s = (r, s1)" for e r s1
    using commit_entry_keeps [of s V e] that by simp
  then show ?thesis by (simp add: acknowledge_alarms_def Let_def split: prod.split sum.split)
qed

lemma handle_traced:
  assumes "\<forall>t. we_stores V (change_entry V u t)" and "validate_config (we_node V) (mg_config (ap_manager s)) = None"
    and "\<not> x_syslog (c_export (mg_config (ap_manager s)))" and "fst (handle_request V u ask s) \<noteq> Inl BadExport"
  shows "traced V u s (snd (handle_request V u ask s))"
proof (cases ask)
  case (PutExport q)
  with assms put_export_traced [of V u s q] show ?thesis by (metis handle_request.simps(35) prod.collapse)
qed (simp_all add: group_requests_traced [OF assms(1,2)] target_requests_traced [OF assms(1)] discovery_traced
      certificate_requests_traced [OF assms(1)] user_requests_traced [OF assms(1)] put_audit_traced [OF assms(1)]
      put_gateway_mcp_traced [OF assms(1)] keeps_traced traced_same)

lemma every_change:
  assumes "table_wf (ap_store s)" and "\<forall>t. we_stores V (change_entry V u t)"
    and "validate_config (we_node V) (mg_config (ap_manager s)) = None" and "\<not> x_syslog (c_export (mg_config (ap_manager s)))"
    and "handle_request V u ask s = (r, s')" and "r \<noteq> Inl BadExport" and "config_part s' \<noteq> config_part s"
  shows "logged V u s s'"
  using handle_traced [OF assms(2-4), of ask] assms by (simp add: traced_def)


section \<open>Roles\<close>

text \<open>The role each request needs.\<close>

fun min_role :: "web_request \<Rightarrow> role" where
  "min_role ListTargets = Auditor"
| "min_role ListCertificates = Auditor"
| "min_role (QueryAudit _) = Auditor"
| "min_role VerifyAudit = Auditor"
| "min_role ListAlarms = Auditor"
| "min_role GetSettings = Auditor"
| "min_role ListTokens = Auditor"
| "min_role (DeleteToken _) = Auditor"
| "min_role (CreateToken _ scopes) = foldr (max \<circ> mcp_scope_role) scopes Auditor"
| "min_role (DiscoverTarget _) = Operator"
| "min_role (AcknowledgeAlarms _) = Operator"
| "min_role _ = Admin"

lemma min_token_role: "foldr (max \<circ> mcp_scope_role) scopes Auditor \<le> r \<longleftrightarrow> (\<forall>x \<in> set scopes. mcp_scope_role x \<le> r)"
proof -
  have "Auditor \<le> r" by (simp add: less_eq_role_def)
  then show ?thesis by (induction scopes) auto
qed

lemma low_role_refused: "\<not> require (min_role ask) u \<Longrightarrow> \<exists>q. handle_request V u ask s = (Inl (NeedsRole q), s)"
proof (cases ask)
  case (CreateToken n xs)
  assume "\<not> require (min_role ask) u"
  then have "find (\<lambda>x. \<not> require (mcp_scope_role x) u) xs \<noteq> None"
    by (auto simp: CreateToken require_def min_token_role find_None_iff')
  then show ?thesis by (auto simp: CreateToken web_create_token_def)
qed (auto simp: list_targets_def create_target_def update_target_def delete_target_def create_group_def rename_group_def
    delete_group_def add_nodes_def remove_nodes_def change_groups_def discover_target_def trust_server_def discover_url_def
    list_certificates_def web_trust_rejected_def web_delete_rejected_def web_untrust_def web_import_own_def web_regenerate_own_def
    regenerate_web_certificate_def web_audit_query_def audit_verify_def list_alarms_def acknowledge_alarms_def web_list_users_def
    web_create_user_def web_update_user_def web_delete_user_def web_all_tokens_def web_revoke_token_def get_settings_def
    put_audit_def put_export_def put_gateway_def put_mcp_def require_def less_eq_role_def)

lemma getting_changes_nothing: "fst (route ask) = ''GET'' \<Longrightarrow> snd (handle_request V u ask s) = s"
  by (cases ask) simp_all

lemma routes: "snd (route ask) \<notin> set own_paths" "snd (route ask) \<noteq> ''/mcp''" "fst (route ask) \<notin> {''HEAD'', ''OPTIONS''}"
  by (cases ask; simp add: own_paths_def)+

lemma authenticate_ok:
  assumes "authenticate now cookie path db w = (Inr u, w1)" and "path \<notin> set own_paths"
  shows "\<exists>t v q. cookie = Some t \<and> map_of (wa_sessions w) t = Some v \<and> \<not> expired now v \<and> au_name u = ws_user v \<and>
    state_of (ws_user v) db = Inr (Some q) \<and> ss_epoch q = ws_epoch v \<and> ss_role q = au_role u \<and> \<not> ss_must q"
  using assms by (auto simp: authenticate_def get_session_def split: option.splits sum.splits if_splits prod.splits)

lemma config_part_auth [simp]: "config_part (s\<lparr>ap_auth := w\<rparr>) = config_part s"
  by (simp add: config_part_def)


section \<open>An example\<close>

text \<open>A gateway on its loopback address; its administrator ann is logged in and deletes the user bob.\<close>

definition desk_env :: "(string, string, string) web_env" where
  "desk_env = \<lparr>we_node = Some, we_addr = one_addr, we_out = \<lparr>can_start = (\<lambda>t. True), can_write = True\<rparr>,
     we_hash = \<lparr>hash_password = (\<lambda>salt p. Some (salt @ p)), verify_hash = (\<lambda>h p. h = ''s'' @ p), token_hash = id\<rparr>,
     we_salt = ''s'', we_x509 = text_x509, we_codec = page_codec, we_json = (\<lambda>b p. None), we_time = secs 60,
     we_now = ''2024-01-01T00:01:00Z'', we_stamp = ''20240101T000100Z'', we_stores = (\<lambda>e. True), we_sec = toy_sec, we_status = (\<lambda>s. []),
     we_discover = (\<lambda>u. Inl ''down''), we_upstream = (\<lambda>u. Inl 0), we_connect = (\<lambda>e. ConnectTimeout), we_random = (''0a'', ''0b''),
     we_pair = None, we_base64 = (\<lambda>t. None), we_hostnames = [''gw''], we_uri = (\<lambda>u. None), we_file_ok = (\<lambda>f. True),
     we_sinks = (\<lambda>f x. True), we_positions_ok = True, we_export_file = FileMissing, we_paths = unix_paths\<rparr>"

definition desk_user :: "string \<Rightarrow> role \<Rightarrow> user_row" where
  "desk_user n r = \<lparr>ur_name = n, ur_hash = ''h'', ur_role = role_str r, ur_created = [], ur_must = False, ur_epoch = 0\<rparr>"

definition desk :: web where
  "desk = \<lparr>ap_manager = new_manager small_config (Some small_file), ap_settings = settings_new \<lparr>fail_mode = FailOpen, record_old_value = False, retention_days = 0, ignored_summary_secs = 60\<rparr>, ap_exports = default_export,
     ap_pki = \<lparr>pk_own = old_pair, pk_trusted = [], pk_rejected = []\<rparr>, ap_web_pair = old_pair, ap_files = [],
     ap_users = \<lparr>db_users = [desk_user ''ann'' Admin, desk_user ''bob'' Operator], db_tokens = []\<rparr>,
     ap_auth = \<lparr>wa_sessions = [(''c00kie'', \<lparr>ws_user = ''ann'', ws_epoch = 0, ws_created = 0, ws_seen = 0\<rparr>)], wa_by_address = [], wa_by_user = []\<rparr>,
     ap_browser = [], ap_store = \<lparr>conn = \<lparr>audit = [], chain_head = None\<rparr>, last_seq = 0, last_hash = GENESIS_HASH\<rparr>, ap_lost = 0\<rparr>"

definition ann :: auth_user where
  "ann = \<lparr>au_name = ''ann'', au_role = Admin, au_must = False, au_token = None\<rparr>"

definition delete_bob :: http_request where
  "delete_bob = \<lparr>rq_host = ''localhost:8080'', rq_csrf = Some CSRF_VALUE, rq_cookie = Some ''c00kie'', rq_request = DeleteUser ''bob''\<rparr>"

lemma desk_facts:
  "table_wf (ap_store desk)" "we_stores desk_env e" "validate_config (we_node desk_env) (mg_config (ap_manager desk)) = None"
  "\<not> x_syslog (c_export (mg_config (ap_manager desk)))"
  by (simp_all add: desk_def desk_env_def table_wf_def new_manager_def validate_config_def small_config_def default_audit_def
      default_web_def default_export_def)

lemma deletes_bob: "handle_request desk_env ann (DeleteUser ''bob'') (desk\<lparr>ap_auth := w\<rparr>) =
    (Inr NoContent, snd (handle_request desk_env ann (DeleteUser ''bob'') (desk\<lparr>ap_auth := w\<rparr>)))"
  "config_part (snd (handle_request desk_env ann (DeleteUser ''bob'') (desk\<lparr>ap_auth := w\<rparr>))) \<noteq> config_part desk"
  by (simp_all add: web_delete_user_def require_def ann_def less_eq_role_def delete_user_def ensure_admin_remains_def desk_def
      desk_user_def find_user_def user_names_def config_part_def config_changed_def end_sessions_def close_user_def close_where_def)


lemma ann_is_known: "authenticate (we_time desk_env) (Some ''c00kie'') p (ap_users desk) (ap_auth desk) = (Inr ann,
    (ap_auth desk)\<lparr>wa_sessions := bt_put ''c00kie'' \<lparr>ws_user = ''ann'', ws_epoch = 0, ws_created = 0, ws_seen = secs 60\<rparr> (wa_sessions (ap_auth desk))\<rparr>)"
  by (simp add: authenticate_def get_session_def desk_def desk_env_def expired_def elapsed_def IDLE_TIMEOUT_def MAX_LIFETIME_def hours_def
      state_of_def find_user_def desk_user_def ann_def role_parse_def)


end
