(* ===== verification/Settings_Safety.thy ===== *)
theory Settings_Safety
  imports Web_Safety
begin

text \<open>
  What the settings page promises of the credentials it stores (\<open>put_export\<close> of src/web/settings.rs): they
  never go to another server than the one they were entered for.
\<close>

section \<open>Stored credentials\<close>

lemma apply_export_config:
  assumes "apply_export V u current q s = (r, s')"
  shows "mg_config (ap_manager s') = mg_config (ap_manager s) \<or>
    c_export (mg_config (ap_manager s')) =
      \<lparr>x_questdb = map_option (\<lambda>q. q\<lparr>q_ca_file := map_option (\<lambda>_. managed_ca V current) (q_ca_file q)\<rparr>) q, x_syslog = False\<rparr>"
proof -
  define moves where "moves = (case q of Some q \<Rightarrow> q_ca_file q \<noteq> None | None \<Rightarrow> False)"
  define x where "x = \<lparr>x_questdb = map_option (\<lambda>q. q\<lparr>q_ca_file := map_option (\<lambda>_. managed_ca V current) (q_ca_file q)\<rparr>) q, x_syslog = False\<rparr>"
  obtain res m where u: "update_settings (we_node V) (we_out V) (\<lambda>c. c\<lparr>c_export := x\<rparr>) (ap_manager s) = (res, m)" by fastforce
  have m: "mg_config m = mg_config (ap_manager s) \<or> c_export (mg_config m) = x"
  proof (cases res)
    case (Inl e)
    from update_settings_result(1) [OF u [unfolded Inl]] show ?thesis by simp
  next
    case (Inr oc)
    obtain old c where "oc = (old, c)" by fastforce
    from update_settings_result(2) [OF u [unfolded Inr this]] show ?thesis by simp
  qed
  have "ap_manager s' = ap_manager s \<or> ap_manager s' = m"
    using assms
    by (cases moves; cases res)
      (auto simp: apply_export_def Let_def moves_def [symmetric] x_def [symmetric] u config_changed_def split: if_splits option.splits prod.splits)
  with m show ?thesis by (auto simp: x_def)
qed

lemma put_export_config:
  assumes "put_export V u (Some q) s = (r, s')"
  shows "mg_config (ap_manager s') = mg_config (ap_manager s) \<or>
    (\<exists>f. x_questdb (c_export (mg_config (ap_manager s'))) = Some ((questdb_of V (mg_config (ap_manager s)) q)\<lparr>q_ca_file := f\<rparr>))"
proof -
  let ?c = "mg_config (ap_manager s)"
  have last: "mg_config (ap_manager s') = mg_config (ap_manager s) \<or>
    (\<exists>f. x_questdb (c_export (mg_config (ap_manager s'))) = Some ((questdb_of V ?c q)\<lparr>q_ca_file := f\<rparr>))"
    if "apply_export V u ?c (Some (questdb_of V ?c q)) s1 = (r, s')" "ap_manager s1 = ap_manager s" for s1
    using apply_export_config [OF that(1)] that(2) by auto
  define s1 where "s1 = (case trimmed (qi_ca_pem q) of Some p \<Rightarrow> s\<lparr>ap_files := bt_put (new_ca V ?c) (p @ [newline]) (ap_files s)\<rparr> | None \<Rightarrow> s)"
  have "ap_manager s1 = ap_manager s" by (simp add: s1_def split: option.split)
  then show ?thesis
    using assms last [of s1] by (auto simp: put_export_def Let_def s1_def [symmetric] split: if_splits)
qed

text \<open>C20. A stored password or token stays with its server: when the export is changed and the form left the
  password (or the token) out, the new destination has one only if the old one had the same and is on the
  same server, by scheme, host and port.\<close>

theorem credentials_stay_with_their_server:
  assumes "handle_request V u (PutExport (Some q)) s = (r, s')" and "mg_config (ap_manager s') \<noteq> mg_config (ap_manager s)"
    and "x_questdb (c_export (mg_config (ap_manager s'))) = Some new"
    and "qi_password q = None \<and> q_password new \<noteq> None \<or> qi_token q = None \<and> q_token new \<noteq> None"
  shows "\<exists>old. x_questdb (c_export (mg_config (ap_manager s))) = Some old \<and> same_server V (q_url old) (q_url new) \<and>
    (qi_password q = None \<longrightarrow> q_password new = q_password old) \<and> (qi_token q = None \<longrightarrow> q_token new = q_token old)"
proof -
  obtain f where f: "new = (questdb_of V (mg_config (ap_manager s)) q)\<lparr>q_ca_file := f\<rparr>"
    using put_export_config [of V u q s r s'] assms(1-3) by auto
  show ?thesis
    using assms(4) by (auto simp: f questdb_of_def Let_def secret_def split: option.splits if_splits)
qed

text \<open>The interval of an export with a password is changed.\<close>

definition quest_env :: "(string, string, string) web_env" where
  "quest_env = desk_env\<lparr>we_uri := (\<lambda>u. Some (Some ''http'', Some u, None))\<rparr>"

definition old_quest :: questdb_config where
  "old_quest = \<lparr>q_url = ''http://db:9000'', q_ca_file = None, q_table = ''t'', q_token = None, q_username = Some ''gw'',
     q_password = Some ''pw'', q_interval_secs = 60\<rparr>"

definition quest_desk :: web where
  "quest_desk = desk\<lparr>ap_manager := new_manager (small_config\<lparr>c_export := \<lparr>x_questdb = Some old_quest, x_syslog = False\<rparr>\<rparr>) (Some small_file)\<rparr>"

definition faster :: questdb_input where
  "faster = \<lparr>qi_url = ''http://db:9000'', qi_table = ''t'', qi_username = Some ''gw'', qi_password = None, qi_token = None,
     qi_ca_pem = None, qi_interval_secs = 30\<rparr>"

lemma faster_text: "trim ''http://db:9000'' = ''http://db:9000''" "trim ''t'' = ''t''" "trim ''gw'' = ''gw''"
  "trim_matches_end CHR ''/'' ''http://db:9000'' = ''http://db:9000''"
  by (simp_all add: trim_visible visible_def trim_matches_end_def)

lemma same_quest: "same_server quest_env ''http://db:9000'' ''http://db:9000''"
proof -
  have "we_uri quest_env t = Some (Some ''http'', Some t, None)" for t by (simp add: quest_env_def)
  then have "origin quest_env u \<noteq> None" for u by (simp only: origin_def option.case prod.case Let_def option.distinct not_False_eq_True)
  then show ?thesis by (simp only: same_server_def simp_thms)
qed

lemma faster_quest:
  assumes "x_questdb (c_export c) = Some old_quest"
  shows "questdb_of quest_env c faster = old_quest\<lparr>q_interval_secs := 30\<rparr>"
proof -
  have url: "qi_url faster = ''http://db:9000''" "q_url old_quest = ''http://db:9000''" "qi_table faster = ''t''" "qi_username faster = Some ''gw''"
    "qi_password faster = None" "qi_token faster = None" "qi_ca_pem faster = None" "qi_interval_secs faster = 30"
    by (simp_all add: faster_def old_quest_def)
  show ?thesis
    unfolding questdb_of_def Let_def url faster_text assms
    by (simp only: option.case same_quest if_True url) (simp add: secret_def trimmed_def faster_text old_quest_def)
qed

theorem credentials_stay_with_their_server_witness:
  "\<exists>s'. handle_request quest_env ann (PutExport (Some faster)) quest_desk = (Inr NoContent, s') \<and>
     x_questdb (c_export (mg_config (ap_manager s'))) = Some (old_quest\<lparr>q_interval_secs := 30\<rparr>) \<and>
     same_server quest_env (q_url old_quest) (q_url (old_quest\<lparr>q_interval_secs := 30\<rparr>))"
proof -
  let ?c = "mg_config (ap_manager quest_desk)" and ?new = "old_quest\<lparr>q_interval_secs := 30\<rparr>"
  have c: "?c = small_config\<lparr>c_export := \<lparr>x_questdb = Some old_quest, x_syslog = False\<rparr>\<rparr>" by (simp add: quest_desk_def new_manager_def)
  have q: "questdb_of quest_env ?c faster = ?new" using faster_quest [of ?c] by (simp add: c)
  have "questdb_ok ?new" by (simp add: questdb_ok_def old_quest_def)
  then have valid: "validate_config (we_node quest_env) (?c\<lparr>c_export := \<lparr>x_questdb = Some ?new, x_syslog = False\<rparr>\<rparr>) = None"
    by (simp add: config_ok_iff config_ok_def c small_config_def default_audit_def default_web_def)
  have "\<exists>m. update_settings (we_node quest_env) (we_out quest_env) (\<lambda>c. c\<lparr>c_export := \<lparr>x_questdb = Some ?new, x_syslog = False\<rparr>\<rparr>) (ap_manager quest_desk) =
      (Inr (?c, ?c\<lparr>c_export := \<lparr>x_questdb = Some ?new, x_syslog = False\<rparr>\<rparr>), m)"
    using valid by (simp add: update_settings_def Let_def save_def) (simp add: quest_desk_def new_manager_def quest_env_def desk_env_def)
  then obtain m where m: "update_settings (we_node quest_env) (we_out quest_env) (\<lambda>c. c\<lparr>c_export := \<lparr>x_questdb = Some ?new, x_syslog = False\<rparr>\<rparr>) (ap_manager quest_desk) =
      (Inr (?c, ?c\<lparr>c_export := \<lparr>x_questdb = Some ?new, x_syslog = False\<rparr>\<rparr>), m)" by blast
  have env: "we_sinks quest_env f x" "we_positions_ok quest_env" for f x by (simp_all add: quest_env_def desk_env_def)
  have ca: "q_ca_file ?new = None" "q_table ?new = ''t''" "q_interval_secs ?new = 30" "qi_ca_pem faster = None"
    by (simp_all add: old_quest_def faster_def)
  have new: "?new\<lparr>q_ca_file := None\<rparr> = ?new" by (simp add: old_quest_def)
  obtain s' where s': "handle_request quest_env ann (PutExport (Some faster)) quest_desk = (Inr NoContent, s')" "ap_manager s' = m"
    using m by (auto simp: put_export_def require_def ann_def less_eq_role_def Let_def q ca trimmed_def apply_export_def env new config_changed_def split: option.split)
  have mc: "mg_config (ap_manager s') = ?c\<lparr>c_export := \<lparr>x_questdb = Some ?new, x_syslog = False\<rparr>\<rparr>"
    using update_settings_result(2) [OF m] s'(2) by simp
  have pw: "qi_password faster = None \<and> q_password ?new \<noteq> None \<or> qi_token faster = None \<and> q_token ?new \<noteq> None"
    by (simp add: faster_def old_quest_def)
  have x: "x_questdb (c_export (mg_config (ap_manager s'))) = Some ?new" by (simp add: mc)
  have changed: "mg_config (ap_manager s') \<noteq> ?c"
  proof
    assume "mg_config (ap_manager s') = ?c"
    with x have "?new = old_quest" by (simp add: c)
    then show False by (simp add: old_quest_def)
  qed
  from credentials_stay_with_their_server [OF s'(1) changed x pw] show ?thesis using s'(1) x by (auto simp: c)
qed

end
