(* ===== verification/Web_Csv.thy ===== *)
theory Web_Csv
  imports Web_Admin
begin

text \<open>
  The CSV download of the trail (\<open>audit_csv\<close>, \<open>csv_row\<close> and \<open>csv_field\<close> of src/web/mod.rs), against a reader
  of CSV files. Whether a text is a number (Rust's f64) is an argument.
\<close>

section \<open>The file\<close>

definition formula_start :: "string \<Rightarrow> bool" where
  "formula_start v \<longleftrightarrow> (case v of c # _ \<Rightarrow> c \<in> {CHR ''='', CHR ''+'', CHR ''-'', CHR ''@'', CHR 0x09, CHR 0x0D} | [] \<Rightarrow> False)"

text \<open>The text of a cell: what a spreadsheet would take for a formula is made a text.\<close>

definition neutral :: "(string \<Rightarrow> bool) \<Rightarrow> string \<Rightarrow> string" where
  "neutral F v = (if formula_start v \<and> \<not> F v then CHR 0x27 # v else v)"

definition double_quotes :: "string \<Rightarrow> string" where
  "double_quotes v = concat (map (\<lambda>c. if c = CHR 0x22 then [CHR 0x22, CHR 0x22] else [c]) v)"

definition csv_field :: "(string \<Rightarrow> bool) \<Rightarrow> string \<Rightarrow> string" where
  "csv_field F v = CHR 0x22 # double_quotes (neutral F v) @ [CHR 0x22]"

definition csv_texts :: "serde \<Rightarrow> (time \<Rightarrow> string) \<Rightarrow> stored_record \<Rightarrow> string list" where
  "csv_texts S rfc3339 r = (let f = Export_Fields.fields S r in
     [rfc3339 (ts (sr_entry r)), f_target f, f_kind f, f_client_address f, f_client_application f, f_user f, f_node_id f,
      f_display_name f, f_old_value f, f_new_value f, f_status f, f_event_json f, sr_hash r])"

definition csv_row :: "(string \<Rightarrow> bool) \<Rightarrow> serde \<Rightarrow> (time \<Rightarrow> string) \<Rightarrow> stored_record \<Rightarrow> string" where
  "csv_row F S rfc3339 r = join_text '','' (int_str (sr_seq r) # map (csv_field F) (csv_texts S rfc3339 r)) @ [newline]"

definition csv_columns :: "string list" where
  "csv_columns = [''seq'', ''time'', ''target'', ''event'', ''client_address'', ''client_application'', ''user'', ''node_id'',
     ''display_name'', ''old_value'', ''new_value'', ''status'', ''details'', ''hash'']"

definition csv_header :: string where
  "csv_header = join_text '','' csv_columns @ [newline]"

definition CSV_PAGE :: nat where "CSV_PAGE = 1000"
definition CSV_MAX :: nat where "CSV_MAX = 100000"

text \<open>Page after page, each below the last record of the one before. The trail is read as it is at the start.\<close>

function csv_pages :: "codec \<Rightarrow> (string \<Rightarrow> string \<Rightarrow> string option) \<Rightarrow> (stored_record \<Rightarrow> string) \<Rightarrow> db \<Rightarrow> audit_query \<Rightarrow> nat \<Rightarrow> string
    \<Rightarrow> store_error + string" where
  "csv_pages C J f d q got out = (case query C J d q of
     Inl e \<Rightarrow> Inl e
   | Inr page \<Rightarrow>
       if page = [] then Inr out
       else if length page < CSV_PAGE \<or> CSV_MAX \<le> got + length page then Inr (out @ concat (map f page))
       else csv_pages C J f d (q\<lparr>before_seq := Some (sr_seq (last page))\<rparr>) (got + length page) (out @ concat (map f page)))"
  by pat_completeness auto
termination by (relation "measure (\<lambda>(C, J, f, d, q, got, out). CSV_MAX - got)") (auto intro!: diff_less_mono2 simp flip: length_greater_0_conv)

declare csv_pages.simps [simp del]

definition audit_csv :: "codec \<Rightarrow> (string \<Rightarrow> string \<Rightarrow> string option) \<Rightarrow> (string \<Rightarrow> bool) \<Rightarrow> serde \<Rightarrow> (time \<Rightarrow> string)
    \<Rightarrow> auth_user \<Rightarrow> audit_query \<Rightarrow> db \<Rightarrow> api_error + string" where
  "audit_csv C J F S rfc3339 u q d =
     (if \<not> require Auditor u then Inl (NeedsRole Auditor)
      else map_sum TrailUnreadable id (csv_pages C J (csv_row F S rfc3339) d (q\<lparr>q_limit := Some CSV_PAGE\<rparr>) 0 csv_header))"

section \<open>A reader\<close>

text \<open>Reading CSV as RFC 4180 has it: cells separated by commas, rows by newlines, a cell in quotes when it
  holds either, a quote doubled.\<close>

datatype csv_state = Plain | Quoted | AfterQuote

definition csv_char :: "csv_state \<Rightarrow> char \<Rightarrow> csv_state \<times> string option" where
  "csv_char st c = (case st of
     Quoted \<Rightarrow> if c = CHR 0x22 then (AfterQuote, Some []) else (Quoted, Some [c])
   | AfterQuote \<Rightarrow> if c = CHR 0x22 then (Quoted, Some [c]) else if c = CHR '','' \<or> c = newline then (Plain, None) else (Plain, Some [c])
   | Plain \<Rightarrow> if c = CHR 0x22 then (Quoted, Some []) else if c = CHR '','' \<or> c = newline then (Plain, None) else (Plain, Some [c]))"

primrec csv_read :: "csv_state \<Rightarrow> string list \<Rightarrow> string \<Rightarrow> string \<Rightarrow> string list list" where
  "csv_read st row cell [] = (if row = [] \<and> cell = [] then [] else [row @ [cell]])"
| "csv_read st row cell (c # cs) = (case csv_char st c of
     (st1, Some t) \<Rightarrow> csv_read st1 row (cell @ t) cs
   | (st1, None) \<Rightarrow> if c = newline then (row @ [cell]) # csv_read Plain [] [] cs else csv_read Plain (row @ [cell]) [] cs)"

abbreviation read_csv :: "string \<Rightarrow> string list list" where
  "read_csv t \<equiv> csv_read Plain [] [] t"

text \<open>What a reader sees of a record.\<close>

definition csv_cells :: "(string \<Rightarrow> bool) \<Rightarrow> serde \<Rightarrow> (time \<Rightarrow> string) \<Rightarrow> stored_record \<Rightarrow> string list" where
  "csv_cells F S rfc3339 r = int_str (sr_seq r) # map (neutral F) (csv_texts S rfc3339 r)"

lemma csv_read_quoted: "csv_read Quoted row cell (double_quotes v @ CHR 0x22 # cs) = csv_read AfterQuote row (cell @ v) cs"
proof (induction v arbitrary: cell)
  case (Cons c v)
  then show ?case by (cases "c = CHR 0x22") (simp_all add: double_quotes_def csv_char_def)
qed (simp add: double_quotes_def csv_char_def)

definition plain_cell :: "string \<Rightarrow> bool" where
  "plain_cell v \<longleftrightarrow> list_all (\<lambda>c. c \<noteq> CHR 0x22 \<and> c \<noteq> CHR '','' \<and> c \<noteq> newline) v"

lemma csv_read_plain: "plain_cell v \<Longrightarrow> csv_read Plain row cell (v @ cs) = csv_read Plain row (cell @ v) cs"
  by (induction v arbitrary: cell) (simp_all add: plain_cell_def csv_char_def)

text \<open>How a cell may be written.\<close>

definition writes :: "string \<Rightarrow> string \<Rightarrow> bool" where
  "writes w v \<longleftrightarrow> w = v \<and> plain_cell v \<or> w = CHR 0x22 # double_quotes v @ [CHR 0x22]"

lemma csv_read_cell:
  assumes "writes w v"
  shows "csv_read Plain row [] (w @ CHR '','' # cs) = csv_read Plain (row @ [v]) [] cs"
    and "csv_read Plain row [] (w @ newline # cs) = (row @ [v]) # read_csv cs"
  using assms by (auto simp: writes_def csv_read_plain csv_read_quoted csv_char_def newline_def)

lemma csv_read_row:
  assumes "list_all2 writes (w # ws) (v # vs)"
  shows "csv_read Plain row [] (join_text '','' (w # ws) @ newline # cs) = (row @ v # vs) # read_csv cs"
  using assms
proof (induction ws arbitrary: w v vs row)
  case (Cons x ws)
  then obtain y ys where vs: "vs = y # ys" "writes w v" "list_all2 writes (x # ws) (y # ys)" by (auto simp: list_all2_Cons1)
  then show ?case using Cons.IH [OF vs(3), of "row @ [v]"] by (simp add: csv_read_cell)
qed (simp add: csv_read_cell)

lemma csv_read_record: "read_csv (csv_row F S rfc3339 r @ cs) = csv_cells F S rfc3339 r # read_csv cs"
proof -
  have "digit_char k \<noteq> CHR 0x22 \<and> digit_char k \<noteq> CHR '',''" if "k < 10" for k
    using of_char_digit [OF that] by auto
  then have "plain_cell (nat_str k)" for k
    using nat_str_plain(1) [of k] by (force simp: plain_cell_def list_all_iff dest: nat_str_chars)
  then have "plain_cell (int_str n)" for n by (simp add: int_str_def) (simp add: plain_cell_def newline_def)
  moreover have "list_all2 writes (map (csv_field F) vs) (map (neutral F) vs)" for vs
    by (induction vs) (simp_all add: csv_field_def writes_def)
  ultimately have "list_all2 writes (int_str (sr_seq r) # map (csv_field F) (csv_texts S rfc3339 r))
      (int_str (sr_seq r) # map (neutral F) (csv_texts S rfc3339 r))" by (simp add: writes_def)
  from csv_read_row [OF this, of "[]" cs] show ?thesis by (simp add: csv_row_def csv_cells_def)
qed

lemma csv_read_records: "read_csv (concat (map (csv_row F S rfc3339) rs) @ cs) = map (csv_cells F S rfc3339) rs @ read_csv cs"
  by (induction rs) (simp_all add: csv_read_record)

lemma csv_read_header: "read_csv (csv_header @ cs) = csv_columns # read_csv cs"
proof -
  have "list_all plain_cell csv_columns" by code_simp
  moreover have "list_all plain_cell vs \<Longrightarrow> list_all2 writes vs vs" for vs by (induction vs) (simp_all add: writes_def)
  ultimately have "list_all2 writes csv_columns csv_columns" by blast
  moreover obtain v vs where v: "csv_columns = v # vs" by (simp add: csv_columns_def)
  ultimately have "list_all2 writes (v # vs) (v # vs)" by simp
  from csv_read_row [OF this, of "[]" cs] show ?thesis unfolding csv_header_def v by simp
qed

section \<open>What is in the file\<close>

lemma csv_pages_all:
  assumes "sorted_wrt (<) (map seq (audit d))" and "q_limit q = Some CSV_PAGE" and "CSV_PAGE dvd got" and "got < CSV_MAX"
  shows "csv_pages C J f d q got out =
    map_sum id (\<lambda>rs. out @ concat (map f rs)) (read_rows C (take (CSV_MAX - got) (rev (filter (query_matches C J q) (audit d)))))"
  using assms
proof (induction C J f d q got out rule: csv_pages.induct)
  case (1 C J f d q got out)
  define M where "M = rev (filter (query_matches C J q) (audit d))"
  have limit: "query_limit q = CSV_PAGE" using 1(3) by (simp add: query_limit_def CSV_PAGE_def)
  have room: "CSV_PAGE \<le> CSV_MAX - got"
    using 1(4,5) by (auto simp: CSV_PAGE_def CSV_MAX_def dvd_def)
  define rest where "rest = drop CSV_PAGE (take (CSV_MAX - got) M)"
  have split: "take (CSV_MAX - got) M = take CSV_PAGE M @ rest"
    using room by (metis append_take_drop_id min.absorb1 rest_def take_take)
  have page: "query C J d q = read_rows C (take CSV_PAGE M)" by (simp add: query_def limit M_def)
  show ?case
  proof (cases "read_rows C (take CSV_PAGE M)")
    case (Inl e)
    then show ?thesis by (simp add: csv_pages.simps page split read_rows_append flip: M_def)
  next
    case (Inr page)
    then have len: "length page = length (take CSV_PAGE M)" by (metis read_rows_seqs length_map)
    consider "page = []" | "page \<noteq> []" "length page < CSV_PAGE \<or> CSV_MAX \<le> got + length page"
      | "page \<noteq> []" "length page = CSV_PAGE" "got + CSV_PAGE < CSV_MAX"
      using len by fastforce
    then show ?thesis
    proof cases
      case 1
      then have "min (length M) CSV_PAGE = 0" using len by simp
      then have "M = []" by (cases M) (simp_all add: CSV_PAGE_def min_def split: if_splits)
      then show ?thesis using 1 page Inr by (simp add: csv_pages.simps flip: M_def)
    next
      case 2
      then have "rest = []" using len room by (auto simp: rest_def)
      then show ?thesis using 2 page Inr split by (simp add: csv_pages.simps flip: M_def)
    next
      case 3
      define b where "b = sr_seq (last page)"
      have ne: "take CSV_PAGE M \<noteq> []" using 3(1) len by (metis length_0_conv)
      then have "b = seq (last (take CSV_PAGE M))" using read_rows_seqs [OF Inr] 3(1) unfolding b_def by (metis last_map)
      from next_page_rows [OF "1.prems"(1) M_def ne this, of "q_limit q"]
      have M': "rev (filter (query_matches C J (q\<lparr>before_seq := Some b\<rparr>)) (audit d)) = drop CSV_PAGE M" by simp
      have "csv_pages C J f d q got out = csv_pages C J f d (q\<lparr>before_seq := Some b\<rparr>) (got + length page) (out @ concat (map f page))"
        using 3 page Inr by (subst csv_pages.simps) (simp add: b_def)
      also have "\<dots> = map_sum id (\<lambda>rs. (out @ concat (map f page)) @ concat (map f rs))
          (read_rows C (take (CSV_MAX - (got + length page)) (drop CSV_PAGE M)))"
        unfolding M' [symmetric] b_def using 3 "1.prems"
        by (intro "1.IH") (simp_all add: page Inr)
      also have "take (CSV_MAX - (got + length page)) (drop CSV_PAGE M) = rest"
        using 3 by (simp add: rest_def drop_take)
      finally show ?thesis
        unfolding M_def [symmetric] split by (simp add: read_rows_append Inr split: sum.split)
    qed
  qed
qed

text \<open>The file of a request, as a reader of CSV sees it.\<close>

lemma csv_file:
  assumes "sorted_wrt (<) (map seq (audit d))" and "audit_csv C J F S rfc3339 u q d = Inr text"
  shows "\<exists>rs. read_rows C (take CSV_MAX (rev (filter (query_matches C J q) (audit d)))) = Inr rs \<and>
    read_csv text = csv_columns # map (csv_cells F S rfc3339) rs"
proof -
  have "query_matches C J (q\<lparr>q_limit := Some CSV_PAGE\<rparr>) = query_matches C J q"
    by (auto simp: query_matches_def fun_eq_iff)
  then have "csv_pages C J (csv_row F S rfc3339) d (q\<lparr>q_limit := Some CSV_PAGE\<rparr>) 0 csv_header =
      map_sum id (\<lambda>rs. csv_header @ concat (map (csv_row F S rfc3339) rs)) (read_rows C (take CSV_MAX (rev (filter (query_matches C J q) (audit d)))))"
    using csv_pages_all [OF assms(1), of "q\<lparr>q_limit := Some CSV_PAGE\<rparr>" 0 C J "csv_row F S rfc3339" csv_header]
    by (simp add: CSV_MAX_def)
  with assms(2) obtain rs where "read_rows C (take CSV_MAX (rev (filter (query_matches C J q) (audit d)))) = Inr rs"
    "text = csv_header @ concat (map (csv_row F S rfc3339) rs)"
    by (auto simp: audit_csv_def map_sum_def split: if_splits sum.splits)
  with csv_read_records [of F S rfc3339 rs "[]"] show ?thesis by (simp add: csv_read_header)
qed

text \<open>C36. The downloaded file is the trail: read as CSV it has the column names and then, newest first,
  one row for each of the newest hundred thousand records that match the filter, with every cell's text
  as it is in the record, quotes, commas and newlines included; only a cell that a spreadsheet would
  take for a formula gets an apostrophe in front.\<close>

theorem csv_download_reads_back:
  assumes "sorted_wrt (<) (map seq (audit d))" and "audit_csv C J F S rfc3339 u q d = Inr text"
  shows "\<exists>rs. read_rows C (take CSV_MAX (rev (filter (query_matches C J q) (audit d)))) = Inr rs \<and>
    read_csv text = csv_columns # map (csv_cells F S rfc3339) rs"
  using assms by (rule csv_file)

text \<open>No cell of the file is a formula.\<close>

lemma no_formulas:
  assumes "cell \<in> set (csv_cells F S rfc3339 r)" and "formula_start cell"
  shows "F cell \<or> cell = int_str (sr_seq r)"
  using assms by (auto simp: csv_cells_def neutral_def formula_start_def split: if_splits list.splits)

section \<open>An example\<close>

definition plain_serde :: serde where
  "plain_serde = \<lparr>event_object = (\<lambda>_. []), json_text = (\<lambda>_. ''{}'')\<rparr>"

lemma csv_of_pages: "\<exists>text. audit_csv page_codec (\<lambda>_ _. None) (\<lambda>_. False) plain_serde (\<lambda>_. ''t'')
    \<lparr>au_name = ''ann'', au_role = Admin, au_must = False, au_token = None\<rparr> default_query page_db = Inr text"
proof -
  have "sorted_wrt (<) (map seq (audit page_db))" by (simp add: page_db_def)
  from csv_pages_all [OF this, of "default_query\<lparr>q_limit := Some CSV_PAGE\<rparr>" 0 page_codec "\<lambda>_ _. None"]
  show ?thesis
    by (simp add: audit_csv_def require_def less_eq_role_def CSV_MAX_def query_matches_def clause_def default_query_def page_db_def page_codec_reads map_sum_def)
qed

theorem csv_download_reads_back_witness:
  "\<exists>text rs. audit_csv page_codec (\<lambda>_ _. None) (\<lambda>_. False) plain_serde (\<lambda>_. ''t'')
     \<lparr>au_name = ''ann'', au_role = Admin, au_must = False, au_token = None\<rparr> default_query page_db = Inr text \<and>
     read_csv text = csv_columns # map (csv_cells (\<lambda>_. False) plain_serde (\<lambda>_. ''t'')) rs"
proof -
  have sorted: "sorted_wrt (<) (map seq (audit page_db))" by (simp add: page_db_def)
  from csv_of_pages obtain t where t: "audit_csv page_codec (\<lambda>_ _. None) (\<lambda>_. False) plain_serde (\<lambda>_. ''t'')
     \<lparr>au_name = ''ann'', au_role = Admin, au_must = False, au_token = None\<rparr> default_query page_db = Inr t" by blast
  from csv_download_reads_back [OF sorted t] t show ?thesis by blast
qed

end
