(* ===== verification/Web_Views.thy ===== *)
theory Web_Views
  imports Session_Services Web_Serve Written_Nodes
begin

text \<open>
  What the web interface only shows (src/web/mod.rs): the headers of every answer, the scripts and fonts of
  its pages, the status, downloads of certificates and the nodes written most often. Base64, the hash of
  the pages and the pages themselves are arguments.
\<close>

section \<open>Headers\<close>

text \<open>The second half of \<open>security_headers\<close>, for an answer with these headers.\<close>

definition put_header :: "string \<Rightarrow> string \<Rightarrow> (string \<times> string) list \<Rightarrow> (string \<times> string) list" where
  "put_header k v hs = filter (\<lambda>(n, _). n \<noteq> k) hs @ [(k, v)]"

definition is_api :: "string \<Rightarrow> bool" where
  "is_api path \<longleftrightarrow> starts_with path ''/api/'' \<or> path = ''/mcp''"

definition CONTENT_POLICY :: string where
  "CONTENT_POLICY = ''default-src '' @ quoted ''self'' @ ''; img-src '' @ quoted ''self'' @ '' data:; frame-ancestors '' @
     quoted ''none'' @ ''; base-uri '' @ quoted ''none'' @ ''; form-action '' @ quoted ''self''"

definition response_headers :: "web_config \<Rightarrow> string \<Rightarrow> (string \<times> string) list \<Rightarrow> (string \<times> string) list" where
  "response_headers w path hs =
     (let hs1 = if is_api path then put_header ''cache-control'' ''no-store'' hs
                else if map_of hs ''cache-control'' = None then put_header ''cache-control'' ''no-cache'' hs else hs;
          hs2 = if w_tls w \<and> w_tls_certificate w \<noteq> None then put_header ''strict-transport-security'' ''max-age=31536000'' hs1 else hs1
      in put_header ''content-security-policy'' CONTENT_POLICY (put_header ''referrer-policy'' ''no-referrer''
           (put_header ''x-content-type-options'' ''nosniff'' (put_header ''x-frame-options'' ''DENY'' hs2))))"

lemma map_of_put_header [simp]: "map_of (put_header k v hs) n = (if n = k then Some v else map_of hs n)"
proof -
  have "map_of (filter (\<lambda>(n, _). n \<noteq> k) hs) n = (if n = k then None else map_of hs n)" by (induction hs) auto
  then show ?thesis by (simp add: put_header_def map_add_def split: option.split)
qed

text \<open>Whatever a handler answers under the API or to an assistant is not kept in caches; every answer
  forbids frames.\<close>

theorem answers_are_not_cached:
  "map_of (response_headers w path hs) ''x-frame-options'' = Some ''DENY'' \<and>
   map_of (response_headers w path hs) ''cache-control'' =
     (if is_api path then Some ''no-store''
      else case map_of hs ''cache-control'' of None \<Rightarrow> Some ''no-cache'' | Some c \<Rightarrow> Some c)"
  by (simp add: response_headers_def Let_def split: option.split)

section \<open>Pages\<close>

text \<open>\<open>/js/<version>/<module>\<close> or \<open>/js/<module>\<close>: the source and how long it is kept.\<close>

definition script :: "string \<Rightarrow> (string \<times> string) list \<Rightarrow> string \<Rightarrow> (string \<times> string) option" where
  "script version scripts path =
     (let (path, versioned) = (case split_once CHR ''/'' path of
            Some (v, rest) \<Rightarrow> if v = version then (rest, True) else (path, False) | None \<Rightarrow> (path, False))
      in map_option (\<lambda>source. (if versioned then ''public, max-age=31536000, immutable'' else ''no-cache'', source))
           (map_of scripts path))"

definition font :: "(string \<Rightarrow> string) \<Rightarrow> string \<Rightarrow> string option" where
  "font source file = (if file \<in> {''inter-latin.woff2'', ''inter-latin-ext.woff2''} then Some (source file) else None)"

section \<open>Status\<close>

record status_response =
  sv_application_name :: string
  sv_application_uri :: string
  sv_certificate :: "certificate_info option"
  sv_lost_audit_events :: nat
  sv_fail_mode :: fail_mode
  sv_record_old_value :: bool
  sv_retention_days :: nat
  sv_ignored_summary_secs :: nat
  sv_rejected_certificates :: nat
  sv_targets :: "((target \<times> target_status option) \<times> client_info list) list"

text \<open>\<open>cl\<close>: the clients connected to a target that runs; \<open>g\<close>: the gateway's section as it was at the
  start, with its application URI.\<close>

definition clients_of :: "(string \<Rightarrow> client_info list) \<Rightarrow> web \<Rightarrow> string \<Rightarrow> client_info list option" where
  "clients_of cl s n = (case map_of (mg_running (ap_manager s)) n of None \<Rightarrow> None | Some _ \<Rightarrow> Some (cl n))"

definition status_views :: "(string \<Rightarrow> client_info list) \<Rightarrow> web \<Rightarrow> ((target \<times> target_status option) \<times> client_info list) list" where
  "status_views cl s = map (\<lambda>v. (v, case clients_of cl s (t_name (fst v)) of None \<Rightarrow> [] | Some cs \<Rightarrow> cs)) (target_views s)"

definition status :: "('n, 'c, 'k) web_env \<Rightarrow> string \<times> string \<Rightarrow> (string \<Rightarrow> client_info list) \<Rightarrow> auth_user \<Rightarrow> web
    \<Rightarrow> api_error + status_response" where
  "status V g cl u s =
     (if \<not> require Auditor u then Inl (NeedsRole Auditor)
      else Inr \<lparr>sv_application_name = fst g, sv_application_uri = snd g,
        sv_certificate = map_option (cert_info (we_x509 V)) (Option.bind (ow_cert (pk_own (ap_pki s))) (from_der (we_x509 V))),
        sv_lost_audit_events = ap_lost s, sv_fail_mode = settings_fail_mode (ap_settings s),
        sv_record_old_value = s_record_old_value (ap_settings s), sv_retention_days = s_retention_days (ap_settings s),
        sv_ignored_summary_secs = s_ignored_summary_secs (ap_settings s),
        sv_rejected_certificates = rejected_count (ap_pki s), sv_targets = status_views cl s\<rparr>)"

definition target_clients :: "(string \<Rightarrow> client_info list) \<Rightarrow> auth_user \<Rightarrow> string \<Rightarrow> web \<Rightarrow> api_error + client_info list" where
  "target_clients cl u n s =
     (if \<not> require Auditor u then Inl (NeedsRole Auditor)
      else (case clients_of cl s n of None \<Rightarrow> Inl (NoTargetNamed n) | Some cs \<Rightarrow> Inr cs))"

section \<open>Downloads of certificates\<close>

record download =
  dl_type :: string
  dl_file_name :: string
  dl_body :: string

fun pem_lines :: "string \<Rightarrow> string list" where
  "pem_lines [] = []"
| "pem_lines (c # cs) = take 64 (c # cs) # pem_lines (drop 63 cs)"

definition BEGIN_CERT :: string where "BEGIN_CERT = ''-----BEGIN CERTIFICATE-----''"
definition END_CERT :: string where "END_CERT = ''-----END CERTIFICATE-----''"

definition pem_text :: "string \<Rightarrow> string" where
  "pem_text b64 = BEGIN_CERT @ [newline] @ concat (map (\<lambda>l. l @ [newline]) (pem_lines b64)) @ END_CERT @ [newline]"

definition certificate_file :: "(string \<Rightarrow> string) \<Rightarrow> string \<Rightarrow> string \<Rightarrow> bool \<Rightarrow> download" where
  "certificate_file B der name pem =
     (if pem then \<lparr>dl_type = ''application/x-pem-file'', dl_file_name = name @ ''.pem'', dl_body = pem_text (B der)\<rparr>
      else \<lparr>dl_type = ''application/pkix-cert'', dl_file_name = name @ ''.der'', dl_body = der\<rparr>)"

definition own_certificate :: "(string \<Rightarrow> string) \<Rightarrow> bool \<Rightarrow> auth_user \<Rightarrow> web \<Rightarrow> api_error + download" where
  "own_certificate B pem u s =
     (if \<not> require Auditor u then Inl (NeedsRole Auditor)
      else (case ow_cert (pk_own (ap_pki s)) of None \<Rightarrow> Inl (PkiFailed UnreadableFile)
        | Some der \<Rightarrow> Inr (certificate_file B der ''opcua-audit-gateway'' pem)))"

text \<open>\<open>presented\<close>: the certificate the web server uses since its start.\<close>

definition web_certificate :: "(string \<Rightarrow> string) \<Rightarrow> string option \<Rightarrow> bool \<Rightarrow> auth_user \<Rightarrow> api_error + download" where
  "web_certificate B presented pem u =
     (if \<not> require Auditor u then Inl (NeedsRole Auditor)
      else (case presented of None \<Rightarrow> Inl (NotPresented ''the web UI does not use HTTPS'')
        | Some der \<Rightarrow> Inr (certificate_file B der ''opcua-audit-gateway-web'' pem)))"

lemma pem_lines_props: "concat (pem_lines b) = b \<and> (\<forall>l \<in> set (pem_lines b). length l \<le> 64 \<and> set l \<subseteq> set b)"
proof (induction b rule: pem_lines.induct)
  case (2 c cs)
  have "set (drop 63 cs) \<subseteq> set cs" "set (take 63 cs) \<subseteq> set cs" by (simp_all add: set_drop_subset set_take_subset)
  with 2 show ?case by (auto dest: subsetD)
qed simp

lemma split_lines: "\<forall>l \<in> set ls. newline \<notin> set l \<Longrightarrow>
    split_on newline (concat (map (\<lambda>l. l @ [newline]) ls)) = ls @ [[]]"
proof (induction ls)
  case (Cons l ls)
  then show ?case by (induction l) auto
qed simp

text \<open>A downloaded certificate in PEM has lines of at most 64 characters between its two marks, and what
  is between them is the base64 text, whole.\<close>

theorem pem_reads_back:
  assumes "newline \<notin> set (B der)"
  shows "\<exists>ls. split_on newline (dl_body (certificate_file B der name True)) = BEGIN_CERT # ls @ [END_CERT, []] \<and>
    concat ls = B der \<and> (\<forall>l \<in> set ls. length l \<le> 64)"
proof -
  have marks: "newline \<notin> set BEGIN_CERT" "newline \<notin> set END_CERT"
    by (simp_all add: BEGIN_CERT_def END_CERT_def newline_def)
  have "\<forall>l \<in> set (pem_lines (B der)). newline \<notin> set l" using pem_lines_props [of "B der"] assms by blast
  then have "split_on newline (concat (map (\<lambda>l. l @ [newline]) (BEGIN_CERT # pem_lines (B der) @ [END_CERT]))) =
      (BEGIN_CERT # pem_lines (B der) @ [END_CERT]) @ [[]]"
    using marks by (intro split_lines) auto
  then show ?thesis using pem_lines_props [of "B der"]
    by (intro exI [of _ "pem_lines (B der)"]) (simp add: certificate_file_def pem_text_def)
qed

section \<open>The nodes written most often\<close>

record most_written_query =
  mw_hours :: "nat option"
  mw_limit :: "nat option"
  mw_target :: "string option"
  mw_client :: "string option"

definition clamp :: "nat \<Rightarrow> nat \<Rightarrow> nat \<Rightarrow> nat" where
  "clamp lo hi n = min (max n lo) hi"

definition audit_most_written :: "(written_group list \<Rightarrow> written_group list) \<Rightarrow> (written_group list \<Rightarrow> written_group list)
    \<Rightarrow> ('n, 'c, 'k) web_env \<Rightarrow> auth_user \<Rightarrow> most_written_query \<Rightarrow> web \<Rightarrow> api_error + written_node list" where
  "audit_most_written O1 O2 V u q s =
     (if \<not> require Auditor u then Inl (NeedsRole Auditor)
      else (let h = clamp 1 (24 * 366) (case mw_hours q of Some h \<Rightarrow> h | None \<Rightarrow> 24);
                f = \<lparr>wf_target = trimmed (mw_target q), wf_client = trimmed (mw_client q)\<rparr>;
                n = clamp 1 500 (case mw_limit q of Some n \<Rightarrow> n | None \<Rightarrow> 10)
            in map_sum TrailUnreadable id
                 (most_written O1 O2 (we_codec V) (conn (ap_store s)) (we_time V - hours (int h)) n f)))"

end
