(* ===== verification/Command_Line.thy ===== *)
theory Command_Line
  imports Web_Safety Audit_Trail Users_Safety
begin

text \<open>
  The command line (src/main.rs): \<open>verify\<close> with the heads noted down, the user commands, and what a start of
  the gateway does to the trail, the users and the configuration before it serves anybody. What is
  printed, log files, the service of Windows and the start of the servers themselves are left out.
\<close>

section \<open>Verifying\<close>

definition digit_value :: "char \<Rightarrow> int" where
  "digit_value c = int (of_char c) - 48"

definition digits_value :: "string \<Rightarrow> int" where
  "digits_value ds = foldl (\<lambda>n c. 10 * n + digit_value c) 0 ds"

text \<open>A 64-bit integer as Rust parses it: a sign, then digits.\<close>

definition parse_i64 :: "string \<Rightarrow> int option" where
  "parse_i64 s =
     (let neg = (case s of c # _ \<Rightarrow> c = CHR ''-'' | [] \<Rightarrow> False);
          ds = (case s of c # cs \<Rightarrow> if c = CHR ''-'' \<or> c = CHR ''+'' then cs else s | [] \<Rightarrow> []);
          n = (if neg then - digits_value ds else digits_value ds)
      in if ds = [] \<or> \<not> list_all is_ascii_digit ds \<or> n < - (2 ^ 63) \<or> 2 ^ 63 \<le> n then None else Some n)"

datatype cli_error =
    BadExpect string
  | BadSeq string
  | PasswordsDiffer
  | NoUsersYet
  | NoSuchUser string
  | UserThere string
  | CliUsers users_error
  | NotStarted audit_error
  | FixesNotWritten

definition expect_anchor :: "string \<Rightarrow> cli_error + anchor" where
  "expect_anchor e = (case split_once CHR '':'' e of
     None \<Rightarrow> Inl (BadExpect e)
   | Some (n, h) \<Rightarrow> (case parse_i64 n of None \<Rightarrow> Inl (BadSeq e) | Some n \<Rightarrow> Inr \<lparr>a_seq = n, a_hash = h\<rparr>))"

fun expect_anchors :: "string list \<Rightarrow> cli_error + anchor list" where
  "expect_anchors [] = Inr []"
| "expect_anchors (e # es) = (case expect_anchor e of
     Inl x \<Rightarrow> Inl x | Inr a \<Rightarrow> map_sum id (Cons a) (expect_anchors es))"

datatype verdict = NothingYet | TrailMissing | Intact report | Broken report

definition verify_command :: "codec \<Rightarrow> state_file \<Rightarrow> db option \<Rightarrow> string list \<Rightarrow> cli_error + verdict" where
  "verify_command C exported stored expect = (case expect_anchors expect of
     Inl e \<Rightarrow> Inl e
   | Inr more_anchors \<Rightarrow>
       (let anchors = anchors_from exported @ more_anchors in case stored of
          None \<Rightarrow> Inr (if anchors = [] then NothingYet else TrailMissing)
        | Some d \<Rightarrow> (let rep = verify_against C d anchors in Inr (if report_ok rep then Intact rep else Broken rep))))"

text \<open>The exit code of the process: 1 for an error, 2 for a trail that is not intact.\<close>

definition exit_code :: "cli_error + verdict \<Rightarrow> nat" where
  "exit_code r = (case r of Inl _ \<Rightarrow> 1 | Inr TrailMissing \<Rightarrow> 2 | Inr (Broken _) \<Rightarrow> 2 | _ \<Rightarrow> 0)"

text \<open>The head a run prints, to be noted.\<close>

definition printed_head :: "report \<Rightarrow> string" where
  "printed_head rep = int_str (case report_last rep of Some n \<Rightarrow> n | None \<Rightarrow> 0) @ '':'' @ head_hash rep"

section \<open>Users\<close>

datatype user_command =
    AddUser string string
  | Passwd string
  | SetRole string string
  | RemoveUser string
  | ListUsers

definition must_exist :: "string list \<Rightarrow> string \<Rightarrow> cli_error option" where
  "must_exist existing name = (if name \<in> set existing then None else if existing = [] then Some NoUsersYet else Some (NoSuchUser name))"

text \<open>\<open>typed\<close> is the password typed twice, if both were the same.\<close>

definition run_user_command :: "hashing \<Rightarrow> string \<Rightarrow> string \<Rightarrow> string option \<Rightarrow> user_command \<Rightarrow> user_db \<Rightarrow> (cli_error + unit) \<times> user_db" where
  "run_user_command H salt now typed cmd db = (case list_users db of
     Inl e \<Rightarrow> (Inl (CliUsers e), db)
   | Inr us \<Rightarrow>
       (let existing = map us_name us in case cmd of
          AddUser name r \<Rightarrow> (case role_parse r of
              Inl e \<Rightarrow> (Inl (CliUsers e), db)
            | Inr q \<Rightarrow>
                if name \<in> set existing then (Inl (UserThere name), db)
                else (case typed of None \<Rightarrow> (Inl PasswordsDiffer, db) | Some p \<Rightarrow> apfst (map_sum CliUsers id) (create H salt now name p q db)))
        | Passwd name \<Rightarrow>
            if name = ''admin'' \<and> existing = []
            then (case typed of None \<Rightarrow> (Inl PasswordsDiffer, db)
              | Some p \<Rightarrow> apfst (map_sum CliUsers id) (create_with H salt now ''admin'' p Admin False db))
            else (case must_exist existing name of
                Some e \<Rightarrow> (Inl e, db)
              | None \<Rightarrow> (case typed of None \<Rightarrow> (Inl PasswordsDiffer, db)
                  | Some p \<Rightarrow> apfst (map_sum CliUsers id) (set_password H salt name p db)))
        | SetRole name r \<Rightarrow> (case must_exist existing name of
              Some e \<Rightarrow> (Inl e, db)
            | None \<Rightarrow> (case role_parse r of
                Inl e \<Rightarrow> (Inl (CliUsers e), db) | Inr q \<Rightarrow> apfst (map_sum CliUsers id) (set_role H salt name q db)))
        | RemoveUser name \<Rightarrow> (case must_exist existing name of
              Some e \<Rightarrow> (Inl e, db) | None \<Rightarrow> apfst (map_sum CliUsers id) (delete_user name db))
        | ListUsers \<Rightarrow> (Inr (), db)))"

section \<open>Starting\<close>

text \<open>The password of the first administrator: the environment's when it is set, else a random one.\<close>

definition first_password :: "string option \<Rightarrow> string \<Rightarrow> string" where
  "first_password env random = (case env of Some p \<Rightarrow> if p = [] then random else p | None \<Rightarrow> random)"

definition gateway_entry :: "('n, 'c, 'k) web_env \<Rightarrow> string \<Rightarrow> audit_entry" where
  "gateway_entry V summary = new_entry (we_time V) (ConfigChanged ''gateway'' summary)"

definition first_admin :: "('n, 'c, 'k) web_env \<Rightarrow> string option \<Rightarrow> string \<Rightarrow> web \<Rightarrow> (cli_error + unit) \<times> web" where
  "first_admin V env random s =
     (if user_count (ap_users s) \<noteq> 0 then (Inr (), s)
      else (case create_initial_admin (we_hash V) (we_salt V) (we_now V) (first_password env random) (ap_users s) of
          (Inl e, db) \<Rightarrow> (Inl (CliUsers e), s\<lparr>ap_users := db\<rparr>)
        | (Inr _, db) \<Rightarrow> (Inr (), snd (submit_entry V (gateway_entry V (''created initial user '' @ quoted ''admin'')) (s\<lparr>ap_users := db\<rparr>)))))"

text \<open>What loading corrected is written back and recorded.\<close>

definition write_repairs :: "('n, 'c, 'k) web_env \<Rightarrow> string list \<Rightarrow> web \<Rightarrow> (cli_error + unit) \<times> web" where
  "write_repairs V repairs s =
     (if repairs = [] then (Inr (), s)
      else (case save (we_out V) (write_targets (we_addr V) (c_targets (mg_config (ap_manager s)))) (ap_manager s) of
          None \<Rightarrow> (Inl FixesNotWritten, s)
        | Some m \<Rightarrow> (Inr (), submit_all V (map (gateway_entry V) repairs) (s\<lparr>ap_manager := m\<rparr>))))"

text \<open>\<open>run\<close>, up to the start of the exports and of the web server.\<close>

definition start_up :: "('n, 'c, 'k) web_env \<Rightarrow> string \<Rightarrow> string option \<Rightarrow> string \<Rightarrow> string list \<Rightarrow> web \<Rightarrow> (cli_error + unit) \<times> web" where
  "start_up V version env random repairs s = (case commit_entry V (new_entry (we_time V) (GatewayStarted version)) s of
     (Inl e, s1) \<Rightarrow> (Inl (NotStarted e), s1)
   | (Inr _, s1) \<Rightarrow> (case first_admin V env random s1 of
       (Inl e, s2) \<Rightarrow> (Inl e, s2)
     | (Inr _, s2) \<Rightarrow> (case write_repairs V repairs s2 of
         (Inl e, s3) \<Rightarrow> (Inl e, s3)
       | (Inr _, s3) \<Rightarrow> (Inr (), s3\<lparr>ap_manager := start_all (we_out V) (c_targets (mg_config (ap_manager s3))) (ap_manager s3)\<rparr>))))"

text \<open>\<open>run\<close> after the server has ended.\<close>

definition shut_down :: "('n, 'c, 'k) web_env \<Rightarrow> web \<Rightarrow> web" where
  "shut_down V s = snd (commit_entry V (new_entry (we_time V) GatewayStopped) (s\<lparr>ap_manager := stop_all (ap_manager s)\<rparr>))"

section \<open>What verifying tells\<close>

definition known_records :: "state_file \<Rightarrow> string list \<Rightarrow> anchor list option" where
  "known_records exported expect = (case expect_anchors expect of Inl _ \<Rightarrow> None | Inr as \<Rightarrow> Some (anchors_from exported @ as))"


lemma is_ascii_digit_char: "d < 10 \<Longrightarrow> is_ascii_digit (digit_char d) \<and> digit_value (digit_char d) = int d"
  using of_char_digit [of d] by (simp add: is_ascii_digit_def digit_value_def)

lemma nat_str_value: "list_all is_ascii_digit (nat_str n) \<and> digits_value (nat_str n) = int n"
proof (induction n rule: nat_str.induct)
  case (1 n)
  show ?case
  proof (cases "n < 10")
    case True
    then show ?thesis using is_ascii_digit_char [of n] by (subst nat_str.simps, subst nat_str.simps) (simp add: digits_value_def)
  next
    case False
    have "10 * int (n div 10) + int (n mod 10) = int n" by (metis mult_div_mod_eq of_nat_add of_nat_mult of_nat_numeral)
    then show ?thesis using 1 False is_ascii_digit_char [of "n mod 10"]
      by (subst nat_str.simps, subst nat_str.simps) (simp add: digits_value_def)
  qed
qed

lemma nat_str_no_sign: "nat_str n = c # cs \<Longrightarrow> c \<noteq> CHR ''-'' \<and> c \<noteq> CHR ''+''"
  using nat_str_value [of n] by (auto simp: is_ascii_digit_def)

lemma parse_int_str:
  assumes "- (2 ^ 63) \<le> n" and "n < 2 ^ 63"
  shows "parse_i64 (int_str n) = Some n"
proof (cases "n < 0")
  case True
  then show ?thesis using assms nat_str_value [of "nat (- n)"] nat_str_nonempty [of "nat (- n)"]
    by (auto simp: parse_i64_def int_str_def Let_def)
next
  case False
  obtain c cs where c: "nat_str (nat n) = c # cs" using nat_str_nonempty [of "nat n"] by (cases "nat_str (nat n)") auto
  from nat_str_value [of "nat n"] nat_str_no_sign [OF c] False assms show ?thesis
    by (simp add: parse_i64_def int_str_def Let_def c)
qed

lemma int_str_no_colon: "CHR '':'' \<notin> set (int_str n)"
proof -
  have "CHR '':'' \<notin> set (nat_str k)" for k using nat_str_value [of k] by (auto simp: list_all_iff is_ascii_digit_def)
  then show ?thesis by (simp add: int_str_def)
qed

lemma split_once_first: "c \<notin> set a \<Longrightarrow> split_once c (a @ c # b) = Some (a, b)"
  by (induction a) auto

lemma expect_printed_head:
  assumes "report_ok (verify_chain C d)" and "audit d \<noteq> []" and "\<bar>seq (last (audit d))\<bar> < 2 ^ 63"
  shows "expect_anchor (printed_head (verify_chain C d)) = Inr \<lparr>a_seq = seq (last (audit d)), a_hash = hash (last (audit d))\<rparr>"
proof -
  have "report_error (verify_rows C empty_report None (audit d)) = None" using assms(1) by (simp add: report_ok_def verify_chain_def)
  from verify_rows_report [OF this] assms(2)
  have "printed_head (verify_chain C d) = int_str (seq (last (audit d))) @ CHR '':'' # hash (last (audit d))"
    by (simp add: printed_head_def verify_chain_def)
  then show ?thesis using assms(3) by (simp add: expect_anchor_def split_once_first int_str_no_colon parse_int_str)
qed

text \<open>C6. A head that was noted down does its work: given back to a later verify it is read as the last
  record the trail had, and the later run succeeds exactly when the trail still verifies, holds what
  was exported, and still holds that record with the same hash, or starts after it.\<close>

theorem noted_head_is_checked:
  assumes "report_ok (verify_chain C d)" and "audit d \<noteq> []" and "\<bar>seq (last (audit d))\<bar> < 2 ^ 63"
  shows "exit_code (verify_command C exported (Some d') [printed_head (verify_chain C d)]) = 0 \<longleftrightarrow>
    verified C (audit d') \<and> list_all (anchored (audit d')) (anchors_from exported) \<and>
    anchored (audit d') \<lparr>a_seq = seq (last (audit d)), a_hash = hash (last (audit d))\<rparr>"
  by (simp add: verify_command_def expect_printed_head [OF assms] exit_code_def verify_against_iff_anchored Let_def conj_ac split: sum.split)

section \<open>Users from the command line\<close>

text \<open>Every command is one of the operations on the accounts, or changes nothing.\<close>

lemma user_command_step: "snd (run_user_command H salt now typed cmd db) = db \<or> (\<exists>op. snd (run_user_command H salt now typed cmd db) = users_step H db op)"
proof -
  have "snd (create_with H salt now n p r m db) = users_step H db (DoCreate salt now n p r m)" for n p r m by (simp add: users_step_def)
  moreover have "snd (update_user H salt n r p m db) = users_step H db (DoUpdate salt n r p m)" for n r p m by (simp add: users_step_def)
  moreover have "snd (delete_user n db) = users_step H db (DoDelete n)" for n by (simp add: users_step_def)
  ultimately have ops: "\<exists>op. snd (create_with H salt now n p r m db) = users_step H db op" "\<exists>op. snd (update_user H salt n r' p' m db) = users_step H db op"
    "\<exists>op. snd (delete_user n db) = users_step H db op" for n p r m r' p' by blast+
  show ?thesis
    by (cases cmd)
      (auto simp: run_user_command_def Let_def create_def set_password_def set_role_def ops split: sum.split option.split)
qed

lemma user_command_keeps_admin:
  assumes "users_wf db" and "has_admin db"
  shows "users_wf (snd (run_user_command H salt now typed cmd db)) \<and> has_admin (snd (run_user_command H salt now typed cmd db))"
  using user_command_step [of H salt now typed cmd db] users_step_wf [OF assms(1)] users_step_admin [OF assms] assms by auto

section \<open>A start\<close>

lemma keeps_users: "keeps s s' \<Longrightarrow> ap_users s' = ap_users s \<and> extends s s'"
  by (simp add: keeps_def config_part_def)

lemma write_repairs_keeps: "ap_users (snd (write_repairs V repairs s)) = ap_users s \<and> extends s (snd (write_repairs V repairs s))"
proof -
  have "ap_users (submit_all V es (s\<lparr>ap_manager := m\<rparr>)) = ap_users s \<and> extends s (submit_all V es (s\<lparr>ap_manager := m\<rparr>))" for es m
    using keeps_users [OF submit_all_keeps [of "s\<lparr>ap_manager := m\<rparr>" V es]] by (auto simp: extends_def)
  then show ?thesis by (simp add: write_repairs_def split: option.split)
qed

lemma first_admin_made:
  assumes "first_admin V env random s = (Inr (), s')"
  shows "extends s s' \<and> (user_count (ap_users s) = 0 \<longrightarrow>
    (\<exists>r. db_users (ap_users s') = [r] \<and> ur_name r = ''admin'' \<and> ur_role r = ''admin'' \<and> ur_must r))"
proof (cases "user_count (ap_users s) = 0")
  case True
  obtain x db where x: "create_initial_admin (we_hash V) (we_salt V) (we_now V) (first_password env random) (ap_users s) = (x, db)" by fastforce
  with assms True obtain w where w: "x = Inr w" "s' = snd (submit_entry V (gateway_entry V (''created initial user '' @ quoted ''admin'')) (s\<lparr>ap_users := db\<rparr>))"
    by (auto simp: first_admin_def split: sum.splits)
  have "ap_users s' = db \<and> extends s s'"
    using keeps_users [OF commit_entry_keeps [of "s\<lparr>ap_users := db\<rparr>" V "gateway_entry V (''created initial user '' @ quoted ''admin'')"]] unfolding w(2) by (auto simp: extends_def)
  moreover have "\<exists>r. db_users db = [r] \<and> ur_name r = ''admin'' \<and> ur_role r = ''admin'' \<and> ur_must r"
    using x w(1) True by (auto simp: create_initial_admin_def create_with_def user_count_def split: option.splits if_splits)
  ultimately show ?thesis by simp
qed (use assms in \<open>simp add: first_admin_def\<close>)

lemma commit_entry_Inr: "commit_entry V e s = (Inr n, s1) \<Longrightarrow> we_stores V e"
  by (cases "we_stores V e") (simp_all add: commit_entry_def append_def)

lemma started:
  assumes "start_up V version env random repairs s = (Inr (), s')" and "table_wf (ap_store s)"
  shows "(\<exists>row rows. trail s' = trail s @ row # rows \<and> r_kind row = ''gateway_started'') \<and>
    (user_count (ap_users s) = 0 \<longrightarrow> (\<exists>r. db_users (ap_users s') = [r] \<and> ur_name r = ''admin'' \<and> ur_role r = ''admin'' \<and> ur_must r))"
proof -
  let ?e = "new_entry (we_time V) (GatewayStarted version)"
  obtain x1 s1 where c: "commit_entry V ?e s = (x1, s1)" by fastforce
  obtain x2 s2 where a: "first_admin V env random s1 = (x2, s2)" by fastforce
  obtain x3 s3 where f: "write_repairs V repairs s2 = (x3, s3)" by fastforce
  have x: "\<exists>n. x1 = Inr n" "x2 = Inr ()" "x3 = Inr ()"
    "s' = s3\<lparr>ap_manager := start_all (we_out V) (c_targets (mg_config (ap_manager s3))) (ap_manager s3)\<rparr>"
    using assms(1) c a f by (auto simp: start_up_def split: sum.splits)
  then obtain n where n: "commit_entry V ?e s = (Inr n, s1)" using c by auto
  from commit_entry_stored [OF assms(2) commit_entry_Inr [OF n]] n obtain row where
    row: "trail s1 = trail s @ [row]" "r_kind row = ''gateway_started''" by auto
  have s1: "ap_users s1 = ap_users s" "table_wf (ap_store s1)"
    using keeps_users [OF commit_entry_keeps [of s V ?e]] n assms(2) by (auto simp: extends_def)
  from first_admin_made [OF a [unfolded x(2)]] have s2: "extends s1 s2" "user_count (ap_users s) = 0 \<longrightarrow>
    (\<exists>r. db_users (ap_users s2) = [r] \<and> ur_name r = ''admin'' \<and> ur_role r = ''admin'' \<and> ur_must r)" unfolding s1(1) by blast+
  from write_repairs_keeps [of V repairs s2] f have "ap_users s3 = ap_users s2" "extends s2 s3" by simp_all
  moreover from s2(1) this(2) have "extends s1 s3" by (rule extends_trans)
  ultimately show ?thesis using s1(2) s2(2) row by (auto simp: x(4) extends_def)
qed

text \<open>A gateway that runs has said so first: when a start succeeds, the first record it added is that of
  the start, stored before anything else happens, and where there were no users there is now the one
  administrator, who has to choose a password at the first login.\<close>

theorem a_start_is_recorded_first:
  assumes "start_up V version env random repairs s = (Inr (), s')" and "table_wf (ap_store s)"
  shows "(\<exists>row rows. trail s' = trail s @ row # rows \<and> r_kind row = ''gateway_started'') \<and>
    (user_count (ap_users s) = 0 \<longrightarrow> (\<exists>r. db_users (ap_users s') = [r] \<and> ur_name r = ''admin'' \<and> ur_role r = ''admin'' \<and> ur_must r))"
  using assms by (rule started)

section \<open>Examples\<close>

definition new_desk :: web where
  "new_desk = desk\<lparr>ap_users := empty_db\<rparr>"

lemma new_desk_starts: "fst (start_up desk_env ''1.0'' None ''Secret-word'' [] new_desk) = Inr ()"
proof -
  obtain x s1 where c: "commit_entry desk_env (new_entry (we_time desk_env) (GatewayStarted ''1.0'')) new_desk = (x, s1)" by fastforce
  have "table_wf (ap_store new_desk)" using desk_facts(1) by (simp add: new_desk_def)
  from commit_entry_stored [OF this desk_facts(2), of "new_entry (we_time desk_env) (GatewayStarted ''1.0'')"] c
  obtain n where n: "x = Inr n" by auto
  have s1: "ap_users s1 = empty_db" 
    using keeps_users [OF commit_entry_keeps [of new_desk desk_env "new_entry (we_time desk_env) (GatewayStarted ''1.0'')"]] unfolding c
    by (simp add: new_desk_def)
  have "fst (create_initial_admin (we_hash desk_env) (we_salt desk_env) (we_now desk_env) (first_password None ''Secret-word'') empty_db) = Inr ()"
    by code_simp
  then obtain db where db: "create_initial_admin (we_hash desk_env) (we_salt desk_env) (we_now desk_env) (first_password None ''Secret-word'') empty_db = (Inr (), db)"
    by (metis prod.collapse)
  then show ?thesis
    using s1 by (simp add: start_up_def c n first_admin_def db write_repairs_def split: prod.split sum.split)
qed

theorem a_start_is_recorded_first_witness:
  "\<exists>s'. start_up desk_env ''1.0'' None ''Secret-word'' [] new_desk = (Inr (), s') \<and> (\<exists>r. db_users (ap_users s') = [r] \<and> ur_must r)"
proof -
  obtain s' where s': "start_up desk_env ''1.0'' None ''Secret-word'' [] new_desk = (Inr (), s')"
    using new_desk_starts by (metis prod.collapse)
  have "table_wf (ap_store new_desk)" "user_count (ap_users new_desk) = 0"
    using desk_facts(1) by (simp_all add: new_desk_def user_count_def empty_db_def)
  with a_start_is_recorded_first [OF s'] s' show ?thesis by auto
qed

definition two_records :: store where
  "two_records = store_step reference_codec fresh_store (Append False [new_entry 0 GatewayStopped, new_entry 5 SessionActivated])"

theorem noted_head_is_checked_witness:
  "exit_code (verify_command reference_codec FileMissing (Some (conn two_records)) [printed_head (verify_chain reference_codec (conn two_records))]) = 0"
proof -
  have "store_inv reference_codec two_records"
    using writer.run_inv [of reference_codec fresh_store "[Append False [new_entry 0 GatewayStopped, new_entry 5 SessionActivated]]"]
      store_inv_fresh by (simp add: two_records_def)
  then have v: "verified reference_codec (audit (conn two_records))" by (simp add: store_inv_def)
  then have ok: "report_ok (verify_chain reference_codec (conn two_records))" by (simp add: verify_chain_verified)
  have wf: "table_wf fresh_store" by (simp add: table_wf_def fresh_store_def)
  have rows: "map seq (audit (conn two_records)) = [1, 2]"
    by (simp add: two_records_def store_step_def append_result [OF wf] Let_def) (simp add: fresh_store_def)
  then obtain a b where ab: "audit (conn two_records) = [a, b]" "seq a = 1" "seq b = 2" by auto
  with noted_head_is_checked [OF ok, where exported = FileMissing and d' = "conn two_records"] v show ?thesis
    by (simp add: anchored_def anchors_from_def)
qed

end
