(* ===== verification/Mcp.thy ===== *)
theory Mcp
  imports Web_Serve
begin

text \<open>
  The MCP endpoint for AI assistants (src/web/mcp.rs): who may call it, which tools a token sees, the
  record of every call, and what the tools change. JSON-RPC messages and arguments are \<open>json\<close>; reading
  a target or the audit settings from merged JSON is serde's, as is the text of a JSON value: arguments.
\<close>

section \<open>Callers\<close>

definition MAX_RECORDS :: nat where "MAX_RECORDS = 200"

record token_user =
  tu_name :: string
  tu_token :: string
  tu_role :: role
  tu_scopes :: "string list"

record caller =
  ca_user :: token_user
  ca_client :: client_context
  ca_agent :: "string option"
  ca_changes :: "string list"

text \<open>\<open>header\<close> is the value of the Authorization header.\<close>

definition bearer :: "string option \<Rightarrow> string option" where
  "bearer header = (case header of Some h \<Rightarrow> strip_prefix ''Bearer '' h | None \<Rightarrow> None)"

definition token_part :: "string \<Rightarrow> string" where
  "token_part s = (case split_on CHR ''_'' s of _ # i # _ \<Rightarrow> i | _ \<Rightarrow> [])"

text \<open>The user of a valid token; checking it notes its use.\<close>

definition mcp_authenticate :: "('n, 'c, 'k) web_env \<Rightarrow> string option \<Rightarrow> user_db \<Rightarrow> token_user option \<times> user_db" where
  "mcp_authenticate V header db = (case bearer header of
     None \<Rightarrow> (None, db)
   | Some h \<Rightarrow> (case verify_token (we_hash V) (we_now V) (trim h) db of
       (None, db1) \<Rightarrow> (None, db1)
     | (Some (u, scopes), db1) \<Rightarrow> (case state_of u db1 of
         Inl _ \<Rightarrow> (None, db1)
       | Inr None \<Rightarrow> (None, db1)
       | Inr (Some st) \<Rightarrow>
           if ss_role st < Auditor \<or> ss_must st then (None, db1)
           else (Some \<lparr>tu_name = u, tu_token = token_part (trim h), tu_role = ss_role st, tu_scopes = scopes\<rparr>, db1))))"

definition mcp_client :: "string option \<Rightarrow> client_context" where
  "mcp_client a = default_client\<lparr>remote_addr := (case a of Some a \<Rightarrow> a | None \<Rightarrow> []), application_name := Some ''MCP''\<rparr>"

text \<open>What the token was made for, as far as its user has the role for it.\<close>

definition make_caller :: "token_user \<Rightarrow> string option \<Rightarrow> string option \<Rightarrow> caller" where
  "make_caller t a agent = \<lparr>ca_user = t, ca_client = mcp_client a, ca_agent = map_option (\<lambda>v. clip v 128) agent,
     ca_changes = filter (\<lambda>x. mcp_scope_role x \<le> tu_role t) (tu_scopes t)\<rparr>"

definition caller_user :: "caller \<Rightarrow> auth_user" where
  "caller_user c = \<lparr>au_name = tu_name (ca_user c), au_role = tu_role (ca_user c), au_must = False, au_token = Some (tu_token (ca_user c))\<rparr>"

text \<open>A refused token is recorded at most once a minute for an address.\<close>

definition rejected_token :: "string \<Rightarrow> string" where
  "rejected_token h = (case strip_prefix ''gwt_'' (trim h) of
     Some rest \<Rightarrow> clip (hd (split_on CHR ''_'' rest)) 32 | None \<Rightarrow> ''(not a gateway token)'')"

definition mcp_rejected :: "time \<Rightarrow> string option \<Rightarrow> string option \<Rightarrow> (string \<times> time) list \<Rightarrow> audit_entry list \<times> (string \<times> time) list" where
  "mcp_rejected now header a seen = (case bearer header of
     None \<Rightarrow> ([], seen)
   | Some h \<Rightarrow>
       (let e = with_client (mcp_client a) (new_entry now (ApiTokenRejected (rejected_token h))) in case a of
          None \<Rightarrow> ([e], seen)
        | Some ip \<Rightarrow>
            (let seen1 = bt_retain (\<lambda>_ t. elapsed now t < secs 60) seen
             in if map_of seen1 ip \<noteq> None then ([], seen1) else ([e], bt_put ip now seen1))))"

section \<open>Tools\<close>

text \<open>The tools with their arguments, in the order they are listed.\<close>

definition read_tools :: "(string \<times> string list) list" where
  "read_tools =
     [(''search_audit_trail'', [''target'', ''event'', ''user'', ''node'', ''since'', ''until'', ''before_seq'', ''limit'']),
      (''get_audit_record'', [''seq'']),
      (''gateway_status'', []),
      (''most_written_nodes'', [''hours'']),
      (''verify_audit_trail'', []),
      (''list_unacknowledged_alarms'', [])]"

definition target_fields :: "string list" where
  "target_fields = [''name'', ''listen'', ''endpoint_url'', ''min_security'', ''discovery_interval_secs'', ''max_connections'',
     ''max_connections_per_address'']"

definition change_tools :: "(string \<times> string \<times> string list) list" where
  "change_tools =
     [(''targets'', ''list_targets'', []),
      (''targets'', ''discover_endpoints'', [''endpoint_url'']),
      (''targets'', ''add_target'', target_fields),
      (''targets'', ''update_target'', target_fields @ [''new_name'']),
      (''targets'', ''delete_target'', [''name'']),
      (''targets'', ''create_summarise_group'', [''target'', ''name'', ''client'', ''node_ids'']),
      (''targets'', ''add_summarised_nodes'', [''target'', ''group_name'', ''group_client'', ''node_ids'']),
      (''targets'', ''remove_summarised_nodes'', [''target'', ''group_name'', ''group_client'', ''node_ids'']),
      (''targets'', ''rename_summarise_group'', [''target'', ''group_name'', ''group_client'', ''new_name'']),
      (''targets'', ''delete_summarise_group'', [''target'', ''group_name'', ''group_client'']),
      (''certificates'', ''list_certificates'', []),
      (''certificates'', ''trust_server_certificate'', [''target'', ''thumbprint'']),
      (''certificates'', ''trust_rejected_certificate'', [''thumbprint'']),
      (''certificates'', ''untrust_certificate'', [''thumbprint'']),
      (''certificates'', ''delete_rejected_certificate'', [''thumbprint'']),
      (''settings'', ''get_settings'', []),
      (''settings'', ''update_audit_settings'', [''retention_days'', ''fail_mode'', ''record_old_value'', ''ignored_summary_secs'']),
      (''settings'', ''update_export_settings'', [''questdb'']),
      (''settings'', ''update_certificate_hostnames'', [''certificate_hostnames'']),
      (''alarms'', ''acknowledge_alarms'', [''severity'', ''up_to_seq''])]"

text \<open>\<open>Caller::tools\<close>.\<close>

definition tools_of :: "caller \<Rightarrow> (string \<times> string list) list" where
  "tools_of c = read_tools @ map snd (filter (\<lambda>(scope, _). scope \<in> set (ca_changes c)) change_tools)"

definition is_change_tool :: "string \<Rightarrow> bool" where
  "is_change_tool n \<longleftrightarrow> list_ex (\<lambda>(_, m, _). m = n) change_tools"

section \<open>The record of a call\<close>

text \<open>A URL without user and password.\<close>

fun find_sub :: "string \<Rightarrow> string \<Rightarrow> nat option" where
  "find_sub p [] = (if p = [] then Some 0 else None)"
| "find_sub p (c # cs) = (if starts_with (c # cs) p then Some 0 else map_option Suc (find_sub p cs))"

definition strip_userinfo :: "string \<Rightarrow> string" where
  "strip_userinfo text = (case find_sub ''://'' text of
     None \<Rightarrow> text
   | Some i \<Rightarrow>
       (let start = i + 3; rest = drop start text;
            authority = takeWhile (\<lambda>c. c \<notin> set ''/?#'') rest
        in if CHR ''@'' \<in> set authority
           then take start text @ ''(hidden)'' @ drop (length authority - length (takeWhile (\<lambda>c. c \<noteq> CHR ''@'') (rev authority)) - 1) rest
           else text))"

fun redact :: "json \<Rightarrow> json" and redact_fields :: "(string \<times> json) list \<Rightarrow> (string \<times> json) list" and redact_all :: "json list \<Rightarrow> json list" where
  "redact (JObject fs) = JObject (redact_fields fs)"
| "redact (JArray xs) = JArray (redact_all xs)"
| "redact (JString t) = JString (strip_userinfo t)"
| "redact v = v"
| "redact_fields [] = []"
| "redact_fields ((k, v) # fs) =
     (k, if k \<in> {''password'', ''token''} \<and> v \<noteq> JNull then JString ''(hidden)'' else redact v) # redact_fields fs"
| "redact_all [] = []"
| "redact_all (x # xs) = redact x # redact_all xs"

definition call_entry :: "('n, 'c, 'k) web_env \<Rightarrow> (json \<Rightarrow> string) \<Rightarrow> caller \<Rightarrow> string \<Rightarrow> json \<Rightarrow> audit_entry" where
  "call_entry V show c tool args =
     with_client (case ca_agent c of Some a \<Rightarrow> (ca_client c)\<lparr>application_name := Some (''MCP '' @ bytes [194, 183] @ '' '' @ a)\<rparr> | None \<Rightarrow> ca_client c)
       (new_entry (we_time V) (McpQuery (tu_name (ca_user c)) (tu_token (ca_user c)) tool (clip (show (redact args)) MAX_TEXT)))"

end
