(* ===== verification/Mcp_Tools.thy ===== *)
theory Mcp_Tools
  imports Mcp
begin

text \<open>
  The MCP endpoint (src/web/mcp.rs), second part: reading a tool's arguments, what each tool does, and a
  request from its arrival to its answer.
\<close>

section \<open>Arguments\<close>

text \<open>What the arguments need of libraries: times, the text of JSON, and the store's query for the nodes
  written most often.\<close>

record mcp_env =
  js_show :: "json \<Rightarrow> string"
  js_time :: "string \<Rightarrow> time option"
  js_most_written :: "db \<Rightarrow> time \<Rightarrow> (string \<times> nat) list"

datatype mcp_error =
    ApiFailed api_error
  | MissingArgument string
  | BadArguments
  | BadTime string
  | NoGroupNamed string "string option" "string option"
  | ShorterRetention
  | OpensFailMode
  | NothingOpen
  | NoRecord int
  | ReadFailed store_error

definition arg_string :: "string \<Rightarrow> json \<Rightarrow> string option" where
  "arg_string k args = (case json_field k args of
     Some (JString t) \<Rightarrow> if trim t = [] then None else Some (trim t) | _ \<Rightarrow> None)"

definition js_u64 :: "json option \<Rightarrow> nat option" where
  "js_u64 v = (case v of Some (JInt n) \<Rightarrow> if 0 \<le> n \<and> n < 2 ^ 64 then Some (nat n) else None | _ \<Rightarrow> None)"

definition js_i64 :: "json option \<Rightarrow> int option" where
  "js_i64 v = (case v of Some (JInt n) \<Rightarrow> if - (2 ^ 63) \<le> n \<and> n < 2 ^ 63 then Some n else None | _ \<Rightarrow> None)"

definition arg_time :: "mcp_env \<Rightarrow> string \<Rightarrow> json \<Rightarrow> mcp_error + time option" where
  "arg_time M k args = (case arg_string k args of
     None \<Rightarrow> Inr None
   | Some t \<Rightarrow> (case js_time M t of Some x \<Rightarrow> Inr (Some x) | None \<Rightarrow> Inl (BadTime k)))"

definition required_arg :: "string \<Rightarrow> json \<Rightarrow> mcp_error + string" where
  "required_arg k args = (case arg_string k args of Some t \<Rightarrow> Inr t | None \<Rightarrow> Inl (MissingArgument k))"

text \<open>Fields of a struct, as serde reads them from JSON: \<open>None\<close> is a failure.\<close>

definition js_text :: "json option \<Rightarrow> string option" where
  "js_text v = (case v of Some (JString t) \<Rightarrow> Some t | _ \<Rightarrow> None)"

definition js_opt_text :: "json option \<Rightarrow> string option option" where
  "js_opt_text v = (case v of None \<Rightarrow> Some None | Some JNull \<Rightarrow> Some None | Some (JString t) \<Rightarrow> Some (Some t) | _ \<Rightarrow> None)"

definition js_nat :: "nat \<Rightarrow> nat \<Rightarrow> json option \<Rightarrow> nat option" where
  "js_nat bits dflt v = (case v of None \<Rightarrow> Some dflt
     | Some (JInt n) \<Rightarrow> if 0 \<le> n \<and> n < 2 ^ bits then Some (nat n) else None | _ \<Rightarrow> None)"

fun js_texts :: "json list \<Rightarrow> string list option" where
  "js_texts [] = Some []"
| "js_texts (JString t # vs) = map_option ((#) t) (js_texts vs)"
| "js_texts (_ # vs) = None"

text \<open>A variant without data is its name, or an object with its name and null.\<close>

definition js_variant :: "json option \<Rightarrow> string option" where
  "js_variant v = (case v of Some (JString t) \<Rightarrow> Some t | Some (JObject [(t, JNull)]) \<Rightarrow> Some t | _ \<Rightarrow> None)"

definition js_fail_mode :: "json option \<Rightarrow> fail_mode option" where
  "js_fail_mode v = (case v of None \<Rightarrow> Some FailOpen
     | Some _ \<Rightarrow> (case js_variant v of
         Some t \<Rightarrow> if t = ''open'' then Some FailOpen else if t = ''closed'' then Some FailClosed else None
       | None \<Rightarrow> None))"

definition js_min_security :: "json option \<Rightarrow> min_security option" where
  "js_min_security v = (case v of None \<Rightarrow> Some MinNone
     | Some _ \<Rightarrow> (case js_variant v of
         Some t \<Rightarrow> if t = ''none'' then Some MinNone else if t = ''sign'' then Some MinSign
           else if t = ''sign_and_encrypt'' then Some MinSignAndEncrypt else None
       | None \<Rightarrow> None))"

definition js_bool :: "bool \<Rightarrow> json option \<Rightarrow> bool option" where
  "js_bool dflt v = (case v of None \<Rightarrow> Some dflt | Some (JBool b) \<Rightarrow> Some b | _ \<Rightarrow> None)"

definition audit_json :: "audit_section \<Rightarrow> (string \<times> json) list" where
  "audit_json a =
     [(''database'', case a_database a of Some d \<Rightarrow> JString d | None \<Rightarrow> JNull), (''retention_days'', JInt (int (retention_days a))),
      (''fail_mode'', JString (mode_text (fail_mode a))), (''record_old_value'', JBool (record_old_value a)),
      (''ignored_summary_secs'', JInt (int (ignored_summary_secs a)))]"

definition js_audit :: "(string \<times> json) list \<Rightarrow> audit_section option" where
  "js_audit kvs =
     (if \<not> fst ` set kvs \<subseteq> {''database'', ''retention_days'', ''fail_mode'', ''record_old_value'', ''ignored_summary_secs''} then None
      else (case (js_opt_text (map_of kvs ''database''), js_nat 32 365 (map_of kvs ''retention_days''), js_fail_mode (map_of kvs ''fail_mode''),
                  js_bool True (map_of kvs ''record_old_value''), js_nat 64 3600 (map_of kvs ''ignored_summary_secs'')) of
          (Some d, Some r, Some f, Some b, Some i) \<Rightarrow>
            Some \<lparr>fail_mode = f, record_old_value = b, retention_days = r, ignored_summary_secs = i, a_database = d\<rparr>
        | _ \<Rightarrow> None))"

text \<open>The groups of a target that is changed are put back by the request: they are not read here.\<close>

definition target_json :: "addr_text \<Rightarrow> target \<Rightarrow> (string \<times> json) list" where
  "target_json A t =
     [(''name'', JString (t_name t)), (''listen'', JString (show_addr A (t_listen t))), (''endpoint_url'', JString (t_endpoint_url t)),
      (''discovery_interval_secs'', JInt (int (t_discovery_interval_secs t))), (''min_security'', JString (min_security_str (t_min_security t))),
      (''max_connections'', JInt (int (t_max_connections t))), (''max_connections_per_address'', JInt (int (t_max_connections_per_address t)))]"

definition js_target :: "addr_text \<Rightarrow> (string \<times> json) list \<Rightarrow> target option" where
  "js_target A kvs =
     (case (js_text (map_of kvs ''name''), Option.bind (js_text (map_of kvs ''listen'')) (parse_addr A), js_text (map_of kvs ''endpoint_url''),
            js_min_security (map_of kvs ''min_security''), js_nat 64 60 (map_of kvs ''discovery_interval_secs''),
            js_nat 64 50 (map_of kvs ''max_connections''), js_nat 64 10 (map_of kvs ''max_connections_per_address'')) of
        (Some n, Some l, Some u, Some m, Some d, Some c, Some p) \<Rightarrow>
          Some \<lparr>t_name = n, t_endpoint_url = u, t_min_security = m, t_listen = l, t_discovery_interval_secs = d, t_max_connections = c,
            t_max_connections_per_address = p, t_summarise = [], t_ignore = []\<rparr>
      | _ \<Rightarrow> None)"

definition questdb_keys :: "string list" where
  "questdb_keys = [''url'', ''table'', ''username'', ''password'', ''token'', ''ca_pem'', ''interval_secs'']"

definition js_questdb :: "(string \<times> json) list \<Rightarrow> questdb_input option" where
  "js_questdb kvs =
     (if \<not> fst ` set kvs \<subseteq> set questdb_keys \<or> map_of kvs ''interval_secs'' = None then None
      else (case (js_text (map_of kvs ''url''), js_text (map_of kvs ''table''), js_opt_text (map_of kvs ''username''),
                  js_opt_text (map_of kvs ''password''), js_opt_text (map_of kvs ''token''), js_opt_text (map_of kvs ''ca_pem''),
                  js_nat 64 0 (map_of kvs ''interval_secs'')) of
          (Some u, Some t, Some n, Some p, Some k, Some c, Some i) \<Rightarrow>
            Some \<lparr>qi_url = u, qi_table = t, qi_username = n, qi_password = p, qi_token = k, qi_ca_pem = c, qi_interval_secs = i\<rparr>
        | _ \<Rightarrow> None))"

definition js_export :: "json \<Rightarrow> questdb_input option option" where
  "js_export args = (case json_field ''questdb'' args of
     None \<Rightarrow> Some None | Some JNull \<Rightarrow> Some None | Some (JObject kvs) \<Rightarrow> map_option Some (js_questdb kvs) | _ \<Rightarrow> None)"

definition js_set :: "string \<Rightarrow> json \<Rightarrow> (string \<times> json) list \<Rightarrow> (string \<times> json) list" where
  "js_set k v kvs = (if k \<in> fst ` set kvs then map (\<lambda>(j, w). if j = k then (j, v) else (j, w)) kvs else kvs @ [(k, v)])"

text \<open>\<open>overlay\<close>: the base with the fields given put over it.\<close>

definition overlay :: "(string \<times> json) list \<Rightarrow> json \<Rightarrow> string list \<Rightarrow> (string \<times> json) list" where
  "overlay base changes skip = (case changes of
     JObject kvs \<Rightarrow> fold (\<lambda>(k, v) b. if k \<in> set skip then b else js_set k v b) kvs base | _ \<Rightarrow> base)"

definition node_ids :: "json \<Rightarrow> mcp_error + string list" where
  "node_ids args = (case json_field ''node_ids'' args of
     None \<Rightarrow> Inr [] | Some (JArray vs) \<Rightarrow> (case js_texts vs of Some ids \<Rightarrow> Inr ids | None \<Rightarrow> Inl BadArguments) | _ \<Rightarrow> Inl BadArguments)"

definition node_refs :: "string list \<Rightarrow> node_ref list" where
  "node_refs ids = map (\<lambda>i. \<lparr>nr_node_id = i, nr_name = None\<rparr>) ids"

text \<open>\<open>find_group\<close>: the position of the group with this name and client, and the check that it is still there.\<close>

definition find_group :: "json \<Rightarrow> web \<Rightarrow> mcp_error + (string \<times> nat \<times> group_check)" where
  "find_group args s = (case required_arg ''target'' args of
     Inl e \<Rightarrow> Inl e
   | Inr t \<Rightarrow> (case find_target t s of
       None \<Rightarrow> Inl (ApiFailed (NoTargetNamed t))
     | Some x \<Rightarrow>
         (let n = arg_string ''group_name'' args; c = arg_string ''group_client'' args;
              i = length (takeWhile (\<lambda>g. \<not> (g_name g = n \<and> g_client g = c)) (t_summarise x))
          in if i < length (t_summarise x) then Inr (t, i, \<lparr>gk_check = True, gk_name = n, gk_client = c\<rparr>)
             else Inl (NoGroupNamed t n c))))"

section \<open>The tools\<close>

text \<open>The guard of \<open>update_audit_settings\<close>, and the settings it asks for.\<close>

definition audit_change :: "json \<Rightarrow> audit_section \<Rightarrow> mcp_error + audit_section" where
  "audit_change args a =
     (if (case js_u64 (json_field ''retention_days'' args) of
            Some d \<Rightarrow> d \<noteq> 0 \<and> (retention_days a = 0 \<or> d < retention_days a) | None \<Rightarrow> False) then Inl ShorterRetention
      else if json_field ''fail_mode'' args = Some (JString ''open'') \<and> fail_mode a = FailClosed then Inl OpensFailMode
      else (case js_audit (overlay (audit_json a) args []) of Some b \<Rightarrow> Inr b | None \<Rightarrow> Inl BadArguments))"

abbreviation or_fail :: "'a option \<Rightarrow> ('a \<Rightarrow> 'b) \<Rightarrow> mcp_error + 'b" where
  "or_fail v f \<equiv> (case v of Some x \<Rightarrow> Inr (f x) | None \<Rightarrow> Inl BadArguments)"

definition group_request :: "json \<Rightarrow> web \<Rightarrow> (string \<Rightarrow> nat \<Rightarrow> group_check \<Rightarrow> mcp_error + web_request) \<Rightarrow> mcp_error + web_request" where
  "group_request args s f = (case find_group args s of Inl e \<Rightarrow> Inl e | Inr (t, i, c) \<Rightarrow> f t i c)"

text \<open>The request to the web API a change tool makes.\<close>

definition tool_request :: "('n, 'c, 'k) web_env \<Rightarrow> string \<Rightarrow> json \<Rightarrow> web \<Rightarrow> mcp_error + web_request" where
  "tool_request V tool args s =
     (let kvs = (case args of JObject kvs \<Rightarrow> kvs | _ \<Rightarrow> []) in
      if tool = ''list_targets'' then Inr ListTargets
      else if tool = ''discover_endpoints'' then or_fail (js_text (json_field ''endpoint_url'' args)) DiscoverUrl
      else if tool = ''add_target'' then or_fail (js_target (we_addr V) kvs) CreateTarget
      else if tool = ''update_target'' then (case required_arg ''name'' args of
          Inl e \<Rightarrow> Inl e
        | Inr n \<Rightarrow> (case find_target n s of
            None \<Rightarrow> Inl (ApiFailed (NoTargetNamed n))
          | Some t \<Rightarrow> or_fail (js_target (we_addr V) (js_set ''name'' (JString (case arg_string ''new_name'' args of Some m \<Rightarrow> m | None \<Rightarrow> n))
              (overlay (target_json (we_addr V) t) args [''name'', ''new_name'']))) (UpdateTarget n)))
      else if tool = ''delete_target'' then map_sum id DeleteTarget (required_arg ''name'' args)
      else if tool = ''create_summarise_group'' then (case required_arg ''target'' args of
          Inl e \<Rightarrow> Inl e
        | Inr t \<Rightarrow> (case node_ids args of
            Inl e \<Rightarrow> Inl e
          | Inr ids \<Rightarrow> (case (js_opt_text (json_field ''name'' args), js_opt_text (json_field ''client'' args)) of
              (Some n, Some c) \<Rightarrow> Inr (CreateGroup t \<lparr>ng_name = n, ng_client = c, ng_nodes = node_refs ids\<rparr>)
            | _ \<Rightarrow> Inl BadArguments)))
      else if tool = ''add_summarised_nodes'' then group_request args s (\<lambda>t i c. map_sum id (\<lambda>ids. AddNodes t i c (node_refs ids)) (node_ids args))
      else if tool = ''remove_summarised_nodes'' then group_request args s (\<lambda>t i c. case json_field ''node_ids'' args of
          Some (JArray vs) \<Rightarrow> or_fail (js_texts vs) (RemoveNodes t i c) | _ \<Rightarrow> Inl BadArguments)
      else if tool = ''rename_summarise_group'' then group_request args s (\<lambda>t i c. or_fail (js_opt_text (json_field ''new_name'' args)) (RenameGroup t i c))
      else if tool = ''delete_summarise_group'' then group_request args s (\<lambda>t i c. Inr (DeleteGroup t i c))
      else if tool = ''list_certificates'' then Inr ListCertificates
      else if tool = ''trust_server_certificate'' then (case required_arg ''target'' args of
          Inl e \<Rightarrow> Inl e | Inr t \<Rightarrow> or_fail (js_text (json_field ''thumbprint'' args)) (TrustServer t))
      else if tool = ''trust_rejected_certificate'' then map_sum id TrustRejected (required_arg ''thumbprint'' args)
      else if tool = ''untrust_certificate'' then map_sum id Untrust (required_arg ''thumbprint'' args)
      else if tool = ''delete_rejected_certificate'' then map_sum id DeleteRejected (required_arg ''thumbprint'' args)
      else if tool = ''get_settings'' then Inr GetSettings
      else if tool = ''update_audit_settings'' then map_sum id PutAudit (audit_change args (c_audit (mg_config (ap_manager s))))
      else if tool = ''update_export_settings'' then or_fail (js_export args) PutExport
      else if tool = ''update_certificate_hostnames'' then (case json_field ''certificate_hostnames'' args of
          Some (JArray vs) \<Rightarrow> or_fail (js_texts vs) PutGateway | _ \<Rightarrow> Inl BadArguments)
      else Inl BadArguments)"

datatype mcp_reply =
    ToolReply web_reply
  | Found "stored_record list" bool
  | OneRecord stored_record
  | GatewayStatus "(target \<times> target_status option) list" "alarm_count list" nat
  | MostWritten "(string \<times> nat) list"
  | Verified report
  | OpenAlarms "(severity \<times> int \<times> stored_record list) list"
  | Acknowledged "stored_record list" nat

text \<open>\<open>u + 1\<close> in 64 bits.\<close>

definition next_i64 :: "int \<Rightarrow> int" where
  "next_i64 u = (if u = 2 ^ 63 - 1 then - (2 ^ 63) else u + 1)"

definition unacknowledged_records :: "('n, 'c, 'k) web_env \<Rightarrow> severity \<Rightarrow> int option \<Rightarrow> web \<Rightarrow> mcp_error + (int \<times> stored_record list)" where
  "unacknowledged_records V sev up_to s =
     (let mark = (case find (\<lambda>a. al_severity a = sev) (alarms (we_codec V) (trail_db s)) of Some a \<Rightarrow> acknowledged_up_to a | None \<Rightarrow> 0)
      in case query (we_codec V) (we_json V) (trail_db s) (default_query\<lparr>q_kinds := Some (join_with CHR '','' (kinds sev)),
           q_after_seq := Some mark, before_seq := map_option next_i64 up_to, q_limit := Some MAX_RECORDS\<rparr>) of
         Inl e \<Rightarrow> Inl (ReadFailed e)
       | Inr rs \<Rightarrow> Inr (mark, rev rs))"

definition js_severity :: "json option \<Rightarrow> severity option" where
  "js_severity v = (case js_variant v of
     Some t \<Rightarrow> if t = ''error'' then Some Error else if t = ''warning'' then Some Warning else None | None \<Rightarrow> None)"

definition acknowledge_tool :: "('n, 'c, 'k) web_env \<Rightarrow> caller \<Rightarrow> json \<Rightarrow> web \<Rightarrow> (mcp_error + mcp_reply) \<times> web" where
  "acknowledge_tool V c args s = (case (js_severity (json_field ''severity'' args), js_i64 (json_field ''up_to_seq'' args)) of
     (Some sev, Some up_to) \<Rightarrow> (case unacknowledged_records V sev (Some up_to) s of
         Inl e \<Rightarrow> (Inl e, s)
       | Inr (mark, rs) \<Rightarrow>
           if rs = [] then (Inl NothingOpen, s)
           else (case commit_entry V (new_entry (we_time V) (AlarmsAcknowledged (actor (caller_user c)) sev up_to (length rs))) s of
               (Inl e, s1) \<Rightarrow> (Inl (ApiFailed (NotRecorded e)), s1)
             | (Inr _, s1) \<Rightarrow> (case unacknowledged_records V sev None s1 of
                 Inl e \<Rightarrow> (Inl e, s1) | Inr (_, remaining) \<Rightarrow> (Inr (Acknowledged rs (length remaining)), s1))))
   | _ \<Rightarrow> (Inl BadArguments, s))"

definition change_tool :: "('n, 'c, 'k) web_env \<Rightarrow> caller \<Rightarrow> string \<Rightarrow> json \<Rightarrow> web \<Rightarrow> (mcp_error + mcp_reply) \<times> web" where
  "change_tool V c tool args s =
     (if tool = ''acknowledge_alarms'' then acknowledge_tool V c args s
      else (case tool_request V tool args s of
          Inl e \<Rightarrow> (Inl e, s)
        | Inr ask \<Rightarrow> (case handle_request V (caller_user c) ask s of (r, s1) \<Rightarrow> (map_sum ApiFailed ToolReply r, s1))))"

definition search_query :: "mcp_env \<Rightarrow> json \<Rightarrow> mcp_error + audit_query" where
  "search_query M args =
     (let event = arg_string ''event'' args;
          several = (case event of Some e \<Rightarrow> CHR '','' \<in> set e | None \<Rightarrow> False);
          limit = min (max (case js_u64 (json_field ''limit'' args) of Some n \<Rightarrow> n | None \<Rightarrow> 50) 1) MAX_RECORDS
      in case (arg_time M ''since'' args, arg_time M ''until'' args) of
           (Inl e, _) \<Rightarrow> Inl e
         | (_, Inl e) \<Rightarrow> Inl e
         | (Inr a, Inr b) \<Rightarrow> Inr \<lparr>q_target = arg_string ''target'' args, q_kind = (if several then None else event),
             q_user = arg_string ''user'' args, q_node_id = arg_string ''node'' args, since = a, until = b,
             before_seq = js_i64 (json_field ''before_seq'' args), q_after_seq = None,
             q_kinds = (if several then event else None), q_limit = Some limit\<rparr>)"

definition hours_of :: "json option \<Rightarrow> int" where
  "hours_of v = min (max (case js_i64 v of Some n \<Rightarrow> n | None \<Rightarrow> 24) 1) (24 * 366)"

text \<open>The read tools.\<close>

definition read_tool :: "('n, 'c, 'k) web_env \<Rightarrow> mcp_env \<Rightarrow> string \<Rightarrow> json \<Rightarrow> web \<Rightarrow> mcp_error + mcp_reply" where
  "read_tool V M tool args s =
     (if tool = ''search_audit_trail'' then (case search_query M args of
          Inl e \<Rightarrow> Inl e
        | Inr q \<Rightarrow> (case query (we_codec V) (we_json V) (trail_db s) q of
            Inl e \<Rightarrow> Inl (ReadFailed e) | Inr rs \<Rightarrow> Inr (Found rs (Some (length rs) = q_limit q))))
      else if tool = ''get_audit_record'' then (case js_i64 (json_field ''seq'' args) of
          None \<Rightarrow> Inl (MissingArgument ''seq'')
        | Some n \<Rightarrow> (case query (we_codec V) (we_json V) (trail_db s)
              (default_query\<lparr>before_seq := Some (min (n + 1) (2 ^ 63 - 1)), q_limit := Some 1\<rparr>) of
            Inl e \<Rightarrow> Inl (ReadFailed e)
          | Inr rs \<Rightarrow> (case find (\<lambda>r. sr_seq r = n) rs of Some r \<Rightarrow> Inr (OneRecord r) | None \<Rightarrow> Inl (NoRecord n))))
      else if tool = ''gateway_status'' then Inr (GatewayStatus (target_views s) (alarms (we_codec V) (trail_db s)) (ap_lost s))
      else if tool = ''most_written_nodes'' then
        Inr (MostWritten (js_most_written M (trail_db s) (we_time V - hours (hours_of (json_field ''hours'' args)))))
      else if tool = ''verify_audit_trail'' then Inr (Verified (verify_against (we_codec V) (trail_db s) (anchors_from (we_export_file V))))
      else if tool = ''list_unacknowledged_alarms'' then
        (case (unacknowledged_records V Warning None s, unacknowledged_records V Error None s) of
           (Inl e, _) \<Rightarrow> Inl e
         | (_, Inl e) \<Rightarrow> Inl e
         | (Inr (m, rs), Inr (n, es)) \<Rightarrow> Inr (OpenAlarms [(Warning, m, rs), (Error, n, es)]))
      else Inl BadArguments)"

section \<open>A request\<close>

datatype mcp_answer =
    NeedsHttps
  | NoToken
  | TurnedOff
  | ParseFailed
  | NoBatches
  | NoAnswer
  | Initialized
  | Pong
  | ToolList "string list"
  | UnknownTool bool
  | ArgumentsNotObject
  | UnknownArguments "string list"
  | NotRun audit_error
  | ToolFailed mcp_error
  | ToolDone mcp_reply
  | UnknownMethod

text \<open>\<open>tools/call\<close>.\<close>

definition call_tool :: "('n, 'c, 'k) web_env \<Rightarrow> mcp_env \<Rightarrow> caller \<Rightarrow> string \<Rightarrow> json \<Rightarrow> web \<Rightarrow> mcp_answer \<times> web" where
  "call_tool V M c tool args s = (case map_of (tools_of c) tool of
     None \<Rightarrow> (UnknownTool (is_change_tool tool), s)
   | Some props \<Rightarrow> (case args of
       JObject kvs \<Rightarrow>
         (let unknown = filter (\<lambda>k. k \<notin> set props) (map fst kvs) in
          if unknown \<noteq> [] then (UnknownArguments unknown, s)
          else (case submit_entry V (call_entry V (js_show M) c tool args) s of
              (Inl e, s1) \<Rightarrow> (NotRun e, s1)
            | (Inr _, s1) \<Rightarrow>
                (if is_change_tool tool
                 then (case change_tool V c tool args s1 of
                     (Inl e, s2) \<Rightarrow> (ToolFailed e, s2) | (Inr r, s2) \<Rightarrow> (ToolDone r, s2))
                 else (case read_tool V M tool args s1 of Inl e \<Rightarrow> (ToolFailed e, s1) | Inr r \<Rightarrow> (ToolDone r, s1)))))
     | _ \<Rightarrow> (ArgumentsNotObject, s)))"

definition called_tool :: "json \<Rightarrow> string" where
  "called_tool message = (case js_text (Option.bind (json_field ''params'' message) (json_field ''name'')) of Some n \<Rightarrow> n | None \<Rightarrow> [])"

definition call_arguments :: "json \<Rightarrow> json" where
  "call_arguments message = (case Option.bind (json_field ''params'' message) (json_field ''arguments'') of
     None \<Rightarrow> JObject [] | Some JNull \<Rightarrow> JObject [] | Some a \<Rightarrow> a)"

definition mcp_handle :: "('n, 'c, 'k) web_env \<Rightarrow> mcp_env \<Rightarrow> caller \<Rightarrow> json \<Rightarrow> web \<Rightarrow> mcp_answer \<times> web" where
  "mcp_handle V M c message s = (case (json_field ''id'' message, js_text (json_field ''method'' message)) of
     (Some _, Some m) \<Rightarrow>
       (if m = ''initialize'' then (Initialized, s)
        else if m = ''ping'' then (Pong, s)
        else if m = ''tools/list'' then (ToolList (map fst (tools_of c)), s)
        else if m = ''tools/call'' then
          call_tool V M c (called_tool message) (call_arguments message) s
        else (UnknownMethod, s))
   | _ \<Rightarrow> (NoAnswer, s))"

text \<open>\<open>post\<close>; \<open>seen\<close> are the addresses whose refused tokens were recorded lately.\<close>

record mcp_post =
  mp_header :: "string option"
  mp_address :: "string option"
  mp_agent :: "string option"
  mp_message :: "json option"

definition mcp_serve :: "('n, 'c, 'k) web_env \<Rightarrow> mcp_env \<Rightarrow> web_config \<Rightarrow> mcp_post \<Rightarrow> (string \<times> time) list \<times> web
    \<Rightarrow> mcp_answer \<times> (string \<times> time) list \<times> web" where
  "mcp_serve V M started p st = (case st of (seen, s) \<Rightarrow>
     if \<not> transport_is_safe started then (NeedsHttps, seen, s)
     else (case mcp_authenticate V (mp_header p) (ap_users s) of
         (None, db) \<Rightarrow> (case mcp_rejected (we_time V) (mp_header p) (mp_address p) seen of
             (es, seen1) \<Rightarrow> (NoToken, seen1, submit_all V es (s\<lparr>ap_users := db\<rparr>)))
       | (Some t, db) \<Rightarrow>
           (let s1 = s\<lparr>ap_users := db\<rparr> in
            if \<not> m_enabled (c_mcp (mg_config (ap_manager s1))) then (TurnedOff, seen, s1)
            else (case mp_message p of
                None \<Rightarrow> (ParseFailed, seen, s1)
              | Some (JArray _) \<Rightarrow> (NoBatches, seen, s1)
              | Some m \<Rightarrow> (case mcp_handle V M (make_caller t (mp_address p) (mp_agent p)) m s1 of (a, s2) \<Rightarrow> (a, seen, s2))))))"

end
