(* ===== verification/Mcp_Safety.thy ===== *)
theory Mcp_Safety
  imports Mcp_Tools Web_Safety
begin

text \<open>
  What the MCP endpoint promises (src/web/mcp.rs): only a token made for it changes anything, no tool runs
  unrecorded in fail-closed mode, and the guards on the audit settings, with the argument they let through.
\<close>

section \<open>What no MCP request touches\<close>

definition settled_part :: "web \<Rightarrow> user_db \<times> web_config \<times> mcp_config" where
  "settled_part s = (ap_users s, c_web (mg_config (ap_manager s)), c_mcp (mg_config (ap_manager s)))"

abbreviation audit_part :: "web \<Rightarrow> audit_section" where
  "audit_part s \<equiv> c_audit (mg_config (ap_manager s))"

definition untouched :: "web \<Rightarrow> web \<Rightarrow> bool" where
  "untouched s s' \<longleftrightarrow> settled_part s' = settled_part s \<and> audit_part s' = audit_part s"

lemma untouched_refl [simp]: "untouched s s"
  by (simp add: untouched_def)

lemma untouched_trans: "untouched s t \<Longrightarrow> untouched t v \<Longrightarrow> untouched s v"
  by (simp add: untouched_def)

lemma keeps_untouched: "keeps s t \<Longrightarrow> untouched s t"
  by (simp add: keeps_def config_part_def untouched_def settled_part_def)

lemma manager_untouched:
  "c_web (mg_config m) = c_web (mg_config (ap_manager s)) \<Longrightarrow> c_mcp (mg_config m) = c_mcp (mg_config (ap_manager s)) \<Longrightarrow>
   c_audit (mg_config m) = c_audit (mg_config (ap_manager s)) \<Longrightarrow> untouched s (s\<lparr>ap_manager := m\<rparr>)"
  by (simp add: untouched_def settled_part_def)

lemma config_changed_untouched [simp]: "untouched s (config_changed V u t s1) \<longleftrightarrow> untouched s s1"
  by (simp add: config_changed_def untouched_def settled_part_def)

lemma end_sessions_untouched [simp]: "untouched s (end_sessions V close s1) \<longleftrightarrow> untouched s s1"
  using keeps_untouched [OF end_sessions_keeps, of s1 V close] by (simp add: untouched_def)

lemma check_trust_untouched [simp]: "untouched s (web_check_trust V n s1) \<longleftrightarrow> untouched s s1"
  using keeps_untouched [OF check_trust_keeps, of s1 V n] by (simp add: untouched_def)

lemma manager_steps [simp]:
  "mg_config (drop_status n m) = mg_config m" "mg_config (stop_target n m) = mg_config m" "mg_config (run_target t m) = mg_config m"
  by (simp_all add: drop_status_def stop_target_def run_target_def)

definition same_sections :: "manager \<Rightarrow> manager \<Rightarrow> bool" where
  "same_sections m m' \<longleftrightarrow> c_web (mg_config m') = c_web (mg_config m) \<and> c_mcp (mg_config m') = c_mcp (mg_config m) \<and>
     c_audit (mg_config m') = c_audit (mg_config m)"

lemma target_sections:
  "same_sections m (snd (upsert P A E t r m))" "same_sections m (snd (remove_target A E n m))"
  "same_sections m (snd (update_summarise P A E n change m))"
  by (auto simp: same_sections_def upsert_def upserted_def remove_target_def update_summarise_def Let_def
      split: sum.splits option.splits if_splits)

lemma targets_untouched: "same_sections (ap_manager s) m \<Longrightarrow> untouched s (s\<lparr>ap_manager := m\<rparr>)"
  by (rule manager_untouched) (simp_all add: same_sections_def)

lemma change_groups_untouched [simp]: "untouched s (snd (change_groups V u n change text reply s))"
proof -
  obtain r m where u: "update_summarise (we_node V) (we_addr V) (we_out V) n change (ap_manager s) = (r, m)" by fastforce
  have "same_sections (ap_manager s) m"
    using target_sections(3) [where P = "we_node V" and A = "we_addr V" and E = "we_out V" and n = n and change = change and m = "ap_manager s"]
    by (simp add: u)
  then show ?thesis using targets_untouched [of s m] by (simp add: change_groups_def u split: sum.split option.split)
qed

lemma target_requests_untouched [simp]:
  "untouched s (snd (create_target V u t s))" "untouched s (snd (update_target V u n t s))" "untouched s (snd (delete_target V u n s))"
  "untouched s (snd (discover_target V u n s))" "untouched s (snd (discover_url V u url s))"
proof -
  have up: "untouched s (s\<lparr>ap_manager := snd (upsert P A E t r (ap_manager s))\<rparr>)" for P :: "string \<Rightarrow> 'a option" and A E t r
    by (rule targets_untouched) (rule target_sections)
  show "untouched s (snd (create_target V u t s))"
  proof (cases "upsert (we_node V) (we_addr V) (we_out V) (t\<lparr>t_summarise := migrate_ignore (t_ignore t) (t_summarise t), t_ignore := []\<rparr>) None (ap_manager s)")
    case (Pair r m)
    with up [of "we_node V" "we_addr V" "we_out V" "t\<lparr>t_summarise := migrate_ignore (t_ignore t) (t_summarise t), t_ignore := []\<rparr>" None]
    show ?thesis by (simp add: create_target_def Let_def split: sum.split)
  qed
  show "untouched s (snd (update_target V u n t s))"
  proof (cases "find_target n s")
    case (Some old)
    show ?thesis
    proof (cases "upsert (we_node V) (we_addr V) (we_out V) (t\<lparr>t_summarise := t_summarise old, t_ignore := []\<rparr>) (Some n) (ap_manager s)")
      case (Pair r m)
      with up [of "we_node V" "we_addr V" "we_out V" "t\<lparr>t_summarise := t_summarise old, t_ignore := []\<rparr>" "Some n"] Some
      show ?thesis by (simp add: update_target_def Let_def split: sum.split)
    qed
  qed (simp add: update_target_def)
  show "untouched s (snd (delete_target V u n s))"
  proof (cases "remove_target (we_addr V) (we_out V) n (ap_manager s)")
    case (Pair r m)
    have "same_sections (ap_manager s) m"
      using target_sections(2) [where A = "we_addr V" and E = "we_out V" and n = n and m = "ap_manager s"] by (simp add: Pair)
    then show ?thesis using targets_untouched [of s m] by (simp add: delete_target_def Pair split: sum.split)
  qed
  have "keeps s (web_check_trust V n (submit_all V es (s\<lparr>ap_manager := (ap_manager s)\<lparr>mg_statuses := st\<rparr>\<rparr>)))" for es st
    by (rule keeps_trans [OF keeps_trans [OF statuses_keeps submit_all_keeps] check_trust_keeps])
  then have "keeps s (snd (discover_target V u n s))"
    by (simp add: discover_target_def Let_def split: option.split prod.split)
  then show "untouched s (snd (discover_target V u n s))" by (rule keeps_untouched)
  have "keeps s (snd (discover_url V u url s))"
    by (simp add: discover_url_def Let_def split: sum.split)
  then show "untouched s (snd (discover_url V u url s))" by (rule keeps_untouched)
qed

lemma pki_untouched [simp]: "untouched s (s\<lparr>ap_pki := p\<rparr>)" "untouched s (s\<lparr>ap_files := f\<rparr>)"
  by (simp_all add: untouched_def settled_part_def)

lemma certificate_requests_untouched [simp]:
  "untouched s (snd (trust_server V u n thumb s))" "untouched s (snd (web_trust_rejected V u thumb s))"
  "untouched s (snd (web_delete_rejected V u thumb s))" "untouched s (snd (web_untrust V u thumb s))"
  by (simp_all add: trust_server_def web_trust_rejected_def web_delete_rejected_def web_untrust_def split: option.split sum.split prod.split)

lemma group_requests_untouched [simp]:
  "untouched s (snd (create_group V u n g s))" "untouched s (snd (rename_group V u n i c l s))"
  "untouched s (snd (delete_group V u n i c s))" "untouched s (snd (add_nodes V u n i c ns s))"
  "untouched s (snd (remove_nodes V u n i c ids s))"
  by (simp_all add: create_group_def rename_group_def delete_group_def add_nodes_def remove_nodes_def)

lemma settings_untouched:
  assumes "update_settings P E change (ap_manager s) = (r, m)"
    and "\<And>c. c_web (change c) = c_web c \<and> c_mcp (change c) = c_mcp c \<and> c_audit (change c) = c_audit c"
  shows "untouched s (s\<lparr>ap_manager := m\<rparr>)"
proof (cases r)
  case (Inl e)
  with update_settings_result(1) [of P E change "ap_manager s" e m] assms(1) show ?thesis by simp
next
  case (Inr oc)
  obtain old c where "oc = (old, c)" by fastforce
  with update_settings_result(2) [of P E change "ap_manager s" old c m] assms Inr show ?thesis by (intro manager_untouched) auto
qed

lemma put_gateway_untouched [simp]: "untouched s (snd (put_gateway V u ns s))"
proof (cases "host_names [] ns")
  case (Inr hs)
  obtain r m where u: "update_settings (we_node V) (we_out V) (\<lambda>c. c\<lparr>c_gateway := (c_gateway c)\<lparr>gw_certificate_hostnames := hs\<rparr>\<rparr>) (ap_manager s) = (r, m)"
    by fastforce
  have "untouched s (s\<lparr>ap_manager := m\<rparr>)" by (rule settings_untouched [OF u]) simp
  then show ?thesis by (simp add: put_gateway_def Inr u split: sum.split)
qed (simp add: put_gateway_def)

lemma apply_export_untouched: "untouched s (snd (apply_export V u current q s))"
proof -
  define moves where "moves = (case q of Some q \<Rightarrow> q_ca_file q \<noteq> None | None \<Rightarrow> False)"
  define x where "x = \<lparr>x_questdb = map_option (\<lambda>q. q\<lparr>q_ca_file := map_option (\<lambda>_. managed_ca V current) (q_ca_file q)\<rparr>) q, x_syslog = False\<rparr>"
  obtain r m where u: "update_settings (we_node V) (we_out V) (\<lambda>c. c\<lparr>c_export := x\<rparr>) (ap_manager s) = (r, m)" by fastforce
  have "untouched s (s\<lparr>ap_manager := m\<rparr>)" by (rule settings_untouched [OF u]) simp
  then have m: "c_web (mg_config m) = c_web (mg_config (ap_manager s))" "c_mcp (mg_config m) = c_mcp (mg_config (ap_manager s))"
    "c_audit (mg_config m) = c_audit (mg_config (ap_manager s))" by (simp_all add: untouched_def settled_part_def)
  show ?thesis
    by (cases moves; cases r)
      (simp_all add: apply_export_def Let_def moves_def [symmetric] x_def [symmetric] u untouched_def settled_part_def m config_changed_def
        split: option.split prod.split)
qed

lemma put_export_untouched [simp]: "untouched s (snd (put_export V u q s))"
proof -
  have "untouched s (snd (apply_export V u c x (s\<lparr>ap_files := f\<rparr>)))" for c x f
    by (rule untouched_trans [OF pki_untouched(2) apply_export_untouched])
  then show ?thesis by (simp add: put_export_def Let_def apply_export_untouched split: option.split)
qed

text \<open>The requests a tool can make.\<close>

fun tool_made :: "web_request \<Rightarrow> bool" where
  "tool_made (ImportOwn _ _) = False"
| "tool_made RegenerateOwn = False"
| "tool_made RegenerateWeb = False"
| "tool_made (CreateUser _ _ _) = False"
| "tool_made (UpdateUser _ _ _) = False"
| "tool_made (DeleteUser _) = False"
| "tool_made (RevokeToken _ _) = False"
| "tool_made (CreateToken _ _) = False"
| "tool_made (DeleteToken _) = False"
| "tool_made (PutAudit _) = False"
| "tool_made (PutMcp _) = False"
| "tool_made _ = True"

lemma handle_untouched: "tool_made ask \<Longrightarrow> untouched s (snd (handle_request V u ask s))"
  by (cases ask) (simp_all add: keeps_untouched)

lemma put_audit_result:
  assumes "put_audit V u new s = (res, s')"
  shows "settled_part s' = settled_part s \<and> (audit_part s' = audit_part s \<or> audit_part s' = new\<lparr>a_database := a_database (audit_part s)\<rparr>)"
proof -
  obtain r m where u: "update_settings (we_node V) (we_out V) (\<lambda>c. c\<lparr>c_audit := new\<lparr>a_database := a_database (c_audit c)\<rparr>\<rparr>) (ap_manager s) = (r, m)"
    by fastforce
  show ?thesis
  proof (cases r)
    case (Inl e)
    with update_settings_result(1) [OF u [unfolded Inl]] assms u show ?thesis by (auto simp: put_audit_def split: if_splits)
  next
    case (Inr oc)
    obtain old c where oc: "oc = (old, c)" by fastforce
    with update_settings_result(2) [OF u [unfolded Inr oc]] assms u Inr show ?thesis
      by (auto simp: put_audit_def Let_def settled_part_def config_changed_def split: if_splits)
  qed
qed

lemma tool_request_made:
  assumes "tool_request V tool args s = Inr ask"
  shows "tool_made ask \<or> (\<exists>a. ask = PutAudit a \<and> audit_change args (audit_part s) = Inr a)"
  using assms
  by (auto simp: tool_request_def group_request_def Let_def map_sum_def split: if_splits sum.splits option.splits json.splits prod.splits)

section \<open>The audit settings\<close>

text \<open>Kept at least as long; 0 keeps records forever.\<close>

definition kept_longer :: "nat \<Rightarrow> nat \<Rightarrow> bool" where
  "kept_longer m n \<longleftrightarrow> n = m \<or> n = 0 \<or> m \<noteq> 0 \<and> m \<le> n"

lemma kept_longer_refl [simp]: "kept_longer m m"
  by (simp add: kept_longer_def)

lemma kept_longer_trans: "kept_longer k m \<Longrightarrow> kept_longer m n \<Longrightarrow> kept_longer k n"
  by (auto simp: kept_longer_def)

lemma map_of_js_set [simp]: "map_of (js_set k v kvs) = (map_of kvs)(k \<mapsto> v)"
proof (cases "k \<in> fst ` set kvs")
  case True
  have "map_of (map (\<lambda>(j, w). if j = k then (j, v) else (j, w)) xs) = (\<lambda>j. if j = k \<and> k \<in> fst ` set xs then Some v else map_of xs j)" for xs
    by (induction xs) auto
  with True show ?thesis by (auto simp: js_set_def)
next
  case False
  then have "map_of kvs k = None" by (simp add: map_of_eq_None_iff)
  with False show ?thesis by (auto simp: js_set_def map_add_def fun_eq_iff split: option.splits)
qed

lemma map_of_overlay:
  assumes "distinct (map fst kvs)"
  shows "map_of (overlay base (JObject kvs) []) = map_of base ++ map_of kvs"
proof -
  have "map_of (fold (\<lambda>(k, v) b. if k \<in> set ([]::string list) then b else js_set k v b) kvs base) = map_of base ++ map_of kvs"
    using assms
  proof (induction kvs arbitrary: base)
    case (Cons kv kvs)
    obtain k v where "kv = (k, v)" by fastforce
    with Cons show ?case
      by (auto simp: fun_eq_iff map_add_def map_of_eq_None_iff image_iff dest: map_of_SomeD split: option.splits)
  qed simp
  then show ?thesis by (simp add: overlay_def)
qed

lemma audit_json_values [simp]:
  "map_of (audit_json a) ''retention_days'' = Some (JInt (int (retention_days a)))"
  "map_of (audit_json a) ''fail_mode'' = Some (JString (mode_text (fail_mode a)))"
  by (simp_all add: audit_json_def)

lemma js_audit_values:
  assumes "js_audit kvs = Some b"
  shows "js_nat 32 365 (map_of kvs ''retention_days'') = Some (retention_days b)" and "js_fail_mode (map_of kvs ''fail_mode'') = Some (fail_mode b)"
  using assms by (auto simp: js_audit_def split: if_splits option.splits)

abbreviation object_open :: json where
  "object_open \<equiv> JObject [(''open'', JNull)]"

lemma audit_change_result:
  assumes "audit_change (JObject kvs) a = Inr b" and "distinct (map fst kvs)"
  shows "kept_longer (retention_days a) (retention_days b)"
    and "fail_mode a = FailClosed \<Longrightarrow> map_of kvs ''fail_mode'' \<noteq> Some object_open \<Longrightarrow> fail_mode b = FailClosed"
proof -
  have js: "js_audit (overlay (audit_json a) (JObject kvs) []) = Some b"
    and days: "\<And>d. js_u64 (map_of kvs ''retention_days'') = Some d \<Longrightarrow> d = 0 \<or> retention_days a \<noteq> 0 \<and> retention_days a \<le> d"
    and opens: "fail_mode a = FailClosed \<Longrightarrow> map_of kvs ''fail_mode'' \<noteq> Some (JString ''open'')"
    using assms(1) by (auto simp: audit_change_def json_field_def split: if_splits option.splits)
  note b = js_audit_values [OF js, unfolded map_of_overlay [OF assms(2)]]
  show "kept_longer (retention_days a) (retention_days b)"
  proof (cases "map_of kvs ''retention_days''")
    case None
    then show ?thesis using b(1) by (auto simp: map_add_def js_nat_def split: if_splits)
  next
    case (Some v)
    then obtain n where n: "v = JInt n" "0 \<le> n" "n < 2 ^ 32" "retention_days b = nat n"
      using b(1) by (auto simp: map_add_def js_nat_def split: json.splits if_splits)
    then have "js_u64 (map_of kvs ''retention_days'') = Some (nat n)" using Some by (simp add: js_u64_def)
    then show ?thesis using days n(4) by (auto simp: kept_longer_def)
  qed
  show "fail_mode b = FailClosed" if f: "fail_mode a = FailClosed" and o: "map_of kvs ''fail_mode'' \<noteq> Some object_open"
  proof (cases "map_of kvs ''fail_mode''")
    case None
    then show ?thesis using b(2) f by (simp add: map_add_def js_fail_mode_def js_variant_def mode_text_def)
  next
    case (Some v)
    then have "js_fail_mode (Some v) = Some (fail_mode b)" using b(2) by (simp add: map_add_def)
    moreover have "v \<noteq> JString ''open''" "v \<noteq> object_open" using opens [OF f] o Some by auto
    ultimately show ?thesis
      by (auto simp: js_fail_mode_def js_variant_def split: option.splits json.splits list.splits prod.splits if_splits)
  qed
qed

text \<open>The audit settings after a step: no weaker, unless fail-closed was switched off by the object form
  of its value.\<close>

definition no_weaker :: "audit_section \<Rightarrow> audit_section \<Rightarrow> bool" where
  "no_weaker a b \<longleftrightarrow> kept_longer (retention_days a) (retention_days b) \<and> (fail_mode a = FailClosed \<longrightarrow> fail_mode b = FailClosed)"

lemma no_weaker_refl [simp]: "no_weaker a a"
  by (simp add: no_weaker_def)

lemma no_weaker_trans: "no_weaker a b \<Longrightarrow> no_weaker b c \<Longrightarrow> no_weaker a c"
  by (auto simp: no_weaker_def intro: kept_longer_trans)

definition arguments_ok :: "json \<Rightarrow> bool" where
  "arguments_ok args \<longleftrightarrow> (case args of JObject kvs \<Rightarrow> distinct (map fst kvs) \<and> map_of kvs ''fail_mode'' \<noteq> Some object_open | _ \<Rightarrow> True)"

definition not_weakened :: "web \<Rightarrow> web \<Rightarrow> bool" where
  "not_weakened s s' \<longleftrightarrow> settled_part s' = settled_part s \<and> no_weaker (audit_part s) (audit_part s')"

lemma untouched_not_weakened: "untouched s s' \<Longrightarrow> not_weakened s s'"
  by (simp add: untouched_def not_weakened_def)

lemma not_weakened_trans: "not_weakened s t \<Longrightarrow> not_weakened t v \<Longrightarrow> not_weakened s v"
  by (auto simp: not_weakened_def intro: no_weaker_trans)

lemma acknowledge_tool_keeps: "keeps s (snd (acknowledge_tool V c args s))"
proof -
  have "keeps s s1" if "commit_entry V e s = (r, s1)" for e r s1
    using commit_entry_keeps [of s V e] that by simp
  then show ?thesis by (auto simp: acknowledge_tool_def split: prod.split sum.split option.split)
qed

lemma change_tool_not_weakened:
  assumes "arguments_ok (JObject kvs)"
  shows "not_weakened s (snd (change_tool V c tool (JObject kvs) s))"
proof (cases "tool = ''acknowledge_alarms''")
  case True
  then have "change_tool V c tool (JObject kvs) s = acknowledge_tool V c (JObject kvs) s" by (simp add: change_tool_def)
  then show ?thesis using untouched_not_weakened [OF keeps_untouched [OF acknowledge_tool_keeps]] by simp
next
  case False
  show ?thesis
  proof (cases "tool_request V tool (JObject kvs) s")
    case (Inr ask)
    obtain r s1 where h: "handle_request V (caller_user c) ask s = (r, s1)" by fastforce
    from tool_request_made [OF Inr] show ?thesis
    proof (elim disjE exE conjE)
      assume "tool_made ask"
      from handle_untouched [OF this, of s V "caller_user c"] False Inr h show ?thesis
        by (simp add: change_tool_def untouched_not_weakened)
    next
      fix a
      assume a: "ask = PutAudit a" "audit_change (JObject kvs) (audit_part s) = Inr a"
      have kvs: "distinct (map fst kvs)" "map_of kvs ''fail_mode'' \<noteq> Some object_open"
        using assms by (auto simp: arguments_ok_def)
      have "no_weaker (audit_part s) a"
        unfolding no_weaker_def using audit_change_result(1) [OF a(2) kvs(1)] audit_change_result(2) [OF a(2) kvs(1) _ kvs(2)] by blast
      moreover have "put_audit V (caller_user c) a s = (r, s1)" using h a(1) by simp
      note put_audit_result [OF this]
      ultimately have "not_weakened s s1" by (auto simp: not_weakened_def no_weaker_def)
      then show ?thesis using False Inr h by (simp add: change_tool_def)
    qed
  qed (simp add: change_tool_def False untouched_not_weakened)
qed

lemma call_tool_not_weakened:
  assumes "arguments_ok args"
  shows "not_weakened s (snd (call_tool V M c tool args s))"
proof (cases "map_of (tools_of c) tool")
  case (Some props)
  show ?thesis
  proof (cases args)
    case (JObject kvs)
    obtain r s1 where sub: "submit_entry V (call_entry V (js_show M) c tool args) s = (r, s1)" by fastforce
    have "untouched s s1" using keeps_untouched [OF commit_entry_keeps] submit_entry_state [of V "call_entry V (js_show M) c tool args" s] sub
      by (metis snd_conv)
    then have s1: "not_weakened s s1" by (rule untouched_not_weakened)
    have s2: "not_weakened s (snd (change_tool V c tool args s1))"
      using not_weakened_trans [OF s1 change_tool_not_weakened] assms JObject by simp
    show ?thesis
      using s1 s2 by (cases "change_tool V c tool args s1"; cases "read_tool V M tool args s1")
        (simp_all add: call_tool_def Let_def Some JObject sub [unfolded JObject] untouched_not_weakened split: sum.split)
  qed (simp_all add: call_tool_def Some untouched_not_weakened)
qed (simp add: call_tool_def untouched_not_weakened)

text \<open>A post changes of the users only that the use of its token is noted.\<close>

lemma mcp_serve_not_weakened:
  assumes "\<And>m. mp_message p = Some m \<Longrightarrow> arguments_ok (call_arguments m)"
    and "mcp_serve V M started p (seen, s) = (answer, seen', s')"
  shows "not_weakened s s' \<or> not_weakened (s\<lparr>ap_users := snd (mcp_authenticate V (mp_header p) (ap_users s))\<rparr>) s'"
proof (cases "transport_is_safe started")
  case True
  obtain t db where auth: "mcp_authenticate V (mp_header p) (ap_users s) = (t, db)" by fastforce
  let ?s1 = "s\<lparr>ap_users := db\<rparr>"
  have "not_weakened ?s1 s'"
  proof (cases t)
    case None
    obtain es seen1 where "mcp_rejected (we_time V) (mp_header p) (mp_address p) seen = (es, seen1)" by fastforce
    then have "s' = submit_all V es ?s1" using assms(2) True auth None by (simp add: mcp_serve_def)
    then show ?thesis using untouched_not_weakened [OF keeps_untouched [OF submit_all_keeps]] by simp
  next
    case (Some u)
    have h: "not_weakened ?s1 (snd (mcp_handle V M c m ?s1))" if "mp_message p = Some m" for c m
      using call_tool_not_weakened [OF assms(1) [OF that], of ?s1 V M c "called_tool m"]
      by (simp add: mcp_handle_def untouched_not_weakened split: option.split)
    show ?thesis
    proof (cases "s' = ?s1")
      case False
      then obtain m c where m: "mp_message p = Some m" and "mcp_handle V M c m ?s1 = (answer, s')"
        using assms(2) True auth Some by (auto simp: mcp_serve_def Let_def split: if_splits option.splits json.splits prod.splits)
      with h [OF m, of c] show ?thesis by simp
    qed (simp add: untouched_not_weakened)
  qed
  then show ?thesis by (simp add: auth)
qed (use assms(2) in \<open>auto simp: mcp_serve_def untouched_not_weakened\<close>)

text \<open>Posts one after another; the environment of each is its own.\<close>

fun mcp_run :: "mcp_env \<Rightarrow> web_config \<Rightarrow> (('n, 'c, 'k) web_env \<times> mcp_post) list \<Rightarrow> (string \<times> time) list \<times> web
    \<Rightarrow> (string \<times> time) list \<times> web" where
  "mcp_run M started [] st = st"
| "mcp_run M started ((V, p) # ps) st = mcp_run M started ps (snd (mcp_serve V M started p st))"

definition post_ok :: "mcp_post \<Rightarrow> bool" where
  "post_ok p \<longleftrightarrow> (case mp_message p of Some m \<Rightarrow> arguments_ok (call_arguments m) | None \<Rightarrow> True)"

lemma authenticate_users [simp]: "db_users (snd (mcp_authenticate V h db)) = db_users db"
  by (simp add: mcp_authenticate_def verify_token_def split: option.split sum.split prod.split)

text \<open>Checking a token notes when it was used; the users stay.\<close>

definition users_not_weakened :: "web \<Rightarrow> web \<Rightarrow> bool" where
  "users_not_weakened s s' \<longleftrightarrow> db_users (ap_users s') = db_users (ap_users s) \<and> c_web (mg_config (ap_manager s')) = c_web (mg_config (ap_manager s)) \<and>
     c_mcp (mg_config (ap_manager s')) = c_mcp (mg_config (ap_manager s)) \<and> no_weaker (audit_part s) (audit_part s')"

interpretation posts: progress "\<lambda>st (x :: ('n, 'c, 'k) web_env \<times> mcp_post). snd (mcp_serve (fst x) M started (snd x) st)" "\<lambda>x. post_ok (snd x)" "\<lambda>st. True"
  "\<lambda>a b. users_not_weakened (snd a) (snd b)" for M :: mcp_env and started :: web_config
proof unfold_locales
  fix st :: "(string \<times> time) list \<times> web" and x :: "('n, 'c, 'k) web_env \<times> mcp_post"
  assume p: "post_ok (snd x)"
  obtain seen s where st: "st = (seen, s)" by fastforce
  obtain answer seen1 s1 where step: "mcp_serve (fst x) M started (snd x) st = (answer, seen1, s1)" by (metis prod_cases3)
  have ok: "arguments_ok (call_arguments m)" if "mp_message (snd x) = Some m" for m
    using p that by (simp add: post_ok_def)
  from mcp_serve_not_weakened [OF ok step [unfolded st]] show "users_not_weakened (snd st) (snd (snd (mcp_serve (fst x) M started (snd x) st)))"
    by (auto simp: users_not_weakened_def not_weakened_def settled_part_def step [unfolded st] st)
qed (auto simp: users_not_weakened_def intro: no_weaker_trans)

lemma mcp_run_foldl: "mcp_run M started rqs st = foldl (\<lambda>st x. snd (mcp_serve (fst x) M started (snd x) st)) st rqs"
  by (induction M started rqs st rule: mcp_run.induct) simp_all

lemma mcp_run_not_weakened:
  assumes "\<forall>x \<in> set rqs. post_ok (snd x)"
  shows "users_not_weakened s (snd (mcp_run M started rqs (seen, s)))"
  using posts.fit_run_rel [of rqs "(seen, s)" M started] assms by (simp add: mcp_run_foldl list_all_iff)

text \<open>C21. Whatever an AI assistant posts, in any number of calls and whatever its token was made for: the
  users and their passwords, the web server's and the endpoint's own settings stay as they are, records
  are kept at least as long, and fail-closed mode stays on, unless a call gives the fail mode as an object.\<close>

theorem assistants_cannot_weaken_the_audit:
  assumes "\<forall>x \<in> set rqs. post_ok (snd x)"
  shows "let s' = snd (mcp_run M started rqs (seen, s)) in
    db_users (ap_users s') = db_users (ap_users s) \<and> c_web (mg_config (ap_manager s')) = c_web (mg_config (ap_manager s)) \<and>
    c_mcp (mg_config (ap_manager s')) = c_mcp (mg_config (ap_manager s)) \<and> no_weaker (audit_part s) (audit_part s')"
  using mcp_run_not_weakened [OF assms, of s M started seen] by (simp add: users_not_weakened_def Let_def)

text \<open>The object form is read as the same value, and the guard does not see it.\<close>

lemma fail_mode_validates:
  "validate_config P (c\<lparr>c_audit := (c_audit c)\<lparr>fail_mode := f\<rparr>\<rparr>) = None \<longleftrightarrow> validate_config P c = None"
  by (simp add: config_ok_iff config_ok_def)

lemma object_form_reads:
  assumes "retention_days a < 2 ^ 32" and "ignored_summary_secs a < 2 ^ 64"
  shows "js_audit (overlay (audit_json a) (JObject [(''fail_mode'', object_open)]) []) = Some (a\<lparr>fail_mode := FailOpen\<rparr>)"
  using assms
  by (cases a) (auto simp: overlay_def js_set_def audit_json_def js_audit_def js_nat_def js_bool_def js_opt_text_def js_fail_mode_def
      js_variant_def split: option.split)

lemma object_form_opens:
  assumes "fail_mode (audit_part s) = FailClosed" and "validate_config (we_node V) (mg_config (ap_manager s)) = None"
    and "retention_days (audit_part s) < 2 ^ 32" and "ignored_summary_secs (audit_part s) < 2 ^ 64"
    and "mg_file (ap_manager s) = Some root" and "can_write (we_out V)" and "require Admin (caller_user c)"
  shows "fail_mode (audit_part (snd (change_tool V c ''update_audit_settings'' (JObject [(''fail_mode'', object_open)]) s))) = FailOpen \<and>
    change_tool V c ''update_audit_settings'' (JObject [(''fail_mode'', JString ''open'')]) s = (Inl OpensFailMode, s)"
proof
  let ?a = "audit_part s" and ?args = "JObject [(''fail_mode'', object_open)]"
  have "audit_change ?args ?a = Inr (?a\<lparr>fail_mode := FailOpen\<rparr>)"
    using object_form_reads [OF assms(3,4)] by (simp add: audit_change_def json_field_def js_u64_def)
  then have ask: "tool_request V ''update_audit_settings'' ?args s = Inr (PutAudit (?a\<lparr>fail_mode := FailOpen\<rparr>))"
    by (simp add: tool_request_def)
  define c1 where "c1 = (mg_config (ap_manager s))\<lparr>c_audit := ?a\<lparr>fail_mode := FailOpen\<rparr>\<rparr>"
  have "validate_config (we_node V) c1 = None" using assms(2) by (simp add: c1_def fail_mode_validates)
  then have "update_settings (we_node V) (we_out V) (\<lambda>c. c\<lparr>c_audit := ?a\<lparr>fail_mode := FailOpen, a_database := a_database (c_audit c)\<rparr>\<rparr>) (ap_manager s) =
      (Inr (mg_config (ap_manager s), c1), (ap_manager s)\<lparr>mg_file := Some (write_settings c1 root), mg_config := c1\<rparr>)"
    using assms(5,6) by (simp add: update_settings_def save_def c1_def Let_def)
  then show "fail_mode (audit_part (snd (change_tool V c ''update_audit_settings'' ?args s))) = FailOpen"
    using ask assms(7) by (simp add: change_tool_def put_audit_def Let_def config_changed_def c1_def split: prod.split)
  show "change_tool V c ''update_audit_settings'' (JObject [(''fail_mode'', JString ''open'')]) s = (Inl OpensFailMode, s)"
    using assms(1) by (simp add: change_tool_def tool_request_def audit_change_def json_field_def js_u64_def)
qed

text \<open>The argument the guard does not see: an update of the audit settings with the fail mode given as
  an object named open switches fail-closed mode off, for every caller with the role for it, while the
  same update with the plain value is refused.\<close>

theorem object_form_switches_fail_closed_off:
  assumes "fail_mode (audit_part s) = FailClosed" and "validate_config (we_node V) (mg_config (ap_manager s)) = None"
    and "retention_days (audit_part s) < 2 ^ 32" and "ignored_summary_secs (audit_part s) < 2 ^ 64"
    and "mg_file (ap_manager s) = Some root" and "can_write (we_out V)" and "require Admin (caller_user c)"
  shows "fail_mode (audit_part (snd (change_tool V c ''update_audit_settings'' (JObject [(''fail_mode'', object_open)]) s))) = FailOpen \<and>
    change_tool V c ''update_audit_settings'' (JObject [(''fail_mode'', JString ''open'')]) s = (Inl OpensFailMode, s)"
  by (rule object_form_opens [OF assms])

section \<open>The trail only grows\<close>

lemma extends_same [simp]:
  "extends s (s1\<lparr>ap_manager := m\<rparr>) \<longleftrightarrow> extends s s1" "extends s (s1\<lparr>ap_pki := p\<rparr>) \<longleftrightarrow> extends s s1"
  "extends s (s1\<lparr>ap_users := db\<rparr>) \<longleftrightarrow> extends s s1" "extends s (s1\<lparr>ap_auth := w\<rparr>) \<longleftrightarrow> extends s s1"
  "extends s (s1\<lparr>ap_web_pair := o1\<rparr>) \<longleftrightarrow> extends s s1" "extends s (s1\<lparr>ap_files := fs\<rparr>) \<longleftrightarrow> extends s s1"
  "extends s (s1\<lparr>ap_exports := x\<rparr>) \<longleftrightarrow> extends s s1" "extends s (s1\<lparr>ap_settings := a\<rparr>) \<longleftrightarrow> extends s s1"
  by (simp_all add: extends_def)

lemma keeps_extends: "keeps s t \<Longrightarrow> extends s t"
  by (simp add: keeps_def)

lemma extends_after [simp]:
  "extends s s1 \<Longrightarrow> extends s (config_changed V u t s1)" "extends s s1 \<Longrightarrow> extends s (end_sessions V close s1)"
  "extends s s1 \<Longrightarrow> extends s (web_check_trust V n s1)"
  unfolding config_changed_def
  by (blast intro: extends_trans keeps_extends [OF end_sessions_keeps] keeps_extends [OF check_trust_keeps] commit_entry_extends)+

lemma change_groups_extends [simp]: "extends s (snd (change_groups V u n change text reply s))"
  by (simp add: change_groups_def split: sum.split option.split prod.split)

lemma export_extends [simp]: "extends s (snd (put_export V u q s))"
proof -
  have "extends s (snd (apply_export V u c x s1))" if "extends s s1" for c x s1
    using that by (cases "case x of Some q \<Rightarrow> q_ca_file q \<noteq> None | None \<Rightarrow> False")
      (simp_all add: apply_export_def Let_def split: sum.split option.split prod.split)
  then show ?thesis by (simp add: put_export_def Let_def split: option.split)
qed

lemma handle_extends: "extends s (snd (handle_request V u ask s))"
proof -
  note [split] = sum.split option.split prod.split
  have discover: "extends s (snd (discover_target V u n s))" "extends s (snd (discover_url V u url s))" for n url
    using discovery_traced(1) [of V u s n] discovery_traced(2) [of V u s url] by (simp_all add: traced_def)
  show ?thesis
    by (cases ask)
      (simp_all add: discover create_target_def update_target_def delete_target_def create_group_def rename_group_def delete_group_def add_nodes_def
        remove_nodes_def trust_server_def web_trust_rejected_def web_delete_rejected_def web_untrust_def web_import_own_def with_own_def
        web_regenerate_own_def regenerate_web_certificate_def web_create_user_def web_update_user_def web_delete_user_def web_revoke_token_def
        web_create_token_def web_delete_token_def put_audit_def put_gateway_def put_mcp_def keeps_extends Let_def)
qed

section \<open>Every call is recorded\<close>

lemma change_tool_extends: "extends s (snd (change_tool V c tool args s))"
proof -
  have "extends s (snd (handle_request V u ask s))" for u ask by (rule handle_extends)
  moreover have "extends s (snd (acknowledge_tool V c args s))" by (rule keeps_extends [OF acknowledge_tool_keeps])
  ultimately show ?thesis
    unfolding change_tool_def by (auto split: sum.split prod.split) (metis snd_conv)+
qed

lemma call_tool_runs:
  assumes "call_tool V M c tool args s = (a, s')" and "(\<exists>r. a = ToolDone r) \<or> (\<exists>e. a = ToolFailed e)"
  obtains s1 where "submit_entry V (call_entry V (js_show M) c tool args) s = (Inr (), s1)" and "extends s1 s'"
    and "\<not> is_change_tool tool \<longrightarrow> s' = s1"
    and "is_change_tool tool \<longrightarrow> (\<exists>r. change_tool V c tool args s1 = (r, s') \<and> a = (case r of Inl e \<Rightarrow> ToolFailed e | Inr v \<Rightarrow> ToolDone v))"
    and "\<exists>props. map_of (tools_of c) tool = Some props"
proof -
  obtain props kvs where props: "map_of (tools_of c) tool = Some props" "args = JObject kvs"
    using assms by (auto simp: call_tool_def split: option.splits json.splits)
  obtain s1 where sub: "submit_entry V (call_entry V (js_show M) c tool args) s = (Inr (), s1)"
    using assms props by (auto simp: call_tool_def Let_def split: if_splits prod.splits sum.splits)
  have run: "(a, s') = (if is_change_tool tool
      then (case change_tool V c tool args s1 of (Inl e, s2) \<Rightarrow> (ToolFailed e, s2) | (Inr r, s2) \<Rightarrow> (ToolDone r, s2))
      else (case read_tool V M tool args s1 of Inl e \<Rightarrow> (ToolFailed e, s1) | Inr r \<Rightarrow> (ToolDone r, s1)))"
    using assms props sub by (auto simp: call_tool_def Let_def split: if_splits)
  obtain r s2 where ch: "change_tool V c tool args s1 = (r, s2)" by fastforce
  show thesis
  proof (rule that [OF sub])
    show "extends s1 s'" using run ch change_tool_extends [of s1 V c tool args] by (auto split: if_splits sum.splits)
    show "\<not> is_change_tool tool \<longrightarrow> s' = s1" using run by (auto split: sum.splits)
    show "is_change_tool tool \<longrightarrow> (\<exists>r. change_tool V c tool args s1 = (r, s') \<and> a = (case r of Inl e \<Rightarrow> ToolFailed e | Inr v \<Rightarrow> ToolDone v))"
      using run ch by (auto split: sum.splits)
  qed (use props in blast)
qed

lemma submit_recorded:
  assumes "submit_entry V e s = (Inr (), s1)" and "table_wf (ap_store s)" and "settings_fail_mode (ap_settings s) = FailClosed"
  shows "\<exists>row. trail s1 = trail s @ [row] \<and> r_kind row = kind (e_event e) \<and> body row = to_json (we_codec V) e \<and> table_wf (ap_store s1)"
proof -
  have "we_stores V e"
  proof (rule ccontr)
    assume "\<not> we_stores V e"
    then show False using assms(1,3) by (simp add: submit_entry_def commit_entry_def append_def)
  qed
  from commit_entry_stored [OF assms(2) this] commit_entry_extends [of s V e] assms(1,2) submit_entry_state [of V e s]
  show ?thesis by (auto simp: extends_def)
qed

text \<open>C23. No tool runs unrecorded in fail-closed mode: when a call was carried out, whether it succeeded or
  failed, the first record added is the record of this call, with the tool, its arguments without
  secrets, and the user and the token it was made with.\<close>

theorem no_tool_runs_unrecorded:
  assumes "call_tool V M c tool args s = (a, s')" and "(\<exists>r. a = ToolDone r) \<or> (\<exists>e. a = ToolFailed e)"
    and "table_wf (ap_store s)" and "settings_fail_mode (ap_settings s) = FailClosed"
  shows "\<exists>row rows. trail s' = trail s @ row # rows \<and> r_kind row = ''mcp_query'' \<and>
    body row = to_json (we_codec V) (call_entry V (js_show M) c tool args)"
proof -
  obtain s1 where s1: "submit_entry V (call_entry V (js_show M) c tool args) s = (Inr (), s1)" "extends s1 s'"
    by (rule call_tool_runs [OF assms(1,2)])
  from submit_recorded [OF s1(1) assms(3,4)] obtain row where
    "trail s1 = trail s @ [row]" "r_kind row = ''mcp_query''" "body row = to_json (we_codec V) (call_entry V (js_show M) c tool args)"
    "table_wf (ap_store s1)" by (auto simp: call_entry_def)
  with s1(2) show ?thesis by (auto simp: extends_def)
qed

section \<open>Who changes anything\<close>

definition gateway_part :: "web \<Rightarrow> config \<times> (dir \<times> dir) \<times> (string option \<times> string option) \<times> own_pair" where
  "gateway_part s = (mg_config (ap_manager s), (pk_trusted (ap_pki s), pk_rejected (ap_pki s)),
     (ow_cert (pk_own (ap_pki s)), ow_key (pk_own (ap_pki s))), ap_web_pair s)"

lemma gateway_of_config: "config_part s' = config_part s \<Longrightarrow> gateway_part s' = gateway_part s"
  by (simp add: config_part_def gateway_part_def)

lemma gateway_users [simp]: "gateway_part (s\<lparr>ap_users := db\<rparr>) = gateway_part s"
  by (simp add: gateway_part_def)

lemma traced_after:
  assumes "keeps s t" and "traced V u t v"
  shows "traced V u s v"
proof -
  have "logged V u s v" if "table_wf (ap_store s)" "logged V u t v"
  proof -
    from that(1) assms(1) obtain rows where "trail t = trail s @ rows" by (auto simp: keeps_def extends_def)
    then have "set (drop (length (trail t)) (trail v)) \<subseteq> set (drop (length (trail s)) (trail v))"
      by (intro set_drop_subset_set_drop) simp
    with that(2) show ?thesis unfolding logged_def by blast
  qed
  moreover have "extends s v" using assms by (auto simp: keeps_def traced_def intro: extends_trans)
  moreover have "table_wf (ap_store t)" if "table_wf (ap_store s)" using that assms(1) by (auto simp: keeps_def extends_def)
  ultimately show ?thesis using assms by (auto simp: traced_def keeps_def)
qed

lemma change_tool_scope:
  assumes "map_of (tools_of c) tool = Some props" and "is_change_tool tool"
  shows "\<exists>scope. (scope, tool, props) \<in> set change_tools \<and> scope \<in> set (ca_changes c)"
proof -
  have "tool \<notin> fst ` set read_tools"
    using assms(2) by (auto simp: is_change_tool_def change_tools_def read_tools_def)
  then have "map_of read_tools tool = None" by (simp add: map_of_eq_None_iff)
  then have "map_of (map snd (filter (\<lambda>(scope, _). scope \<in> set (ca_changes c)) change_tools)) tool = Some props"
    using assms(1) by (simp add: tools_of_def map_add_def split: option.splits)
  then show ?thesis by (force dest: map_of_SomeD)
qed

lemma call_tool_not_run:
  assumes "call_tool V M c tool args s = (a, s')" and "\<not> ((\<exists>r. a = ToolDone r) \<or> (\<exists>e. a = ToolFailed e))"
  shows "keeps s s'"
proof (cases "map_of (tools_of c) tool")
  case (Some props)
  show ?thesis
  proof (cases args)
    case (JObject kvs)
    obtain r s1 where sub: "submit_entry V (call_entry V (js_show M) c tool (JObject kvs)) s = (r, s1)" by fastforce
    have "keeps s s1"
      using commit_entry_keeps [of s V "call_entry V (js_show M) c tool (JObject kvs)"]
        submit_entry_state [of V "call_entry V (js_show M) c tool (JObject kvs)" s] sub by simp
    moreover have "s' = s \<or> s' = s1"
    proof (cases "filter (\<lambda>k. k \<notin> set props) (map fst kvs) = []")
      case True
      show ?thesis
      proof (cases r)
        case (Inl e)
        with assms(1) True show ?thesis by (simp add: call_tool_def Some JObject sub)
      next
        case (Inr w)
        obtain x s2 where ch: "change_tool V c tool (JObject kvs) s1 = (x, s2)" by fastforce
        have "(a, s') = (if is_change_tool tool then (case x of Inl e \<Rightarrow> ToolFailed e | Inr v \<Rightarrow> ToolDone v, s2)
            else (case read_tool V M tool (JObject kvs) s1 of Inl e \<Rightarrow> ToolFailed e | Inr v \<Rightarrow> ToolDone v, s1))"
          using assms(1) True
          by (cases "is_change_tool tool"; cases x; cases "read_tool V M tool (JObject kvs) s1")
            (simp_all add: call_tool_def Some JObject sub Inr ch)
        then have "(\<exists>r. a = ToolDone r) \<or> (\<exists>e. a = ToolFailed e)"
          by (cases x; cases "read_tool V M tool (JObject kvs) s1") (simp_all split: if_split_asm)
        with assms(2) show ?thesis by contradiction
      qed
    next
      case False
      then show ?thesis using assms(1) by (simp add: call_tool_def Some JObject Let_def split: if_split_asm)
    qed
    ultimately show ?thesis by auto
  qed (use assms in \<open>simp_all add: call_tool_def Some\<close>)
qed (use assms in \<open>simp add: call_tool_def\<close>)

lemma call_tool_traced:
  assumes "call_tool V M c tool args s = (a, s')" and "gateway_part s' \<noteq> gateway_part s" and "table_wf (ap_store s)"
    and "\<forall>t. we_stores V (change_entry V (caller_user c) t)" and "validate_config (we_node V) (mg_config (ap_manager s)) = None"
    and "\<not> x_syslog (c_export (mg_config (ap_manager s)))" and "a \<noteq> ToolFailed (ApiFailed BadExport)"
  shows "logged V (caller_user c) s s' \<and> (\<exists>scope props. (scope, tool, props) \<in> set change_tools \<and> scope \<in> set (ca_changes c))"
proof -
  let ?e = "call_entry V (js_show M) c tool args"
  have kept: "keeps s s1" if "submit_entry V ?e s = (r, s1)" for r s1
    using commit_entry_keeps [of s V ?e] submit_entry_state [of V ?e s] that by simp
  have same: "gateway_part s1 = gateway_part s" if "keeps s s1" for s1
    by (rule gateway_of_config) (use that in \<open>simp add: keeps_def\<close>)
  have "(\<exists>r. a = ToolDone r) \<or> (\<exists>e. a = ToolFailed e)"
    using call_tool_not_run [OF assms(1)] assms(2) same by blast
  then obtain s1 where s1: "submit_entry V ?e s = (Inr (), s1)" "extends s1 s'" "\<not> is_change_tool tool \<longrightarrow> s' = s1"
    "is_change_tool tool \<longrightarrow> (\<exists>r. change_tool V c tool args s1 = (r, s') \<and> a = (case r of Inl e \<Rightarrow> ToolFailed e | Inr v \<Rightarrow> ToolDone v))"
    "\<exists>props. map_of (tools_of c) tool = Some props"
    by (rule call_tool_runs [OF assms(1)])
  then obtain props where props: "map_of (tools_of c) tool = Some props" by blast
  note k = kept [OF s1(1)]
  have "is_change_tool tool" using s1(3) same [OF k] assms(2) by blast
  then obtain r where r: "change_tool V c tool args s1 = (r, s')" "a = (case r of Inl e \<Rightarrow> ToolFailed e | Inr v \<Rightarrow> ToolDone v)"
    using s1(4) by blast
  have "traced V (caller_user c) s1 s'"
  proof (cases "tool = ''acknowledge_alarms''")
    case True
    then have "s' = snd (acknowledge_tool V c args s1)" using r(1) by (simp add: change_tool_def)
    then show ?thesis using keeps_traced [OF acknowledge_tool_keeps] by simp
  next
    case False
    show ?thesis
    proof (cases "tool_request V tool args s1")
      case (Inr ask)
      obtain x s2 where h: "handle_request V (caller_user c) ask s1 = (x, s2)" by fastforce
      with r False Inr have "s2 = s'" "x \<noteq> Inl BadExport" using assms(7) by (auto simp: change_tool_def split: sum.splits)
      moreover have "mg_config (ap_manager s1) = mg_config (ap_manager s)" using k by (simp add: keeps_def config_part_def)
      ultimately show ?thesis using handle_traced [OF assms(4), of s1 ask] assms(5,6) h by simp
    qed (use r False in \<open>simp add: change_tool_def keeps_traced\<close>)
  qed
  from traced_after [OF k this] have "logged V (caller_user c) s s'"
    using assms(2,3) gateway_of_config [of s' s] by (auto simp: traced_def)
  with change_tool_scope [OF props \<open>is_change_tool tool\<close>] show ?thesis by blast
qed

lemma mcp_authenticate_ok:
  assumes "mcp_authenticate V header db = (Some t, db1)"
  shows "\<exists>h k st. bearer header = Some h \<and> k \<in> set (db_tokens db) \<and> constant_time_eq (ak_hash k) (token_hash (we_hash V) (trim h)) \<and>
    state_of (ak_user k) db = Inr (Some st) \<and> \<not> ss_must st \<and> Auditor \<le> ss_role st \<and>
    t = \<lparr>tu_name = ak_user k, tu_token = token_part (trim h), tu_role = ss_role st, tu_scopes = split_scopes (ak_scopes k)\<rparr>"
proof -
  obtain h where h: "bearer header = Some h" using assms by (auto simp: mcp_authenticate_def split: option.splits)
  obtain u xs where v: "verify_token (we_hash V) (we_now V) (trim h) db = (Some (u, xs), db1)"
    using assms h by (auto simp: mcp_authenticate_def split: option.splits prod.splits sum.splits if_splits)
  then obtain k where k: "k \<in> set (db_tokens db)" "constant_time_eq (ak_hash k) (token_hash (we_hash V) (trim h))"
    "u = ak_user k" "xs = split_scopes (ak_scopes k)" "db_users db1 = db_users db"
    by (auto simp: verify_token_def dest: find_Some_in split: option.splits if_splits)
  have "state_of u db1 = state_of u db" using k(5) by (simp add: state_of_def find_user_def)
  with assms h v k show ?thesis
    by (auto simp: mcp_authenticate_def not_less split: sum.splits option.splits if_splits)
qed


section \<open>An example\<close>

text \<open>The gateway of the administrator ann with MCP turned on and her token for the settings; the assistant
  asks for records to be kept 400 days.\<close>

definition desk_mcp :: mcp_env where
  "desk_mcp = \<lparr>js_show = (\<lambda>_. ''{}''), js_time = (\<lambda>_. None), js_most_written = (\<lambda>_ _. [])\<rparr>"

definition settings_token :: token_row where
  "settings_token = \<lparr>ak_id = ''t1'', ak_user = ''ann'', ak_name = ''laptop'', ak_hash = ''gwt_t1_s3cret'', ak_created = [],
     ak_last_used = None, ak_scopes = ''settings''\<rparr>"

definition mcp_desk :: web where
  "mcp_desk = desk\<lparr>ap_manager := new_manager (small_config\<lparr>c_mcp := default_mcp\<lparr>m_enabled := True\<rparr>\<rparr>) (Some small_file),
     ap_users := (ap_users desk)\<lparr>db_tokens := [settings_token]\<rparr>\<rparr>"

definition keep_longer :: json where
  "keep_longer = JObject [(''id'', JInt 1), (''method'', JString ''tools/call''),
     (''params'', JObject [(''name'', JString ''update_audit_settings''), (''arguments'', JObject [(''retention_days'', JInt 400)])])]"

definition keep_longer_post :: mcp_post where
  "keep_longer_post = \<lparr>mp_header = Some ''Bearer gwt_t1_s3cret'', mp_address = None, mp_agent = None, mp_message = Some keep_longer\<rparr>"

definition ann_token :: token_user where
  "ann_token = \<lparr>tu_name = ''ann'', tu_token = ''t1'', tu_role = Admin, tu_scopes = [''settings'']\<rparr>"

definition ann_caller :: caller where
  "ann_caller = make_caller ann_token None None"

lemma ann_role [simp]: "require Admin (caller_user ann_caller)"
  by (simp add: require_def caller_user_def ann_caller_def make_caller_def ann_token_def)

lemma ann_scopes: "ca_changes ann_caller = [''settings'']"
  by (simp add: ann_caller_def make_caller_def ann_token_def mcp_scope_role_def)

theorem assistants_cannot_weaken_the_audit_witness:
  "no_weaker (audit_part mcp_desk) (audit_part (snd (mcp_run desk_mcp default_web [(desk_env, keep_longer_post), (desk_env, keep_longer_post)] ([], mcp_desk))))"
  using assistants_cannot_weaken_the_audit [of "[(desk_env, keep_longer_post), (desk_env, keep_longer_post)]" desk_mcp default_web "[]" mcp_desk]
  by (simp add: Let_def post_ok_def keep_longer_post_def keep_longer_def arguments_ok_def call_arguments_def json_field_def del: mcp_run.simps)

theorem object_form_switches_fail_closed_off_witness:
  "fail_mode (audit_part desk) = FailClosed \<and>
   fail_mode (audit_part (snd (change_tool desk_env ann_caller ''update_audit_settings'' (JObject [(''fail_mode'', object_open)]) desk))) = FailOpen"
proof
  show closed: "fail_mode (audit_part desk) = FailClosed" by (simp add: desk_def new_manager_def small_config_def)
  have "mg_file (ap_manager desk) = Some small_file" "can_write (we_out desk_env)" "retention_days (audit_part desk) < 2 ^ 32"
    "ignored_summary_secs (audit_part desk) < 2 ^ 64"
    by (simp_all add: desk_def desk_env_def new_manager_def small_config_def default_audit_def)
  with object_form_switches_fail_closed_off [OF closed desk_facts(3)] ann_role
  show "fail_mode (audit_part (snd (change_tool desk_env ann_caller ''update_audit_settings'' (JObject [(''fail_mode'', object_open)]) desk))) = FailOpen"
    by blast
qed

definition closed_desk :: web where
  "closed_desk = desk\<lparr>ap_settings := settings_new \<lparr>fail_mode = FailClosed, record_old_value = False, retention_days = 0, ignored_summary_secs = 60\<rparr>\<rparr>"

lemma status_call: "\<exists>r. fst (call_tool desk_env desk_mcp ann_caller ''gateway_status'' (JObject []) closed_desk) = ToolDone r"
proof -
  let ?e = "call_entry desk_env (js_show desk_mcp) ann_caller ''gateway_status'' (JObject [])"
  obtain x s1 where x: "commit_entry desk_env ?e closed_desk = (x, s1)" by fastforce
  have "table_wf (ap_store closed_desk)" using desk_facts(1) by (simp add: closed_desk_def)
  from commit_entry_stored [OF this desk_facts(2), of ?e] x obtain n where "x = Inr n" by auto
  with x have c: "commit_entry desk_env ?e closed_desk = (Inr n, s1)" by simp
  show ?thesis
    by (simp add: call_tool_def submit_entry_def c tools_of_def read_tools_def is_change_tool_def change_tools_def read_tool_def map_sum_def)
qed

theorem no_tool_runs_unrecorded_witness:
  "\<exists>row rows. trail (snd (call_tool desk_env desk_mcp ann_caller ''gateway_status'' (JObject []) closed_desk)) = row # rows \<and>
     r_kind row = ''mcp_query''"
proof -
  obtain a s' where call: "call_tool desk_env desk_mcp ann_caller ''gateway_status'' (JObject []) closed_desk = (a, s')" by fastforce
  from status_call call have "\<exists>r. a = ToolDone r" by simp
  moreover have "settings_fail_mode (ap_settings closed_desk) = FailClosed" "table_wf (ap_store closed_desk)" "trail closed_desk = []"
    by (simp_all add: closed_desk_def settings_fail_mode_def settings_new_def settings_apply_def desk_def table_wf_def)
  ultimately show ?thesis using no_tool_runs_unrecorded [OF call] call by fastforce
qed

lemma secret_facts:
  "bearer (Some ''Bearer gwt_t1_s3cret'') = Some ''gwt_t1_s3cret''" "trim ''gwt_t1_s3cret'' = ''gwt_t1_s3cret''"
  "token_id ''gwt_t1_s3cret'' = Some ''t1''" "token_part ''gwt_t1_s3cret'' = ''t1''"
  "constant_time_eq ''gwt_t1_s3cret'' ''gwt_t1_s3cret''" "split_scopes ''settings'' = [''settings'']"
  by code_simp+

lemma ann_authenticates: "\<exists>db. mcp_authenticate desk_env (Some ''Bearer gwt_t1_s3cret'') (ap_users mcp_desk) = (Some ann_token, db)"
  by (simp add: mcp_authenticate_def verify_token_def secret_facts mcp_desk_def settings_token_def desk_env_def desk_def
      state_of_def find_user_def desk_user_def role_parse_def ann_token_def less_role_def)

lemma keeps_longer:
  "tool_request desk_env ''update_audit_settings'' (call_arguments keep_longer) s =
     map_sum id PutAudit (audit_change (JObject [(''retention_days'', JInt 400)]) (audit_part s))"
  "audit_change (JObject [(''retention_days'', JInt 400)]) (audit_part mcp_desk) = Inr ((audit_part mcp_desk)\<lparr>retention_days := 400\<rparr>)"
  by (simp_all add: tool_request_def call_arguments_def keep_longer_def json_field_def)
    (simp add: mcp_desk_def new_manager_def small_config_def default_audit_def audit_change_def json_field_def js_u64_def overlay_def js_set_def
      audit_json_def js_audit_def js_nat_def js_bool_def js_opt_text_def js_fail_mode_def js_variant_def mode_text_def)

lemma keeps_longer_put:
  assumes "mg_config (ap_manager s) = mg_config (ap_manager mcp_desk)" and "mg_file (ap_manager s) = Some small_file"
  shows "\<exists>s'. put_audit desk_env (caller_user ann_caller) ((audit_part mcp_desk)\<lparr>retention_days := 400\<rparr>) s = (Inr NoContent, s') \<and>
    retention_days (audit_part s') = 400"
proof -
  let ?new = "(audit_part mcp_desk)\<lparr>retention_days := 400\<rparr>"
  have "validate_config (we_node desk_env) ((mg_config (ap_manager mcp_desk))\<lparr>c_audit := ?new\<rparr>) = None"
    by (simp add: mcp_desk_def new_manager_def desk_env_def validate_config_def small_config_def default_audit_def default_web_def default_export_def)
  then have u: "\<exists>old c m. update_settings (we_node desk_env) (we_out desk_env) (\<lambda>c. c\<lparr>c_audit := ?new\<lparr>a_database := a_database (c_audit c)\<rparr>\<rparr>) (ap_manager s) =
      (Inr (old, c), m)"
    using assms by (simp add: update_settings_def save_def Let_def desk_env_def)
  then obtain old c m where u: "update_settings (we_node desk_env) (we_out desk_env)
      (\<lambda>c. c\<lparr>c_audit := ?new\<lparr>a_database := a_database (c_audit c)\<rparr>\<rparr>) (ap_manager s) = (Inr (old, c), m)" by blast
  from update_settings_result(2) [OF u] u show ?thesis by (simp add: put_audit_def Let_def config_changed_def)
qed


end
