(* ===== verification/Spec2Isabelle.thy ===== *)
theory Spec2Isabelle
  imports Prelude Text Ordered_Map Audit_Event Audit_Store Audit_Chain Reference_Codec Audit_Trail
    Audit_Query Written_Nodes Fsutil Audit_Pipeline Summarise Opcua Audit_Value Audit_Map Endpoints Discovery Admission
    Sessions Relay_Forward Fail_Closed Session_Services Attribution
    Transport Channel Channel_Safety Users Users_Safety Web_Auth Web_Auth_Safety Export Export_Refinement Export_Fields
    Quest_Db Quest_Db_Reader Config Config_File Config_Safety Targets Targets_Safety Pki Pki_Safety Browser Browser_Safety
    Web_Api Web_Admin Web_Serve Web_Safety Settings_Safety Web_Csv Web_Views Command_Line Mcp Mcp_Tools Mcp_Safety
begin

text \<open>
  A model of the OPC UA audit gateway (the Rust crate under src/src), with the theorems that make it
  correct.

  \<^bold>\<open>The program.\<close> The gateway stands between OPC UA clients and servers. For every configured target it
  listens on a port of its own, opens a secure channel to the client and one of the same security to the
  server, and forwards the requests of the one over the other. Requests that change something (writes,
  calls, node management, subscriptions of methods and the like) and the sessions they are made in are
  recorded in a hash-chained trail in SQLite: in fail-closed mode before the request is forwarded, else
  beside it. A web interface and an MCP endpoint for AI assistants administer the gateway, and all they
  change is recorded in the same trail. An exporter ships the trail to QuestDB. The parts meet in few
  places: all of them record through the queue of src/audit/mod.rs to the store of src/audit/store.rs; the
  relay, the web interface and the assistants see the targets through the manager of src/targets.rs.

  \<^bold>\<open>Theories and sources.\<close> Each definition has the name of the function or type it models; a name that
  would clash has a suffix or prefix.

  \<^item> \<open>Prelude\<close>, \<open>Text\<close>, \<open>Ordered_Map\<close>, \<open>Opcua\<close>: the vocabulary. Machine integers are words or integers with
    their bounds written out, text is UTF-8 as a list of bytes, \<open>BTreeMap\<close> is an ordered association list,
    \<open>Result\<close> a sum, a panic \<open>None\<close>. \<open>Opcua\<close> holds the requests, responses and values of the opcua library
    with the fields the relay reads. \<open>Prelude\<close> also has the locales of runs (below).
  \<^item> \<open>Audit_Event\<close> (src/audit/event.rs): the entry, the kinds of event, clipping.
  \<^item> \<open>Audit_Store\<close>, \<open>Audit_Query\<close>, \<open>Written_Nodes\<close> (src/audit/store.rs): the table with its hash chain,
    opening, appending, retention, verification; the filtered query, the alarms, the nodes written most often. \<open>Audit_Chain\<close> gives verification its
    declarative meaning and the writer its invariant; \<open>Audit_Trail\<close> has the properties; \<open>Reference_Codec\<close>
    a concrete codec for the witnesses.
  \<^item> \<open>Audit_Pipeline\<close> (src/audit/mod.rs): the bounded queue, batches, answers, lost events, panics of the
    writer, retention rounds.
  \<^item> \<open>Summarise\<close> (groups of src/config.rs, src/relay/ignore.rs): nodes whose writes are counted instead of
    recorded. \<open>Audit_Value\<close>, \<open>Audit_Map\<close> (src/relay/audit_map.rs): values as JSON, the plan of a request and
    the events made of it and its response.
  \<^item> \<open>Endpoints\<close> (src/relay/endpoints.rs), \<open>Discovery\<close> (src/discovery.rs and the trust check of
    src/relay/mod.rs), \<open>Admission\<close> and \<open>Sessions\<close> (src/relay/mod.rs): what clients are offered, the status of
    a target, which connections are accepted, the registry of sessions.
  \<^item> \<open>Relay_Forward\<close>, \<open>Session_Services\<close>, \<open>Channel\<close> (src/relay/connection.rs, src/relay/upstream.rs) and
    \<open>Transport\<close> (src/relay/transport.rs): forwarding with its records, CreateSession and ActivateSession,
    the connection of a client as steps of its loop, the chunks on the wire. \<open>Fail_Closed\<close>, \<open>Attribution\<close>
    and \<open>Channel_Safety\<close> have their properties, over the store, the registry and the library's channel.
  \<^item> \<open>Export\<close>, \<open>Export_Fields\<close> (src/export/mod.rs) and \<open>Quest_Db\<close> (src/export/questdb.rs): positions, the gap
    check, rounds, the lines sent. \<open>Export_Refinement\<close> and \<open>Quest_Db_Reader\<close> have the properties.
  \<^item> \<open>Config\<close>, \<open>Config_File\<close> (src/config.rs and the writers of src/targets.rs), \<open>Targets\<close> (src/targets.rs),
    \<open>Pki\<close> (src/pki.rs): the configuration, its file, the manager of the targets, the certificates; each with
    a theory \<open>_Safety\<close> of properties. \<open>Fsutil\<close> (src/fsutil.rs): replacing a file in one piece.
  \<^item> \<open>Users\<close> (src/users.rs), \<open>Web_Auth\<close> (src/web/auth.rs), \<open>Browser\<close> (src/web/browser.rs), \<open>Web_Api\<close>,
    \<open>Web_Admin\<close>, \<open>Web_Serve\<close> (src/web/mod.rs, src/web/settings.rs), \<open>Web_Csv\<close> (the download of the trail),
    \<open>Web_Views\<close> (headers, status, certificates),
    \<open>Mcp\<close>, \<open>Mcp_Tools\<close> (src/web/mcp.rs), \<open>Command_Line\<close> (src/main.rs), with \<open>Users_Safety\<close>,
    \<open>Web_Auth_Safety\<close>, \<open>Browser_Safety\<close>, \<open>Web_Safety\<close>, \<open>Settings_Safety\<close>, \<open>Mcp_Safety\<close>.

  \<^bold>\<open>How state and operations are modelled.\<close> A struct is a record, an enum a datatype with the source's
  constructors, an operation a function from the state to the answer and the new state; errors are values.
  What an operation meets outside (the clock, the answers of servers and of SQLite, whether a file can be
  written) is an argument, so the theorems hold for every course of events. Concurrency is the order of
  steps: an operation that holds a lock for its whole length is one step, one that releases it is several
  (the login of \<open>Web_Auth\<close>, activations in \<open>Attribution\<close>, rounds of the exporter, effects of a forwarded
  request between which other writers may record).

  \<^bold>\<open>What the theorems show.\<close> The properties carry the numbers C1 to C40 where they are stated.

  \<^item> The trail (C1, C2, C4, C8, C12, C5, C6): every history of the writer leaves a trail that verifies; a
    verified trail with the same head is the same trail or a collision of the hash is at hand; \<open>verify\<close>
    decides exactly the declarative specification; retention deletes an old prefix and says so; lost
    newest records are noticed at start; heads noted down are checked as printed.
  \<^item> From change to record (C3, C7, C9, C13 to C15, C24, C26, C29, C40): no change is sent without its intent in
    the trail, every write is recorded or counted once with its own result, under the user who last
    logged in on that session and connection; the queue loses nothing silently, and batching cannot be
    observed.
  \<^item> Channels (C10, C11, C34, C37): the security of the two channels agrees, never changes and never falls below the
    target's minimum; what a client sends is buffered within the limits.
  \<^item> Web interface, accounts, assistants (C16 to C23, C25, C35, C36, C39): changes come from a live login with the role, are
    recorded, stored credentials stay with their server; assistants act within their scopes, are recorded,
    and cannot weaken the audit, but for one argument (\<open>object_form_switches_fail_closed_off\<close>).
  \<^item> Configuration and export (C27, C28, C30 to C33, C38): the file follows the configuration that runs; a
    power cut leaves a file old or new; the
    exporter delivers at least once, refines a counter through the trail and never hides a gap.

  \<^bold>\<open>Locales.\<close> \<open>guarded_stepper\<close> is the contract of a step function and an invariant its fitting operations
  keep, \<open>stepper\<close> the case where all fit. They are interpreted on the manager of the targets, and on the writer
  of the store, the accounts, the registry of sessions, admission, summaries, buffering, browser sessions and
  closing connections. \<open>progress\<close> extends it by a preorder that relates the states before and after;
  it is interpreted on the connection of a client and on the posts of assistants.
  \<open>audit_log\<close> is what the relay needs of the place it records to: a confirmed record is there and stays
  while a request runs; it is interpreted on the store.

  \<^bold>\<open>What is assumed of libraries.\<close> Of serde: an entry read back from its JSON is that entry
  (\<open>serde_roundtrip\<close>), and neither JSON nor a hash in hexadecimal contains a newline (\<open>newline_free\<close>). Of
  the opcua library (\<open>channel_laws\<close>): verifying a chunk leaves the channel alone, but for an
  OpenSecureChannel chunk, which sets the policy of its header. Nothing is assumed of SHA-256, and C2
  gives a collision instead. Certificates (\<open>x509_ops\<close>), password hashes (\<open>hashing\<close>), signatures (\<open>crypt\<close>), parsers of
  addresses, URLs and node ids are arguments without laws, or with the law named in the property.

  \<^bold>\<open>Bounds.\<close> Loops of the code end on their data or a bound of their own: a query returns at most 1000
  records, the download pages until it has 100000 (\<open>csv_pages\<close>, by that measure). Only the retention round has
  fuel: each pass deletes at most 20000 records, at least one or it ends, so more fuel than records is enough
  (C40). Sequence numbers are integers here and \<open>i64\<close> in SQLite.

  \<^bold>\<open>Not modelled.\<close> The wire: bytes of OPC UA messages, TLS, HTTP and TOML texts are the libraries'. Requests of
  the web interface are single steps, so races between their awaits are not in the model (the login
  apart, where they matter). The state of the exporters on the dashboard,
  the bytes of the pages and the wording of messages that are not recorded. The tokens of \<open>Admission\<close> are rationals for \<open>f64\<close>. Timers are
  steps that may happen at any time. src/web/tls.rs, src/export/tls.rs and src/service.rs only
  call libraries and the operating system; tests, examples and the JavaScript of the pages are not part of the gateway.
\<close>

end
